(* ===== verification/Prelude.thy ===== *)
theory Prelude
  imports Main "HOL-Library.Word" "HOL-Library.List_Lexorder"
begin

text \<open>
  Shared ground of the development: the names of the machine types, the collections of facts the
  component theories fill, ordered maps (Rust's \<open>BTreeMap\<close>), time, and two interfaces as locales.
  \<open>recent_set\<close> is the contract of the bounded "have I seen this lately" rings of the program (the
  mesh anti-loop set, the content ring, the answered-handshake set); \<open>machine\<close> is the contract of a
  state with operations that all keep one invariant, from which the invariant of every run follows.
\<close>

named_theorems frame_simps \<open>what an operation leaves unchanged\<close>
named_theorems inv_intros \<open>preservation of the component invariants\<close>

section \<open>Machine types\<close>

type_synonym u8 = "8 word"
type_synonym u16 = "16 word"
type_synonym u32 = "32 word"
type_synonym u64 = "64 word"
type_synonym bytes = "u8 list"

text \<open>An \<open>IpAddr\<close> is its octets (4 or 16 of them), a \<open>SocketAddr\<close> an address and a port.\<close>

type_synonym ip_addr = bytes
type_synonym sock_addr = "ip_addr \<times> u16"

text \<open>
  An array \<open>[u8; 32]\<close> is a byte list; the facts that need its length say so with \<open>is32\<close>.
\<close>

type_synonym bytes32 = bytes

definition is32 :: "bytes \<Rightarrow> bool" where
  "is32 b \<longleftrightarrow> length b = 32"

definition zero32 :: bytes32 where
  "zero32 = replicate 32 0"

lemma is32_zero32 [simp]: "is32 zero32"
  by (simp add: is32_def zero32_def)

text \<open>\<open>u64::saturating_add\<close>.\<close>

definition sat_add :: "u64 \<Rightarrow> u64 \<Rightarrow> u64" where
  "sat_add a b = (if unat a + unat b < 2 ^ 64 then a + b else - 1)"

lemma unat_max64: "unat (- 1 :: u64) = 2 ^ 64 - 1"
  by (simp add: unat_word_ariths unsigned_minus_1_eq_mask mask_eq_exp_minus_1)

lemma unat_u64_less: "unat (a :: u64) < 2 ^ 64"
  using unsigned_less [of a] by simp

lemma unat_sat_add: "unat (sat_add a b) = min (unat a + unat b) (2 ^ 64 - 1)"
proof (cases "unat a + unat b < 2 ^ 64")
  case True
  then have "unat (a + b) = unat a + unat b"
    by (simp add: unat_word_ariths)
  with True show ?thesis by (simp add: sat_add_def)
next
  case False
  then show ?thesis by (simp add: sat_add_def unat_max64)
qed

section \<open>Time\<close>

text \<open>
  \<open>std::time::Instant\<close> and \<open>Duration\<close> are counts of nanoseconds. Natural subtraction stops at 0, which
  is \<open>saturating_duration_since\<close> (and, for the \<open>u64\<close> millisecond clocks, \<open>saturating_sub\<close>).
\<close>

type_synonym instant = nat
type_synonym duration = nat
type_synonym millis = nat

definition from_millis :: "nat \<Rightarrow> duration" where
  "from_millis n = n * 1000000"

definition from_secs :: "nat \<Rightarrow> duration" where
  "from_secs n = n * 1000000000"

definition as_millis :: "duration \<Rightarrow> nat" where
  "as_millis d = d div 1000000"

definition as_secs :: "duration \<Rightarrow> nat" where
  "as_secs d = d div 1000000000"

lemma as_millis_from_millis [simp]: "as_millis (from_millis n) = n"
  by (simp add: as_millis_def from_millis_def)

section \<open>Ordered maps\<close>

text \<open>
  A \<open>BTreeMap\<close> is the list of its entries in strictly increasing key order, which is its iteration
  order.
\<close>

type_synonym ('k, 'v) btree = "('k \<times> 'v) list"

definition bt_wf :: "('k::linorder, 'v) btree \<Rightarrow> bool" where
  "bt_wf m \<longleftrightarrow> sorted_wrt (<) (map fst m)"

definition bt_get :: "('k, 'v) btree \<Rightarrow> 'k \<Rightarrow> 'v option" where
  "bt_get m k = map_of m k"

fun bt_insert :: "'k::linorder \<Rightarrow> 'v \<Rightarrow> ('k, 'v) btree \<Rightarrow> ('k, 'v) btree" where
  "bt_insert k v [] = [(k, v)]"
| "bt_insert k v ((k', v') # m) =
     (if k < k' then (k, v) # (k', v') # m
      else if k = k' then (k, v) # m
      else (k', v') # bt_insert k v m)"

definition bt_remove :: "'k \<Rightarrow> ('k, 'v) btree \<Rightarrow> ('k, 'v) btree" where
  "bt_remove k m = filter (\<lambda>e. fst e \<noteq> k) m"

definition bt_keys :: "('k, 'v) btree \<Rightarrow> 'k set" where
  "bt_keys m = fst ` set m"

lemma bt_keys_Nil [simp]: "bt_keys [] = {}"
  by (simp add: bt_keys_def)

lemma bt_keys_insert [simp]: "bt_keys (bt_insert k v m) = insert k (bt_keys m)"
  by (induction k v m rule: bt_insert.induct) (simp_all add: bt_keys_def insert_commute)

lemma bt_keys_remove [simp]: "bt_keys (bt_remove k m) = bt_keys m - {k}"
  by (auto simp: bt_keys_def bt_remove_def image_iff)

lemma bt_get_None_iff: "bt_get m k = None \<longleftrightarrow> k \<notin> bt_keys m"
  by (simp add: bt_get_def bt_keys_def map_of_eq_None_iff)

lemma bt_get_Some_mem: "bt_get m k = Some v \<Longrightarrow> (k, v) \<in> set m"
  by (simp add: bt_get_def map_of_SomeD)

lemma bt_get_Some_key: "bt_get m k = Some v \<Longrightarrow> k \<in> bt_keys m"
  by (force simp: bt_keys_def dest: bt_get_Some_mem)

lemma bt_wf_Nil [simp]: "bt_wf []"
  by (simp add: bt_wf_def)

lemma bt_wf_distinct: "bt_wf m \<Longrightarrow> distinct (map fst m)"
  by (simp add: bt_wf_def strict_sorted_iff)

lemma bt_wf_Cons: "bt_wf (e # m) \<longleftrightarrow> bt_wf m \<and> (\<forall>x\<in>set m. fst e < fst x)"
  by (auto simp: bt_wf_def)

lemma bt_set_insert_subset: "set (bt_insert k v m) \<subseteq> insert (k, v) (set m)"
  by (induction m) (auto split: if_splits)

lemma bt_wf_insert: "bt_wf m \<Longrightarrow> bt_wf (bt_insert k v m)"
proof (induction m)
  case Nil
  then show ?case by (simp add: bt_wf_def)
next
  case (Cons e m)
  obtain k' v' where e: "e = (k', v')" by force
  show ?case
    using Cons bt_set_insert_subset [of k v m]
    by (cases k k' rule: linorder_cases) (fastforce simp: e bt_wf_Cons)+
qed

lemma bt_wf_filter: "bt_wf m \<Longrightarrow> bt_wf (filter P m)"
  by (induction m) (auto simp: bt_wf_Cons)

lemma bt_wf_remove: "bt_wf m \<Longrightarrow> bt_wf (bt_remove k m)"
  by (simp add: bt_remove_def bt_wf_filter)

lemma bt_get_insert: "bt_wf m \<Longrightarrow> bt_get (bt_insert k v m) k' = (if k' = k then Some v else bt_get m k')"
proof (induction m)
  case Nil
  then show ?case by (simp add: bt_get_def)
next
  case (Cons e m)
  obtain ke ve where e: "e = (ke, ve)" by force
  have "bt_get (bt_insert k v m) k' = (if k' = k then Some v else bt_get m k')"
    using Cons by (simp add: bt_wf_Cons)
  then show ?case by (auto simp: e bt_get_def)
qed

lemma bt_get_remove: "bt_get (bt_remove k m) k' = (if k' = k then None else bt_get m k')"
  by (induction m) (auto simp: bt_remove_def bt_get_def)

lemma bt_get_mem: "bt_wf m \<Longrightarrow> (k, v) \<in> set m \<Longrightarrow> bt_get m k = Some v"
  by (simp add: bt_get_def bt_wf_distinct)

section \<open>Hash maps\<close>

text \<open>
  A \<open>HashMap\<close> is the list of its entries, each key once; the program iterates over hash maps only where
  the order cannot matter, so the order of the list stands for an arbitrary one.
\<close>

type_synonym ('k, 'v) hmap = "('k \<times> 'v) list"

definition hm_insert :: "'k \<Rightarrow> 'v \<Rightarrow> ('k, 'v) hmap \<Rightarrow> ('k, 'v) hmap" where
  "hm_insert k v m = (k, v) # filter (\<lambda>e. fst e \<noteq> k) m"

definition hm_remove :: "'k \<Rightarrow> ('k, 'v) hmap \<Rightarrow> ('k, 'v) hmap" where
  "hm_remove k m = filter (\<lambda>e. fst e \<noteq> k) m"

lemma map_of_filter_neq: "map_of (filter (\<lambda>e. fst e \<noteq> k) m) = (map_of m)(k := None)"
  by (rule ext, induction m) auto

lemma map_of_hm_insert [simp]: "map_of (hm_insert k v m) = (map_of m)(k \<mapsto> v)"
  by (simp add: hm_insert_def map_of_filter_neq)

lemma map_of_hm_remove [simp]: "map_of (hm_remove k m) = (map_of m)(k := None)"
  by (simp add: hm_remove_def map_of_filter_neq)

lemma hm_distinct [simp]:
  "distinct (map fst m) \<Longrightarrow> distinct (map fst (hm_insert k v m))"
  "distinct (map fst m) \<Longrightarrow> distinct (map fst (hm_remove k m))"
  by (auto simp: hm_insert_def hm_remove_def distinct_map_filter)

lemma hm_keys [simp]:
  "fst ` set (hm_insert k v m) = insert k (fst ` set m)"
  "fst ` set (hm_remove k m) = fst ` set m - {k}"
  by (auto simp: hm_insert_def hm_remove_def)

lemma hm_remove_absent: "k \<notin> fst ` set m \<Longrightarrow> hm_remove k m = m"
  unfolding hm_remove_def by (rule filter_True) force

lemma length_hm_insert:
  assumes "distinct (map fst m)"
  shows "length (hm_insert k v m) = (if map_of m k = None then Suc (length m) else length m)"
  using assms
proof (induction m)
  case (Cons e m)
  show ?case
  proof (cases "fst e = k")
    case True
    then have "filter (\<lambda>e. fst e \<noteq> k) m = m" using Cons.prems True by (intro filter_True) (auto simp: image_iff)
    then show ?thesis using True by (simp add: hm_insert_def)
  next
    case False
    then show ?thesis using Cons by (auto simp: hm_insert_def dest: weak_map_of_SomeI split: if_splits)
  qed
qed (simp add: hm_insert_def)

section \<open>List helpers\<close>

text \<open>\<open>iter().position(p)\<close>: the first index whose element satisfies \<open>p\<close>.\<close>

fun position :: "('a \<Rightarrow> bool) \<Rightarrow> 'a list \<Rightarrow> nat option" where
  "position p [] = None"
| "position p (x # xs) = (if p x then Some 0 else map_option Suc (position p xs))"

text \<open>\<open>Vec::remove(i)\<close> / \<open>VecDeque::remove(i)\<close> without the removed element.\<close>

definition remove_at :: "nat \<Rightarrow> 'a list \<Rightarrow> 'a list" where
  "remove_at i xs = take i xs @ drop (Suc i) xs"

lemma position_None_iff: "position p xs = None \<longleftrightarrow> (\<forall>x\<in>set xs. \<not> p x)"
  by (induction xs) auto

lemma position_SomeD:
  "position p xs = Some i \<Longrightarrow> i < length xs \<and> p (xs ! i) \<and> (\<forall>j<i. \<not> p (xs ! j))"
proof (induction xs arbitrary: i)
  case Nil
  then show ?case by simp
next
  case (Cons x xs)
  show ?case
  proof (cases "p x")
    case True
    with Cons.prems show ?thesis by simp
  next
    case False
    with Cons.prems obtain j where j: "position p xs = Some j" "i = Suc j" by auto
    show ?thesis
      using Cons.IH [OF j(1)] j(2) False by (auto simp: nth_Cons split: nat.splits)
  qed
qed

lemma position_split:
  assumes "position p xs = Some i"
  shows "xs = take i xs @ xs ! i # drop (Suc i) xs" and "p (xs ! i)"
    and "\<forall>x\<in>set (take i xs). \<not> p x"
  using position_SomeD [OF assms] by (auto simp: id_take_nth_drop [symmetric] in_set_conv_nth)

lemma set_remove_at_subset: "set (remove_at i xs) \<subseteq> set xs"
  by (auto simp: remove_at_def dest: in_set_takeD in_set_dropD)

lemma length_remove_at: "i < length xs \<Longrightarrow> length (remove_at i xs) = length xs - 1"
  by (simp add: remove_at_def)

lemma distinct_remove_at: "distinct (map f xs) \<Longrightarrow> distinct (map f (remove_at i xs))"
proof -
  assume d: "distinct (map f xs)"
  have "map f xs = map f (take i xs) @ map f (drop i xs)"
    by (metis append_take_drop_id map_append)
  moreover have "set (map f (drop (Suc i) xs)) \<subseteq> set (map f (drop i xs))"
    using set_drop_subset_set_drop [of i "Suc i" xs] by auto
  moreover have "distinct (map f (drop (Suc i) xs))"
    using d by (metis distinct_drop drop_map)
  ultimately show ?thesis
    using d by (auto simp: remove_at_def)
qed

text \<open>\<open>iter().min_by_key\<close>: the first element with the least key.\<close>

fun min_by_key :: "('a \<Rightarrow> nat) \<Rightarrow> 'a list \<Rightarrow> 'a option" where
  "min_by_key f [] = None"
| "min_by_key f (x # xs) =
     (case min_by_key f xs of None \<Rightarrow> Some x | Some y \<Rightarrow> Some (if f x \<le> f y then x else y))"

lemma min_by_key_mem: "min_by_key f xs = Some x \<Longrightarrow> x \<in> set xs"
  by (induction xs arbitrary: x) (auto split: option.splits if_splits)

lemma min_by_key_None: "min_by_key f xs = None \<longleftrightarrow> xs = []"
  by (cases xs) (auto split: option.splits)

lemma min_by_key_least: "min_by_key f xs = Some x \<Longrightarrow> y \<in> set xs \<Longrightarrow> f x \<le> f y"
  by (induction xs arbitrary: x) (fastforce simp: min_by_key_None split: option.splits if_splits)+

section \<open>The contract of a bounded recent set\<close>

locale recent_set =
  fixes inv :: "'s \<Rightarrow> bool"
    and cap :: "'s \<Rightarrow> nat"
    and members :: "'s \<Rightarrow> 'k list"
    and observe :: "'k \<Rightarrow> 's \<Rightarrow> bool \<times> 's"
  assumes observe_seen: "inv s \<Longrightarrow> k \<in> set (members s) \<Longrightarrow> observe k s = (False, s)"
    and observe_fresh: "inv s \<Longrightarrow> k \<notin> set (members s) \<Longrightarrow> fst (observe k s)"
    and observe_members: "inv s \<Longrightarrow> k \<notin> set (members s) \<Longrightarrow>
      members (snd (observe k s)) =
        (if length (members s) = cap s then tl (members s) else members s) @ [k]"
    and observe_inv: "inv s \<Longrightarrow> inv (snd (observe k s))"
    and observe_cap: "inv s \<Longrightarrow> cap (snd (observe k s)) = cap s"
    and inv_bound: "inv s \<Longrightarrow> length (members s) \<le> cap s \<and> 0 < cap s"
begin

fun observe_all :: "'k list \<Rightarrow> 's \<Rightarrow> 's" where
  "observe_all [] s = s"
| "observe_all (k # ks) s = observe_all ks (snd (observe k s))"

lemma result_iff: "inv s \<Longrightarrow> fst (observe k s) \<longleftrightarrow> k \<notin> set (members s)"
  using observe_seen observe_fresh by fastforce

lemma observe_all_inv: "inv s \<Longrightarrow> inv (observe_all ks s)"
  by (induction ks arbitrary: s) (auto simp: observe_inv)

lemma observe_all_cap: "inv s \<Longrightarrow> cap (observe_all ks s) = cap s"
  by (induction ks arbitrary: s) (auto simp: observe_inv observe_cap)

lemma observed_is_member: "inv s \<Longrightarrow> k \<in> set (members (snd (observe k s)))"
  by (cases "k \<in> set (members s)") (simp_all add: observe_seen observe_members)

lemma observe_distinct: "inv s \<Longrightarrow> distinct (members s) \<Longrightarrow> distinct (members (snd (observe k s)))"
proof -
  assume i: "inv s" and d: "distinct (members s)"
  have "set (tl (members s)) \<subseteq> set (members s)"
    by (cases "members s") auto
  then show ?thesis
    using i d by (cases "k \<in> set (members s)") (auto simp: observe_seen observe_members distinct_tl)
qed

lemma observe_one_suffix:
  assumes i: "inv s" and m: "members s = xs @ k # ys" and room: "Suc (length ys) < cap s"
  shows "\<exists>xs' ys'. members (snd (observe j s)) = xs' @ k # ys' \<and> length ys' \<le> Suc (length ys)"
proof (cases "j \<in> set (members s)")
  case True
  then show ?thesis
    using i m observe_seen [OF i True] by (intro exI [of _ xs] exI [of _ ys]) simp
next
  case False
  show ?thesis
  proof (cases "length (members s) = cap s")
    case True
    with m room have "xs \<noteq> []" by auto
    then obtain x xs'' where xs: "xs = x # xs''" by (cases xs) auto
    show ?thesis
      using observe_members [OF i False] True m xs
      by (intro exI [of _ xs''] exI [of _ "ys @ [j]"]) simp
  next
    case f: False
    show ?thesis
      using observe_members [OF i False] f m
      by (intro exI [of _ xs] exI [of _ "ys @ [j]"]) simp
  qed
qed

lemma observe_all_suffix:
  assumes "inv s" and "members s = xs @ k # ys" and "length ys + length ks < cap s"
  shows "k \<in> set (members (observe_all ks s))"
  using assms
proof (induction ks arbitrary: s xs ys)
  case Nil
  then show ?case by simp
next
  case (Cons j ks)
  from Cons.prems(3) have "Suc (length ys) < cap s" by simp
  then obtain xs' ys' where m': "members (snd (observe j s)) = xs' @ k # ys'"
      and l: "length ys' \<le> Suc (length ys)"
    using observe_one_suffix [OF Cons.prems(1,2)] by blast
  have "length ys' + length ks < cap (snd (observe j s))"
    using l Cons.prems by (simp add: observe_cap)
  with m' Cons.prems(1) show ?case
    using Cons.IH [of "snd (observe j s)" xs' ys'] by (simp add: observe_inv)
qed

text \<open>
  What the callers rely on: once \<open>k\<close> has been accepted, it is refused as long as fewer than \<open>cap\<close>
  other observations happened in between.
\<close>

lemma repeat_refused:
  assumes i: "inv s" and acc: "fst (observe k s)" and few: "length ks < cap s"
  shows "\<not> fst (observe k (observe_all ks (snd (observe k s))))"
proof -
  let ?s = "snd (observe k s)"
  have i': "inv ?s" using i by (rule observe_inv)
  have new: "k \<notin> set (members s)"
    using acc result_iff [OF i] by simp
  then have "members ?s =
      (if length (members s) = cap s then tl (members s) else members s) @ k # []"
    using observe_members [OF i new] by simp
  then have "k \<in> set (members (observe_all ks ?s))"
    by (rule observe_all_suffix [OF i']) (simp add: observe_cap [OF i] few)
  then show ?thesis
    using result_iff [OF observe_all_inv [OF i']] by simp
qed

end

section \<open>The contract of a state machine with one invariant\<close>

locale machine =
  fixes step :: "'e \<Rightarrow> 's \<Rightarrow> 's"
    and inv :: "'s \<Rightarrow> bool"
  assumes step_inv: "inv s \<Longrightarrow> inv (step e s)"
begin

lemma run_inv: "inv s \<Longrightarrow> inv (fold step es s)"
  by (induction es arbitrary: s) (auto intro: step_inv)

end

end
