(* ===== verification/Text.thy ===== *)
theory Text
  imports Prelude
begin

text \<open>
  Rust text. A \<open>String\<close> is the list of its Unicode scalar values, its bytes are their UTF-8 encoding,
  and \<open>std::str::from_utf8\<close> is the strict decoder. On top of it the text helpers of the program:
  the display-name character test (shared by \<open>fluxsync-core/src/app.rs\<close> and
  \<open>fluxsync-proto/src/codec.rs\<close>) and \<open>canon_text\<close> of \<open>fluxsync-core/src/classify.rs\<close>.
\<close>

type_synonym uchar = nat
type_synonym ustr = "uchar list"

text \<open>A string literal of the source (all of them are ASCII).\<close>

definition lit :: "string \<Rightarrow> ustr" where
  "lit s = map of_char s"

section \<open>UTF-8\<close>

definition scalar :: "uchar \<Rightarrow> bool" where
  "scalar c \<longleftrightarrow> c < 55296 \<or> 57343 < c \<and> c < 1114112"

definition valid_str :: "ustr \<Rightarrow> bool" where
  "valid_str s \<longleftrightarrow> list_all scalar s"

definition utf8_char :: "uchar \<Rightarrow> bytes" where
  "utf8_char c =
     (if c < 128 then [of_nat c]
      else if c < 2048 then [of_nat (192 + c div 64), of_nat (128 + c mod 64)]
      else if c < 65536 then
        [of_nat (224 + c div 4096), of_nat (128 + c div 64 mod 64), of_nat (128 + c mod 64)]
      else
        [of_nat (240 + c div 262144), of_nat (128 + c div 4096 mod 64),
         of_nat (128 + c div 64 mod 64), of_nat (128 + c mod 64)])"

text \<open>\<open>str::as_bytes\<close>; \<open>str::len\<close> is the number of these bytes.\<close>

definition as_bytes :: "ustr \<Rightarrow> bytes" where
  "as_bytes s = concat (map utf8_char s)"

definition str_len :: "ustr \<Rightarrow> nat" where
  "str_len s = length (as_bytes s)"

definition cont :: "u8 \<Rightarrow> bool" where
  "cont b \<longleftrightarrow> 128 \<le> unat b \<and> unat b < 192"

definition low6 :: "u8 \<Rightarrow> nat" where
  "low6 b = unat b - 128"

text \<open>
  The decoder accepts exactly the well-formed sequences: shortest form only, no surrogates, nothing
  above \<open>U+10FFFF\<close>.
\<close>

fun from_utf8 :: "bytes \<Rightarrow> ustr option" where
  "from_utf8 [] = Some []"
| "from_utf8 (b0 # bs) =
     (if unat b0 < 128 then map_option (\<lambda>s. unat b0 # s) (from_utf8 bs)
      else if 192 \<le> unat b0 \<and> unat b0 < 224 then
        (case bs of b1 # r \<Rightarrow>
           (let c = (unat b0 - 192) * 64 + low6 b1 in
            if cont b1 \<and> 128 \<le> c then map_option (\<lambda>s. c # s) (from_utf8 r) else None)
         | _ \<Rightarrow> None)
      else if 224 \<le> unat b0 \<and> unat b0 < 240 then
        (case bs of b1 # b2 # r \<Rightarrow>
           (let c = (unat b0 - 224) * 4096 + low6 b1 * 64 + low6 b2 in
            if cont b1 \<and> cont b2 \<and> 2048 \<le> c \<and> scalar c
            then map_option (\<lambda>s. c # s) (from_utf8 r) else None)
         | _ \<Rightarrow> None)
      else if 240 \<le> unat b0 \<and> unat b0 < 248 then
        (case bs of b1 # b2 # b3 # r \<Rightarrow>
           (let c = (unat b0 - 240) * 262144 + low6 b1 * 4096 + low6 b2 * 64 + low6 b3 in
            if cont b1 \<and> cont b2 \<and> cont b3 \<and> 65536 \<le> c \<and> scalar c
            then map_option (\<lambda>s. c # s) (from_utf8 r) else None)
         | _ \<Rightarrow> None)
      else None)"

declare from_utf8.simps(2) [simp del]

lemma unat_of_nat8: "k < 256 \<Longrightarrow> unat (of_nat k :: u8) = k"
  by (simp add: unat_of_nat)

lemma cont_of_nat: "k < 64 \<Longrightarrow> cont (of_nat (128 + k)) \<and> low6 (of_nat (128 + k)) = k"
  using unat_of_nat8 [of "128 + k"] by (simp add: cont_def low6_def del: of_nat_add)

lemma split64_3: "(c::nat) div 4096 * 4096 + c div 64 mod 64 * 64 + c mod 64 = c"
proof -
  have "c div 4096 = c div 64 div 64" by (simp add: div_mult2_eq [symmetric])
  then show ?thesis
    using div_mult_mod_eq [of c 64] div_mult_mod_eq [of "c div 64" 64] by linarith
qed

lemma split64_4:
  "(c::nat) div 262144 * 262144 + c div 4096 mod 64 * 4096 + c div 64 mod 64 * 64 + c mod 64 = c"
proof -
  have "c div 262144 = c div 4096 div 64" by (simp add: div_mult2_eq [symmetric])
  then show ?thesis
    using split64_3 [of c] div_mult_mod_eq [of "c div 4096" 64] by linarith
qed

lemma from_utf8_char2:
  assumes "128 \<le> c" "c < 2048"
  shows "from_utf8 (utf8_char c @ bs) = map_option (\<lambda>s. c # s) (from_utf8 bs)"
proof -
  have a: "c div 64 < 32" and m: "c mod 64 < 64" using assms by auto
  have u: "unat (of_nat (192 + c div 64) :: u8) = 192 + c div 64"
    using a by (intro unat_of_nat8) simp
  have e: "utf8_char c = [of_nat (192 + c div 64), of_nat (128 + c mod 64)]"
    using assms by (simp add: utf8_char_def)
  show ?thesis
    unfolding e append_Cons append_Nil
    using a u cont_of_nat [OF m] assms
    by (simp add: from_utf8.simps Let_def del: of_nat_add)
qed

lemma from_utf8_char3:
  assumes "2048 \<le> c" "c < 65536" "scalar c"
  shows "from_utf8 (utf8_char c @ bs) = map_option (\<lambda>s. c # s) (from_utf8 bs)"
proof -
  have a: "c div 4096 < 16" and b: "c div 64 mod 64 < 64" and m: "c mod 64 < 64"
    using assms by auto
  have u: "unat (of_nat (224 + c div 4096) :: u8) = 224 + c div 4096"
    using a by (intro unat_of_nat8) simp
  have e: "utf8_char c =
      [of_nat (224 + c div 4096), of_nat (128 + c div 64 mod 64), of_nat (128 + c mod 64)]"
    using assms by (simp add: utf8_char_def)
  have s: "c div 4096 * 4096 + c div 64 mod 64 * 64 + c mod 64 = c"
    by (rule split64_3)
  show ?thesis
    unfolding e append_Cons append_Nil
    using a u cont_of_nat [OF m] cont_of_nat [OF b] assms s
    by (simp add: from_utf8.simps Let_def del: of_nat_add)
qed

lemma from_utf8_char4:
  assumes "65536 \<le> c" "scalar c"
  shows "from_utf8 (utf8_char c @ bs) = map_option (\<lambda>s. c # s) (from_utf8 bs)"
proof -
  have lim: "c < 1114112" using assms by (auto simp: scalar_def)
  then have a: "c div 262144 < 8" and a2: "c div 4096 mod 64 < 64" and b: "c div 64 mod 64 < 64"
    and m: "c mod 64 < 64" by auto
  have u: "unat (of_nat (240 + c div 262144) :: u8) = 240 + c div 262144"
    using a by (intro unat_of_nat8) simp
  have e: "utf8_char c =
      [of_nat (240 + c div 262144), of_nat (128 + c div 4096 mod 64),
       of_nat (128 + c div 64 mod 64), of_nat (128 + c mod 64)]"
    using assms by (simp add: utf8_char_def)
  have s: "c div 262144 * 262144 + c div 4096 mod 64 * 4096 + c div 64 mod 64 * 64 + c mod 64 = c"
    by (rule split64_4)
  show ?thesis
    unfolding e append_Cons append_Nil
    using a u cont_of_nat [OF m] cont_of_nat [OF b] cont_of_nat [OF a2] assms s
    by (simp add: from_utf8.simps Let_def del: of_nat_add)
qed

lemma from_utf8_char:
  assumes "scalar c"
  shows "from_utf8 (utf8_char c @ bs) = map_option (\<lambda>s. c # s) (from_utf8 bs)"
proof -
  consider "c < 128" | "128 \<le> c" "c < 2048" | "2048 \<le> c" "c < 65536" | "65536 \<le> c" by linarith
  then show ?thesis
  proof cases
    case 1
    then show ?thesis by (simp add: utf8_char_def from_utf8.simps unat_of_nat8)
  next
    case 2
    then show ?thesis by (rule from_utf8_char2)
  next
    case 3
    then show ?thesis using assms by (rule from_utf8_char3)
  next
    case 4
    then show ?thesis using assms by (rule from_utf8_char4)
  qed
qed

lemma from_utf8_as_bytes: "valid_str s \<Longrightarrow> from_utf8 (as_bytes s) = Some s"
  by (induction s) (simp_all add: valid_str_def as_bytes_def from_utf8_char)

lemma as_bytes_inj: "valid_str s \<Longrightarrow> valid_str t \<Longrightarrow> as_bytes s = as_bytes t \<Longrightarrow> s = t"
  by (metis from_utf8_as_bytes option.inject)

lemma utf8_char_nonempty: "utf8_char c \<noteq> []"
  by (simp add: utf8_char_def)

section \<open>Characters and trimming\<close>

text \<open>\<open>char::is_whitespace\<close> (the Unicode \<open>White_Space\<close> property) and \<open>char::is_control\<close> (category Cc).\<close>

definition is_whitespace :: "uchar \<Rightarrow> bool" where
  "is_whitespace c \<longleftrightarrow>
     9 \<le> c \<and> c \<le> 13 \<or> c = 32 \<or> c = 133 \<or> c = 160 \<or> c = 5760 \<or> 8192 \<le> c \<and> c \<le> 8202 \<or>
     c = 8232 \<or> c = 8233 \<or> c = 8239 \<or> c = 8287 \<or> c = 12288"

definition is_control :: "uchar \<Rightarrow> bool" where
  "is_control c \<longleftrightarrow> c < 32 \<or> 127 \<le> c \<and> c < 160"

text \<open>\<open>is_bidi_or_format_char\<close>, which both crates declare with the same four ranges.\<close>

definition is_bidi_or_format_char :: "uchar \<Rightarrow> bool" where
  "is_bidi_or_format_char c \<longleftrightarrow>
     8203 \<le> c \<and> c \<le> 8207 \<or> 8234 \<le> c \<and> c \<le> 8238 \<or> 8294 \<le> c \<and> c \<le> 8297 \<or> c = 65279"

definition trim_start :: "ustr \<Rightarrow> ustr" where
  "trim_start s = dropWhile is_whitespace s"

definition trim_end :: "ustr \<Rightarrow> ustr" where
  "trim_end s = rev (dropWhile is_whitespace (rev s))"

definition trim :: "ustr \<Rightarrow> ustr" where
  "trim s = trim_end (trim_start s)"

lemma trim_end_split: "\<exists>w. s = trim_end s @ w \<and> list_all is_whitespace w"
proof -
  have "s = rev (dropWhile is_whitespace (rev s)) @ rev (takeWhile is_whitespace (rev s))"
    by (metis rev_append rev_rev_ident takeWhile_dropWhile_id)
  then show ?thesis
    by (intro exI [of _ "rev (takeWhile is_whitespace (rev s))"])
      (auto simp: trim_end_def list_all_iff dest: set_takeWhileD)
qed

lemma trim_start_cases: "trim_start s = [] \<or> (\<exists>c t. trim_start s = c # t \<and> \<not> is_whitespace c)"
  unfolding trim_start_def by (induction s) auto

lemma trim_end_last: "trim_end s \<noteq> [] \<Longrightarrow> \<not> is_whitespace (last (trim_end s))"
  using hd_dropWhile [of is_whitespace "rev s"] by (simp add: trim_end_def last_rev)

lemma trim_start_id: "s = [] \<or> \<not> is_whitespace (hd s) \<Longrightarrow> trim_start s = s"
  by (cases s) (auto simp: trim_start_def)

lemma trim_end_id: "s = [] \<or> \<not> is_whitespace (last s) \<Longrightarrow> trim_end s = s"
  by (cases s rule: rev_cases) (auto simp: trim_end_def)

lemma hd_trim_end: "trim_end s \<noteq> [] \<Longrightarrow> hd (trim_end s) = hd s"
  using trim_end_split [of s] by (metis hd_append2)

lemma trim_hd_last:
  assumes "trim s \<noteq> []"
  shows "\<not> is_whitespace (hd (trim s))" and "\<not> is_whitespace (last (trim s))"
proof -
  have "trim_start s \<noteq> []"
    using assms trim_end_split [of "trim_start s"] by (auto simp: trim_def)
  then have "\<not> is_whitespace (hd (trim_start s))"
    using trim_start_cases [of s] by auto
  then show "\<not> is_whitespace (hd (trim s))"
    using assms hd_trim_end [of "trim_start s"] by (simp add: trim_def)
  show "\<not> is_whitespace (last (trim s))"
    using assms trim_end_last [of "trim_start s"] by (simp add: trim_def)
qed

lemma trim_id: "s = [] \<or> \<not> is_whitespace (hd s) \<and> \<not> is_whitespace (last s) \<Longrightarrow> trim s = s"
  by (auto simp: trim_def trim_start_id trim_end_id)

lemma trim_trim [simp]: "trim (trim s) = trim s"
  by (rule trim_id) (use trim_hd_last in blast)

lemma set_trim_subset: "set (trim s) \<subseteq> set s"
proof -
  have "set (trim s) \<subseteq> set (trim_start s)"
    using trim_end_split [of "trim_start s"] by (metis set_append sup_ge1 trim_def)
  then show ?thesis by (auto simp: trim_start_def dest: set_dropWhileD)
qed

section \<open>Canonical text\<close>

text \<open>\<open>canon_text\<close>: CRLF to LF, then lone CR to LF, then trimmed. Used for hashing only.\<close>

fun replace_crlf :: "ustr \<Rightarrow> ustr" where
  "replace_crlf (c # d # s) =
     (if c = 13 \<and> d = 10 then 10 # replace_crlf s else c # replace_crlf (d # s))"
| "replace_crlf s = s"

definition replace_cr :: "ustr \<Rightarrow> ustr" where
  "replace_cr s = map (\<lambda>c. if c = 13 then 10 else c) s"

definition canon_text :: "ustr \<Rightarrow> ustr" where
  "canon_text s = trim (replace_cr (replace_crlf s))"

text \<open>The same text with Windows line endings.\<close>

definition to_crlf :: "ustr \<Rightarrow> ustr" where
  "to_crlf s = concat (map (\<lambda>c. if c = 10 then [13, 10] else [c]) s)"

lemma replace_crlf_no_cr: "13 \<notin> set s \<Longrightarrow> replace_crlf s = s"
  by (induction s rule: replace_crlf.induct) auto

lemma replace_crlf_skip: "c \<noteq> 13 \<Longrightarrow> replace_crlf (c # s) = c # replace_crlf s"
  by (cases s) auto

lemma replace_crlf_to_crlf: "13 \<notin> set s \<Longrightarrow> replace_crlf (to_crlf s) = s"
proof (induction s)
  case Nil
  then show ?case by (simp add: to_crlf_def)
next
  case (Cons c s)
  then show ?case by (simp add: to_crlf_def replace_crlf_skip)
qed

lemma replace_cr_no_cr: "13 \<notin> set s \<Longrightarrow> replace_cr s = s"
  unfolding replace_cr_def by (induction s) auto

lemma no_cr_replace_cr: "13 \<notin> set (replace_cr s)"
  by (auto simp: replace_cr_def)

text \<open>The line-ending convention does not matter to the canonical form.\<close>

lemma canon_text_to_crlf: "13 \<notin> set s \<Longrightarrow> canon_text (to_crlf s) = canon_text s"
  by (simp add: canon_text_def replace_crlf_to_crlf replace_crlf_no_cr)

lemma canon_text_no_cr: "13 \<notin> set (canon_text s)"
  using no_cr_replace_cr set_trim_subset unfolding canon_text_def by blast

lemma canon_text_idem: "canon_text (canon_text s) = canon_text s"
proof -
  have "canon_text (canon_text s) = trim (canon_text s)"
    unfolding canon_text_def [of "canon_text s"]
    by (simp add: replace_crlf_no_cr replace_cr_no_cr canon_text_no_cr)
  then show ?thesis by (simp add: canon_text_def)
qed

end
