(* ===== verification/Ids.thy ===== *)
theory Ids
  imports Prelude
begin

text \<open>
  Mesh identities and the logical clock: \<open>fluxsync-core/src/id.rs\<close> (\<open>DeviceId\<close>, \<open>EventId\<close>) and
  \<open>fluxsync-core/src/clock.rs\<close> (\<open>LamportClock\<close>, the stub wall clock).
\<close>

section \<open>Identities\<close>

datatype device_id = DeviceId (dev_bytes: bytes32)

definition device_zero :: device_id where
  "device_zero = DeviceId zero32"

definition device_is_zero :: "device_id \<Rightarrow> bool" where
  "device_is_zero d \<longleftrightarrow> dev_bytes d = zero32"

datatype event_id = EventId (origin: device_id) (seq: u64)

text \<open>\<open>#[derive(PartialOrd, Ord)]\<close>: bytes of the device id first, then the sequence number.\<close>

instantiation device_id :: linorder
begin

definition less_eq_device_id :: "device_id \<Rightarrow> device_id \<Rightarrow> bool" where
  "a \<le> b \<longleftrightarrow> dev_bytes a \<le> dev_bytes b"

definition less_device_id :: "device_id \<Rightarrow> device_id \<Rightarrow> bool" where
  "a < b \<longleftrightarrow> dev_bytes a < dev_bytes b"

instance
  by standard (auto simp: less_eq_device_id_def less_device_id_def intro: device_id.expand)

end

instantiation event_id :: linorder
begin

definition less_eq_event_id :: "event_id \<Rightarrow> event_id \<Rightarrow> bool" where
  "a \<le> b \<longleftrightarrow> origin a < origin b \<or> origin a = origin b \<and> seq a \<le> seq b"

definition less_event_id :: "event_id \<Rightarrow> event_id \<Rightarrow> bool" where
  "a < b \<longleftrightarrow> origin a < origin b \<or> origin a = origin b \<and> seq a < seq b"

instance
  by standard (auto simp: less_eq_event_id_def less_event_id_def intro: event_id.expand)

end

section \<open>The Lamport clock\<close>

definition LAMPORT_OBSERVE_MAX :: u64 where
  "LAMPORT_OBSERVE_MAX = 2 ^ 40"

record lamport_clock =
  counter :: u64

definition lamport_new :: lamport_clock where
  "lamport_new = \<lparr>counter = 0\<rparr>"

definition lamport_tick :: "lamport_clock \<Rightarrow> lamport_clock" where
  "lamport_tick c = c\<lparr>counter := sat_add (counter c) 1\<rparr>"

definition lamport_observe :: "u64 \<Rightarrow> lamport_clock \<Rightarrow> lamport_clock" where
  "lamport_observe seen c =
     (let bounded = min seen LAMPORT_OBSERVE_MAX
      in c\<lparr>counter := sat_add (max (counter c) bounded) 1\<rparr>)"

datatype clock_op = Tick | Observe u64

fun clock_step :: "clock_op \<Rightarrow> lamport_clock \<Rightarrow> lamport_clock" where
  "clock_step Tick c = lamport_tick c"
| "clock_step (Observe s) c = lamport_observe s c"

definition clock_val :: "lamport_clock \<Rightarrow> nat" where
  "clock_val c = unat (counter c)"

lemma unat_max_word: "unat (max (a :: u64) b) = max (unat a) (unat b)"
  by (simp add: max_def word_le_nat_alt)

lemma unat_min_word: "unat (min (a :: u64) b) = min (unat a) (unat b)"
  by (simp add: min_def word_le_nat_alt)

lemma unat_observe_max: "unat LAMPORT_OBSERVE_MAX = 2 ^ 40"
  by (simp add: LAMPORT_OBSERVE_MAX_def)

lemma clock_val_tick: "clock_val (lamport_tick c) = min (clock_val c + 1) (2 ^ 64 - 1)"
  by (simp add: clock_val_def lamport_tick_def unat_sat_add)

lemma clock_val_observe:
  "clock_val (lamport_observe s c) =
     min (max (clock_val c) (min (unat s) (2 ^ 40)) + 1) (2 ^ 64 - 1)"
  by (simp add: clock_val_def lamport_observe_def unat_sat_add unat_max_word unat_min_word
      unat_observe_max)

text \<open>
  SE-08: no sequence of local events and peer values (whatever the peers claim) moves the counter
  more than one step per operation past the ceiling, so for the first 2^40 operations after boot it
  is far from saturation and every operation strictly advances it.
\<close>

lemma clock_run_bound: "clock_val (fold clock_step ops c) \<le> max (clock_val c) (2 ^ 40) + length ops"
proof (induction ops arbitrary: c)
  case Nil
  then show ?case by simp
next
  case (Cons p ops)
  have "clock_val (clock_step p c) \<le> max (clock_val c) (2 ^ 40) + 1"
    by (cases p) (auto simp: clock_val_tick clock_val_observe)
  then show ?case
    using Cons [of "clock_step p c"] by simp
qed

lemma clock_step_advances: "clock_val c < 2 ^ 64 - 1 \<Longrightarrow> clock_val c < clock_val (clock_step p c)"
  by (cases p) (auto simp: clock_val_tick clock_val_observe)

text \<open>
  A hostile peer cannot exhaust the Lamport clock (SE-08): from boot, after any run of up to
  2^40 local ticks and observed peer values, the next operation still strictly advances the counter,
  and the counter is at most the ceiling plus the number of operations.
\<close>

theorem lamport_hostile_peer_bounded:
  assumes "length ops \<le> 2 ^ 40"
  shows "clock_val (fold clock_step ops lamport_new) \<le> 2 ^ 40 + length ops
    \<and> clock_val (fold clock_step ops lamport_new) < clock_val (clock_step p (fold clock_step ops lamport_new))"
proof -
  have b: "clock_val (fold clock_step ops lamport_new) \<le> 2 ^ 40 + length ops"
    using clock_run_bound [of ops lamport_new] by (simp add: lamport_new_def clock_val_def)
  then have "clock_val (fold clock_step ops lamport_new) < 2 ^ 64 - 1"
    using assms by simp
  then show ?thesis using b clock_step_advances by blast
qed

theorem lamport_hostile_peer_bounded_witness:
  "clock_val (fold clock_step [Observe (- 1), Tick] lamport_new)
     < clock_val (clock_step (Observe (- 1)) (fold clock_step [Observe (- 1), Tick] lamport_new))"
  using lamport_hostile_peer_bounded [of "[Observe (- 1), Tick]" "Observe (- 1)"] by simp

end
