(* ===== verification/Dedup.thy ===== *)
theory Dedup
  imports Ids
begin

text \<open>
  The two independent dedup layers of \<open>fluxsync-core/src/dedup.rs\<close>: the content ring \<open>DedupRing\<close>
  (keyed by content hash; suppresses clipboard echoes) and the mesh anti-loop ring \<open>SeenSet\<close> (keyed by
  \<open>EventId\<close>). Both are a \<open>VecDeque\<close>, here the list from oldest to newest. BLAKE3 is not under \<open>src/\<close>
  and is the parameter \<open>blake3\<close>.
\<close>

section \<open>The content ring\<close>

definition DEDUP_CAPACITY :: nat where
  "DEDUP_CAPACITY = 50"

definition ECHO_WINDOW_MS :: nat where
  "ECHO_WINDOW_MS = 5000"

datatype content_hash = ContentHash (hash_bytes: bytes32)

text \<open>\<open>DedupRing::hash\<close>: the only place that hashes content.\<close>

definition ring_hash :: "(bytes \<Rightarrow> bytes32) \<Rightarrow> bytes \<Rightarrow> content_hash" where
  "ring_hash blake3 b = ContentHash (blake3 b)"

record ring_entry =
  e_hash :: content_hash
  seen_at_ms :: "millis option"

record dedup_ring =
  capacity :: nat
  inner :: "ring_entry list"

definition ring_new :: "nat \<Rightarrow> dedup_ring" where
  "ring_new n = \<lparr>capacity = n, inner = []\<rparr>"

definition ring_default :: dedup_ring where
  "ring_default = ring_new DEDUP_CAPACITY"

definition ring_push :: "ring_entry \<Rightarrow> dedup_ring \<Rightarrow> dedup_ring" where
  "ring_push e r =
     (let kept = (if length (inner r) = capacity r then tl (inner r) else inner r)
      in r\<lparr>inner := kept @ [e]\<rparr>)"

definition ring_contains :: "content_hash \<Rightarrow> dedup_ring \<Rightarrow> bool" where
  "ring_contains h r \<longleftrightarrow> list_ex (\<lambda>e. e_hash e = h) (inner r)"

definition ring_observe :: "content_hash \<Rightarrow> dedup_ring \<Rightarrow> bool \<times> dedup_ring" where
  "ring_observe h r =
     (if ring_contains h r then (False, r)
      else (True, ring_push \<lparr>e_hash = h, seen_at_ms = None\<rparr> r))"

definition observe_clipboard :: "content_hash \<Rightarrow> millis \<Rightarrow> dedup_ring \<Rightarrow> bool \<times> dedup_ring" where
  "observe_clipboard h now r =
     (let fresh = \<lparr>e_hash = h, seen_at_ms = Some now\<rparr> in
      case position (\<lambda>e. e_hash e = h) (inner r) of
        Some pos \<Rightarrow>
          (let newest = (pos + 1 = length (inner r));
               recent = (case seen_at_ms (inner r ! pos) of
                           Some t \<Rightarrow> now - t < ECHO_WINDOW_MS | None \<Rightarrow> False)
           in if newest \<or> recent then (False, r)
              else (True, ring_push fresh (r\<lparr>inner := remove_at pos (inner r)\<rparr>)))
      | None \<Rightarrow> (True, ring_push fresh r))"

definition ring_hashes :: "dedup_ring \<Rightarrow> content_hash list" where
  "ring_hashes r = map e_hash (inner r)"

definition ring_inv :: "dedup_ring \<Rightarrow> bool" where
  "ring_inv r \<longleftrightarrow>
     distinct (ring_hashes r) \<and> length (inner r) \<le> capacity r \<and> 0 < capacity r"

lemma ring_contains_iff: "ring_contains h r \<longleftrightarrow> h \<in> set (ring_hashes r)"
  by (auto simp: ring_contains_def ring_hashes_def list_ex_iff)

lemma ring_push_capacity [simp]: "capacity (ring_push e r) = capacity r"
  by (simp add: ring_push_def Let_def)

lemma ring_hashes_push:
  "ring_hashes (ring_push e r) =
     (if length (ring_hashes r) = capacity r then tl (ring_hashes r) else ring_hashes r) @ [e_hash e]"
  by (simp add: ring_push_def ring_hashes_def Let_def map_tl)

lemma ring_new_inv: "0 < n \<Longrightarrow> ring_inv (ring_new n)"
  by (simp add: ring_inv_def ring_new_def ring_hashes_def)

lemma ring_default_inv: "ring_inv ring_default"
  by (simp add: ring_default_def ring_new_inv DEDUP_CAPACITY_def)

lemma ring_push_inv:
  assumes i: "ring_inv r" and new: "e_hash e \<notin> set (ring_hashes r)"
  shows "ring_inv (ring_push e r)"
proof -
  have sub: "set (tl (ring_hashes r)) \<subseteq> set (ring_hashes r)"
    by (cases "ring_hashes r") auto
  have len: "length (inner (ring_push e r)) \<le> capacity r"
    using i by (auto simp: ring_push_def ring_inv_def Let_def)
  have "distinct (ring_hashes (ring_push e r))"
    using i new sub by (auto simp: ring_hashes_push ring_inv_def distinct_tl)
  with len i show ?thesis by (simp add: ring_inv_def)
qed

lemma ring_observe_inv: "ring_inv r \<Longrightarrow> ring_inv (snd (ring_observe h r))"
  by (simp add: ring_observe_def ring_push_inv ring_contains_iff)

text \<open>The content ring, without the clock, is a bounded recent set of hashes.\<close>

interpretation content_ring: recent_set ring_inv capacity ring_hashes ring_observe
proof
  fix s k
  show "ring_inv s \<Longrightarrow> k \<in> set (ring_hashes s) \<Longrightarrow> ring_observe k s = (False, s)"
    by (simp add: ring_observe_def ring_contains_iff)
  show "ring_inv s \<Longrightarrow> k \<notin> set (ring_hashes s) \<Longrightarrow> fst (ring_observe k s)"
    by (simp add: ring_observe_def ring_contains_iff)
  show "ring_inv s \<Longrightarrow> k \<notin> set (ring_hashes s) \<Longrightarrow>
      ring_hashes (snd (ring_observe k s)) =
        (if length (ring_hashes s) = capacity s then tl (ring_hashes s) else ring_hashes s) @ [k]"
    by (simp add: ring_observe_def ring_contains_iff ring_hashes_push)
  show "ring_inv s \<Longrightarrow> ring_inv (snd (ring_observe k s))"
    by (rule ring_observe_inv)
  show "ring_inv s \<Longrightarrow> capacity (snd (ring_observe k s)) = capacity s"
    by (simp add: ring_observe_def)
  show "ring_inv s \<Longrightarrow> length (ring_hashes s) \<le> capacity s \<and> 0 < capacity s"
    by (simp add: ring_inv_def ring_hashes_def)
qed

section \<open>The clipboard variant and its echo window\<close>

lemma clipboard_absent:
  "h \<notin> set (ring_hashes r) \<Longrightarrow>
     observe_clipboard h now r = (True, ring_push \<lparr>e_hash = h, seen_at_ms = Some now\<rparr> r)"
proof -
  assume "h \<notin> set (ring_hashes r)"
  then have "position (\<lambda>e. e_hash e = h) (inner r) = None"
    by (auto simp: position_None_iff ring_hashes_def)
  then show ?thesis by (simp add: observe_clipboard_def)
qed

text \<open>What the ring knows of a hash: whether it is the newest entry, and when it was last seen.\<close>

definition is_newest :: "content_hash \<Rightarrow> dedup_ring \<Rightarrow> bool" where
  "is_newest h r \<longleftrightarrow> inner r \<noteq> [] \<and> e_hash (last (inner r)) = h"

definition seen_recently :: "content_hash \<Rightarrow> millis \<Rightarrow> dedup_ring \<Rightarrow> bool" where
  "seen_recently h now r \<longleftrightarrow>
     list_ex (\<lambda>e. e_hash e = h \<and>
       (case seen_at_ms e of Some t \<Rightarrow> now - t < ECHO_WINDOW_MS | None \<Rightarrow> False)) (inner r)"

lemma distinct_hash_index:
  assumes "distinct (ring_hashes r)" "i < length (inner r)" "j < length (inner r)"
    and "e_hash (inner r ! i) = e_hash (inner r ! j)"
  shows "i = j"
  using assms nth_eq_iff_index_eq [of "ring_hashes r" i j] by (simp add: ring_hashes_def)

lemma position_hash_iff:
  assumes d: "distinct (ring_hashes r)"
  shows "position (\<lambda>e. e_hash e = h) (inner r) = Some i \<longleftrightarrow>
    i < length (inner r) \<and> e_hash (inner r ! i) = h"
proof
  assume "i < length (inner r) \<and> e_hash (inner r ! i) = h"
  then have i: "i < length (inner r)" "e_hash (inner r ! i) = h" by auto
  then have "position (\<lambda>e. e_hash e = h) (inner r) \<noteq> None"
    by (auto simp: position_None_iff)
  then obtain j where j: "position (\<lambda>e. e_hash e = h) (inner r) = Some j" by auto
  then have "j = i"
    using position_SomeD [OF j] i distinct_hash_index [OF d, of j i] by auto
  with j show "position (\<lambda>e. e_hash e = h) (inner r) = Some i" by simp
next
  assume "position (\<lambda>e. e_hash e = h) (inner r) = Some i"
  then show "i < length (inner r) \<and> e_hash (inner r ! i) = h"
    using position_SomeD [of "\<lambda>e. e_hash e = h" "inner r" i] by simp
qed

lemma newest_index:
  assumes d: "distinct (ring_hashes r)" and i: "i < length (inner r)" "e_hash (inner r ! i) = h"
  shows "is_newest h r \<longleftrightarrow> i + 1 = length (inner r)"
proof -
  let ?n = "length (inner r) - 1"
  have ne: "inner r \<noteq> []" and n: "?n < length (inner r)" using i(1) by auto
  have "e_hash (inner r ! ?n) = h \<longleftrightarrow> i = ?n"
    using distinct_hash_index [OF d i(1) n] i(2) by blast
  moreover have "i = ?n \<longleftrightarrow> i + 1 = length (inner r)" using i(1) by linarith
  ultimately show ?thesis using ne by (simp add: is_newest_def last_conv_nth)
qed

lemma recent_index:
  assumes d: "distinct (ring_hashes r)" and i: "i < length (inner r)" "e_hash (inner r ! i) = h"
  shows "seen_recently h now r \<longleftrightarrow>
    (case seen_at_ms (inner r ! i) of Some t \<Rightarrow> now - t < ECHO_WINDOW_MS | None \<Rightarrow> False)"
proof -
  have only: "e = inner r ! i" if m: "e \<in> set (inner r)" and e: "e_hash e = h" for e
  proof -
    from m obtain j where j: "j < length (inner r)" "e = inner r ! j"
      by (auto simp: in_set_conv_nth)
    then have "j = i" using distinct_hash_index [OF d j(1) i(1)] e i(2) by simp
    with j show ?thesis by simp
  qed
  show ?thesis
    unfolding seen_recently_def list_ex_iff using only nth_mem [OF i(1)] i(2) by blast
qed

text \<open>
  The decision, stated without positions: content is refused exactly when it is the newest entry or
  was seen less than the echo window ago.
\<close>

lemma clipboard_accepts_iff:
  assumes "ring_inv r"
  shows "fst (observe_clipboard h now r) \<longleftrightarrow> \<not> (is_newest h r \<or> seen_recently h now r)"
proof (cases "h \<in> set (ring_hashes r)")
  case False
  then have "\<not> is_newest h r" "\<not> seen_recently h now r"
    by (force simp: is_newest_def ring_hashes_def seen_recently_def list_ex_iff)+
  then show ?thesis by (simp add: clipboard_absent False)
next
  case True
  have d: "distinct (ring_hashes r)" using assms by (simp add: ring_inv_def)
  from True obtain i where i: "i < length (inner r)" "e_hash (inner r ! i) = h"
    by (auto simp: ring_hashes_def in_set_conv_nth)
  then have "position (\<lambda>e. e_hash e = h) (inner r) = Some i"
    by (simp add: position_hash_iff [OF d])
  then show ?thesis
    using newest_index [OF d i] recent_index [OF d i, of now]
    by (simp add: observe_clipboard_def Let_def)
qed

lemma clipboard_refused_unchanged:
  "\<not> fst (observe_clipboard h now r) \<Longrightarrow> snd (observe_clipboard h now r) = r"
  by (auto simp: observe_clipboard_def Let_def split: option.splits if_splits)

lemma clipboard_cap [simp]: "capacity (snd (observe_clipboard h now r)) = capacity r"
  by (auto simp: observe_clipboard_def Let_def split: option.splits)

lemma remove_at_ring:
  assumes i: "ring_inv r" and p: "position (\<lambda>e. e_hash e = h) (inner r) = Some pos"
  shows "ring_inv (r\<lparr>inner := remove_at pos (inner r)\<rparr>)"
    and "h \<notin> set (ring_hashes (r\<lparr>inner := remove_at pos (inner r)\<rparr>))"
proof -
  have lt: "pos < length (inner r)" and hp: "e_hash (inner r ! pos) = h"
    using position_SomeD [OF p] by auto
  show "ring_inv (r\<lparr>inner := remove_at pos (inner r)\<rparr>)"
    using i lt distinct_remove_at [of e_hash "inner r" pos]
    by (auto simp: ring_inv_def ring_hashes_def length_remove_at)
  have "distinct (map e_hash (take pos (inner r) @ inner r ! pos # drop (Suc pos) (inner r)))"
    using i lt by (simp add: ring_inv_def ring_hashes_def id_take_nth_drop [symmetric])
  then show "h \<notin> set (ring_hashes (r\<lparr>inner := remove_at pos (inner r)\<rparr>))"
    using hp by (auto simp: ring_hashes_def remove_at_def)
qed

lemma clipboard_inv: "ring_inv r \<Longrightarrow> ring_inv (snd (observe_clipboard h now r))"
proof (cases "position (\<lambda>e. e_hash e = h) (inner r)")
  case None
  assume i: "ring_inv r"
  from None have "h \<notin> set (ring_hashes r)"
    by (auto simp: position_None_iff ring_hashes_def)
  then show ?thesis using i by (simp add: clipboard_absent ring_push_inv)
next
  case (Some pos)
  assume i: "ring_inv r"
  show ?thesis
    using remove_at_ring [OF i Some] i
    by (simp add: observe_clipboard_def Let_def Some ring_push_inv)
qed

text \<open>Clipboard sightings over time keep the invariant.\<close>

definition sighting :: "content_hash \<times> millis \<Rightarrow> dedup_ring \<Rightarrow> dedup_ring" where
  "sighting e r = snd (observe_clipboard (fst e) (snd e) r)"

interpretation clipboard_ring: machine sighting ring_inv
  by unfold_locales (simp add: sighting_def clipboard_inv)

text \<open>An accepted sighting is remembered with its time while fewer than \<open>capacity\<close> others pass.\<close>

definition remembers :: "content_hash \<Rightarrow> millis \<Rightarrow> nat \<Rightarrow> dedup_ring \<Rightarrow> bool" where
  "remembers h t n r \<longleftrightarrow>
     (\<exists>xs ys. inner r = xs @ \<lparr>e_hash = h, seen_at_ms = Some t\<rparr> # ys \<and> length ys \<le> n)"

lemma remembersI:
  "inner r = xs @ \<lparr>e_hash = h, seen_at_ms = Some t\<rparr> # ys \<Longrightarrow> length ys \<le> n \<Longrightarrow> remembers h t n r"
  by (auto simp: remembers_def)

lemma remembers_push:
  assumes "remembers h t n r" and "Suc n < capacity r"
  shows "remembers h t (Suc n) (ring_push e r)"
proof -
  obtain xs ys where s: "inner r = xs @ \<lparr>e_hash = h, seen_at_ms = Some t\<rparr> # ys" "length ys \<le> n"
    using assms(1) by (auto simp: remembers_def)
  show ?thesis
  proof (cases "length (inner r) = capacity r")
    case True
    have "xs \<noteq> []" using True s assms(2) by (cases xs) auto
    then have "inner (ring_push e r) = tl xs @ \<lparr>e_hash = h, seen_at_ms = Some t\<rparr> # (ys @ [e])"
      using s True by (simp add: ring_push_def Let_def)
    then show ?thesis using s(2) by (intro remembersI [of _ "tl xs" _ _ "ys @ [e]"]) auto
  next
    case False
    then have "inner (ring_push e r) = xs @ \<lparr>e_hash = h, seen_at_ms = Some t\<rparr> # (ys @ [e])"
      using s by (simp add: ring_push_def Let_def)
    then show ?thesis using s(2) by (intro remembersI [of _ xs _ _ "ys @ [e]"]) auto
  qed
qed

lemma remembers_remove:
  assumes "remembers h t n r" and "position (\<lambda>e. e_hash e = k) (inner r) = Some pos" and "k \<noteq> h"
  shows "remembers h t n (r\<lparr>inner := remove_at pos (inner r)\<rparr>)"
proof -
  let ?e = "\<lparr>e_hash = h, seen_at_ms = Some t\<rparr>"
  obtain xs ys where s: "inner r = xs @ ?e # ys" "length ys \<le> n"
    using assms(1) by (auto simp: remembers_def)
  have p: "pos < length (inner r)" "e_hash (inner r ! pos) = k"
    using position_SomeD [OF assms(2)] by auto
  have "pos \<noteq> length xs"
  proof
    assume "pos = length xs"
    then have "inner r ! pos = ?e" by (simp only: s(1) nth_append_length)
    with p(2) assms(3) show False by simp
  qed
  then consider "pos < length xs" | d where "pos = length xs + Suc d"
    by (metis less_imp_Suc_add nat_neq_iff add_Suc_right)
  then show ?thesis
  proof cases
    case 1
    then have "remove_at pos (inner r) = remove_at pos xs @ ?e # ys"
      by (simp add: remove_at_def s(1))
    then show ?thesis using s(2) by (intro remembersI [of _ "remove_at pos xs" _ _ ys]) auto
  next
    case 2
    then have "remove_at pos (inner r) = xs @ ?e # remove_at d ys"
      by (simp add: remove_at_def s(1))
    moreover have "length (remove_at d ys) \<le> length ys" by (simp add: remove_at_def)
    ultimately show ?thesis using s(2) by (intro remembersI [of _ xs _ _ "remove_at d ys"]) auto
  qed
qed

lemma remembers_mono: "remembers h t n r \<Longrightarrow> n \<le> m \<Longrightarrow> remembers h t m r"
  by (fastforce simp: remembers_def)

lemma remembers_sighting:
  assumes "remembers h t n r" and "Suc n < capacity r" and "fst e \<noteq> h"
  shows "remembers h t (Suc n) (sighting e r)"
proof (cases "fst (observe_clipboard (fst e) (snd e) r)")
  case False
  then show ?thesis
    using assms(1) by (auto simp: sighting_def clipboard_refused_unchanged intro: remembers_mono)
next
  case True
  show ?thesis
  proof (cases "position (\<lambda>x. e_hash x = fst e) (inner r)")
    case None
    then show ?thesis
      using remembers_push [OF assms(1,2)] by (simp add: sighting_def observe_clipboard_def Let_def)
  next
    case (Some pos)
    then show ?thesis
      using True assms remembers_push [OF remembers_remove [OF assms(1) Some assms(3)]]
      by (auto simp: sighting_def observe_clipboard_def Let_def split: if_splits)
  qed
qed

lemma remembers_run:
  assumes "remembers h t n r" and "n + length es < capacity r" and "h \<notin> fst ` set es"
  shows "remembers h t (n + length es) (fold sighting es r)"
  using assms
proof (induction es arbitrary: n r)
  case Nil
  then show ?case by simp
next
  case (Cons e es)
  have "remembers h t (Suc n) (sighting e r)"
    using Cons.prems by (intro remembers_sighting) auto
  then show ?case
    using Cons.IH [of "Suc n" "sighting e r"] Cons.prems by (simp add: sighting_def)
qed

lemma clipboard_accept_remembers:
  assumes "fst (observe_clipboard h t r)"
  shows "remembers h t 0 (snd (observe_clipboard h t r))"
  using assms
  by (auto simp: observe_clipboard_def Let_def ring_push_def remembers_def
      split: option.splits if_splits)

lemma remembers_seen_recently: "remembers h t n r \<Longrightarrow> now - t < ECHO_WINDOW_MS \<Longrightarrow> seen_recently h now r"
  by (auto simp: remembers_def seen_recently_def)

text \<open>
  Echo suppression. Once clipboard content was accepted at time \<open>t\<close>, the same content arriving
  less than the echo window later is refused, whatever other content (fewer than \<open>capacity\<close> sightings)
  came in between; and once the window is over and something else is the newest content, copying it
  again is accepted.
\<close>

theorem clipboard_echo_window:
  assumes "ring_inv r" and "fst (observe_clipboard h t r)"
    and "length es < capacity r" and "h \<notin> fst ` set es"
  shows "(t' - t < ECHO_WINDOW_MS \<longrightarrow>
            \<not> fst (observe_clipboard h t' (fold sighting es (snd (observe_clipboard h t r)))))
       \<and> (ECHO_WINDOW_MS \<le> t' - t \<and>
          \<not> is_newest h (fold sighting es (snd (observe_clipboard h t r))) \<longrightarrow>
            fst (observe_clipboard h t' (fold sighting es (snd (observe_clipboard h t r)))))"
proof -
  let ?r = "snd (observe_clipboard h t r)"
  let ?f = "fold sighting es ?r"
  have inv: "ring_inv ?f"
    by (intro clipboard_ring.run_inv clipboard_inv assms(1))
  have rem: "remembers h t (length es) ?f"
    using remembers_run [OF clipboard_accept_remembers [OF assms(2)], of es] assms by simp
  then obtain xs ys where x: "inner ?f = xs @ \<lparr>e_hash = h, seen_at_ms = Some t\<rparr> # ys"
    by (auto simp: remembers_def)
  have "seen_recently h t' ?f \<longleftrightarrow> t' - t < ECHO_WINDOW_MS"
    using recent_index [of ?f "length xs" h t'] inv by (simp add: ring_inv_def x)
  then show ?thesis
    by (auto simp: clipboard_accepts_iff [OF inv])
qed

theorem clipboard_echo_window_witness:
  "\<not> fst (observe_clipboard (ContentHash [1]) 4999
      (fold sighting [(ContentHash [2], 300)]
        (snd (observe_clipboard (ContentHash [1]) 0 ring_default))))
   \<and> fst (observe_clipboard (ContentHash [1]) 5000
      (fold sighting [(ContentHash [2], 300)]
        (snd (observe_clipboard (ContentHash [1]) 0 ring_default))))"
proof -
  let ?r = ring_default
  let ?f = "fold sighting [(ContentHash [2], 300)] (snd (observe_clipboard (ContentHash [1]) 0 ?r))"
  have a: "fst (observe_clipboard (ContentHash [1]) 0 ?r)"
    by (simp add: observe_clipboard_def ring_default_def ring_new_def)
  have n: "\<not> is_newest (ContentHash [1]) ?f"
    by (simp add: is_newest_def sighting_def observe_clipboard_def ring_default_def ring_new_def
        ring_push_def DEDUP_CAPACITY_def Let_def)
  show ?thesis
    using clipboard_echo_window [OF ring_default_inv a, of "[(ContentHash [2], 300)]"] n
    by (simp add: ECHO_WINDOW_MS_def ring_default_def ring_new_def DEDUP_CAPACITY_def)
qed

section \<open>The mesh anti-loop ring\<close>

definition SEEN_CAPACITY :: nat where
  "SEEN_CAPACITY = 256"

record seen_set =
  s_capacity :: nat
  s_inner :: "event_id list"

definition seen_new :: "nat \<Rightarrow> seen_set" where
  "seen_new n = \<lparr>s_capacity = n, s_inner = []\<rparr>"

definition seen_default :: seen_set where
  "seen_default = seen_new SEEN_CAPACITY"

definition seen_contains :: "event_id \<Rightarrow> seen_set \<Rightarrow> bool" where
  "seen_contains i s \<longleftrightarrow> i \<in> set (s_inner s)"

definition seen_observe :: "event_id \<Rightarrow> seen_set \<Rightarrow> bool \<times> seen_set" where
  "seen_observe i s =
     (if i \<in> set (s_inner s) then (False, s)
      else (let kept = (if length (s_inner s) = s_capacity s then tl (s_inner s) else s_inner s)
            in (True, s\<lparr>s_inner := kept @ [i]\<rparr>)))"

definition seen_inv :: "seen_set \<Rightarrow> bool" where
  "seen_inv s \<longleftrightarrow> distinct (s_inner s) \<and> length (s_inner s) \<le> s_capacity s \<and> 0 < s_capacity s"

lemma seen_default_inv: "seen_inv seen_default"
  by (simp add: seen_inv_def seen_default_def seen_new_def SEEN_CAPACITY_def)

lemma seen_observe_inv: "seen_inv s \<Longrightarrow> seen_inv (snd (seen_observe i s))"
proof -
  assume i: "seen_inv s"
  have "set (tl (s_inner s)) \<subseteq> set (s_inner s)" by (cases "s_inner s") auto
  then show ?thesis
    using i by (auto simp: seen_observe_def seen_inv_def Let_def distinct_tl)
qed

interpretation seen_ring: recent_set seen_inv s_capacity s_inner seen_observe
  by unfold_locales
    (simp_all add: seen_observe_inv, simp_all add: seen_observe_def seen_inv_def Let_def)

text \<open>
  Mesh anti-loop. An event accepted by a node is refused again as long as fewer than 256 other
  events were observed there since, in any order and with any sequence numbers, and the ring never
  holds more than its capacity.
\<close>

theorem seen_set_anti_loop:
  assumes "seen_inv s" and "fst (seen_observe i s)" and "length js < s_capacity s"
  shows "\<not> fst (seen_observe i (seen_ring.observe_all js (snd (seen_observe i s))))
    \<and> length (s_inner (seen_ring.observe_all js (snd (seen_observe i s)))) \<le> s_capacity s"
proof -
  have "length (s_inner (seen_ring.observe_all js (snd (seen_observe i s))))
      \<le> s_capacity (seen_ring.observe_all js (snd (seen_observe i s)))"
    using seen_ring.inv_bound [OF seen_ring.observe_all_inv [OF seen_observe_inv [OF assms(1)]]]
    by blast
  also have "\<dots> = s_capacity s"
    by (simp add: seen_ring.observe_all_cap seen_observe_inv assms(1) seen_ring.observe_cap)
  finally show ?thesis
    using seen_ring.repeat_refused [OF assms] by blast
qed

theorem seen_set_anti_loop_witness:
  "\<not> fst (seen_observe (EventId device_zero 7)
      (seen_ring.observe_all [EventId device_zero 3, EventId device_zero 9]
        (snd (seen_observe (EventId device_zero 7) seen_default))))"
  using seen_set_anti_loop [OF seen_default_inv, of "EventId device_zero 7"
      "[EventId device_zero 3, EventId device_zero 9]"]
  by (simp add: seen_observe_def seen_default_def seen_new_def SEEN_CAPACITY_def)

text \<open>
  The bound needs a positive capacity: with capacity 0 the eviction test \<open>len == capacity\<close> is true
  only for the empty ring, so such a ring grows with every fresh observation.
\<close>

lemma zero_capacity_unbounded:
  "length (s_inner (snd (seen_observe j (snd (seen_observe i (seen_new 0)))))) = (if i = j then 1 else 2)"
  by (simp add: seen_observe_def seen_new_def Let_def)

end
