(* ===== verification/Wire.thy ===== *)
theory Wire
  imports Text Ids
begin

text \<open>
  The wire crate: message types (\<open>fluxsync-proto/src/types.rs\<close>), bounds, capability negotiation
  (\<open>lib.rs\<close>), errors (\<open>error.rs\<close>) and the validating codec (\<open>codec.rs\<close>). The CBOR library (ciborium
  with the serde derives) is not under \<open>src/\<close>: it is the pair of parameters \<open>ser\<close> and \<open>de\<close>.
\<close>

section \<open>Bounds and capabilities\<close>

definition PROTOCOL_VERSION :: u8 where "PROTOCOL_VERSION = 2"
definition MAX_PAYLOAD :: nat where "MAX_PAYLOAD = 16 * 1024 * 1024"
definition MAX_CHUNK_DATA :: nat where "MAX_CHUNK_DATA = 1024"
definition MAX_FRAME_PLAINTEXT :: nat where "MAX_FRAME_PLAINTEXT = 1232 - 1 - 12 - 16"
definition MAX_CHUNKS :: u16 where "MAX_CHUNKS = 16384"
definition MAX_NAK_MISSING :: nat where "MAX_NAK_MISSING = 512"
definition MAX_HELLO_NAME :: nat where "MAX_HELLO_NAME = 256"
definition MAX_HELLO_PLATFORM :: nat where "MAX_HELLO_PLATFORM = 16"
definition MAX_HELLO_CAPS :: nat where "MAX_HELLO_CAPS = 32"
definition MAX_CAP_LEN :: nat where "MAX_CAP_LEN = 64"
definition MAX_RESYNC_HASHES :: nat where "MAX_RESYNC_HASHES = 32"
definition RESYNC_HASH_LEN :: nat where "RESYNC_HASH_LEN = 64"

text \<open>ASCII digits and \<open>a\<close>..\<open>f\<close>, as bytes of the string.\<close>

definition is_lower_hex_byte :: "u8 \<Rightarrow> bool" where
  "is_lower_hex_byte b \<longleftrightarrow> 48 \<le> b \<and> b \<le> 57 \<or> 97 \<le> b \<and> b \<le> 102"

definition is_valid_resync_hash :: "ustr \<Rightarrow> bool" where
  "is_valid_resync_hash s \<longleftrightarrow>
     str_len s = RESYNC_HASH_LEN \<and> list_all is_lower_hex_byte (as_bytes s)"

definition validate_resync_hashes :: "ustr list \<Rightarrow> bool" where
  "validate_resync_hashes hs \<longleftrightarrow>
     length hs \<le> MAX_RESYNC_HASHES \<and> list_all is_valid_resync_hash hs"

definition CAP_FILE :: ustr where
  "CAP_FILE = lit ''file-1''"

definition SUPPORTED_CAPS :: "ustr list" where
  "SUPPORTED_CAPS =
     [lit ''core-1'', lit ''resync-1'', lit ''sas-confirm'', lit ''verify-restart'', CAP_FILE]"

definition negotiate_caps :: "ustr list \<Rightarrow> ustr list" where
  "negotiate_caps peer = filter (\<lambda>c. c \<in> set SUPPORTED_CAPS) peer"

lemma set_negotiate_caps: "set (negotiate_caps peer) = set peer \<inter> set SUPPORTED_CAPS"
  by (auto simp: negotiate_caps_def)

section \<open>Messages\<close>

datatype kind = Text | Url | Code | Image | File

record clipboard_item =
  ci_lamport :: u64
  ci_hash :: bytes32
  ci_kind :: kind
  ci_payload :: bytes
  ci_sensitive :: bool
  ci_wall_time_ms :: u64
  ci_origin :: bytes32
  ci_event_seq :: u64

record chunk =
  ch_item_id :: bytes32
  ch_idx :: u16
  ch_total :: u16
  ch_data :: bytes

record nak =
  nak_item_id :: bytes32
  want_header :: bool
  missing :: "u16 list"

record hello =
  h_name :: ustr
  h_platform :: ustr
  h_caps :: "ustr list"

record handshake_msg =
  hs_peer_id :: bytes32
  ephemeral_pub :: bytes32
  static_pub :: bytes32
  hs_lamport :: u64

datatype msg =
    HandshakeInit handshake_msg
  | HandshakeResp handshake_msg
  | ClipboardItem clipboard_item
  | BatteryStatus (bs_lamport: u64) (bs_level: u8) (bs_charging: bool)
  | Heartbeat (hb_lamport: u64) (rtt_hint: "u32 option")
  | Chunk chunk
  | Ack (ack_lamport: u64) (ack_hash: bytes32)
  | Nak nak
  | Bye
  | Revoke
  | Hello hello
  | ResyncOffer "ustr list"
  | ResyncPull "ustr list"
  | PairConfirm bool
  | PairVerifyStarted

record frame =
  version :: u8
  f_msg :: msg

section \<open>Validation\<close>

datatype proto_error =
    Version (got: u8) (expected: u8)
  | PayloadTooLarge nat
  | ChunkDataTooLarge nat
  | ChunkTotalTooLarge u16
  | ChunkTotalZero
  | ChunkIndexOutOfRange u16 u16
  | NakMissingTooLarge nat
  | BatteryLevel u8
  | HelloNameTooLong nat
  | HelloPlatformTooLong nat
  | HelloNameNotPrintable
  | HelloPlatformNotAsciiPrintable
  | HelloCapsTooMany nat
  | HelloCapTooLong nat
  | HelloCapNotAsciiPrintable
  | ResyncTooManyHashes nat
  | ResyncHashMalformed
  | Cbor ustr
  | CborEncode ustr

definition is_ascii_printable_cap :: "ustr \<Rightarrow> bool" where
  "is_ascii_printable_cap s \<longleftrightarrow> list_all (\<lambda>b. 32 \<le> b \<and> b \<le> 126) (as_bytes s)"

definition validate_nak :: "nak \<Rightarrow> proto_error + unit" where
  "validate_nak n =
     (if MAX_NAK_MISSING < length (missing n) then Inl (NakMissingTooLarge (length (missing n)))
      else Inr ())"

definition validate_item :: "clipboard_item \<Rightarrow> proto_error + unit" where
  "validate_item i =
     (if MAX_PAYLOAD < length (ci_payload i) then Inl (PayloadTooLarge (length (ci_payload i)))
      else Inr ())"

definition validate_chunk :: "chunk \<Rightarrow> proto_error + unit" where
  "validate_chunk c =
     (if MAX_CHUNK_DATA < length (ch_data c) then Inl (ChunkDataTooLarge (length (ch_data c)))
      else if ch_total c = 0 then Inl ChunkTotalZero
      else if MAX_CHUNKS < ch_total c then Inl (ChunkTotalTooLarge (ch_total c))
      else if ch_total c \<le> ch_idx c then Inl (ChunkIndexOutOfRange (ch_idx c) (ch_total c))
      else Inr ())"

definition validate_resync_msg :: "ustr list \<Rightarrow> proto_error + unit" where
  "validate_resync_msg hs =
     (if MAX_RESYNC_HASHES < length hs then Inl (ResyncTooManyHashes (length hs))
      else if list_ex (\<lambda>h. \<not> is_valid_resync_hash h) hs then Inl ResyncHashMalformed
      else Inr ())"

definition max_cap_len :: "ustr list \<Rightarrow> nat" where
  "max_cap_len caps = fold max (map str_len caps) 0"

definition validate_hello :: "hello \<Rightarrow> proto_error + unit" where
  "validate_hello h =
     (if MAX_HELLO_NAME < str_len (h_name h) then Inl (HelloNameTooLong (str_len (h_name h)))
      else if MAX_HELLO_PLATFORM < str_len (h_platform h)
        then Inl (HelloPlatformTooLong (str_len (h_platform h)))
      else if list_ex (\<lambda>c. is_control c \<or> is_bidi_or_format_char c) (h_name h)
        then Inl HelloNameNotPrintable
      else if \<not> is_ascii_printable_cap (h_platform h) then Inl HelloPlatformNotAsciiPrintable
      else if MAX_HELLO_CAPS < length (h_caps h) then Inl (HelloCapsTooMany (length (h_caps h)))
      else if list_ex (\<lambda>c. MAX_CAP_LEN < str_len c) (h_caps h)
        then Inl (HelloCapTooLong (max_cap_len (h_caps h)))
      else if list_ex (\<lambda>c. \<not> is_ascii_printable_cap c) (h_caps h)
        then Inl HelloCapNotAsciiPrintable
      else Inr ())"

fun validate_msg :: "msg \<Rightarrow> proto_error + unit" where
  "validate_msg (ClipboardItem i) = validate_item i"
| "validate_msg (Chunk c) = validate_chunk c"
| "validate_msg (Nak n) = validate_nak n"
| "validate_msg (BatteryStatus _ l _) = (if 100 < l then Inl (BatteryLevel l) else Inr ())"
| "validate_msg (Hello h) = validate_hello h"
| "validate_msg (ResyncOffer hs) = validate_resync_msg hs"
| "validate_msg (ResyncPull hs) = validate_resync_msg hs"
| "validate_msg _ = Inr ()"

definition validate :: "frame \<Rightarrow> proto_error + unit" where
  "validate f = validate_msg (f_msg f)"

section \<open>Encoding and decoding\<close>

definition encode :: "(frame \<Rightarrow> ustr + bytes) \<Rightarrow> frame \<Rightarrow> proto_error + bytes" where
  "encode ser f =
     (if version f \<noteq> PROTOCOL_VERSION then Inl (Version (version f) PROTOCOL_VERSION)
      else case validate f of
        Inl e \<Rightarrow> Inl e
      | Inr _ \<Rightarrow> (case ser f of Inl e \<Rightarrow> Inl (CborEncode e) | Inr out \<Rightarrow> Inr out))"

definition decode :: "(bytes \<Rightarrow> ustr + frame) \<Rightarrow> bytes \<Rightarrow> proto_error + frame" where
  "decode de b =
     (case de b of
        Inl e \<Rightarrow> Inl (Cbor e)
      | Inr f \<Rightarrow>
          (if version f \<noteq> PROTOCOL_VERSION then Inl (Version (version f) PROTOCOL_VERSION)
           else case validate f of Inl e \<Rightarrow> Inl e | Inr _ \<Rightarrow> Inr f))"

text \<open>
  What a decoded frame promises to the layers above, stated message by message and without the
  order of the checks.
\<close>

fun msg_ok :: "msg \<Rightarrow> bool" where
  "msg_ok (ClipboardItem i) \<longleftrightarrow> length (ci_payload i) \<le> 16777216"
| "msg_ok (Chunk c) \<longleftrightarrow> length (ch_data c) \<le> 1024 \<and> unat (ch_idx c) < unat (ch_total c)
     \<and> unat (ch_total c) \<le> 16384"
| "msg_ok (Nak n) \<longleftrightarrow> length (missing n) \<le> 512"
| "msg_ok (BatteryStatus _ l _) \<longleftrightarrow> unat l \<le> 100"
| "msg_ok (Hello h) \<longleftrightarrow>
     str_len (h_name h) \<le> 256 \<and> (\<forall>c\<in>set (h_name h). \<not> is_control c \<and> \<not> is_bidi_or_format_char c)
     \<and> str_len (h_platform h) \<le> 16 \<and> is_ascii_printable_cap (h_platform h)
     \<and> length (h_caps h) \<le> 32 \<and> (\<forall>c\<in>set (h_caps h). str_len c \<le> 64 \<and> is_ascii_printable_cap c)"
| "msg_ok (ResyncOffer hs) \<longleftrightarrow> validate_resync_hashes hs"
| "msg_ok (ResyncPull hs) \<longleftrightarrow> validate_resync_hashes hs"
| "msg_ok _ \<longleftrightarrow> True"

lemma validate_item_iff: "validate_item i = Inr () \<longleftrightarrow> msg_ok (ClipboardItem i)"
  by (auto simp: validate_item_def MAX_PAYLOAD_def)

lemma validate_chunk_iff: "validate_chunk c = Inr () \<longleftrightarrow> msg_ok (Chunk c)"
proof -
  have t: "unat MAX_CHUNKS = 16384" by (simp add: MAX_CHUNKS_def)
  have z: "ch_total c = 0 \<longleftrightarrow> unat (ch_total c) = 0" by (simp add: unat_eq_0)
  show ?thesis
    by (auto simp: validate_chunk_def MAX_CHUNK_DATA_def word_less_nat_alt word_le_nat_alt t z)
qed

lemma validate_resync_msg_iff: "validate_resync_msg hs = Inr () \<longleftrightarrow> validate_resync_hashes hs"
  by (auto simp: validate_resync_msg_def validate_resync_hashes_def list_ex_iff list_all_iff)

lemma validate_hello_iff: "validate_hello h = Inr () \<longleftrightarrow> msg_ok (Hello h)"
  by (auto simp: validate_hello_def list_ex_iff MAX_HELLO_NAME_def MAX_HELLO_PLATFORM_def
      MAX_HELLO_CAPS_def MAX_CAP_LEN_def not_less not_le)

lemma validate_iff: "validate f = Inr () \<longleftrightarrow> msg_ok (f_msg f)"
proof -
  have "validate_msg m = Inr () \<longleftrightarrow> msg_ok m" for m
    by (cases m)
      (auto simp: validate_item_iff validate_chunk_iff validate_resync_msg_iff
        validate_hello_iff validate_nak_def MAX_NAK_MISSING_def word_less_nat_alt not_less)
  then show ?thesis by (simp add: validate_def)
qed

lemma sum_unit_cases: "(r = Inr () \<Longrightarrow> P) \<Longrightarrow> (\<And>e. r = Inl e \<Longrightarrow> P) \<Longrightarrow> P"
  by (cases r) auto

lemma encode_Inr_iff:
  "encode ser f = Inr b \<longleftrightarrow> version f = PROTOCOL_VERSION \<and> msg_ok (f_msg f) \<and> ser f = Inr b"
  by (rule sum_unit_cases [of "validate f"])
    (auto simp: encode_def validate_iff [symmetric] split: sum.splits)

lemma decode_Inr_iff:
  "decode de b = Inr f \<longleftrightarrow> de b = Inr f \<and> version f = PROTOCOL_VERSION \<and> msg_ok (f_msg f)"
proof (cases "de b")
  case (Inl e)
  then show ?thesis by (simp add: decode_def)
next
  case (Inr g)
  show ?thesis
    by (rule sum_unit_cases [of "validate g"])
      (auto simp: decode_def Inr validate_iff [symmetric])
qed

text \<open>
  C31: The codec round trip. Whatever \<open>encode\<close> puts on the wire, \<open>decode\<close> gives back unchanged, as
  long as the CBOR library decodes what it encoded; and a frame is refused by \<open>encode\<close> exactly when
  its version or one of the field bounds is violated or the serializer fails.
\<close>

theorem codec_roundtrip:
  assumes cbor: "\<And>g out. ser g = Inr out \<Longrightarrow> de out = Inr g"
  shows "(encode ser f = Inr b \<longrightarrow> decode de b = Inr f)
    \<and> ((\<exists>e. encode ser f = Inl e) \<longleftrightarrow>
         \<not> (version f = PROTOCOL_VERSION \<and> msg_ok (f_msg f) \<and> (\<exists>out. ser f = Inr out)))"
proof
  show "encode ser f = Inr b \<longrightarrow> decode de b = Inr f"
    using cbor by (auto simp: encode_Inr_iff decode_Inr_iff)
  have "(\<exists>e. encode ser f = Inl e) \<longleftrightarrow> \<not> (\<exists>out. encode ser f = Inr out)"
    by (cases "encode ser f") auto
  then show "(\<exists>e. encode ser f = Inl e) \<longleftrightarrow>
      \<not> (version f = PROTOCOL_VERSION \<and> msg_ok (f_msg f) \<and> (\<exists>out. ser f = Inr out))"
    by (auto simp: encode_Inr_iff)
qed

text \<open>A concrete serializer for the witness: it knows the two frames \<open>Bye\<close> and \<open>Revoke\<close>.\<close>

definition demo_ser :: "frame \<Rightarrow> ustr + bytes" where
  "demo_ser f =
     (if f = \<lparr>version = PROTOCOL_VERSION, f_msg = Bye\<rparr> then Inr [1]
      else if f = \<lparr>version = PROTOCOL_VERSION, f_msg = Revoke\<rparr> then Inr [2]
      else Inl [])"

definition demo_de :: "bytes \<Rightarrow> ustr + frame" where
  "demo_de b =
     (if b = [1] then Inr \<lparr>version = PROTOCOL_VERSION, f_msg = Bye\<rparr>
      else if b = [2] then Inr \<lparr>version = PROTOCOL_VERSION, f_msg = Revoke\<rparr>
      else Inl [])"

lemma demo_cbor: "demo_ser g = Inr out \<Longrightarrow> demo_de out = Inr g"
  by (auto simp: demo_ser_def demo_de_def split: if_splits)

theorem codec_roundtrip_witness:
  "decode demo_de [2] = Inr \<lparr>version = PROTOCOL_VERSION, f_msg = Revoke\<rparr>"
  using codec_roundtrip [OF demo_cbor, where f = "\<lparr>version = PROTOCOL_VERSION, f_msg = Revoke\<rparr>" and b = "[2]"]
  by (simp add: encode_def validate_def demo_ser_def)



end
