(* ===== verification/File_Frame.thy ===== *)
theory File_Frame
  imports Text
begin

text \<open>
  The payload of a \<open>Kind::File\<close> item, \<open>fluxsync-proto/src/file.rs\<close>: name length (u16, big-endian),
  name (UTF-8), file bytes; and the sanitizer that makes a peer's file name safe to create.
\<close>

definition MAX_NAME :: nat where
  "MAX_NAME = 255"

text \<open>The separators \<open>/\<close> and backslash.\<close>

definition is_path_sep :: "uchar \<Rightarrow> bool" where
  "is_path_sep c \<longleftrightarrow> c = 47 \<or> c = 92"

text \<open>The characters Windows refuses in a name: \<open>: * ? " < > |\<close>.\<close>

definition is_forbidden :: "uchar \<Rightarrow> bool" where
  "is_forbidden c \<longleftrightarrow> is_control c \<or> c \<in> {58, 42, 63, 34, 60, 62, 124}"

text \<open>\<open>rsplit(..).next()\<close>: what follows the last separator.\<close>

definition base_name :: "ustr \<Rightarrow> ustr" where
  "base_name s = rev (takeWhile (\<lambda>c. \<not> is_path_sep c) (rev s))"

text \<open>\<open>while clean.len() > MAX_NAME { clean.pop(); }\<close>\<close>

lemma str_len_Nil [simp]: "str_len [] = 0"
  by (simp add: str_len_def as_bytes_def)

function pop_to_max :: "ustr \<Rightarrow> ustr" where
  "pop_to_max s = (if MAX_NAME < str_len s then pop_to_max (butlast s) else s)"
  by pat_completeness auto
termination
proof (relation "measure length")
  fix s :: ustr
  assume "MAX_NAME < str_len s"
  then have "s \<noteq> []" by auto
  then show "(butlast s, s) \<in> measure length" by simp
qed simp

declare pop_to_max.simps [simp del]

text \<open>
  \<open>stem\<close> is the name before it is cut to length: final component, forbidden characters (Unicode
  controls included) replaced by an underscore, trimmed, leading dots removed, \<open>file\<close> when nothing
  is left.
\<close>

definition mask_char :: "uchar \<Rightarrow> uchar" where
  "mask_char c = (if is_forbidden c then 95 else c)"

definition stem :: "ustr \<Rightarrow> ustr" where
  "stem name =
     (let clean = map mask_char (base_name name);
          clean = dropWhile (\<lambda>c. c = 46) (trim clean)
      in if clean = [] then lit ''file'' else clean)"

definition sanitize :: "ustr \<Rightarrow> ustr" where
  "sanitize name = pop_to_max (stem name)"

definition be16 :: "nat \<Rightarrow> bytes" where
  "be16 n = (let w = (of_nat n :: u16) in [of_nat (unat w div 256), of_nat (unat w mod 256)])"

definition file_encode :: "ustr \<Rightarrow> bytes \<Rightarrow> bytes" where
  "file_encode name b = (let name = sanitize name in be16 (str_len name) @ as_bytes name @ b)"

definition file_decode :: "bytes \<Rightarrow> (ustr \<times> bytes) option" where
  "file_decode p =
     (case p of
        b0 # b1 # rest \<Rightarrow>
          (let len = unat b0 * 256 + unat b1 in
           if length rest < len then None
           else case from_utf8 (take len rest) of
             None \<Rightarrow> None
           | Some name \<Rightarrow> Some (sanitize name, drop len rest))
      | _ \<Rightarrow> None)"

section \<open>Safe names\<close>

lemma pop_to_max_prefix: "\<exists>t. s = pop_to_max s @ t"
proof (induction s rule: pop_to_max.induct)
  case (1 s)
  show ?case
  proof (cases "MAX_NAME < str_len s")
    case True
    with 1 obtain t where t: "butlast s = pop_to_max (butlast s) @ t" by auto
    have "s \<noteq> []" using True by auto
    then have "s = pop_to_max (butlast s) @ t @ [last s]"
      using t by (metis append.assoc append_butlast_last_id)
    then show ?thesis using True by (simp add: pop_to_max.simps [of s]) blast
  next
    case False
    then show ?thesis by (simp add: pop_to_max.simps [of s])
  qed
qed

lemma pop_to_max_len: "str_len (pop_to_max s) \<le> MAX_NAME"
proof (induction s rule: pop_to_max.induct)
  case (1 s)
  then show ?case by (cases "MAX_NAME < str_len s") (simp_all add: pop_to_max.simps [of s])
qed

lemma length_utf8_char: "1 \<le> length (utf8_char c) \<and> length (utf8_char c) \<le> 4"
  by (simp add: utf8_char_def)

lemma str_len_snoc: "str_len (s @ [c]) \<le> str_len s + 4"
  using length_utf8_char [of c] by (simp add: str_len_def as_bytes_def)

lemma pop_to_max_nonempty: "s \<noteq> [] \<Longrightarrow> pop_to_max s \<noteq> []"
proof (induction s rule: pop_to_max.induct)
  case (1 s)
  show ?case
  proof (cases "MAX_NAME < str_len s")
    case True
    have "str_len s \<le> str_len (butlast s) + 4"
      using str_len_snoc [of "butlast s" "last s"] "1.prems" by simp
    with True have "butlast s \<noteq> []" by (auto simp: MAX_NAME_def)
    then show ?thesis using "1.IH" True by (simp add: pop_to_max.simps [of s])
  next
    case False
    then show ?thesis using "1.prems" by (simp add: pop_to_max.simps [of s])
  qed
qed

definition safe_name :: "ustr \<Rightarrow> bool" where
  "safe_name s \<longleftrightarrow>
     s \<noteq> [] \<and> hd s \<noteq> 46 \<and> str_len s \<le> MAX_NAME
     \<and> (\<forall>c\<in>set s. \<not> is_path_sep c \<and> \<not> is_forbidden c)"

lemma set_base_name: "set (base_name name) \<subseteq> set name" "\<forall>c\<in>set (base_name name). \<not> is_path_sep c"
  by (auto simp: base_name_def dest: set_takeWhileD)

lemma mask_char_ok: "\<not> is_path_sep c \<Longrightarrow> \<not> is_path_sep (mask_char c) \<and> \<not> is_forbidden (mask_char c)"
  by (auto simp: mask_char_def is_path_sep_def is_forbidden_def is_control_def)

lemma set_stem: "set (stem name) \<subseteq> mask_char ` set (base_name name) \<union> set (lit ''file'')"
proof -
  let ?m = "map mask_char (base_name name)"
  have "set (dropWhile (\<lambda>c. c = 46) (trim ?m)) \<subseteq> set ?m"
    using set_trim_subset [of ?m] by (blast dest: set_dropWhileD)
  then show ?thesis by (auto simp: stem_def Let_def)
qed

lemma lit_file_chars: "\<forall>c\<in>set (lit ''file''). \<not> is_path_sep c \<and> \<not> is_forbidden c \<and> scalar c"
  by (simp add: lit_def is_path_sep_def is_forbidden_def is_control_def scalar_def)

lemma stem_chars: "c \<in> set (stem name) \<Longrightarrow> \<not> is_path_sep c \<and> \<not> is_forbidden c"
  using set_stem [of name] set_base_name(2) [of name] mask_char_ok lit_file_chars by blast

lemma stem_hd: "stem name \<noteq> [] \<and> hd (stem name) \<noteq> 46"
proof -
  have "dropWhile (\<lambda>c. c = 46) m \<noteq> [] \<Longrightarrow> hd (dropWhile (\<lambda>c. c = 46) m) \<noteq> 46" for m :: ustr
    using hd_dropWhile [of "\<lambda>c. c = 46" m] by simp
  then show ?thesis by (simp add: stem_def Let_def lit_def)
qed

text \<open>
  A file name a peer sends cannot escape the downloads folder: whatever the name, the sanitized
  one is not empty, has no path separator, control or reserved character, does not start with a dot
  (so it is neither \<open>.\<close> nor \<open>..\<close> nor hidden) and is at most 255 bytes.
\<close>

theorem sanitize_safe: "safe_name (sanitize name)"
proof -
  obtain t where t: "stem name = sanitize name @ t"
    using pop_to_max_prefix [of "stem name"] by (auto simp: sanitize_def)
  have ne: "sanitize name \<noteq> []"
    using stem_hd [of name] by (simp add: sanitize_def pop_to_max_nonempty)
  have "hd (stem name) = hd (sanitize name)" using ne by (simp add: t)
  moreover have "set (sanitize name) \<subseteq> set (stem name)" by (simp add: t)
  moreover have "str_len (sanitize name) \<le> MAX_NAME" by (simp add: sanitize_def pop_to_max_len)
  ultimately show ?thesis
    using ne stem_hd [of name] stem_chars by (auto simp: safe_name_def)
qed

section \<open>Round trip\<close>

lemma base_name_id: "\<forall>c\<in>set s. \<not> is_path_sep c \<Longrightarrow> base_name s = s"
  unfolding base_name_def by (subst takeWhile_eq_all_conv [THEN iffD2]) auto

lemma pop_to_max_id: "str_len s \<le> MAX_NAME \<Longrightarrow> pop_to_max s = s"
  by (subst pop_to_max.simps) simp

lemma sanitize_id:
  assumes "safe_name s" and "\<not> is_whitespace (hd s)" and "\<not> is_whitespace (last s)"
  shows "sanitize s = s"
proof -
  have "map mask_char s = s"
    using assms(1) by (intro map_idI) (simp add: safe_name_def mask_char_def)
  moreover have "base_name s = s" using assms(1) by (intro base_name_id) (simp add: safe_name_def)
  moreover have "trim s = s" using assms(2,3) by (intro trim_id) simp
  moreover have "dropWhile (\<lambda>c. c = 46) s = s"
    using assms(1) by (cases s) (auto simp: safe_name_def)
  moreover have "s \<noteq> []" using assms(1) by (simp add: safe_name_def)
  ultimately have "stem s = s" by (simp only: stem_def Let_def if_False)
  then show ?thesis using assms(1) by (simp add: sanitize_def pop_to_max_id safe_name_def)
qed

lemma be16_value:
  assumes "n < 65536"
  shows "\<exists>b0 b1. be16 n = [b0, b1] \<and> unat b0 * 256 + unat b1 = n"
proof -
  have w: "unat (of_nat n :: u16) = n" using assms by (simp add: unat_of_nat)
  have "n div 256 < 256" using assms by auto
  then have "unat (of_nat (n div 256) :: u8) = n div 256" by (simp add: unat_of_nat8)
  moreover have "unat (of_nat (n mod 256) :: u8) = n mod 256" by (simp add: unat_of_nat8)
  ultimately show ?thesis
    by (simp add: be16_def w Let_def del: unat_of_nat)
qed

lemma valid_sanitize: "valid_str name \<Longrightarrow> valid_str (sanitize name)"
proof -
  assume v: "valid_str name"
  have m: "scalar c \<Longrightarrow> scalar (mask_char c)" for c
    by (simp add: mask_char_def scalar_def)
  have "\<forall>c\<in>set (base_name name). scalar c"
    using v set_base_name(1) [of name] by (auto simp: valid_str_def list_all_iff)
  then have "\<forall>c\<in>set (stem name). scalar c"
    using set_stem [of name] m lit_file_chars by blast
  moreover have "set (sanitize name) \<subseteq> set (stem name)"
    using pop_to_max_prefix [of "stem name"] by (metis set_append sup_ge1 sanitize_def)
  ultimately show ?thesis by (auto simp: valid_str_def list_all_iff)
qed

text \<open>
  A framed file decodes to its exact bytes, under the name it was framed with put through the
  sanitizer once more on the receiving side; a clean name comes back unchanged.
\<close>

theorem file_frame_roundtrip:
  assumes "valid_str name"
  shows "file_decode (file_encode name b) = Some (sanitize (sanitize name), b)
    \<and> (safe_name name \<and> \<not> is_whitespace (hd name) \<and> \<not> is_whitespace (last name) \<longrightarrow>
         file_decode (file_encode name b) = Some (name, b))"
proof -
  have len: "str_len (sanitize name) < 65536"
    using sanitize_safe [of name] by (simp add: safe_name_def MAX_NAME_def)
  then obtain b0 b1 where h: "be16 (str_len (sanitize name)) = [b0, b1]"
      "unat b0 * 256 + unat b1 = str_len (sanitize name)"
    using be16_value by blast
  have "file_decode (file_encode name b) = Some (sanitize (sanitize name), b)"
    using valid_sanitize [OF assms]
    by (simp add: file_encode_def file_decode_def h Let_def str_len_def [symmetric]
        from_utf8_as_bytes)
  then show ?thesis by (simp add: sanitize_id)
qed

theorem file_frame_roundtrip_witness:
  "file_decode (file_encode (lit ''report.pdf'') [37, 80, 68, 70]) =
     Some (lit ''report.pdf'', [37, 80, 68, 70])"
proof -
  have v: "valid_str (lit ''report.pdf'')" by (simp add: valid_str_def lit_def scalar_def)
  have s: "safe_name (lit ''report.pdf'')"
    by (simp add: safe_name_def lit_def is_path_sep_def is_forbidden_def is_control_def str_len_def
        as_bytes_def utf8_char_def MAX_NAME_def)
  have w: "\<not> is_whitespace (hd (lit ''report.pdf'')) \<and> \<not> is_whitespace (last (lit ''report.pdf''))"
    by (simp add: lit_def is_whitespace_def)
  show ?thesis
    using file_frame_roundtrip [OF v, of "[37, 80, 68, 70]"] s w by blast
qed

text \<open>
  The sanitizer is not idempotent: it strips leading dots after trimming, which can expose a space
  that a second pass removes. The receiver runs it again, so sender and receiver may show different
  names for such a file.
\<close>

lemma sanitize_not_idempotent:
  "sanitize (lit ''. x'') = lit '' x'' \<and> sanitize (sanitize (lit ''. x'')) = lit ''x''"
  by (simp add: sanitize_def stem_def mask_char_def base_name_def lit_def is_path_sep_def is_forbidden_def is_control_def
      trim_def trim_start_def trim_end_def is_whitespace_def pop_to_max_id str_len_def as_bytes_def
      utf8_char_def MAX_NAME_def Let_def)

end
