(* ===== verification/Policy.thy ===== *)
theory Policy
  imports Wire
begin

text \<open>
  The clipboard firewall of \<open>fluxsync-core/src/policy.rs\<close>: one rule per content type, and a rule for
  detected secrets that is applied on top of it. \<open>status_for\<close>, which reads the whole \<open>State\<close>, is in the
  theory of that record.
\<close>

datatype rule = Allow | Ask | Deny

fun severity :: "rule \<Rightarrow> u8" where
  "severity Allow = 0"
| "severity Ask = 1"
| "severity Deny = 2"

definition stricter :: "rule \<Rightarrow> rule \<Rightarrow> rule" where
  "stricter r r' = (if severity r < severity r' then r' else r)"

datatype direction = Inbound | Outbound

datatype decision = Pass | Defer | Block

record firewall_policy =
  enabled :: bool
  p_text :: rule
  p_url :: rule
  p_code :: rule
  p_image :: rule
  p_sensitive :: rule

definition policy_default :: firewall_policy where
  "policy_default = \<lparr>enabled = False, p_text = Allow, p_url = Allow, p_code = Allow,
     p_image = Allow, p_sensitive = Deny\<rparr>"

definition ask_to_deny :: "rule \<Rightarrow> rule" where
  "ask_to_deny r = (if r = Ask then Deny else r)"

definition normalized :: "firewall_policy \<Rightarrow> firewall_policy" where
  "normalized p = \<lparr>enabled = enabled p, p_text = ask_to_deny (p_text p), p_url = ask_to_deny (p_url p),
     p_code = ask_to_deny (p_code p), p_image = ask_to_deny (p_image p),
     p_sensitive = ask_to_deny (p_sensitive p)\<rparr>"

fun rule_for :: "firewall_policy \<Rightarrow> kind \<Rightarrow> rule" where
  "rule_for p Text = p_text p"
| "rule_for p Url = p_url p"
| "rule_for p Code = p_code p"
| "rule_for p Image = p_image p"
| "rule_for p File = p_image p"

definition decide :: "firewall_policy \<Rightarrow> kind \<Rightarrow> bool \<Rightarrow> direction \<Rightarrow> decision" where
  "decide p k sens dir =
     (if \<not> enabled p then Pass
      else let r = rule_for p k;
               r' = (if sens then stricter r (p_sensitive p) else r)
           in case r' of Allow \<Rightarrow> Pass | Ask \<Rightarrow> Defer | Deny \<Rightarrow> Block)"

section \<open>What the rules promise\<close>

text \<open>The verdicts in order of strictness, as the documentation of the policy orders them.\<close>

fun strictness :: "decision \<Rightarrow> nat" where
  "strictness Pass = 0"
| "strictness Defer = 1"
| "strictness Block = 2"

definition verdict :: "rule \<Rightarrow> decision" where
  "verdict r = (case r of Allow \<Rightarrow> Pass | Ask \<Rightarrow> Defer | Deny \<Rightarrow> Block)"

lemma decide_enabled:
  "enabled p \<Longrightarrow>
     decide p k sens dir =
       verdict (if sens then stricter (rule_for p k) (p_sensitive p) else rule_for p k)"
  by (simp add: decide_def verdict_def Let_def)

lemma strictness_stricter:
  "strictness (verdict (stricter r r')) = max (strictness (verdict r)) (strictness (verdict r'))"
  by (cases r; cases r') (simp_all add: stricter_def verdict_def)

lemma verdict_not_defer: "r \<noteq> Ask \<Longrightarrow> verdict r \<noteq> Defer"
  by (cases r) (simp_all add: verdict_def)

lemma rule_for_normalized: "rule_for (normalized p) k = ask_to_deny (rule_for p k)"
  by (cases k) (simp_all add: normalized_def)

lemma ask_to_deny_not_ask [simp]: "ask_to_deny r \<noteq> Ask"
  by (simp add: ask_to_deny_def)

lemma strictness_ask_to_deny: "strictness (verdict r) \<le> strictness (verdict (ask_to_deny r))"
  by (cases r) (simp_all add: verdict_def ask_to_deny_def)

lemma stricter_cases: "stricter r r' = r \<or> stricter r r' = r'"
  by (simp add: stricter_def)

lemma normalized_idem: "normalized (normalized p) = normalized p"
  by (simp add: normalized_def ask_to_deny_def)

lemma decide_disabled [simp]: "\<not> enabled p \<Longrightarrow> decide p k sens dir = Pass"
  by (simp add: decide_def)

lemma sensitive_strictness:
  "enabled p \<Longrightarrow> strictness (decide p k True dir) =
     max (strictness (decide p k False dir)) (strictness (verdict (p_sensitive p)))"
  by (simp add: decide_enabled strictness_stricter)

text \<open>
  The secrets rule only tightens: marking an item sensitive never loosens the verdict its content type
  has, and (with the firewall on) never leaves it looser than the secrets rule itself.
  Migrating a policy that still holds an \<open>Ask\<close> never holds an item back for a question any more, and
  never lets through what the old policy did not let through.
\<close>

theorem firewall_only_tightens:
  "strictness (decide p k False dir) \<le> strictness (decide p k True dir)
   \<and> strictness (decide p k sens dir) \<le> strictness (decide (normalized p) k sens dir)
   \<and> decide (normalized p) k sens dir \<noteq> Defer"
proof (intro conjI)
  show "strictness (decide p k False dir) \<le> strictness (decide p k True dir)"
    by (cases "enabled p") (simp_all add: sensitive_strictness)
  have on: "enabled (normalized p) = enabled p"
    and ps: "p_sensitive (normalized p) = ask_to_deny (p_sensitive p)"
    by (simp_all add: normalized_def)
  show "strictness (decide p k sens dir) \<le> strictness (decide (normalized p) k sens dir)"
    using strictness_ask_to_deny [of "rule_for p k"] strictness_ask_to_deny [of "p_sensitive p"]
    by (cases "enabled p") (simp_all add: on decide_enabled strictness_stricter rule_for_normalized ps
      max.coboundedI1 max.coboundedI2)
  have "(if sens then stricter (rule_for (normalized p) k) (p_sensitive (normalized p))
         else rule_for (normalized p) k) \<noteq> Ask"
    using stricter_cases [of "rule_for (normalized p) k" "p_sensitive (normalized p)"]
    by (auto simp: rule_for_normalized ps)
  then show "decide (normalized p) k sens dir \<noteq> Defer"
    by (cases "enabled p") (simp_all add: on decide_enabled verdict_not_defer)
qed

end
