(* ===== verification/Hex.thy ===== *)
theory Hex
  imports Text
begin

text \<open>
  The hexadecimal names of content hashes and peer ids: \<open>hex32\<close> and \<open>hex32_decode\<close> of
  \<open>fluxsync-core/src/app.rs\<close>. A hash travels as 32 bytes on the wire and as 64 lowercase digits in the
  state, in the parking lot and in the vault; every lookup by name rests on \<open>hex32\<close> being injective.
\<close>

text \<open>\<open>char::from_digit(d, 16)\<close> for \<open>d < 16\<close> and \<open>char::to_digit(16)\<close>, which also reads capitals.\<close>

definition from_digit16 :: "nat \<Rightarrow> uchar" where
  "from_digit16 d = (if d < 10 then 48 + d else 87 + d)"

definition to_digit16 :: "uchar \<Rightarrow> nat option" where
  "to_digit16 c =
     (if 48 \<le> c \<and> c \<le> 57 then Some (c - 48)
      else if 97 \<le> c \<and> c \<le> 102 then Some (c - 87)
      else if 65 \<le> c \<and> c \<le> 70 then Some (c - 55)
      else None)"

definition hex32 :: "bytes \<Rightarrow> ustr" where
  "hex32 bs = concat (map (\<lambda>b. [from_digit16 (unat b div 16), from_digit16 (unat b mod 16)]) bs)"

text \<open>
  \<open>hex32_decode\<close> reads the bytes of the string two at a time; a byte is read as the character of its
  code.
\<close>

fun decode_pairs :: "bytes \<Rightarrow> bytes option" where
  "decode_pairs (a # b # rest) =
     (case (to_digit16 (unat a), to_digit16 (unat b)) of
        (Some hi, Some lo) \<Rightarrow> map_option ((#) (of_nat (hi * 16 + lo))) (decode_pairs rest)
      | _ \<Rightarrow> None)"
| "decode_pairs _ = Some []"

definition hex32_decode :: "ustr \<Rightarrow> bytes32 option" where
  "hex32_decode s = (if str_len s \<noteq> 64 then None else decode_pairs (as_bytes s))"

lemma from_digit16_range: "d < 16 \<Longrightarrow> from_digit16 d < 128 \<and> 48 \<le> from_digit16 d"
  by (simp add: from_digit16_def)

lemma from_digit16_ascii:
  "d < 16 \<Longrightarrow>
     48 \<le> from_digit16 d \<and> from_digit16 d \<le> 57 \<or> 97 \<le> from_digit16 d \<and> from_digit16 d \<le> 102"
  by (auto simp: from_digit16_def)

lemma to_from_digit16: "d < 16 \<Longrightarrow> to_digit16 (from_digit16 d) = Some d"
  by (simp add: from_digit16_def to_digit16_def)

lemma unat_byte_split: "unat (b :: u8) div 16 < 16" "unat b mod 16 < 16"
proof -
  have "unat b < 256" using unsigned_less [of b, where ?'a = nat] by simp
  then show "unat b div 16 < 16" by (simp add: less_mult_imp_div_less)
qed simp

lemma unat_digit_byte: "d < 16 \<Longrightarrow> unat (of_nat (from_digit16 d) :: u8) = from_digit16 d"
  using from_digit16_range [of d] by (simp add: unat_of_nat8)

lemma utf8_digit: "d < 16 \<Longrightarrow> utf8_char (from_digit16 d) = [of_nat (from_digit16 d)]"
  using from_digit16_range [of d] by (simp add: utf8_char_def)

lemma hex32_Nil [simp]: "hex32 [] = []"
  by (simp add: hex32_def)

lemma hex32_Cons:
  "hex32 (b # bs) = from_digit16 (unat b div 16) # from_digit16 (unat b mod 16) # hex32 bs"
  by (simp add: hex32_def)

lemma as_bytes_hex32_Cons:
  "as_bytes (hex32 (b # bs)) =
     of_nat (from_digit16 (unat b div 16)) # of_nat (from_digit16 (unat b mod 16)) # as_bytes (hex32 bs)"
  by (simp add: hex32_Cons as_bytes_def utf8_digit unat_byte_split)

lemma decode_pairs_hex32: "decode_pairs (as_bytes (hex32 bs)) = Some bs"
proof (induction bs)
  case Nil
  then show ?case by (simp add: as_bytes_def)
next
  case (Cons b bs)
  have "of_nat (unat b div 16 * 16 + unat b mod 16) = b"
    by (simp only: div_mult_mod_eq) simp
  then show ?case
    using Cons by (simp add: as_bytes_hex32_Cons unat_digit_byte unat_byte_split to_from_digit16)
qed

lemma str_len_hex32: "str_len (hex32 bs) = 2 * length bs"
proof (induction bs)
  case Nil
  then show ?case by (simp add: str_len_def as_bytes_def)
next
  case (Cons b bs)
  then show ?case by (simp add: str_len_def as_bytes_hex32_Cons)
qed

lemma hex32_inj: "hex32 a = hex32 b \<longleftrightarrow> a = b"
  by (metis decode_pairs_hex32 option.inject)

lemma length_hex32: "length (hex32 bs) = 2 * length bs"
  by (induction bs) (simp_all add: hex32_Cons)

lemma hex32_chars: "c \<in> set (hex32 bs) \<Longrightarrow> 48 \<le> c \<and> c \<le> 57 \<or> 97 \<le> c \<and> c \<le> 102"
proof (induction bs)
  case Nil
  then show ?case by simp
next
  case (Cons b bs)
  from Cons.prems consider "c = from_digit16 (unat b div 16)" | "c = from_digit16 (unat b mod 16)"
    | "c \<in> set (hex32 bs)"
    unfolding hex32_Cons by (meson set_ConsD)
  then show ?case
  proof cases
    case 1
    show ?thesis unfolding 1 by (rule from_digit16_ascii) (rule unat_byte_split)
  next
    case 2
    show ?thesis unfolding 2 by (rule from_digit16_ascii) (rule unat_byte_split)
  next
    case 3
    then show ?thesis by (rule Cons.IH)
  qed
qed

lemma decode_hex32: "is32 h \<Longrightarrow> hex32_decode (hex32 h) = Some h"
  by (simp add: hex32_decode_def str_len_hex32 is32_def decode_pairs_hex32)

text \<open>Everything accepted is a name of 32 bytes.\<close>

lemma decode_pairs_length: "decode_pairs bs = Some out \<Longrightarrow> length out = length bs div 2"
  by (induction bs arbitrary: out rule: decode_pairs.induct) (auto split: option.splits)

text \<open>
  The hexadecimal names are faithful: decoding the name of a hash gives the hash back, different hashes
  have different names, and whatever is accepted by the decoder is a full 32-byte value.
\<close>

theorem hex32_roundtrip:
  assumes "is32 h" and "is32 h'"
  shows "hex32_decode (hex32 h) = Some h \<and> (hex32 h = hex32 h' \<longleftrightarrow> h = h')
         \<and> (\<forall>s out. hex32_decode s = Some out \<longrightarrow> is32 out)"
proof (intro conjI allI impI)
  show "hex32_decode (hex32 h) = Some h" by (rule decode_hex32 [OF assms(1)])
  show "hex32 h = hex32 h' \<longleftrightarrow> h = h'" by (rule hex32_inj)
  show "is32 out" if "hex32_decode s = Some out" for s out
    using that decode_pairs_length [of "as_bytes s" out]
    by (simp add: hex32_decode_def is32_def str_len_def split: if_splits)
qed

theorem hex32_roundtrip_witness:
  "hex32_decode (hex32 zero32) = Some zero32 \<and> hex32 (replicate 32 255) \<noteq> hex32 zero32"
proof -
  have *: "is32 zero32" "is32 (replicate 32 255)" "replicate 32 (255 :: u8) \<noteq> zero32"
    by (simp_all add: is32_def zero32_def)
  show ?thesis
    using hex32_roundtrip [OF *(1) *(2)] *(3) by auto
qed

end
