(* ===== verification/Core_State.thy ===== *)
theory Core_State
  imports Policy Ids
begin

text \<open>
  The data the daemon's core keeps and publishes: \<open>fluxsync-core/src/state.rs\<close>, with the error type
  of \<open>error.rs\<close>, the phase of \<open>fsm.rs\<close> and \<open>status_for\<close> of \<open>policy.rs\<close>.
\<close>

section \<open>Rows of the state\<close>

datatype phase = Idle | Discovering | Handshaking | Linked

datatype history_source = Local | Remote

datatype status = Inactive | Syncing

datatype disconnect_reason =
  HeartbeatTimeout | NetworkChangedReason | DecryptFailure | PeerSentBye | IpcShutdown
  | UnknownTransportError

datatype core_error =
    CoreBatteryLevel u8
  | InvalidRetention u64
  | InvalidDeviceName ustr

record history_item =
  hi_kind :: kind
  hi_preview :: ustr
  hi_time :: ustr
  hi_source :: history_source
  hi_sensitive :: bool
  hi_lamport :: u64
  hi_hash :: ustr
  favorite :: bool
  hi_resync :: bool
  source_peer_id :: "ustr option"
  created_ms :: millis

record pending_item =
  pi_hash :: ustr
  pi_kind :: kind
  pi_preview :: ustr
  pi_sensitive :: bool
  pi_direction :: direction
  pi_peer_id :: "ustr option"

record peer_info =
  pr_peer_id :: bytes32
  pr_name :: ustr
  pr_platform :: ustr
  pr_battery :: u8
  pr_charging :: bool
  pr_primary :: bool
  pr_caps :: "ustr list"

record paired_device =
  pd_peer_id :: bytes32
  pd_name :: ustr
  pd_platform :: ustr
  pd_online :: bool
  pd_primary :: bool
  pd_battery :: u8
  pd_charging :: bool

record connection_metrics =
  handshakes_total :: u64
  handshakes_failed :: u64
  heartbeats_sent :: u64
  heartbeats_received :: u64
  heartbeats_missed_consecutive :: u8
  last_rtt_ms :: u32
  rtt_p99_ms :: u32
  network_changes :: u64
  reconnects :: u64
  decrypt_failures :: u64
  dedup_drops :: u64
  last_disconnect_reason :: "disconnect_reason option"
  uptime_session_secs :: u64
  items_sent :: u64
  items_received :: u64
  items_resynced :: u64
  resync_applies_suppressed :: u64
  rekeys :: u64

record config =
  peer_name_self :: ustr
  cfg_version :: ustr
  cfg_build_id :: ustr
  cfg_cipher :: ustr
  cfg_firewall :: firewall_policy
  cfg_mdns_enabled :: bool

section \<open>The state\<close>

record state =
  st_phase :: ustr
  on :: bool
  battery_level :: u8
  charging :: bool
  peer_id :: bytes32
  peer_name :: ustr
  trusted_peer_name :: "ustr option"
  device_name :: ustr
  peer_platform :: ustr
  peer_caps :: "ustr list"
  peer_battery :: u8
  peer_charging :: bool
  peers :: "peer_info list"
  paired :: "paired_device list"
  history :: "history_item list"
  st_status :: status
  st_version :: ustr
  build_id :: ustr
  link_latency_ms :: u32
  cipher :: ustr
  metrics :: "connection_metrics option"
  firewall :: firewall_policy
  pending :: "pending_item list"
  vault_wipe_gen :: u64
  history_retention_secs :: u64
  delivered :: "(ustr, ustr list) btree"
  mdns_enabled :: bool
  sas_phase :: ustr
  sas_peer :: "bytes32 option"

definition HISTORY_RETENTION_CHOICES :: "u64 list" where
  "HISTORY_RETENTION_CHOICES = [3600, 86400, 7 * 86400, 0]"

definition DEFAULT_HISTORY_RETENTION_SECS :: u64 where
  "DEFAULT_HISTORY_RETENTION_SECS = 86400"

text \<open>The strings of \<open>State.phase\<close> and \<open>State.sas_phase\<close>.\<close>

fun phase_str :: "phase \<Rightarrow> ustr" where
  "phase_str Idle = lit ''idle''"
| "phase_str Discovering = lit ''discovering''"
| "phase_str Handshaking = lit ''handshaking''"
| "phase_str Linked = lit ''linked''"

definition sas_idle :: ustr where "sas_idle = lit ''idle''"
definition sas_showing :: ustr where "sas_showing = lit ''showing''"
definition sas_peer_confirmed :: ustr where "sas_peer_confirmed = lit ''peer_confirmed''"
definition sas_local_confirmed :: ustr where "sas_local_confirmed = lit ''local_confirmed''"
definition sas_confirmed :: ustr where "sas_confirmed = lit ''confirmed''"
definition sas_peer_rejected :: ustr where "sas_peer_rejected = lit ''peer_rejected''"

lemmas sas_phase_defs =
  sas_idle_def sas_showing_def sas_peer_confirmed_def sas_local_confirmed_def sas_confirmed_def
  sas_peer_rejected_def

lemma sas_phase_neqs [simp]:
  "sas_idle \<noteq> sas_showing" "sas_idle \<noteq> sas_peer_confirmed" "sas_idle \<noteq> sas_local_confirmed"
  "sas_idle \<noteq> sas_confirmed" "sas_idle \<noteq> sas_peer_rejected"
  "sas_showing \<noteq> sas_idle" "sas_showing \<noteq> sas_peer_confirmed" "sas_showing \<noteq> sas_local_confirmed"
  "sas_showing \<noteq> sas_confirmed" "sas_showing \<noteq> sas_peer_rejected"
  "sas_peer_confirmed \<noteq> sas_idle" "sas_peer_confirmed \<noteq> sas_showing" "sas_peer_confirmed \<noteq> sas_local_confirmed"
  "sas_peer_confirmed \<noteq> sas_confirmed" "sas_peer_confirmed \<noteq> sas_peer_rejected"
  "sas_local_confirmed \<noteq> sas_idle" "sas_local_confirmed \<noteq> sas_showing" "sas_local_confirmed \<noteq> sas_peer_confirmed"
  "sas_local_confirmed \<noteq> sas_confirmed" "sas_local_confirmed \<noteq> sas_peer_rejected"
  "sas_confirmed \<noteq> sas_idle" "sas_confirmed \<noteq> sas_showing" "sas_confirmed \<noteq> sas_peer_confirmed"
  "sas_confirmed \<noteq> sas_local_confirmed" "sas_confirmed \<noteq> sas_peer_rejected"
  "sas_peer_rejected \<noteq> sas_idle" "sas_peer_rejected \<noteq> sas_showing" "sas_peer_rejected \<noteq> sas_peer_confirmed"
  "sas_peer_rejected \<noteq> sas_local_confirmed" "sas_peer_rejected \<noteq> sas_confirmed"
  by (simp_all add: sas_phase_defs lit_def)

lemma phase_str_inj: "phase_str a = phase_str b \<longleftrightarrow> a = b"
  by (cases a; cases b) (simp_all add: lit_def)

definition initial :: "config \<Rightarrow> state" where
  "initial c =
     \<lparr>st_phase = lit ''idle'', on = False, battery_level = 255, charging = False,
      peer_id = zero32, peer_name = [], trusted_peer_name = None,
      device_name = peer_name_self c, peer_platform = [], peer_caps = [],
      peer_battery = 255, peer_charging = False, peers = [], paired = [], history = [],
      st_status = Inactive, st_version = cfg_version c, build_id = cfg_build_id c,
      link_latency_ms = 0, cipher = cfg_cipher c, metrics = None, firewall = cfg_firewall c,
      pending = [], vault_wipe_gen = 0, history_retention_secs = DEFAULT_HISTORY_RETENTION_SECS,
      delivered = [], mdns_enabled = cfg_mdns_enabled c, sas_phase = sas_idle, sas_peer = None\<rparr>"

definition set_self_battery :: "u8 \<Rightarrow> bool \<Rightarrow> state \<Rightarrow> core_error + state" where
  "set_self_battery level ch s =
     (if 100 < level then Inl (CoreBatteryLevel level)
      else Inr (s\<lparr>battery_level := level, charging := ch\<rparr>))"

definition status_for :: "state \<Rightarrow> status" where
  "status_for s = (if on s then Syncing else Inactive)"

text \<open>\<open>Config::default\<close>; the version string comes from the build.\<close>

definition config_default :: "ustr \<Rightarrow> config" where
  "config_default pkg_version =
     \<lparr>peer_name_self = lit ''this device'', cfg_version = pkg_version, cfg_build_id = lit ''unknown'',
      cfg_cipher = lit ''chacha20-poly1305'', cfg_firewall = policy_default,
      cfg_mdns_enabled = True\<rparr>"

end
