(* ===== verification/Events.thy ===== *)
theory Events
  imports Core_State
begin

text \<open>
  What goes into and comes out of the core: the events, the actions and the log lines of
  \<open>fluxsync-core/src/events.rs\<close>.
\<close>

datatype log_level = LvOk | LvInfo | LvSync | LvWarn | LvErr

datatype log_entry = LogEntry (log_level: log_level) (log_msg: ustr)

definition log_ok :: "ustr \<Rightarrow> log_entry" where "log_ok m = LogEntry LvOk m"
definition log_info :: "ustr \<Rightarrow> log_entry" where "log_info m = LogEntry LvInfo m"
definition log_warn :: "ustr \<Rightarrow> log_entry" where "log_warn m = LogEntry LvWarn m"

text \<open>The fields of the two clipboard events.\<close>

record local_change =
  lc_hash :: bytes32
  lc_kind :: kind
  lc_payload :: bytes
  lc_preview :: ustr
  lc_sensitive :: bool
  lc_lamport :: u64

record clip_frame =
  fr_hash :: bytes32
  fr_kind :: kind
  fr_payload :: bytes
  fr_preview :: ustr
  fr_sensitive :: bool
  fr_lamport :: u64
  fr_resync :: bool
  fr_peer_id :: bytes32

datatype event =
    ToggleOn
  | ToggleOff
  | PeerSeen bytes32 ustr
  | PeerPlatform ustr
  | PeerCaps "ustr list"
  | PeerLost bytes32
  | HandshakeOk
  | HandshakeTimeout
  | SetTrustedPeer ustr
  | UntrustedPeerSeen ustr
  | GhostTimeout
  | ManualUnpair
  | NetworkChanged
  | BatteryChangedSelf u8 bool
  | BatteryChangedPeer u8 bool
  | LocalClipboardChange local_change
  | FrameReceivedClipboard clip_frame
  | Reconnect
  | MeshPeersChanged
  | PrimaryFailover bytes32 ustr ustr "ustr list"
  | SetFavorite ustr bool
  | ClearHistory bool
  | ResolvePending ustr bool
  | SasPairingStarted bytes32
  | SasLocalConfirmed bytes32
  | SasPeerConfirmed bytes32
  | SasPeerRejected bytes32
  | SasReset
  | PeerRevoked bytes32

datatype action =
    StartDiscovery
  | StopDiscovery
  | SendHandshake bytes32
  | DropPeer
  | OpenSession
  | CloseSession
  | SendItem bytes32 kind bytes bool
  | AckItem bytes32
  | WriteClipboard kind bytes bool
  | EmitState
  | EmitLog log_entry
  | BurstReplay
  | SendBattery u8 bool
  | DuplicateDropped
  | ResyncApplySuppressed
  | PendingDropped "bytes32 list"

definition is_send_item :: "action \<Rightarrow> bool" where
  "is_send_item a = (case a of SendItem _ _ _ _ \<Rightarrow> True | _ \<Rightarrow> False)"

definition is_write :: "action \<Rightarrow> bool" where
  "is_write a = (case a of WriteClipboard _ _ _ \<Rightarrow> True | _ \<Rightarrow> False)"

lemma is_send_item_simps [simp]:
  "is_send_item (SendItem h k b s)" "\<not> is_send_item (WriteClipboard k b s)" "\<not> is_send_item (AckItem h)"
  "\<not> is_send_item EmitState" "\<not> is_send_item DuplicateDropped" "\<not> is_send_item (EmitLog l)"
  "\<not> is_send_item ResyncApplySuppressed" "\<not> is_send_item (PendingDropped hs)"
  "\<not> is_send_item (SendBattery lv c)" "\<not> is_send_item StartDiscovery" "\<not> is_send_item StopDiscovery"
  "\<not> is_send_item (SendHandshake p)" "\<not> is_send_item DropPeer" "\<not> is_send_item OpenSession"
  "\<not> is_send_item CloseSession" "\<not> is_send_item BurstReplay"
  by (simp_all add: is_send_item_def)

lemma is_write_simps [simp]:
  "is_write (WriteClipboard k b s)" "\<not> is_write (SendItem h k b s)" "\<not> is_write (AckItem h)"
  "\<not> is_write EmitState" "\<not> is_write DuplicateDropped" "\<not> is_write (EmitLog l)"
  "\<not> is_write ResyncApplySuppressed" "\<not> is_write (PendingDropped hs)"
  "\<not> is_write (SendBattery lv c)" "\<not> is_write StartDiscovery" "\<not> is_write StopDiscovery"
  "\<not> is_write (SendHandshake p)" "\<not> is_write DropPeer" "\<not> is_write OpenSession"
  "\<not> is_write CloseSession" "\<not> is_write BurstReplay"
  by (simp_all add: is_write_def)

end
