(* ===== verification/Fsm.thy ===== *)
theory Fsm
  imports Events
begin

text \<open>
  The pure transition function of \<open>fluxsync-core/src/fsm.rs\<close>. The arms stand in the order of the
  source's \<open>match\<close>: the two global arms first, then each event. A pair with no arm of its own keeps the
  phase and produces no action.
\<close>

text \<open>Decimal numerals in log lines.\<close>

fun show_nat :: "nat \<Rightarrow> ustr" where
  "show_nat n = (if n < 10 then [48 + n] else show_nat (n div 10) @ [48 + n mod 10])"

declare show_nat.simps [simp del]

definition div_ceil :: "nat \<Rightarrow> nat \<Rightarrow> nat" where
  "div_ceil a b = (a + (b - 1)) div b"

text \<open>The dash U+2014 of the log lines.\<close>

definition em_dash :: ustr where
  "em_dash = [8212]"

definition received_label :: "kind \<Rightarrow> bytes \<Rightarrow> ustr \<Rightarrow> ustr" where
  "received_label k payload preview =
     (case k of
        Image \<Rightarrow> lit ''Clipboard updated '' @ em_dash @ lit '' image, ''
                   @ show_nat (div_ceil (length payload) 1024) @ lit '' KB from peer.''
      | File \<Rightarrow> lit ''File received '' @ em_dash @ lit '' ''
                   @ show_nat (div_ceil (length payload) 1024) @ lit '' KB from peer.''
      | _ \<Rightarrow> lit ''Clipboard updated '' @ em_dash @ lit '' '' @ show_nat (length preview)
                   @ lit '' chars from peer.'')"

fun transition :: "phase \<Rightarrow> event \<Rightarrow> phase \<times> action list" where
  "transition ph ToggleOff =
     (Idle, [CloseSession, StopDiscovery, EmitState, EmitLog (log_info (lit ''Sync turned off.''))])"
| "transition ph ManualUnpair =
     (Idle, [CloseSession, StopDiscovery, DropPeer, EmitState,
        EmitLog (log_info (lit ''Unpaired from peer.''))])"
| "transition ph ToggleOn =
     (case ph of
        Idle \<Rightarrow> (Discovering, [StartDiscovery, EmitState,
                   EmitLog (log_info (lit ''Sync turned on. Looking for peers.''))])
      | _ \<Rightarrow> (ph, []))"
| "transition ph (PeerSeen p name) =
     (case ph of
        Discovering \<Rightarrow> (Handshaking, [SendHandshake p,
          EmitLog (log_info (lit ''Discovered peer '' @ [34] @ name @ [34] @ lit ''.''))])
      | Handshaking \<Rightarrow> (Handshaking, [])
      | Linked \<Rightarrow> (Linked, [EmitState, EmitLog (log_ok (lit ''Peer identity confirmed.''))])
      | Idle \<Rightarrow> (Idle, []))"
| "transition ph NetworkChanged =
     (case ph of
        Discovering \<Rightarrow> (Discovering, [StopDiscovery, StartDiscovery,
          EmitLog (log_warn (lit ''Network changed. Searching again.''))])
      | Linked \<Rightarrow> (Linked, [])
      | Handshaking \<Rightarrow> (Discovering, [StartDiscovery])
      | Idle \<Rightarrow> (Idle, []))"
| "transition ph (UntrustedPeerSeen name) =
     (Discovering, [DropPeer, EmitState,
        EmitLog (log_warn (lit ''Peer cryptographic mismatch detected. Unpairing.'')), StartDiscovery])"
| "transition ph GhostTimeout =
     (if ph = Discovering \<or> ph = Handshaking then
        (Discovering, [DropPeer, EmitState,
           EmitLog (log_warn (lit ''Reconnection timeout. Returning to scan mode.'')), StartDiscovery])
      else (ph, []))"
| "transition ph HandshakeOk =
     (if ph = Handshaking then
        (Linked, [OpenSession, BurstReplay, SendBattery 100 False, EmitState,
           EmitLog (log_ok (lit ''Handshake complete. Link is live.''))])
      else (ph, []))"
| "transition ph HandshakeTimeout =
     (if ph = Handshaking then
        (Discovering, [EmitLog (log_warn (lit ''Handshake interrupted or timed out. Retrying.'')),
           StartDiscovery])
      else (ph, []))"
| "transition ph (PeerLost p) =
     (case ph of
        Handshaking \<Rightarrow> (Discovering,
          [EmitLog (log_warn (lit ''Handshake interrupted or timed out. Retrying.'')), StartDiscovery])
      | Linked \<Rightarrow> (Discovering, [CloseSession, EmitState,
          EmitLog (log_warn (lit ''Peer offline. Searching again.'')), StartDiscovery])
      | _ \<Rightarrow> (ph, []))"
| "transition ph (LocalClipboardChange c) =
     (if ph = Linked then
        (Linked, [SendItem (lc_hash c) (lc_kind c) (lc_payload c) (lc_sensitive c)])
      else (ph, []))"
| "transition ph (FrameReceivedClipboard f) =
     (if ph = Linked then
        (Linked, [WriteClipboard (fr_kind f) (fr_payload f) (fr_sensitive f), AckItem (fr_hash f),
           EmitState, EmitLog (log_ok (received_label (fr_kind f) (fr_payload f) (fr_preview f)))])
      else
        (ph, [AckItem (fr_hash f),
           EmitLog (log_warn (lit ''Clipboard frame received before link established '' @ em_dash
             @ lit '' acked, not applied.''))]))"
| "transition ph (BatteryChangedSelf level ch) =
     (if ph = Linked then (Linked, [SendBattery level ch, EmitState]) else (ph, [EmitState]))"
| "transition ph (BatteryChangedPeer level ch) = (ph, [EmitState])"
| "transition ph (PeerPlatform p) = (ph, [EmitState])"
| "transition ph (PeerCaps cs) = (ph, [EmitState])"
| "transition ph MeshPeersChanged = (ph, [EmitState])"
| "transition ph (PrimaryFailover p n pl cs) = (ph, [EmitState])"
| "transition ph Reconnect =
     (case ph of
        Linked \<Rightarrow> (Linked, [BurstReplay])
      | Discovering \<Rightarrow> (Discovering, [StartDiscovery])
      | Handshaking \<Rightarrow> (Handshaking, [])
      | Idle \<Rightarrow> (Idle, []))"
| "transition ph _ = (ph, [])"

section \<open>The table as a specification\<close>

text \<open>
  The phase changes a reader of \<open>docs/PROTOCOL.md\<close> section 2 finds in the table: a labelled transition
  relation. It says nothing of actions.
\<close>

inductive phase_step :: "phase \<Rightarrow> event \<Rightarrow> phase \<Rightarrow> bool" where
  off: "phase_step ph ToggleOff Idle"
| unpair: "phase_step ph ManualUnpair Idle"
| turn_on: "phase_step Idle ToggleOn Discovering"
| seen: "phase_step Discovering (PeerSeen p n) Handshaking"
| untrusted: "phase_step ph (UntrustedPeerSeen n) Discovering"
| ghost: "phase_step Handshaking GhostTimeout Discovering"
| shaken: "phase_step Handshaking HandshakeOk Linked"
| timeout: "phase_step Handshaking HandshakeTimeout Discovering"
| lost: "ph = Handshaking \<or> ph = Linked \<Longrightarrow> phase_step ph (PeerLost p) Discovering"
| moved: "phase_step Handshaking NetworkChanged Discovering"

inductive_cases phase_stepE [elim!]: "phase_step ph e ph'"

lemma transition_phase_step:
  "fst (transition ph e) \<noteq> ph \<Longrightarrow> phase_step ph e (fst (transition ph e))"
  by (cases e; cases ph) (simp_all add: phase_step.intros)

lemma phase_step_transition: "phase_step ph e ph' \<Longrightarrow> fst (transition ph e) = ph'"
  by (erule phase_stepE) auto


section \<open>Effects of a transition\<close>

lemma transition_send_item:
  "list_ex is_send_item (snd (transition ph e)) \<longleftrightarrow> (ph = Linked \<and> (\<exists>c. e = LocalClipboardChange c))"
  by (cases e; cases ph) simp_all

lemma transition_write:
  "list_ex is_write (snd (transition ph e)) \<longleftrightarrow> (ph = Linked \<and> (\<exists>f. e = FrameReceivedClipboard f))"
  by (cases e; cases ph) simp_all

text \<open>
  The FSM touches the wire and the OS clipboard only on a live link: an item is sent exactly for a local
  copy on a \<open>Linked\<close> phase, the clipboard is written exactly for a received item on a \<open>Linked\<close> phase,
  and a received item is acknowledged in every phase, so its sender can stop retransmitting.
\<close>

theorem fsm_effects:
  "(list_ex is_send_item (snd (transition ph e)) \<longleftrightarrow> (ph = Linked \<and> (\<exists>c. e = LocalClipboardChange c)))
   \<and> (list_ex is_write (snd (transition ph e)) \<longleftrightarrow> (ph = Linked \<and> (\<exists>f. e = FrameReceivedClipboard f)))
   \<and> AckItem (fr_hash f) \<in> set (snd (transition ph (FrameReceivedClipboard f)))"
  by (intro conjI transition_send_item transition_write) simp

end
