(* ===== verification/App_State.thy ===== *)
theory App_State
  imports Fsm Hex Dedup
begin

text \<open>
  The object the daemon drives, \<open>App\<close> of \<open>fluxsync-core/src/app.rs\<close>: its fields and every operation
  but the event dispatch. The parking lot of the firewall (\<open>pending_payloads\<close>) is keyed by the hex name
  of the content hash; its display half is \<open>pending\<close> of the state.
\<close>

section \<open>The record\<close>

record pending_payload =
  pp_direction :: direction
  pp_kind :: kind
  pp_payload :: bytes
  pp_sensitive :: bool
  pp_hash :: bytes32
  pp_peer_id :: "bytes32 option"

record peer_link =
  l_phase :: phase

definition peer_link_new :: peer_link where
  "peer_link_new = \<lparr>l_phase = Idle\<rparr>"

record app =
  a_phase :: phase
  a_state :: state
  clock :: lamport_clock
  dedup :: dedup_ring
  a_config :: config
  last_paired_peer_id :: bytes32
  self_device :: device_id
  local_seq :: u64
  seen :: seen_set
  links :: "(device_id, peer_link) btree"
  pending_payloads :: "(ustr, pending_payload) btree"
  other_linked_peers :: "bytes32 set"

definition app_new :: "config \<Rightarrow> app" where
  "app_new c =
     \<lparr>a_phase = Idle, a_state = initial c, clock = lamport_new, dedup = ring_default, a_config = c,
      last_paired_peer_id = zero32, self_device = device_zero, local_seq = 0, seen = seen_default,
      links = [], pending_payloads = [], other_linked_peers = {}\<rparr>"

definition app_new_with_device :: "config \<Rightarrow> device_id \<Rightarrow> app" where
  "app_new_with_device c d = (app_new c)\<lparr>self_device := d\<rparr>"

text \<open>A mutation of the published state.\<close>

definition with_state :: "(state \<Rightarrow> state) \<Rightarrow> app \<Rightarrow> app" where
  "with_state f a = a\<lparr>a_state := f (a_state a)\<rparr>"

lemma with_state_sel [simp]:
  "a_state (with_state f a) = f (a_state a)" "a_phase (with_state f a) = a_phase a"
  "clock (with_state f a) = clock a" "dedup (with_state f a) = dedup a"
  "a_config (with_state f a) = a_config a" "last_paired_peer_id (with_state f a) = last_paired_peer_id a"
  "self_device (with_state f a) = self_device a" "local_seq (with_state f a) = local_seq a"
  "seen (with_state f a) = seen a" "links (with_state f a) = links a"
  "pending_payloads (with_state f a) = pending_payloads a"
  "other_linked_peers (with_state f a) = other_linked_peers a"
  by (simp_all add: with_state_def)

section \<open>History\<close>

definition HISTORY_SOFT_CAP :: nat where
  "HISTORY_SOFT_CAP = 50"

text \<open>
  \<open>cap_history_keeping_favorites\<close>: the counter \<open>non_fav_kept\<close> of the \<open>retain\<close> closure is the argument
  \<open>k\<close>.
\<close>

fun cap_from :: "nat \<Rightarrow> history_item list \<Rightarrow> history_item list" where
  "cap_from k [] = []"
| "cap_from k (h # hs) =
     (if favorite h then h # cap_from k hs
      else if Suc k \<le> HISTORY_SOFT_CAP then h # cap_from (Suc k) hs
      else cap_from (Suc k) hs)"

definition cap_history_keeping_favorites :: "history_item list \<Rightarrow> history_item list" where
  "cap_history_keeping_favorites hs = cap_from 0 hs"

definition same_row :: "history_item \<Rightarrow> history_item \<Rightarrow> bool" where
  "same_row i h \<longleftrightarrow> hi_hash h = hi_hash i \<and> hi_kind h = hi_kind i \<and> hi_preview h = hi_preview i"

definition push_row :: "history_item \<Rightarrow> history_item list \<Rightarrow> history_item list" where
  "push_row item hs =
     (let (item', rest) =
        (case position (same_row item) hs of
           Some pos \<Rightarrow> (item\<lparr>favorite := favorite item \<or> favorite (hs ! pos)\<rparr>, remove_at pos hs)
         | None \<Rightarrow> (item, hs));
        hs' = item' # rest
      in if HISTORY_SOFT_CAP < length hs' then cap_history_keeping_favorites hs' else hs')"

definition push_history :: "history_item \<Rightarrow> app \<Rightarrow> app" where
  "push_history item = with_state (\<lambda>s. s\<lparr>history := push_row item (history s)\<rparr>)"

definition expired :: "u64 \<Rightarrow> millis \<Rightarrow> history_item \<Rightarrow> bool" where
  "expired secs now_ms h \<longleftrightarrow>
     \<not> (favorite h \<or> created_ms h = 0 \<or> now_ms - created_ms h \<le> min (unat secs * 1000) (2 ^ 64 - 1))"

definition expire_history :: "millis \<Rightarrow> app \<Rightarrow> bool \<times> app" where
  "expire_history now_ms a =
     (let secs = history_retention_secs (a_state a) in
      if secs = 0 then (False, a)
      else let kept = filter (\<lambda>h. \<not> expired secs now_ms h) (history (a_state a))
           in (length kept \<noteq> length (history (a_state a)), with_state (\<lambda>s. s\<lparr>history := kept\<rparr>) a))"

definition set_history_retention :: "u64 \<Rightarrow> millis \<Rightarrow> app \<Rightarrow> core_error + app" where
  "set_history_retention secs now_ms a =
     (if secs \<notin> set HISTORY_RETENTION_CHOICES then Inl (InvalidRetention secs)
      else Inr (snd (expire_history now_ms (with_state (\<lambda>s. s\<lparr>history_retention_secs := secs\<rparr>) a))))"

definition mark_delivered :: "bytes32 \<Rightarrow> ustr \<Rightarrow> app \<Rightarrow> bool \<times> app" where
  "mark_delivered h device a =
     (let key = hex32 h; hist = history (a_state a) in
      if \<not> list_ex (\<lambda>i. hi_hash i = key) hist then (False, a)
      else let kept = filter (\<lambda>e. list_ex (\<lambda>i. hi_hash i = fst e) hist) (delivered (a_state a));
               devices = (case bt_get kept key of Some ds \<Rightarrow> ds | None \<Rightarrow> [])
           in if device \<in> set devices
              then (False, with_state (\<lambda>s. s\<lparr>delivered := bt_insert key devices kept\<rparr>) a)
              else (True, with_state (\<lambda>s. s\<lparr>delivered := bt_insert key (devices @ [device]) kept\<rparr>) a))"

section \<open>Settings\<close>

definition set_device_name :: "ustr \<Rightarrow> app \<Rightarrow> core_error + app" where
  "set_device_name name a =
     (let trimmed = trim name in
      if trimmed = [] then Inl (InvalidDeviceName (lit ''name is empty''))
      else if MAX_HELLO_NAME < str_len trimmed
        then Inl (InvalidDeviceName (lit ''name exceeds '' @ show_nat MAX_HELLO_NAME @ lit '' bytes''))
      else if list_ex (\<lambda>c. is_control c \<or> is_bidi_or_format_char c) trimmed
        then Inl (InvalidDeviceName (lit ''name contains non-printable or bidi/format characters''))
      else Inr (a\<lparr>a_config := (a_config a)\<lparr>peer_name_self := trimmed\<rparr>,
                  a_state := (a_state a)\<lparr>device_name := trimmed\<rparr>\<rparr>))"

definition set_firewall :: "firewall_policy \<Rightarrow> app \<Rightarrow> app" where
  "set_firewall p a =
     a\<lparr>a_config := (a_config a)\<lparr>cfg_firewall := p\<rparr>, a_state := (a_state a)\<lparr>firewall := p\<rparr>\<rparr>"

definition set_metrics :: "connection_metrics option \<Rightarrow> app \<Rightarrow> app" where
  "set_metrics m = with_state (\<lambda>s. s\<lparr>metrics := m\<rparr>)"

definition set_latency :: "u32 \<Rightarrow> app \<Rightarrow> app" where
  "set_latency ms = with_state (\<lambda>s. s\<lparr>link_latency_ms := ms\<rparr>)"

definition set_other_linked_peers :: "bytes32 list \<Rightarrow> app \<Rightarrow> app" where
  "set_other_linked_peers ps a = a\<lparr>other_linked_peers := set ps\<rparr>"

definition other_peers_linked :: "app \<Rightarrow> bool" where
  "other_peers_linked a \<longleftrightarrow> other_linked_peers a \<noteq> {}"

definition is_peer_mismatch :: "bytes32 \<Rightarrow> app \<Rightarrow> bool" where
  "is_peer_mismatch other a \<longleftrightarrow>
     peer_name (a_state a) \<noteq> [] \<and> peer_id (a_state a) \<noteq> other
     \<and> \<not> (a_phase a = Idle \<or> a_phase a = Discovering)"

section \<open>The parking lot\<close>

definition strip_sync_action :: "direction \<Rightarrow> action list \<Rightarrow> action list" where
  "strip_sync_action dir as =
     (case dir of
        Outbound \<Rightarrow> filter (\<lambda>a. \<not> is_send_item a) as
      | Inbound \<Rightarrow> filter (\<lambda>a. \<not> is_write a) as)"

definition park_pending ::
  "direction \<Rightarrow> kind \<Rightarrow> bool \<Rightarrow> bytes32 \<Rightarrow> bytes \<Rightarrow> ustr \<Rightarrow> bytes32 option \<Rightarrow> app \<Rightarrow> app" where
  "park_pending dir k sens h payload preview peer a =
     (let key = hex32 h in
      if bt_get (pending_payloads a) key \<noteq> None then a
      else a\<lparr>pending_payloads := bt_insert key
                \<lparr>pp_direction = dir, pp_kind = k, pp_payload = payload, pp_sensitive = sens,
                 pp_hash = h, pp_peer_id = peer\<rparr> (pending_payloads a),
             a_state := (a_state a)\<lparr>pending := pending (a_state a) @
                [\<lparr>pi_hash = key, pi_kind = k, pi_preview = trim preview, pi_sensitive = sens,
                  pi_direction = dir, pi_peer_id = map_option hex32 peer\<rparr>]\<rparr>\<rparr>)"

definition resolve_pending :: "ustr \<Rightarrow> bool \<Rightarrow> app \<Rightarrow> action list \<times> app" where
  "resolve_pending key allow a =
     (let a' = with_state (\<lambda>s. s\<lparr>pending := filter (\<lambda>p. pi_hash p \<noteq> key) (pending s)\<rparr>) a in
      case bt_get (pending_payloads a') key of
        None \<Rightarrow> ([EmitState], a')
      | Some p \<Rightarrow>
          (let a'' = a'\<lparr>pending_payloads := bt_remove key (pending_payloads a')\<rparr> in
           if \<not> allow then ([EmitState], a'')
           else ([case pp_direction p of
                    Outbound \<Rightarrow> SendItem (pp_hash p) (pp_kind p) (pp_payload p) (pp_sensitive p)
                  | Inbound \<Rightarrow> WriteClipboard (pp_kind p) (pp_payload p) (pp_sensitive p),
                  EmitState], a'')))"

definition drop_pending_all :: "app \<Rightarrow> app" where
  "drop_pending_all a = a\<lparr>pending_payloads := [], a_state := (a_state a)\<lparr>pending := []\<rparr>\<rparr>"

definition drop_pending_for :: "bytes32 \<Rightarrow> app \<Rightarrow> bytes32 list \<times> app" where
  "drop_pending_for peer a =
     (let hit = (\<lambda>e. pp_peer_id (snd e) = Some peer);
          dropped = filter hit (pending_payloads a);
          keys = map fst dropped
      in (map (\<lambda>e. pp_hash (snd e)) dropped,
          a\<lparr>pending_payloads := filter (\<lambda>e. \<not> hit e) (pending_payloads a),
            a_state := (a_state a)\<lparr>pending := filter (\<lambda>p. pi_hash p \<notin> set keys) (pending (a_state a))\<rparr>\<rparr>))"

definition event_item ::
  "event \<Rightarrow> (kind \<times> bool \<times> direction \<times> bytes32 \<times> bytes \<times> ustr \<times> bytes32 option) option" where
  "event_item e =
     (case e of
        LocalClipboardChange c \<Rightarrow>
          Some (lc_kind c, lc_sensitive c, Outbound, lc_hash c, lc_payload c, lc_preview c, None)
      | FrameReceivedClipboard f \<Rightarrow>
          Some (fr_kind f, fr_sensitive f, Inbound, fr_hash f, fr_payload f, fr_preview f,
                Some (fr_peer_id f))
      | _ \<Rightarrow> None)"

definition apply_firewall :: "event \<Rightarrow> action list \<Rightarrow> app \<Rightarrow> action list \<times> app" where
  "apply_firewall e as a =
     (case event_item e of
        None \<Rightarrow> (as, a)
      | Some (k, sens, dir, h, payload, preview, peer) \<Rightarrow>
          (case decide (cfg_firewall (a_config a)) k sens dir of
             Pass \<Rightarrow> (as, a)
           | Block \<Rightarrow> (strip_sync_action dir as, a)
           | Defer \<Rightarrow> (strip_sync_action dir as, park_pending dir k sens h payload preview peer a)))"

section \<open>Restoring the vault\<close>

definition ring_seed :: "history_item \<Rightarrow> dedup_ring \<Rightarrow> dedup_ring" where
  "ring_seed i r =
     (case hex32_decode (hi_hash i) of
        Some b \<Rightarrow> snd (ring_observe (ContentHash b) r) | None \<Rightarrow> r)"

definition restore_history :: "history_item list \<Rightarrow> app \<Rightarrow> app" where
  "restore_history items a =
     (let kept = cap_history_keeping_favorites items in
      a\<lparr>a_state := (a_state a)\<lparr>history := kept\<rparr>,
        dedup := fold ring_seed (rev (take (capacity (dedup a)) kept)) (dedup a)\<rparr>)"

end
