(* ===== verification/App_Handle.thy ===== *)
theory App_Handle
  imports App_State
begin

text \<open>
  \<open>App::handle\<close> of \<open>fluxsync-core/src/app.rs\<close>: one definition per arm of the pre-transition \<open>match\<close>
  (each returns the new app, whether the event is suppressed as a duplicate, and the content hashes that
  left the parking lot), then the transition, the firewall, the resync strip, the battery fix-up and the
  derived fields, in the order of the source. The wall clock is the pair \<open>wall\<close>; BLAKE3 is \<open>blake3\<close>.
\<close>

record wall =
  hhmm :: ustr
  unix_millis :: millis

section \<open>Pre-transition arms\<close>

definition unknown_peer :: "state \<Rightarrow> state" where
  "unknown_peer s = s\<lparr>peer_name := [], peer_platform := [], peer_caps := [], peer_id := zero32,
     peer_battery := 255, peer_charging := False\<rparr>"

definition on_peer_seen :: "bytes32 \<Rightarrow> ustr \<Rightarrow> app \<Rightarrow> app \<times> bytes32 list" where
  "on_peer_seen p name a =
     (let a = with_state (\<lambda>s. s\<lparr>peer_name := name\<rparr>) a in
      if p = zero32 then (a, [])
      else
        let (dropped, a) =
          (if last_paired_peer_id a \<noteq> zero32 \<and> p \<noteq> last_paired_peer_id a then
             if other_peers_linked a then drop_pending_for (last_paired_peer_id a) a
             else ([], with_state (\<lambda>s. s\<lparr>vault_wipe_gen := vault_wipe_gen s + 1\<rparr>)
                         (drop_pending_all (with_state (\<lambda>s. s\<lparr>history := []\<rparr>) a)))
           else ([], a))
        in (with_state (\<lambda>s. s\<lparr>peer_id := p\<rparr>) (a\<lparr>last_paired_peer_id := p\<rparr>), dropped))"

definition on_local_clipboard :: "wall \<Rightarrow> local_change \<Rightarrow> app \<Rightarrow> app \<times> bool" where
  "on_local_clipboard w c a =
     (let preview = trim (lc_preview c);
          a = a\<lparr>clock := lamport_observe (lc_lamport c) (clock a)\<rparr>;
          (fresh, ring) = observe_clipboard (ContentHash (lc_hash c)) (unix_millis w) (dedup a);
          a = a\<lparr>dedup := ring\<rparr>
      in if \<not> fresh then (a, True)
         else if \<not> lc_sensitive c then
           (push_history
              \<lparr>hi_kind = lc_kind c, hi_preview = preview, hi_time = hhmm w, hi_source = Local,
               hi_sensitive = lc_sensitive c, hi_lamport = lc_lamport c, hi_hash = hex32 (lc_hash c),
               favorite = False, hi_resync = False, source_peer_id = None,
               created_ms = unix_millis w\<rparr> a, False)
         else (a, False))"

text \<open>The digest an inbound item is deduplicated under: recomputed here, never the sender's field.\<close>

definition frame_digest :: "(bytes \<Rightarrow> bytes32) \<Rightarrow> kind \<Rightarrow> bytes \<Rightarrow> content_hash" where
  "frame_digest blake3 k payload =
     (if k = Image \<or> k = File then ring_hash blake3 payload
      else (case from_utf8 payload of
              Some text \<Rightarrow> ring_hash blake3 (as_bytes (canon_text text))
            | None \<Rightarrow> ring_hash blake3 payload))"

definition on_frame_received ::
  "(bytes \<Rightarrow> bytes32) \<Rightarrow> wall \<Rightarrow> clip_frame \<Rightarrow> app \<Rightarrow> app \<times> bool" where
  "on_frame_received blake3 w f a =
     (let preview = trim (fr_preview f);
          a = a\<lparr>clock := lamport_observe (fr_lamport f) (clock a)\<rparr>;
          computed = frame_digest blake3 (fr_kind f) (fr_payload f)
      in if fr_resync f \<and> ring_contains computed (dedup a) then (a, True)
         else
           let (fresh, ring) = observe_clipboard computed (unix_millis w) (dedup a);
               a = a\<lparr>dedup := ring\<rparr>
           in if \<not> fresh then (a, True)
              else if \<not> fr_sensitive f
                    \<and> decide (cfg_firewall (a_config a)) (fr_kind f) (fr_sensitive f) Inbound = Pass then
                (push_history
                   \<lparr>hi_kind = fr_kind f, hi_preview = preview, hi_time = hhmm w, hi_source = Remote,
                    hi_sensitive = fr_sensitive f, hi_lamport = fr_lamport f,
                    hi_hash = hex32 (fr_hash f), favorite = False, hi_resync = fr_resync f,
                    source_peer_id = Some (hex32 (fr_peer_id f)), created_ms = unix_millis w\<rparr> a, False)
              else (a, False))"

definition on_peer_lost :: "bytes32 \<Rightarrow> state \<Rightarrow> state" where
  "on_peer_lost p s =
     (let s = s\<lparr>peer_battery := 255, peer_charging := False\<rparr> in
      if sas_peer s = Some p
         \<and> (sas_phase s = sas_showing \<or> sas_phase s = sas_peer_confirmed
            \<or> sas_phase s = sas_local_confirmed)
      then s\<lparr>sas_phase := sas_idle, sas_peer := None\<rparr> else s)"

definition on_primary_failover :: "bytes32 \<Rightarrow> ustr \<Rightarrow> ustr \<Rightarrow> ustr list \<Rightarrow> app \<Rightarrow> app" where
  "on_primary_failover p name platform caps a =
     (let a = with_state (\<lambda>s. s\<lparr>peer_name := name, peer_platform := platform, peer_caps := caps\<rparr>) a;
          a = (if p \<noteq> zero32
               then with_state (\<lambda>s. s\<lparr>peer_id := p\<rparr>) (a\<lparr>last_paired_peer_id := p\<rparr>) else a)
      in with_state (\<lambda>s. s\<lparr>peer_battery := 255, peer_charging := False\<rparr>) a)"

definition on_untrusted :: "app \<Rightarrow> app" where
  "on_untrusted a =
     with_state (\<lambda>s. s\<lparr>vault_wipe_gen := vault_wipe_gen s + 1, sas_phase := sas_idle, sas_peer := None\<rparr>)
       (drop_pending_all (with_state (\<lambda>s. (unknown_peer s)\<lparr>history := []\<rparr>) a))"

definition on_ghost_timeout :: "app \<Rightarrow> app \<times> bytes32 list" where
  "on_ghost_timeout a =
     (let lost = peer_id (a_state a);
          (dropped, a) = drop_pending_for lost (with_state unknown_peer a)
      in (with_state (\<lambda>s. s\<lparr>sas_phase := sas_idle, sas_peer := None\<rparr>) a, dropped))"

definition on_manual_unpair :: "app \<Rightarrow> app" where
  "on_manual_unpair a =
     with_state (\<lambda>s. s\<lparr>sas_phase := sas_idle, sas_peer := None\<rparr>)
       (drop_pending_all
          (with_state (\<lambda>s. (unknown_peer s)\<lparr>on := False, trusted_peer_name := None\<rparr>) a))"

definition on_sas_local :: "state \<Rightarrow> state" where
  "on_sas_local s =
     s\<lparr>sas_phase := (if sas_phase s = sas_peer_confirmed \<or> sas_phase s = sas_confirmed
                     then sas_confirmed else sas_local_confirmed)\<rparr>"

definition on_sas_peer :: "state \<Rightarrow> state" where
  "on_sas_peer s =
     s\<lparr>sas_phase := (if sas_phase s = sas_local_confirmed \<or> sas_phase s = sas_confirmed
                     then sas_confirmed else sas_peer_confirmed)\<rparr>"

definition on_set_favorite :: "ustr \<Rightarrow> bool \<Rightarrow> state \<Rightarrow> state" where
  "on_set_favorite h fav s =
     s\<lparr>history := map (\<lambda>i. if hi_hash i = h then i\<lparr>favorite := fav\<rparr> else i) (history s)\<rparr>"

definition on_clear_history :: "bool \<Rightarrow> state \<Rightarrow> state" where
  "on_clear_history include_favorites s =
     s\<lparr>history := (if include_favorites then [] else filter favorite (history s)),
       vault_wipe_gen := vault_wipe_gen s + 1\<rparr>"

definition on_peer_revoked :: "bytes32 \<Rightarrow> app \<Rightarrow> app \<times> bytes32 list" where
  "on_peer_revoked p a =
     (let (dropped, a) = drop_pending_for p a in
      (if p \<noteq> zero32 \<and> p = peer_id (a_state a)
       then with_state (\<lambda>s. (unknown_peer s)\<lparr>trusted_peer_name := None\<rparr>) a else a, dropped))"

text \<open>The \<open>match &event\<close> before the transition: the new app, \<open>suppress_action\<close>, \<open>pending_dropped\<close>.\<close>

fun pre_transition ::
  "(bytes \<Rightarrow> bytes32) \<Rightarrow> wall \<Rightarrow> event \<Rightarrow> app \<Rightarrow> app \<times> bool \<times> bytes32 list" where
  "pre_transition blake3 w ToggleOn a = (with_state (\<lambda>s. s\<lparr>on := True\<rparr>) a, False, [])"
| "pre_transition blake3 w ToggleOff a = (with_state (\<lambda>s. s\<lparr>on := False\<rparr>) a, False, [])"
| "pre_transition blake3 w (PeerSeen p name) a =
     (let (a', dropped) = on_peer_seen p name a in (a', False, dropped))"
| "pre_transition blake3 w (BatteryChangedSelf level ch) a =
     (with_state (\<lambda>s. s\<lparr>battery_level := level, charging := ch\<rparr>) a, False, [])"
| "pre_transition blake3 w (BatteryChangedPeer level ch) a =
     (with_state (\<lambda>s. s\<lparr>peer_battery := level, peer_charging := ch\<rparr>) a, False, [])"
| "pre_transition blake3 w (PeerPlatform pl) a = (with_state (\<lambda>s. s\<lparr>peer_platform := pl\<rparr>) a, False, [])"
| "pre_transition blake3 w (PeerCaps cs) a = (with_state (\<lambda>s. s\<lparr>peer_caps := cs\<rparr>) a, False, [])"
| "pre_transition blake3 w (LocalClipboardChange c) a =
     (let (a', sup) = on_local_clipboard w c a in (a', sup, []))"
| "pre_transition blake3 w (FrameReceivedClipboard f) a =
     (let (a', sup) = on_frame_received blake3 w f a in (a', sup, []))"
| "pre_transition blake3 w (PeerLost p) a = (with_state (on_peer_lost p) a, False, [])"
| "pre_transition blake3 w (PrimaryFailover p name pl cs) a =
     (on_primary_failover p name pl cs a, False, [])"
| "pre_transition blake3 w (UntrustedPeerSeen name) a = (on_untrusted a, False, [])"
| "pre_transition blake3 w GhostTimeout a =
     (if a_phase a \<noteq> Linked then let (a', dropped) = on_ghost_timeout a in (a', False, dropped)
      else (a, False, []))"
| "pre_transition blake3 w ManualUnpair a = (on_manual_unpair a, False, [])"
| "pre_transition blake3 w (SasPairingStarted p) a =
     (with_state (\<lambda>s. s\<lparr>sas_phase := sas_showing, sas_peer := Some p\<rparr>) a, False, [])"
| "pre_transition blake3 w (SasLocalConfirmed p) a =
     (if sas_peer (a_state a) = Some p then with_state on_sas_local a else a, False, [])"
| "pre_transition blake3 w (SasPeerConfirmed p) a =
     (if sas_peer (a_state a) = Some p then with_state on_sas_peer a else a, False, [])"
| "pre_transition blake3 w (SasPeerRejected p) a =
     (if sas_peer (a_state a) = Some p
      then with_state (\<lambda>s. s\<lparr>sas_phase := sas_peer_rejected\<rparr>) a else a, False, [])"
| "pre_transition blake3 w SasReset a =
     (with_state (\<lambda>s. s\<lparr>sas_phase := sas_idle, sas_peer := None\<rparr>) a, False, [])"
| "pre_transition blake3 w (SetTrustedPeer name) a =
     (with_state (\<lambda>s. s\<lparr>trusted_peer_name := Some name\<rparr>) a, False, [])"
| "pre_transition blake3 w (SetFavorite h fav) a = (with_state (on_set_favorite h fav) a, False, [])"
| "pre_transition blake3 w (ClearHistory inc) a = (with_state (on_clear_history inc) a, False, [])"
| "pre_transition blake3 w (PeerRevoked p) a =
     (let (a', dropped) = on_peer_revoked p a in (a', False, dropped))"
| "pre_transition blake3 w _ a = (a, False, [])"

section \<open>After the transition\<close>

definition is_frame :: "event \<Rightarrow> bool" where
  "is_frame e = (case e of FrameReceivedClipboard _ \<Rightarrow> True | _ \<Rightarrow> False)"

definition wants_resync_strip :: "event \<Rightarrow> bool" where
  "wants_resync_strip e = (case e of FrameReceivedClipboard f \<Rightarrow> fr_resync f | _ \<Rightarrow> False)"

definition resync_strip :: "event \<Rightarrow> action list \<Rightarrow> action list" where
  "resync_strip e as =
     (if wants_resync_strip e then
        filter (\<lambda>x. \<not> is_write x) as @ (if list_ex is_write as then [ResyncApplySuppressed] else [])
      else as)"

text \<open>The \<open>retain_mut\<close> over the battery actions: the real reading, or nothing while it is unknown.\<close>

fun fix_battery :: "state \<Rightarrow> action list \<Rightarrow> action list" where
  "fix_battery s [] = []"
| "fix_battery s (SendBattery level ch # as) =
     (if battery_level s \<noteq> 255 then SendBattery (battery_level s) (charging s) # fix_battery s as
      else fix_battery s as)"
| "fix_battery s (x # as) = x # fix_battery s as"

definition add_emit_state :: "bool \<Rightarrow> action list \<Rightarrow> action list" where
  "add_emit_state need as = (if need \<and> EmitState \<notin> set as then as @ [EmitState] else as)"

fun always_emits :: "event \<Rightarrow> bool" where
  "always_emits ToggleOn = True"
| "always_emits ToggleOff = True"
| "always_emits (BatteryChangedSelf _ _) = True"
| "always_emits (BatteryChangedPeer _ _) = True"
| "always_emits (PeerSeen _ _) = True"
| "always_emits (PeerLost _) = True"
| "always_emits ManualUnpair = True"
| "always_emits (UntrustedPeerSeen _) = True"
| "always_emits GhostTimeout = True"
| "always_emits (SetTrustedPeer _) = True"
| "always_emits (SetFavorite _ _) = True"
| "always_emits (ClearHistory _) = True"
| "always_emits (FrameReceivedClipboard _) = True"
| "always_emits (LocalClipboardChange _) = True"
| "always_emits (SasPairingStarted _) = True"
| "always_emits (SasLocalConfirmed _) = True"
| "always_emits (SasPeerConfirmed _) = True"
| "always_emits (SasPeerRejected _) = True"
| "always_emits SasReset = True"
| "always_emits (PeerRevoked _) = True"
| "always_emits _ = False"

definition duplicate_actions :: "event \<Rightarrow> action list" where
  "duplicate_actions e =
     (case e of FrameReceivedClipboard f \<Rightarrow> [DuplicateDropped, AckItem (fr_hash f)]
      | _ \<Rightarrow> [DuplicateDropped])"

definition post_transition :: "event \<Rightarrow> bytes32 list \<Rightarrow> app \<Rightarrow> action list \<times> app" where
  "post_transition e dropped a =
     (let (nxt, as) = transition (a_phase a) e;
          (as, a) = apply_firewall e as a;
          as = (if dropped \<noteq> [] then as @ [PendingDropped dropped] else as);
          as = resync_strip e as;
          as = fix_battery (a_state a) as;
          a = with_state (\<lambda>s. s\<lparr>st_phase := phase_str nxt\<rparr>) (a\<lparr>a_phase := nxt\<rparr>);
          new_status = status_for (a_state a);
          changed = (st_status (a_state a) \<noteq> new_status);
          a = with_state (\<lambda>s. s\<lparr>st_status := new_status\<rparr>) a;
          as = add_emit_state changed as;
          as = add_emit_state (always_emits e) as
      in (as, a))"

text \<open>
  \<open>handle\<close>: a parked item's verdict bypasses everything; a \<open>PeerSeen\<close> of another peer while a link is
  up is refused before any mutation.
\<close>

definition handle ::
  "(bytes \<Rightarrow> bytes32) \<Rightarrow> wall \<Rightarrow> event \<Rightarrow> app \<Rightarrow> action list \<times> app" where
  "handle blake3 w e a =
     (case e of
        ResolvePending h allow \<Rightarrow> resolve_pending h allow a
      | _ \<Rightarrow>
        if (case e of PeerSeen p _ \<Rightarrow> is_peer_mismatch p a | _ \<Rightarrow> False) then ([], a)
        else let (a, sup, dropped) = pre_transition blake3 w e a in
             if sup then (duplicate_actions e, a)
             else post_transition e dropped a)"

end
