(* ===== verification/App_Mesh.thy ===== *)
theory App_Mesh
  imports App_Handle
begin

text \<open>
  The mesh coordinator of \<open>App\<close> (\<open>fluxsync-core/src/app.rs\<close>): one link phase per peer, the event ids
  this device originates, and the forwarding rule that keeps an item from looping.
\<close>

datatype ingest = Apply "device_id list" | Dropped

definition link_phase :: "device_id \<Rightarrow> app \<Rightarrow> phase option" where
  "link_phase d a = map_option l_phase (bt_get (links a) d)"

definition linked_peers :: "app \<Rightarrow> device_id list" where
  "linked_peers a = map fst (filter (\<lambda>e. l_phase (snd e) = Linked) (links a))"

definition handle_peer :: "device_id \<Rightarrow> event \<Rightarrow> app \<Rightarrow> action list \<times> app" where
  "handle_peer d e a =
     (let link = (case bt_get (links a) d of Some l \<Rightarrow> l | None \<Rightarrow> peer_link_new);
          (nxt, as) = transition (l_phase link) e
      in (as, a\<lparr>links := bt_insert d (link\<lparr>l_phase := nxt\<rparr>) (links a)\<rparr>))"

definition set_local_seq :: "u64 \<Rightarrow> app \<Rightarrow> app" where
  "set_local_seq n a = a\<lparr>local_seq := n\<rparr>"

definition next_local_event_id :: "app \<Rightarrow> event_id \<times> app" where
  "next_local_event_id a =
     (EventId (self_device a) (local_seq a), a\<lparr>local_seq := local_seq a + 1\<rparr>)"

definition broadcast_local ::
  "bytes32 \<Rightarrow> kind \<Rightarrow> bytes \<Rightarrow> bool \<Rightarrow> app \<Rightarrow> (event_id \<times> (device_id \<times> action) list) \<times> app" where
  "broadcast_local h k payload sens a =
     (let (i, a) = next_local_event_id a;
          a = a\<lparr>seen := snd (seen_observe i (seen a))\<rparr>
      in ((i, map (\<lambda>d. (d, SendItem h k payload sens)) (linked_peers a)), a))"

definition ingest_remote :: "device_id \<Rightarrow> event_id \<Rightarrow> app \<Rightarrow> ingest \<times> app" where
  "ingest_remote source i a =
     (let (fresh, s) = seen_observe i (seen a); a = a\<lparr>seen := s\<rparr> in
      if \<not> fresh then (Dropped, a)
      else (Apply (map fst (filter (\<lambda>e. l_phase (snd e) = Linked \<and> fst e \<noteq> source \<and> fst e \<noteq> origin i)
                              (links a))), a))"

section \<open>Links are independent\<close>

lemma link_phase_handle_peer:
  "bt_wf (links a) \<Longrightarrow>
     link_phase d' (snd (handle_peer d e a)) =
       (if d' = d then Some (fst (transition (case link_phase d a of Some ph \<Rightarrow> ph | None \<Rightarrow> Idle) e))
        else link_phase d' a)"
  by (simp add: handle_peer_def link_phase_def bt_get_insert Let_def case_prod_unfold peer_link_new_def
      split: option.splits)

lemma linked_peers_iff: "bt_wf (links a) \<Longrightarrow> d \<in> set (linked_peers a) \<longleftrightarrow> link_phase d a = Some Linked"
proof -
  assume wf: "bt_wf (links a)"
  have "d \<in> set (linked_peers a) \<longleftrightarrow> (\<exists>l. (d, l) \<in> set (links a) \<and> l_phase l = Linked)"
    by (auto simp: linked_peers_def image_iff)
  also have "\<dots> \<longleftrightarrow> link_phase d a = Some Linked"
    using bt_get_mem [OF wf] bt_get_Some_mem by (fastforce simp: link_phase_def)
  finally show ?thesis .
qed

lemma distinct_linked_peers: "bt_wf (links a) \<Longrightarrow> distinct (linked_peers a)"
  by (simp add: linked_peers_def distinct_map_filter bt_wf_distinct)

definition mesh_ok :: "app \<Rightarrow> bool" where
  "mesh_ok a \<longleftrightarrow> bt_wf (links a) \<and> seen_inv (seen a)"

lemma ingest_cases:
  "mesh_ok a \<Longrightarrow>
     ingest_remote src i a =
       (if i \<in> set (s_inner (seen a)) then (Dropped, a)
        else (Apply (filter (\<lambda>d. d \<noteq> src \<and> d \<noteq> origin i) (linked_peers a)),
              a\<lparr>seen := snd (seen_observe i (seen a))\<rparr>))"
  using seen_ring.observe_seen [of "seen a" i] seen_ring.result_iff [of "seen a" i]
  by (auto simp: mesh_ok_def ingest_remote_def Let_def case_prod_unfold linked_peers_def filter_map
      o_def conj_commute)

lemma mesh_ok_ingest: "mesh_ok a \<Longrightarrow> mesh_ok (snd (ingest_remote src i a))"
  by (simp add: ingest_cases) (simp add: mesh_ok_def seen_observe_inv)

lemma mesh_ok_broadcast: "mesh_ok a \<Longrightarrow> mesh_ok (snd (broadcast_local h k b s a))"
  by (simp add: broadcast_local_def next_local_event_id_def mesh_ok_def seen_observe_inv Let_def)

lemma mesh_ok_handle_peer: "mesh_ok a \<Longrightarrow> mesh_ok (snd (handle_peer d e a))"
  by (simp add: handle_peer_def mesh_ok_def bt_wf_insert Let_def case_prod_unfold)

text \<open>The arrival of a sequence of remote items, in order: what the mesh does with each.\<close>

fun ingest_all :: "(device_id \<times> event_id) list \<Rightarrow> app \<Rightarrow> app" where
  "ingest_all [] a = a"
| "ingest_all ((src, i) # rest) a = ingest_all rest (snd (ingest_remote src i a))"

lemma ingest_all_seen:
  "mesh_ok a \<Longrightarrow> seen (ingest_all xs a) = seen_ring.observe_all (map snd xs) (seen a)
     \<and> links (ingest_all xs a) = links a \<and> mesh_ok (ingest_all xs a)"
proof (induction xs arbitrary: a)
  case Nil
  then show ?case by simp
next
  case (Cons x xs)
  obtain src i where x: "x = (src, i)" by force
  have s: "seen (snd (ingest_remote src i a)) = snd (seen_observe i (seen a))"
    and l: "links (snd (ingest_remote src i a)) = links a"
    by (simp_all add: ingest_remote_def Let_def case_prod_unfold)
  show ?case
    using Cons.IH [OF mesh_ok_ingest [OF Cons.prems, of src i]] s l by (simp add: x)
qed

text \<open>
  The forwarding rule of the mesh: an item is handed on to every linked peer except the one it came
  from and the one that created it, each once; and however it comes back, from whichever peer, it is
  dropped as long as fewer than 256 other items arrived in between.
\<close>

theorem mesh_forwarding:
  assumes ok: "mesh_ok a" and full: "s_capacity (seen a) = SEEN_CAPACITY"
    and fwd: "fst (ingest_remote src i a) = Apply ds"
    and few: "length between < SEEN_CAPACITY"
  shows "set ds = {d. link_phase d a = Some Linked} - {src, origin i} \<and> distinct ds
    \<and> fst (ingest_remote src' i (ingest_all between (snd (ingest_remote src i a)))) = Dropped"
proof -
  from fwd ok have new: "i \<notin> set (s_inner (seen a))"
    and ds: "ds = filter (\<lambda>d. d \<noteq> src \<and> d \<noteq> origin i) (linked_peers a)"
    by (auto simp: ingest_cases split: if_splits)
  have wf: "bt_wf (links a)" and si: "seen_inv (seen a)" using ok by (simp_all add: mesh_ok_def)
  have targets: "set ds = {d. link_phase d a = Some Linked} - {src, origin i}"
    by (auto simp: ds linked_peers_iff [OF wf])
  have dist: "distinct ds" by (simp add: ds distinct_linked_peers [OF wf])
  let ?b = "snd (ingest_remote src i a)"
  have mb: "mesh_ok ?b" by (rule mesh_ok_ingest [OF ok])
  have sb: "seen ?b = snd (seen_observe i (seen a))"
    by (simp add: ingest_remote_def Let_def case_prod_unfold)
  have acc: "fst (seen_observe i (seen a))" using seen_ring.result_iff [OF si] new by simp
  have "\<not> fst (seen_observe i (seen (ingest_all between ?b)))"
    using seen_ring.repeat_refused [OF si acc, of "map snd between"] few full
      ingest_all_seen [OF mb, of between] by (simp add: sb)
  then have "fst (ingest_remote src' i (ingest_all between ?b)) = Dropped"
    by (simp add: ingest_remote_def Let_def case_prod_unfold)
  with targets dist show ?thesis by simp
qed

definition demo_mesh :: app where
  "demo_mesh = (app_new (config_default []))\<lparr>links :=
     [(DeviceId [1], \<lparr>l_phase = Linked\<rparr>), (DeviceId [2], \<lparr>l_phase = Linked\<rparr>),
      (DeviceId [3], \<lparr>l_phase = Handshaking\<rparr>), (DeviceId [4], \<lparr>l_phase = Linked\<rparr>)]\<rparr>"

theorem mesh_forwarding_witness:
  "fst (ingest_remote (DeviceId [1]) (EventId (DeviceId [4]) 7) demo_mesh) = Apply [DeviceId [2]]
   \<and> fst (ingest_remote (DeviceId [2]) (EventId (DeviceId [4]) 7)
        (ingest_all [(DeviceId [1], EventId (DeviceId [2]) 0)]
           (snd (ingest_remote (DeviceId [1]) (EventId (DeviceId [4]) 7) demo_mesh)))) = Dropped"
proof -
  have ok: "mesh_ok demo_mesh" and cap: "s_capacity (seen demo_mesh) = SEEN_CAPACITY"
    by (simp_all add: mesh_ok_def demo_mesh_def app_new_def bt_wf_def less_device_id_def
        seen_inv_def seen_default_def seen_new_def SEEN_CAPACITY_def)
  have fwd: "fst (ingest_remote (DeviceId [1]) (EventId (DeviceId [4]) 7) demo_mesh) = Apply [DeviceId [2]]"
    by (simp add: ingest_remote_def demo_mesh_def app_new_def seen_default_def seen_new_def
        seen_observe_def seen_contains_def)
  show ?thesis
    using fwd mesh_forwarding [OF ok cap fwd, of "[(DeviceId [1], EventId (DeviceId [2]) 0)]" "DeviceId [2]"]
    by (simp add: SEEN_CAPACITY_def)
qed

end
