(* ===== verification/App_Inv.thy ===== *)
theory App_Inv
  imports App_Handle
begin

text \<open>
  The invariant of the daemon's core and its preservation: the published phase and status agree with the
  FSM, the settings shown are the settings in force, the rows of the parking lot describe the payloads
  held for them, the SAS phase and its peer go together, no secret is in the history, and the dedup ring
  is well formed.
\<close>

section \<open>The parking lot\<close>

definition row_matches :: "pending_item \<Rightarrow> pending_payload \<Rightarrow> bool" where
  "row_matches r p \<longleftrightarrow>
     pi_hash r = hex32 (pp_hash p) \<and> pi_kind r = pp_kind p \<and> pi_sensitive r = pp_sensitive p
     \<and> pi_direction r = pp_direction p \<and> pi_peer_id r = map_option hex32 (pp_peer_id p)"

definition park_ok :: "pending_item list \<Rightarrow> (ustr, pending_payload) btree \<Rightarrow> bool" where
  "park_ok rows m \<longleftrightarrow>
     bt_wf m \<and> distinct (map pi_hash rows) \<and> pi_hash ` set rows = bt_keys m
     \<and> (\<forall>(k, p)\<in>set m. k = hex32 (pp_hash p))
     \<and> (\<forall>r\<in>set rows. \<exists>p. bt_get m (pi_hash r) = Some p \<and> row_matches r p)"

definition park_inv :: "app \<Rightarrow> bool" where
  "park_inv a \<longleftrightarrow> park_ok (pending (a_state a)) (pending_payloads a)"

lemma park_ok_empty [simp]: "park_ok [] []"
  by (simp add: park_ok_def)

lemma park_ok_add:
  assumes ok: "park_ok rows m" and new: "bt_get m k = None"
    and k: "k = hex32 (pp_hash p)" and r: "pi_hash r = k" "row_matches r p"
  shows "park_ok (rows @ [r]) (bt_insert k p m)"
proof -
  from ok have wf: "bt_wf m" and d: "distinct (map pi_hash rows)"
    and ks: "pi_hash ` set rows = bt_keys m" and nm: "\<forall>(k, p)\<in>set m. k = hex32 (pp_hash p)"
    and rm: "\<forall>r\<in>set rows. \<exists>p. bt_get m (pi_hash r) = Some p \<and> row_matches r p"
    by (simp_all add: park_ok_def)
  from new ks have fresh: "k \<notin> pi_hash ` set rows" by (simp add: bt_get_None_iff)
  have "\<forall>(k, p)\<in>set (bt_insert k p m). k = hex32 (pp_hash p)"
    using nm k bt_set_insert_subset [of k p m] by auto
  moreover have "\<exists>q. bt_get (bt_insert k p m) (pi_hash r') = Some q \<and> row_matches r' q"
    if "r' \<in> set (rows @ [r])" for r'
  proof (cases "pi_hash r' = k")
    case True
    with that fresh have "r' = r" by (auto simp: image_iff)
    then show ?thesis using wf r by (simp add: bt_get_insert)
  next
    case False
    with that r have "r' \<in> set rows" by auto
    with rm False wf show ?thesis by (simp add: bt_get_insert)
  qed
  ultimately show ?thesis
    using wf d fresh ks r by (auto simp: park_ok_def bt_wf_insert)
qed

lemma bt_get_filter:
  "bt_wf m \<Longrightarrow> bt_get m k = Some v \<Longrightarrow> P (k, v) \<Longrightarrow> bt_get (filter P m) k = Some v"
  using bt_get_mem [OF bt_wf_filter [of m P]] bt_get_Some_mem [of m k v] by simp

lemma bt_key_unique: "bt_wf m \<Longrightarrow> (k, v) \<in> set m \<Longrightarrow> (k, v') \<in> set m \<Longrightarrow> v = v'"
  using bt_get_mem [of m k v] bt_get_mem [of m k v'] by simp

lemma park_ok_filter:
  assumes ok: "park_ok rows m"
    and dropped: "\<And>r p. r \<in> set rows \<Longrightarrow> bt_get m (pi_hash r) = Some p \<Longrightarrow> Q r \<longleftrightarrow> P (pi_hash r, p)"
  shows "park_ok (filter Q rows) (filter P m)"
proof -
  from ok have wf: "bt_wf m" and d: "distinct (map pi_hash rows)"
    and ks: "pi_hash ` set rows = bt_keys m" and nm: "\<forall>(k, p)\<in>set m. k = hex32 (pp_hash p)"
    and rm: "\<forall>r\<in>set rows. \<exists>p. bt_get m (pi_hash r) = Some p \<and> row_matches r p"
    by (simp_all add: park_ok_def)
  have keep: "bt_get (filter P m) (pi_hash r) = Some p"
    if "r \<in> set rows" "Q r" "bt_get m (pi_hash r) = Some p" for r p
    using dropped that bt_get_filter [OF wf that(3)] by simp
  have "pi_hash ` set (filter Q rows) = bt_keys (filter P m)"
  proof (intro equalityI subsetI)
    fix k assume "k \<in> pi_hash ` set (filter Q rows)"
    then obtain r where r: "r \<in> set rows" "Q r" "k = pi_hash r" by auto
    from rm r(1) obtain p where "bt_get m (pi_hash r) = Some p" by auto
    then have "bt_get (filter P m) k = Some p" using keep r by simp
    then show "k \<in> bt_keys (filter P m)" by (rule bt_get_Some_key)
  next
    fix k assume "k \<in> bt_keys (filter P m)"
    then obtain p where kp: "(k, p) \<in> set m" "P (k, p)" by (auto simp: bt_keys_def)
    from bt_get_mem [OF wf kp(1)] have g: "bt_get m k = Some p" .
    from bt_get_Some_key [OF g] ks have "k \<in> pi_hash ` set rows" by simp
    then obtain r where r: "r \<in> set rows" "pi_hash r = k" by auto
    with dropped [of r p] g kp(2) have "Q r" by simp
    with r show "k \<in> pi_hash ` set (filter Q rows)" by auto
  qed
  moreover have "distinct (map pi_hash (filter Q rows))"
    using d by (rule distinct_map_filter)
  moreover have "\<exists>p. bt_get (filter P m) (pi_hash r) = Some p \<and> row_matches r p"
    if r: "r \<in> set (filter Q rows)" for r
  proof -
    from rm r obtain p where "bt_get m (pi_hash r) = Some p \<and> row_matches r p" by auto
    with keep [of r p] r show ?thesis by auto
  qed
  ultimately show ?thesis using wf nm by (auto simp: park_ok_def bt_wf_filter)
qed

lemma park_pending_inv: "park_inv a \<Longrightarrow> park_inv (park_pending dir k s h b v peer a)"
  by (auto simp: park_pending_def park_inv_def Let_def row_matches_def intro: park_ok_add)

lemma drop_pending_all_inv: "park_inv (drop_pending_all a)"
  by (simp add: park_inv_def drop_pending_all_def)

lemma drop_pending_for_inv: "park_inv a \<Longrightarrow> park_inv (snd (drop_pending_for p a))"
proof -
  assume "park_inv a"
  then have ok: "park_ok (pending (a_state a)) (pending_payloads a)"
    by (simp add: park_inv_def)
  let ?m = "pending_payloads a" and ?hit = "\<lambda>e. pp_peer_id (snd e) = Some p"
  have wf: "bt_wf ?m" using ok by (simp add: park_ok_def)
  have "pi_hash r \<notin> set (map fst (filter ?hit ?m)) \<longleftrightarrow> \<not> ?hit (pi_hash r, q)"
    if "bt_get ?m (pi_hash r) = Some q" for r q
  proof
    assume "pi_hash r \<notin> set (map fst (filter ?hit ?m))"
    then have "\<forall>e\<in>set ?m. ?hit e \<longrightarrow> fst e \<noteq> pi_hash r" by (auto simp: image_iff)
    then show "\<not> ?hit (pi_hash r, q)"
      using bt_get_Some_mem [OF that] by (metis fst_conv)
  next
    assume no: "\<not> ?hit (pi_hash r, q)"
    show "pi_hash r \<notin> set (map fst (filter ?hit ?m))"
    proof
      assume "pi_hash r \<in> set (map fst (filter ?hit ?m))"
      then obtain q' where "(pi_hash r, q') \<in> set ?m" "?hit (pi_hash r, q')" by auto
      with bt_key_unique [OF wf _ bt_get_Some_mem [OF that]] no show False by blast
    qed
  qed
  then have "park_ok (filter (\<lambda>r. pi_hash r \<notin> set (map fst (filter ?hit ?m))) (pending (a_state a)))
      (filter (\<lambda>e. \<not> ?hit e) ?m)"
    by (intro park_ok_filter [OF ok])
  then show ?thesis by (simp add: park_inv_def drop_pending_for_def)
qed

lemma resolve_pending_inv: "park_inv a \<Longrightarrow> park_inv (snd (resolve_pending h allow a))"
proof -
  assume i: "park_inv a"
  have *: "park_ok (filter (\<lambda>p. pi_hash p \<noteq> h) (pending (a_state a))) (bt_remove h (pending_payloads a))"
    unfolding bt_remove_def
    using i by (intro park_ok_filter) (simp_all add: park_inv_def)
  have "bt_remove h (pending_payloads a) = pending_payloads a"
    if "bt_get (pending_payloads a) h = None"
    using that by (force simp: bt_remove_def bt_get_None_iff bt_keys_def intro: filter_True)
  with * show ?thesis
    by (auto simp: resolve_pending_def park_inv_def Let_def split: option.splits)
qed

section \<open>The invariant\<close>

definition settings_ok :: "app \<Rightarrow> bool" where
  "settings_ok a \<longleftrightarrow>
     firewall (a_state a) = cfg_firewall (a_config a)
     \<and> device_name (a_state a) = peer_name_self (a_config a)"

definition sas_ok :: "state \<Rightarrow> bool" where
  "sas_ok s \<longleftrightarrow>
     (sas_peer s = None \<longleftrightarrow> sas_phase s = sas_idle)
     \<and> sas_phase s \<in> {sas_idle, sas_showing, sas_peer_confirmed, sas_local_confirmed, sas_confirmed,
          sas_peer_rejected}"

definition hist_ok :: "state \<Rightarrow> bool" where
  "hist_ok s \<longleftrightarrow> (\<forall>i\<in>set (history s). \<not> hi_sensitive i)"

definition rings_ok :: "app \<Rightarrow> bool" where
  "rings_ok a \<longleftrightarrow> ring_inv (dedup a) \<and> capacity (dedup a) = DEDUP_CAPACITY \<and> seen_inv (seen a)
     \<and> bt_wf (links a)"

definition core_ok :: "app \<Rightarrow> bool" where
  "core_ok a \<longleftrightarrow>
     park_inv a \<and> settings_ok a \<and> sas_ok (a_state a) \<and> hist_ok (a_state a) \<and> rings_ok a"

definition view_ok :: "app \<Rightarrow> bool" where
  "view_ok a \<longleftrightarrow>
     st_phase (a_state a) = phase_str (a_phase a) \<and> st_status (a_state a) = status_for (a_state a)"

definition app_inv :: "app \<Rightarrow> bool" where
  "app_inv a \<longleftrightarrow> core_ok a \<and> view_ok a"

lemmas core_defs = core_ok_def park_inv_def settings_ok_def sas_ok_def hist_ok_def rings_ok_def

lemma core_okI:
  "park_inv a \<Longrightarrow> settings_ok a \<Longrightarrow> sas_ok (a_state a) \<Longrightarrow> hist_ok (a_state a) \<Longrightarrow> rings_ok a \<Longrightarrow> core_ok a"
  by (simp add: core_ok_def)

lemma core_okD:
  assumes "core_ok a"
  shows "park_inv a" "settings_ok a" "sas_ok (a_state a)" "hist_ok (a_state a)" "rings_ok a"
  using assms by (simp_all add: core_ok_def)

text \<open>A mutation of fields the invariant does not read.\<close>

lemma core_ok_with_state:
  assumes "core_ok a"
    and "\<And>s. pending (f s) = pending s" "\<And>s. firewall (f s) = firewall s"
    and "\<And>s. device_name (f s) = device_name s" "\<And>s. sas_ok s \<Longrightarrow> sas_ok (f s)"
    and "\<And>s. set (history (f s)) \<subseteq> set (history s)"
  shows "core_ok (with_state f a)"
  using assms(1) assms(5) [of "a_state a"] assms(6) [of "a_state a"]
  by (auto simp: core_ok_def park_inv_def settings_ok_def hist_ok_def rings_ok_def assms(2-4))

lemma sas_ok_frame: "sas_peer s' = sas_peer s \<Longrightarrow> sas_phase s' = sas_phase s \<Longrightarrow> sas_ok s \<Longrightarrow> sas_ok s'"
  by (simp add: sas_ok_def)

lemma drop_for_frame:
  "clock (snd (drop_pending_for p a)) = clock a" "dedup (snd (drop_pending_for p a)) = dedup a"
  "seen (snd (drop_pending_for p a)) = seen a" "links (snd (drop_pending_for p a)) = links a"
  "a_config (snd (drop_pending_for p a)) = a_config a" "a_phase (snd (drop_pending_for p a)) = a_phase a"
  "last_paired_peer_id (snd (drop_pending_for p a)) = last_paired_peer_id a"
  "a_state (snd (drop_pending_for p a)) =
     (a_state a)\<lparr>pending := pending (a_state (snd (drop_pending_for p a)))\<rparr>"
  by (simp_all add: drop_pending_for_def)

lemma drop_all_frame:
  "dedup (drop_pending_all a) = dedup a" "seen (drop_pending_all a) = seen a"
  "links (drop_pending_all a) = links a" "a_config (drop_pending_all a) = a_config a"
  "a_phase (drop_pending_all a) = a_phase a"
  "last_paired_peer_id (drop_pending_all a) = last_paired_peer_id a"
  "pending_payloads (drop_pending_all a) = []"
  "a_state (drop_pending_all a) = (a_state a)\<lparr>pending := []\<rparr>"
  by (simp_all add: drop_pending_all_def)

declare drop_all_frame [frame_simps] drop_for_frame(1-7) [frame_simps]

lemma core_ok_pending_only:
  assumes ok: "core_ok a" and park: "park_inv a'"
    and st: "a_state a' = (a_state a)\<lparr>pending := r\<rparr>" and cfg: "a_config a' = a_config a"
    and rings: "dedup a' = dedup a" "seen a' = seen a" "links a' = links a"
  shows "core_ok a'"
  using ok park by (simp add: core_ok_def settings_ok_def sas_ok_def hist_ok_def rings_ok_def st cfg rings)

lemma core_ok_drop_all [inv_intros]: "core_ok a \<Longrightarrow> core_ok (drop_pending_all a)"
  by (rule core_ok_pending_only [where r = "[]"]) (simp_all add: drop_pending_all_inv frame_simps)

lemma core_ok_drop_for [inv_intros]: "core_ok a \<Longrightarrow> core_ok (snd (drop_pending_for p a))"
  using core_ok_pending_only [OF _ drop_pending_for_inv drop_for_frame(8) [of p a]] core_okD(1)
  by (simp add: frame_simps)

lemma core_ok_park [inv_intros]: "core_ok a \<Longrightarrow> core_ok (park_pending dir k s h b v peer a)"
proof -
  assume ok: "core_ok a"
  have "a_state (park_pending dir k s h b v peer a) =
      (a_state a)\<lparr>pending := pending (a_state (park_pending dir k s h b v peer a))\<rparr>"
    by (simp add: park_pending_def Let_def)
  then show ?thesis
    by (rule core_ok_pending_only [OF ok park_pending_inv [OF core_okD(1) [OF ok]]])
      (simp_all add: park_pending_def Let_def)
qed

lemma core_ok_resolve [inv_intros]: "core_ok a \<Longrightarrow> core_ok (snd (resolve_pending h allow a))"
proof -
  assume ok: "core_ok a"
  have "a_state (snd (resolve_pending h allow a)) =
      (a_state a)\<lparr>pending := filter (\<lambda>p. pi_hash p \<noteq> h) (pending (a_state a))\<rparr>"
    by (simp add: resolve_pending_def Let_def split: option.splits)
  then show ?thesis
    by (rule core_ok_pending_only [OF ok resolve_pending_inv [OF core_okD(1) [OF ok]]])
      (simp_all add: resolve_pending_def Let_def split: option.splits)
qed

section \<open>History rows\<close>

lemma set_cap_from: "set (cap_from k hs) \<subseteq> set hs"
  by (induction k hs rule: cap_from.induct) auto

lemma set_push_row: "set (push_row i hs) \<subseteq> insert (i\<lparr>favorite := True\<rparr>) (insert i (set hs))"
proof -
  have f: "i\<lparr>favorite := b\<rparr> \<in> {i\<lparr>favorite := True\<rparr>, i}" if "b = (favorite i \<or> c)" for b c
    using that by (cases "favorite i"; cases c) auto
  have "set (case position (same_row i) hs of
           Some pos \<Rightarrow> i\<lparr>favorite := favorite i \<or> favorite (hs ! pos)\<rparr> # remove_at pos hs
         | None \<Rightarrow> i # hs) \<subseteq> insert (i\<lparr>favorite := True\<rparr>) (insert i (set hs))" (is "set ?l \<subseteq> _")
    using f set_remove_at_subset by (fastforce split: option.splits)
  moreover have "push_row i hs = (if HISTORY_SOFT_CAP < length ?l then cap_from 0 ?l else ?l)"
    by (simp add: push_row_def cap_history_keeping_favorites_def Let_def split: option.splits)
  ultimately show ?thesis using set_cap_from [of 0 ?l] by auto
qed

lemma core_ok_push [inv_intros]:
  assumes "core_ok a" and "\<not> hi_sensitive i"
  shows "core_ok (push_history i a)"
  using assms set_push_row [of i "history (a_state a)"]
  by (auto simp: core_defs push_history_def)

end
