(* ===== verification/App_Run.thy ===== *)
theory App_Run
  imports App_Inv App_Mesh
begin

text \<open>
  Every operation of the daemon's core keeps the invariant, so every run does.
\<close>

section \<open>The arms before the transition\<close>

lemma sas_reset_ok: "sas_ok (s\<lparr>sas_phase := sas_idle, sas_peer := None\<rparr>)"
  by (simp add: sas_ok_def)

lemma unknown_peer_frame:
  "pending (unknown_peer s) = pending s" "firewall (unknown_peer s) = firewall s"
  "device_name (unknown_peer s) = device_name s" "history (unknown_peer s) = history s"
  "sas_peer (unknown_peer s) = sas_peer s" "sas_phase (unknown_peer s) = sas_phase s"
  "on (unknown_peer s) = on s" "st_phase (unknown_peer s) = st_phase s"
  "st_status (unknown_peer s) = st_status s" "vault_wipe_gen (unknown_peer s) = vault_wipe_gen s"
  "peer_id (unknown_peer s) = zero32"
  by (simp_all add: unknown_peer_def)

declare unknown_peer_frame [frame_simps]

lemma core_ok_unknown_peer: "core_ok a \<Longrightarrow> core_ok (with_state unknown_peer a)"
  by (rule core_ok_with_state) (simp_all add: frame_simps sas_ok_def)

lemma core_ok_sas_reset: "core_ok a \<Longrightarrow> core_ok (with_state (\<lambda>s. s\<lparr>sas_phase := sas_idle, sas_peer := None\<rparr>) a)"
  by (rule core_ok_with_state) (simp_all add: sas_reset_ok)

lemma core_ok_fields:
  "core_ok (a\<lparr>last_paired_peer_id := p\<rparr>) = core_ok a" "core_ok (a\<lparr>a_phase := ph\<rparr>) = core_ok a"
  "core_ok (a\<lparr>clock := c\<rparr>) = core_ok a" "core_ok (a\<lparr>local_seq := n\<rparr>) = core_ok a"
  by (simp_all add: core_defs)

lemma core_ok_dedup: "core_ok a \<Longrightarrow> core_ok (a\<lparr>dedup := snd (observe_clipboard h now (dedup a))\<rparr>)"
  by (simp add: core_defs clipboard_inv)

lemma core_ok_peer_seen [inv_intros]:
  assumes ok: "core_ok a" shows "core_ok (fst (on_peer_seen p name a))"
proof -
  have fin: "core_ok (with_state (\<lambda>s. s\<lparr>peer_id := p\<rparr>) (b\<lparr>last_paired_peer_id := p\<rparr>))" if "core_ok b" for b
    by (rule core_ok_with_state) (simp_all add: that core_ok_fields sas_ok_def)
  have named: "core_ok (with_state (\<lambda>s. s\<lparr>peer_name := name\<rparr>) a)" (is "core_ok ?a")
    by (rule core_ok_with_state [OF ok]) (simp_all add: sas_ok_def)
  have "core_ok (drop_pending_all (with_state (\<lambda>s. s\<lparr>history := []\<rparr>) ?a))"
    by (intro core_ok_drop_all core_ok_with_state [OF named]) (simp_all add: sas_ok_def)
  then have wiped: "core_ok (with_state (\<lambda>s. s\<lparr>vault_wipe_gen := vault_wipe_gen s + 1\<rparr>)
      (drop_pending_all (with_state (\<lambda>s. s\<lparr>history := []\<rparr>) ?a)))"
    by (rule core_ok_with_state) (simp_all add: sas_ok_def)
  show ?thesis
    using fin [OF named] fin [OF wiped] fin [OF core_ok_drop_for [OF named]] named
    by (simp add: on_peer_seen_def Let_def case_prod_unfold)
qed

lemma core_ok_local_clipboard [inv_intros]:
  "core_ok a \<Longrightarrow> core_ok (fst (on_local_clipboard w c a))"
  by (simp add: on_local_clipboard_def Let_def case_prod_unfold core_ok_push core_ok_dedup core_ok_fields
      core_ok_dedup [of "a\<lparr>clock := x\<rparr>" for x, simplified])

lemma core_ok_frame_received [inv_intros]:
  "core_ok a \<Longrightarrow> core_ok (fst (on_frame_received b3 w f a))"
  by (simp add: on_frame_received_def Let_def case_prod_unfold core_ok_push core_ok_fields
      core_ok_dedup [of "a\<lparr>clock := x\<rparr>" for x, simplified])

lemma core_ok_failover [inv_intros]: "core_ok a \<Longrightarrow> core_ok (on_primary_failover p n pl cs a)"
  by (simp add: on_primary_failover_def core_defs Let_def)

lemma core_ok_untrusted [inv_intros]: "core_ok a \<Longrightarrow> core_ok (on_untrusted a)"
  by (simp add: on_untrusted_def core_defs frame_simps)

lemma core_ok_ghost [inv_intros]: "core_ok a \<Longrightarrow> core_ok (fst (on_ghost_timeout a))"
  by (simp add: on_ghost_timeout_def Let_def case_prod_unfold
      core_ok_sas_reset core_ok_drop_for core_ok_unknown_peer)

lemma core_ok_unpair [inv_intros]: "core_ok a \<Longrightarrow> core_ok (on_manual_unpair a)"
  by (simp add: on_manual_unpair_def core_defs frame_simps)

lemma core_ok_revoked [inv_intros]: "core_ok a \<Longrightarrow> core_ok (fst (on_peer_revoked p a))"
proof -
  assume "core_ok a"
  then have ok: "core_ok (snd (drop_pending_for p a))" by (rule core_ok_drop_for)
  have "core_ok (with_state (\<lambda>s. (unknown_peer s)\<lparr>trusted_peer_name := None\<rparr>) (snd (drop_pending_for p a)))"
    by (rule core_ok_with_state [OF ok]) (simp_all add: frame_simps sas_ok_def)
  with ok show ?thesis by (simp add: on_peer_revoked_def Let_def case_prod_unfold)
qed

lemma sas_ok_arms:
  "sas_ok s \<Longrightarrow> sas_ok (on_peer_lost p s)"
  "sas_ok s \<Longrightarrow> sas_peer s = Some p \<Longrightarrow> sas_ok (on_sas_local s)"
  "sas_ok s \<Longrightarrow> sas_peer s = Some p \<Longrightarrow> sas_ok (on_sas_peer s)"
  "sas_ok s \<Longrightarrow> sas_peer s = Some p \<Longrightarrow> sas_ok (s\<lparr>sas_phase := sas_peer_rejected\<rparr>)"
  by (auto simp: sas_ok_def on_peer_lost_def on_sas_local_def on_sas_peer_def Let_def)

lemma core_ok_state_arms:
  "core_ok a \<Longrightarrow> core_ok (with_state (on_peer_lost p) a)"
  "core_ok a \<Longrightarrow> sas_peer (a_state a) = Some p \<Longrightarrow> core_ok (with_state on_sas_local a)"
  "core_ok a \<Longrightarrow> sas_peer (a_state a) = Some p \<Longrightarrow> core_ok (with_state on_sas_peer a)"
  "core_ok a \<Longrightarrow> sas_peer (a_state a) = Some p \<Longrightarrow>
     core_ok (with_state (\<lambda>s. s\<lparr>sas_phase := sas_peer_rejected\<rparr>) a)"
  using sas_ok_arms [of "a_state a" p]
  by (simp_all add: core_ok_def park_inv_def settings_ok_def hist_ok_def rings_ok_def
      on_peer_lost_def on_sas_local_def on_sas_peer_def Let_def split: if_splits)

lemma core_ok_pre: "core_ok a \<Longrightarrow> core_ok (fst (pre_transition b3 w e a))"
proof (cases e)
  case (SetFavorite h fav)
  assume "core_ok a"
  then show ?thesis
    by (auto simp: SetFavorite core_defs on_set_favorite_def)
next
  case (ClearHistory inc)
  assume "core_ok a"
  then show ?thesis
    by (auto simp: ClearHistory core_defs on_clear_history_def)
qed (simp_all add: inv_intros core_ok_state_arms core_ok_sas_reset case_prod_unfold Let_def,
    simp_all add: core_defs)

section \<open>After the transition\<close>

definition gated :: "event \<Rightarrow> app \<Rightarrow> app" where
  "gated e a = snd (apply_firewall e [] a)"

lemma apply_firewall_app: "snd (apply_firewall e as a) = gated e a"
  by (simp add: gated_def apply_firewall_def split: option.splits prod.splits decision.splits)

lemma gated_frame [frame_simps]:
  "a_phase (gated e a) = a_phase a" "dedup (gated e a) = dedup a" "seen (gated e a) = seen a"
  "links (gated e a) = links a" "a_config (gated e a) = a_config a" "clock (gated e a) = clock a"
  "last_paired_peer_id (gated e a) = last_paired_peer_id a"
  "local_seq (gated e a) = local_seq a"
  by (simp_all add: gated_def apply_firewall_def park_pending_def Let_def
      split: option.splits prod.splits decision.splits)

lemma gated_state: "a_state (gated e a) = (a_state a)\<lparr>pending := pending (a_state (gated e a))\<rparr>"
  by (simp add: gated_def apply_firewall_def park_pending_def Let_def
      split: option.splits prod.splits decision.splits)

lemma core_ok_gated [inv_intros]: "core_ok a \<Longrightarrow> core_ok (gated e a)"
  by (auto simp: gated_def apply_firewall_def core_ok_park split: option.splits prod.splits decision.splits)

definition settled :: "phase \<Rightarrow> app \<Rightarrow> app" where
  "settled ph a = a\<lparr>a_phase := ph, a_state := (a_state a)\<lparr>st_phase := phase_str ph,
     st_status := status_for (a_state a)\<rparr>\<rparr>"

lemma post_transition_app:
  "snd (post_transition e d a) = settled (fst (transition (a_phase a) e)) (gated e a)"
  by (simp add: post_transition_def Let_def case_prod_unfold apply_firewall_app settled_def
      with_state_def status_for_def)

lemma settled_inv: "core_ok a \<Longrightarrow> app_inv (settled ph a)"
  by (simp add: settled_def app_inv_def view_ok_def core_defs status_for_def)

text \<open>The three ways through \<open>handle\<close>.\<close>

definition refused :: "event \<Rightarrow> app \<Rightarrow> bool" where
  "refused e a \<longleftrightarrow> (case e of PeerSeen p _ \<Rightarrow> is_peer_mismatch p a | _ \<Rightarrow> False)"

lemma handle_resolve: "handle b3 w (ResolvePending h allow) a = resolve_pending h allow a"
  by (simp add: handle_def)

lemma handle_refused: "refused e a \<Longrightarrow> handle b3 w e a = ([], a)"
  by (cases e) (simp_all add: handle_def refused_def)

lemma handle_main:
  assumes "\<nexists>h b. e = ResolvePending h b" and "\<not> refused e a"
  shows "handle b3 w e a =
    (let (a', sup, dropped) = pre_transition b3 w e a in
     if sup then (duplicate_actions e, a') else post_transition e dropped a')"
  using assms by (cases e) (auto simp: handle_def refused_def case_prod_unfold simp del: pre_transition.simps)

lemma handle_induct:
  assumes "\<And>h allow. e = ResolvePending h allow \<Longrightarrow> P (resolve_pending h allow a)"
    and "refused e a \<Longrightarrow> P ([], a)"
    and "\<And>a' dropped. \<not> refused e a \<Longrightarrow> pre_transition b3 w e a = (a', True, dropped) \<Longrightarrow>
           P (duplicate_actions e, a')"
    and "\<And>a' dropped. \<not> refused e a \<Longrightarrow> pre_transition b3 w e a = (a', False, dropped) \<Longrightarrow>
           (\<nexists>h b. e = ResolvePending h b) \<Longrightarrow> P (post_transition e dropped a')"
  shows "P (handle b3 w e a)"
proof (cases "\<exists>h b. e = ResolvePending h b")
  case True
  then show ?thesis using assms(1) by (auto simp: handle_resolve)
next
  case nres: False
  show ?thesis
  proof (cases "refused e a")
    case True
    then show ?thesis using assms(2) by (simp add: handle_refused)
  next
    case False
    obtain a' sup dropped where pre: "pre_transition b3 w e a = (a', sup, dropped)"
      by (cases "pre_transition b3 w e a") auto
    show ?thesis
      using assms(3) [OF False, of a' dropped] assms(4) [OF False, of a' dropped] pre nres
      by (cases sup) (simp_all add: handle_main [OF nres False])
  qed
qed

text \<open>A suppressed event touched the clock, the ring and the history only.\<close>

lemma suppressed_view:
  "pre_transition b3 w e a = (a', True, dropped) \<Longrightarrow>
     a_phase a' = a_phase a \<and> a_state a' = a_state a"
  by (cases e)
    (auto simp: Let_def case_prod_unfold on_local_clipboard_def on_frame_received_def push_history_def
      split: if_splits)

lemma app_inv_resolve: "app_inv a \<Longrightarrow> app_inv (snd (resolve_pending h allow a))"
proof -
  assume i: "app_inv a"
  have "view_ok (snd (resolve_pending h allow a)) = view_ok a"
    by (simp add: view_ok_def resolve_pending_def Let_def status_for_def split: option.splits)
  then show ?thesis using i core_ok_resolve by (simp add: app_inv_def)
qed

lemma app_inv_handle: "app_inv a \<Longrightarrow> app_inv (snd (handle b3 w e a))"
proof -
  assume i: "app_inv a"
  then have ok: "core_ok a" by (simp add: app_inv_def)
  show ?thesis
  proof (rule handle_induct)
    show "app_inv (snd (resolve_pending h allow a))" for h allow
      using i by (rule app_inv_resolve)
    show "app_inv (snd ([], a))" using i by simp
  next
    fix a' dropped
    assume pre: "pre_transition b3 w e a = (a', True, dropped)"
    have "core_ok a'" using core_ok_pre [OF ok, of b3 w e] by (simp add: pre)
    then show "app_inv (snd (duplicate_actions e, a'))"
      using suppressed_view [OF pre] i by (simp add: app_inv_def view_ok_def)
  next
    fix a' dropped
    assume pre: "pre_transition b3 w e a = (a', False, dropped)"
    have "core_ok a'" using core_ok_pre [OF ok, of b3 w e] by (simp add: pre)
    then show "app_inv (snd (post_transition e dropped a'))"
      by (simp add: post_transition_app settled_inv core_ok_gated)
  qed
qed

section \<open>Every operation of the core\<close>

datatype app_op =
    Handle wall event
  | SetFirewall firewall_policy
  | SetDeviceName ustr
  | SetHistoryRetention u64 millis
  | ExpireHistory millis
  | MarkDelivered bytes32 ustr
  | SetMetrics "connection_metrics option"
  | SetLatency u32
  | SetOtherLinkedPeers "bytes32 list"
  | HandlePeer device_id event
  | SetLocalSeq u64
  | BroadcastLocal bytes32 kind bytes bool
  | IngestRemote device_id event_id

fun app_step :: "(bytes \<Rightarrow> bytes32) \<Rightarrow> app_op \<Rightarrow> app \<Rightarrow> app" where
  "app_step b3 (Handle w e) a = snd (handle b3 w e a)"
| "app_step b3 (SetFirewall p) a = set_firewall p a"
| "app_step b3 (SetDeviceName n) a = (case set_device_name n a of Inl _ \<Rightarrow> a | Inr a' \<Rightarrow> a')"
| "app_step b3 (SetHistoryRetention secs now) a =
     (case set_history_retention secs now a of Inl _ \<Rightarrow> a | Inr a' \<Rightarrow> a')"
| "app_step b3 (ExpireHistory now) a = snd (expire_history now a)"
| "app_step b3 (MarkDelivered h d) a = snd (mark_delivered h d a)"
| "app_step b3 (SetMetrics m) a = set_metrics m a"
| "app_step b3 (SetLatency ms) a = set_latency ms a"
| "app_step b3 (SetOtherLinkedPeers ps) a = set_other_linked_peers ps a"
| "app_step b3 (HandlePeer d e) a = snd (handle_peer d e a)"
| "app_step b3 (SetLocalSeq n) a = set_local_seq n a"
| "app_step b3 (BroadcastLocal h k p s) a = snd (broadcast_local h k p s a)"
| "app_step b3 (IngestRemote d i) a = snd (ingest_remote d i a)"

lemma app_inv_with_state:
  assumes "app_inv a"
    and "\<And>s. pending (f s) = pending s" "\<And>s. firewall (f s) = firewall s"
    and "\<And>s. device_name (f s) = device_name s" "\<And>s. sas_phase (f s) = sas_phase s"
    and "\<And>s. sas_peer (f s) = sas_peer s" "\<And>s. set (history (f s)) \<subseteq> set (history s)"
    and "\<And>s. st_phase (f s) = st_phase s" "\<And>s. st_status (f s) = st_status s" "\<And>s. on (f s) = on s"
  shows "app_inv (with_state f a)"
  using assms(1) assms(7) [of "a_state a"]
  by (auto simp: app_inv_def core_defs view_ok_def status_for_def assms(2-6,8-10))

lemma app_inv_expire: "app_inv a \<Longrightarrow> app_inv (snd (expire_history now a))"
  by (auto simp: expire_history_def Let_def app_inv_def core_defs view_ok_def status_for_def)

lemma app_inv_delivered: "app_inv a \<Longrightarrow> app_inv (snd (mark_delivered h d a))"
  by (auto simp: mark_delivered_def Let_def intro: app_inv_with_state)

lemmas app_inv_defs = app_inv_def core_defs view_ok_def status_for_def

lemma app_inv_settings:
  assumes "app_inv a"
  shows "app_inv (set_firewall p a)" "app_inv (set_metrics m a)" "app_inv (set_latency ms a)"
    and "app_inv (set_other_linked_peers ps a)" "app_inv (set_local_seq n a)"
proof -
  show "app_inv (set_firewall p a)" using assms by (simp add: app_inv_defs set_firewall_def)
  show "app_inv (set_metrics m a)" "app_inv (set_latency ms a)"
    unfolding set_metrics_def set_latency_def by (rule app_inv_with_state [OF assms]; simp)+
  show "app_inv (set_other_linked_peers ps a)" "app_inv (set_local_seq n a)"
    using assms by (simp_all add: app_inv_defs set_other_linked_peers_def set_local_seq_def)
qed

lemma set_device_name_Inr:
  "set_device_name n a = Inr a' \<longleftrightarrow>
     trim n \<noteq> [] \<and> str_len (trim n) \<le> MAX_HELLO_NAME
     \<and> \<not> list_ex (\<lambda>c. is_control c \<or> is_bidi_or_format_char c) (trim n)
     \<and> a' = a\<lparr>a_config := (a_config a)\<lparr>peer_name_self := trim n\<rparr>,
              a_state := (a_state a)\<lparr>device_name := trim n\<rparr>\<rparr>"
  by (simp add: set_device_name_def Let_def not_less) blast

lemma app_inv_rename: "app_inv a \<Longrightarrow> set_device_name n a = Inr a' \<Longrightarrow> app_inv a'"
  by (simp add: set_device_name_Inr app_inv_defs)

lemma app_inv_retention: "app_inv a \<Longrightarrow> set_history_retention secs now a = Inr a' \<Longrightarrow> app_inv a'"
proof -
  assume i: "app_inv a" and r: "set_history_retention secs now a = Inr a'"
  have "app_inv (with_state (\<lambda>s. s\<lparr>history_retention_secs := secs\<rparr>) a)"
    by (rule app_inv_with_state [OF i]) simp_all
  moreover from r have "a' = snd (expire_history now (with_state (\<lambda>s. s\<lparr>history_retention_secs := secs\<rparr>) a))"
    by (simp add: set_history_retention_def split: if_splits)
  ultimately show ?thesis by (simp add: app_inv_expire)
qed

lemma app_inv_mesh:
  assumes "app_inv a"
  shows "app_inv (snd (handle_peer d e a))" "app_inv (snd (broadcast_local h k p s a))"
    and "app_inv (snd (ingest_remote d i a))"
  using assms
  by (simp_all add: app_inv_defs handle_peer_def broadcast_local_def ingest_remote_def
      next_local_event_id_def Let_def case_prod_unfold bt_wf_insert seen_observe_inv)

lemma app_inv_step: "app_inv a \<Longrightarrow> app_inv (app_step b3 op a)"
proof (cases op)
  case (SetDeviceName n)
  assume "app_inv a"
  then show ?thesis using app_inv_rename by (auto simp: SetDeviceName split: sum.split)
next
  case (SetHistoryRetention secs now)
  assume "app_inv a"
  then show ?thesis using app_inv_retention by (auto simp: SetHistoryRetention split: sum.split)
qed (simp_all add: app_inv_handle app_inv_expire app_inv_delivered app_inv_settings app_inv_mesh)

lemma app_inv_new: "app_inv (app_new c)"
  by (simp add: app_new_def app_inv_def core_defs view_ok_def initial_def status_for_def ring_default_inv
      seen_default_inv lit_def, simp add: ring_default_def ring_new_def)

interpretation app_machine: machine "app_step b3" app_inv for b3
  by unfold_locales (rule app_inv_step)

end
