(* ===== verification/App_Gate.thy ===== *)
theory App_Gate
  imports App_Run
begin

text \<open>
  What leaves the core: which events make the daemon send an item or write the OS clipboard, what the
  firewall does to it, and that every received item is acknowledged.
\<close>

section \<open>Actions through the stages after the transition\<close>

definition is_battery :: "action \<Rightarrow> bool" where
  "is_battery x = (case x of SendBattery _ _ \<Rightarrow> True | _ \<Rightarrow> False)"

lemma is_battery_simps [simp]:
  "is_battery (SendBattery l c)" "\<not> is_battery (SendItem h k b s)" "\<not> is_battery (WriteClipboard k b s)"
  "\<not> is_battery (AckItem h)" "\<not> is_battery EmitState" "\<not> is_battery (PendingDropped hs)"
  "\<not> is_battery ResyncApplySuppressed"
  by (simp_all add: is_battery_def)

lemma fix_battery_other: "\<not> is_battery x \<Longrightarrow> x \<in> set (fix_battery s as) \<longleftrightarrow> x \<in> set as"
  by (induction s as rule: fix_battery.induct) auto

lemma fix_battery_reading:
  "SendBattery l c \<in> set (fix_battery s as) \<Longrightarrow>
     l = battery_level s \<and> c = charging s \<and> l \<noteq> 255"
  by (induction s as rule: fix_battery.induct) (auto split: if_splits)

lemma resync_strip_other:
  "\<not> is_write x \<Longrightarrow> x \<noteq> ResyncApplySuppressed \<Longrightarrow> x \<in> set (resync_strip e as) \<longleftrightarrow> x \<in> set as"
  by (auto simp: resync_strip_def)

lemma resync_strip_write:
  "WriteClipboard k b s \<in> set (resync_strip e as) \<longleftrightarrow>
     WriteClipboard k b s \<in> set as \<and> \<not> wants_resync_strip e"
  by (auto simp: resync_strip_def)

lemma add_emit_other: "x \<noteq> EmitState \<Longrightarrow> x \<in> set (add_emit_state n as) \<longleftrightarrow> x \<in> set as"
  by (simp add: add_emit_state_def)

definition gated_actions :: "event \<Rightarrow> app \<Rightarrow> action list" where
  "gated_actions e a = fst (apply_firewall e (snd (transition (a_phase a) e)) a)"

lemma post_transition_actions:
  "\<exists>n n'. fst (post_transition e d a) =
     add_emit_state n' (add_emit_state n
       (fix_battery (a_state (gated e a))
         (resync_strip e (if d \<noteq> [] then gated_actions e a @ [PendingDropped d] else gated_actions e a))))
     \<and> n' = always_emits e"
  by (simp add: post_transition_def Let_def case_prod_unfold gated_actions_def apply_firewall_app) blast

lemma post_other_mem:
  assumes "\<not> is_battery x" "\<not> is_write x" "x \<noteq> EmitState" "x \<noteq> ResyncApplySuppressed"
    and "\<And>hs. x \<noteq> PendingDropped hs"
  shows "x \<in> set (fst (post_transition e d a)) \<longleftrightarrow> x \<in> set (gated_actions e a)"
proof -
  obtain n n' where "fst (post_transition e d a) =
     add_emit_state n' (add_emit_state n (fix_battery (a_state (gated e a))
         (resync_strip e (if d \<noteq> [] then gated_actions e a @ [PendingDropped d] else gated_actions e a))))"
    using post_transition_actions by blast
  then show ?thesis
    using assms by (simp add: add_emit_other fix_battery_other resync_strip_other)
qed

lemma post_send_mem:
  "SendItem h k b s \<in> set (fst (post_transition e d a)) \<longleftrightarrow> SendItem h k b s \<in> set (gated_actions e a)"
  by (rule post_other_mem) simp_all

lemma post_ack_mem:
  "AckItem h \<in> set (fst (post_transition e d a)) \<longleftrightarrow> AckItem h \<in> set (gated_actions e a)"
  by (rule post_other_mem) simp_all

lemma post_write_mem:
  "WriteClipboard k b s \<in> set (fst (post_transition e d a)) \<longleftrightarrow>
     WriteClipboard k b s \<in> set (gated_actions e a) \<and> \<not> wants_resync_strip e"
proof -
  obtain n n' where "fst (post_transition e d a) =
     add_emit_state n' (add_emit_state n (fix_battery (a_state (gated e a))
         (resync_strip e (if d \<noteq> [] then gated_actions e a @ [PendingDropped d] else gated_actions e a))))"
    using post_transition_actions by blast
  then show ?thesis
    by (simp add: add_emit_other fix_battery_other resync_strip_write)
qed

lemma post_battery:
  "SendBattery l c \<in> set (fst (post_transition e d a)) \<Longrightarrow>
     l = battery_level (a_state (gated e a)) \<and> c = charging (a_state (gated e a)) \<and> l \<noteq> 255"
proof -
  assume m: "SendBattery l c \<in> set (fst (post_transition e d a))"
  obtain n n' where "fst (post_transition e d a) =
     add_emit_state n' (add_emit_state n (fix_battery (a_state (gated e a))
         (resync_strip e (if d \<noteq> [] then gated_actions e a @ [PendingDropped d] else gated_actions e a))))"
    using post_transition_actions by blast
  with m have "SendBattery l c \<in> set (fix_battery (a_state (gated e a))
         (resync_strip e (if d \<noteq> [] then gated_actions e a @ [PendingDropped d] else gated_actions e a)))"
    by (simp add: add_emit_other)
  then show ?thesis by (rule fix_battery_reading)
qed

section \<open>The gated actions\<close>

lemma transition_send_mem:
  "SendItem h k b s \<in> set (snd (transition ph e)) \<longleftrightarrow>
     ph = Linked \<and> (\<exists>c. e = LocalClipboardChange c \<and> h = lc_hash c \<and> k = lc_kind c
                        \<and> b = lc_payload c \<and> s = lc_sensitive c)"
  by (cases e; cases ph) auto

lemma transition_write_mem:
  "WriteClipboard k b s \<in> set (snd (transition ph e)) \<longleftrightarrow>
     ph = Linked \<and> (\<exists>f. e = FrameReceivedClipboard f \<and> k = fr_kind f \<and> b = fr_payload f
                        \<and> s = fr_sensitive f)"
  by (cases e; cases ph) auto

lemma gated_send:
  "SendItem h k b s \<in> set (gated_actions e a) \<longleftrightarrow>
     a_phase a = Linked \<and> (\<exists>c. e = LocalClipboardChange c \<and> h = lc_hash c \<and> k = lc_kind c
       \<and> b = lc_payload c \<and> s = lc_sensitive c
       \<and> decide (cfg_firewall (a_config a)) (lc_kind c) (lc_sensitive c) Outbound = Pass)"
  unfolding gated_actions_def
  by (cases e) (auto simp: apply_firewall_def event_item_def strip_sync_action_def transition_send_mem
      simp del: transition.simps split: decision.splits)

lemma gated_write:
  "WriteClipboard k b s \<in> set (gated_actions e a) \<longleftrightarrow>
     a_phase a = Linked \<and> (\<exists>f. e = FrameReceivedClipboard f \<and> k = fr_kind f \<and> b = fr_payload f
       \<and> s = fr_sensitive f
       \<and> decide (cfg_firewall (a_config a)) (fr_kind f) (fr_sensitive f) Inbound = Pass)"
  unfolding gated_actions_def
  by (cases e) (auto simp: apply_firewall_def event_item_def strip_sync_action_def transition_write_mem
      simp del: transition.simps split: decision.splits)

lemma gated_ack: "AckItem (fr_hash f) \<in> set (gated_actions (FrameReceivedClipboard f) a)"
  by (simp add: gated_actions_def apply_firewall_def event_item_def strip_sync_action_def
      split: decision.splits)

section \<open>Fresh and repeated content\<close>

definition local_fresh :: "wall \<Rightarrow> local_change \<Rightarrow> app \<Rightarrow> bool" where
  "local_fresh w c a \<longleftrightarrow> fst (observe_clipboard (ContentHash (lc_hash c)) (unix_millis w) (dedup a))"

definition frame_fresh :: "(bytes \<Rightarrow> bytes32) \<Rightarrow> wall \<Rightarrow> clip_frame \<Rightarrow> app \<Rightarrow> bool" where
  "frame_fresh b3 w f a \<longleftrightarrow>
     (let d = frame_digest b3 (fr_kind f) (fr_payload f) in
      \<not> (fr_resync f \<and> ring_contains d (dedup a)) \<and> fst (observe_clipboard d (unix_millis w) (dedup a)))"

lemma push_history_frame [frame_simps]:
  "a_phase (push_history i a) = a_phase a" "a_config (push_history i a) = a_config a"
  "pending_payloads (push_history i a) = pending_payloads a" "dedup (push_history i a) = dedup a"
  "pending (a_state (push_history i a)) = pending (a_state a)"
  "battery_level (a_state (push_history i a)) = battery_level (a_state a)"
  "charging (a_state (push_history i a)) = charging (a_state a)"
  by (simp_all add: push_history_def)

lemma local_clipboard_result:
  "snd (on_local_clipboard w c a) \<longleftrightarrow> \<not> local_fresh w c a"
  by (simp add: on_local_clipboard_def local_fresh_def Let_def case_prod_unfold)

lemma frame_received_result:
  "snd (on_frame_received b3 w f a) \<longleftrightarrow> \<not> frame_fresh b3 w f a"
  by (simp add: on_frame_received_def frame_fresh_def Let_def case_prod_unfold)

lemma local_clipboard_frame [frame_simps]:
  "a_phase (fst (on_local_clipboard w c a)) = a_phase a"
  "a_config (fst (on_local_clipboard w c a)) = a_config a"
  "pending_payloads (fst (on_local_clipboard w c a)) = pending_payloads a"
  "pending (a_state (fst (on_local_clipboard w c a))) = pending (a_state a)"
  by (simp_all add: on_local_clipboard_def Let_def case_prod_unfold frame_simps)

lemma frame_received_frame [frame_simps]:
  "a_phase (fst (on_frame_received b3 w f a)) = a_phase a"
  "a_config (fst (on_frame_received b3 w f a)) = a_config a"
  "pending_payloads (fst (on_frame_received b3 w f a)) = pending_payloads a"
  "pending (a_state (fst (on_frame_received b3 w f a))) = pending (a_state a)"
  by (simp_all add: on_frame_received_def Let_def case_prod_unfold frame_simps)

lemma handle_local:
  "handle b3 w (LocalClipboardChange c) a =
     (if local_fresh w c a
      then post_transition (LocalClipboardChange c) [] (fst (on_local_clipboard w c a))
      else ([DuplicateDropped], fst (on_local_clipboard w c a)))"
  by (simp add: handle_def case_prod_unfold Let_def local_clipboard_result duplicate_actions_def)

lemma handle_frame:
  "handle b3 w (FrameReceivedClipboard f) a =
     (if frame_fresh b3 w f a
      then post_transition (FrameReceivedClipboard f) [] (fst (on_frame_received b3 w f a))
      else ([DuplicateDropped, AckItem (fr_hash f)], fst (on_frame_received b3 w f a)))"
  by (simp add: handle_def case_prod_unfold Let_def frame_received_result duplicate_actions_def)

lemma other_no_sync:
  assumes "event_item e = None" and "\<nexists>h b. e = ResolvePending h b"
  shows "SendItem h k b s \<notin> set (fst (handle b3 w e a))" "WriteClipboard k b s \<notin> set (fst (handle b3 w e a))"
proof -
  have *: "SendItem h k b s \<notin> set (fst r) \<and> WriteClipboard k b s \<notin> set (fst r)"
    if "r = handle b3 w e a" for r
    unfolding that
    by (rule handle_induct)
      (use assms in \<open>auto simp: post_send_mem post_write_mem gated_send gated_write event_item_def
        duplicate_actions_def split: event.splits\<close>)
  then show "SendItem h k b s \<notin> set (fst (handle b3 w e a))"
    "WriteClipboard k b s \<notin> set (fst (handle b3 w e a))" by simp_all
qed

section \<open>Properties\<close>


text \<open>
  C4: The OS clipboard is written for two reasons only: an inbound item on a live link that is not a
  repeat, not a resync catch-up and passed by the firewall, or a parked inbound item the user approves.
\<close>

theorem writes_only_what_passed:
  "WriteClipboard k b s \<in> set (fst (handle b3 w e a)) \<longleftrightarrow>
     (\<exists>f. e = FrameReceivedClipboard f \<and> a_phase a = Linked \<and> frame_fresh b3 w f a \<and> \<not> fr_resync f
        \<and> decide (cfg_firewall (a_config a)) (fr_kind f) (fr_sensitive f) Inbound = Pass
        \<and> k = fr_kind f \<and> b = fr_payload f \<and> s = fr_sensitive f)
     \<or> (\<exists>key p. e = ResolvePending key True \<and> bt_get (pending_payloads a) key = Some p
        \<and> pp_direction p = Inbound \<and> k = pp_kind p \<and> b = pp_payload p \<and> s = pp_sensitive p)"
proof (cases "event_item e = None \<and> (\<nexists>h b. e = ResolvePending h b)")
  case True
  then show ?thesis using other_no_sync(2) [of e k b s b3 w a] by (auto simp: event_item_def)
next
  case False
  then consider c where "e = LocalClipboardChange c" | f where "e = FrameReceivedClipboard f"
    | key allow where "e = ResolvePending key allow"
    by (cases e) (auto simp: event_item_def)
  then show ?thesis
  proof cases
    case (1 c)
    then show ?thesis by (simp add: handle_local post_write_mem gated_write)
  next
    case (2 f)
    then show ?thesis
      by (simp add: handle_frame post_write_mem gated_write frame_simps wants_resync_strip_def) blast
  next
    case (3 key allow)
    then show ?thesis
      by (auto simp: handle_resolve resolve_pending_def Let_def split: option.splits direction.splits)
  qed
qed

text \<open>
  Every inbound clipboard frame is acknowledged under the hash its sender used, in every phase, whether
  it is applied, repeated, blocked, parked or a catch-up, so no sender retransmits forever.
\<close>

theorem every_frame_acked: "AckItem (fr_hash f) \<in> set (fst (handle b3 w (FrameReceivedClipboard f) a))"
  by (simp add: handle_frame post_ack_mem gated_ack)

text \<open>
  The battery reading that goes to a peer is this device's own current one, whatever placeholder the
  transition put there, and the "unknown" value 255, which the codec refuses, is never sent.
\<close>

theorem battery_is_real:
  assumes "SendBattery l c \<in> set (fst (handle b3 w e a))"
  shows "l = battery_level (a_state (snd (handle b3 w e a)))
    \<and> c = charging (a_state (snd (handle b3 w e a))) \<and> l \<noteq> 255"
proof -
  have "SendBattery l c \<in> set (fst r) \<longrightarrow>
      l = battery_level (a_state (snd r)) \<and> c = charging (a_state (snd r)) \<and> l \<noteq> 255"
    if "r = handle b3 w e a" for r
    unfolding that
  proof (rule handle_induct; intro impI)
    fix a' dropped
    assume m: "SendBattery l c \<in> set (fst (post_transition e dropped a'))"
    show "l = battery_level (a_state (snd (post_transition e dropped a')))
      \<and> c = charging (a_state (snd (post_transition e dropped a'))) \<and> l \<noteq> 255"
      using post_battery [OF m] by (auto simp: post_transition_app settled_def)
  qed (auto simp: duplicate_actions_def resolve_pending_def Let_def
      split: event.splits option.splits if_splits direction.splits)
  with assms show ?thesis by blast
qed

definition demo_handshaking :: app where
  "demo_handshaking = (app_new (config_default []))\<lparr>a_phase := Handshaking,
     a_state := (initial (config_default []))\<lparr>on := True, battery_level := 80, charging := True\<rparr>\<rparr>"

theorem battery_is_real_witness:
  "\<exists>as a'. handle (\<lambda>b. b) \<lparr>hhmm = [], unix_millis = 0\<rparr> HandshakeOk demo_handshaking = (as, a')
     \<and> SendBattery 80 True \<in> set as \<and> battery_level (a_state a') = 80"
proof -
  let ?r = "handle (\<lambda>b. b) \<lparr>hhmm = [], unix_millis = 0\<rparr> HandshakeOk demo_handshaking"
  have "SendBattery 80 True \<in> set (fst ?r)"
    by (simp add: handle_def post_transition_def demo_handshaking_def apply_firewall_def event_item_def
        resync_strip_def wants_resync_strip_def add_emit_state_def Let_def)
  from this battery_is_real [OF this] show ?thesis
    by (intro exI [of _ "fst ?r"] exI [of _ "snd ?r"]) simp
qed

end
