(* ===== verification/App_History.thy ===== *)
theory App_History
  imports App_Gate
begin

text \<open>
  The history of the core: what a push keeps, what the retention setting drops, what the restart
  restores, and that nothing blocked or secret enters it.
\<close>

section \<open>Pushing a row\<close>

definition row_key :: "history_item \<Rightarrow> ustr \<times> kind \<times> ustr" where
  "row_key h = (hi_hash h, hi_kind h, hi_preview h)"

definition fav_keys :: "history_item list \<Rightarrow> (ustr \<times> kind \<times> ustr) set" where
  "fav_keys hs = row_key ` {h \<in> set hs. favorite h}"

lemma same_row_key: "same_row i h \<longleftrightarrow> row_key h = row_key i"
  by (auto simp: same_row_def row_key_def)

lemma row_key_favorite [simp]: "row_key (i\<lparr>favorite := b\<rparr>) = row_key i"
  by (simp add: row_key_def)

lemma cap_from_fav: "{h \<in> set (cap_from k hs). favorite h} = {h \<in> set hs. favorite h}"
  by (induction k hs rule: cap_from.induct) auto

lemma cap_from_bound: "length (filter (\<lambda>h. \<not> favorite h) (cap_from k hs)) \<le> HISTORY_SOFT_CAP - k"
  by (induction k hs rule: cap_from.induct) auto

lemma cap_from_distinct: "distinct (map f hs) \<Longrightarrow> distinct (map f (cap_from k hs))"
proof (induction k hs rule: cap_from.induct)
  case (1 k)
  then show ?case by simp
next
  case (2 k h hs)
  have "f h \<notin> f ` set (cap_from j hs)" for j
    using 2(4) set_cap_from [of j hs] by auto
  with 2 show ?case by simp
qed

lemma cap_from_hd: "hs \<noteq> [] \<Longrightarrow> k < HISTORY_SOFT_CAP \<Longrightarrow> cap_from k hs \<noteq> [] \<and> hd (cap_from k hs) = hd hs"
  by (cases hs) auto

text \<open>The list a push builds before the cap.\<close>

definition moved :: "history_item \<Rightarrow> history_item list \<Rightarrow> history_item list" where
  "moved i hs =
     (case position (same_row i) hs of
        Some pos \<Rightarrow> i\<lparr>favorite := favorite i \<or> favorite (hs ! pos)\<rparr> # remove_at pos hs
      | None \<Rightarrow> i # hs)"

lemma push_row_moved:
  "push_row i hs =
     (if HISTORY_SOFT_CAP < length (moved i hs) then cap_from 0 (moved i hs) else moved i hs)"
  by (simp add: push_row_def moved_def cap_history_keeping_favorites_def Let_def split: option.splits)

lemma moved_hd: "moved i hs \<noteq> [] \<and> row_key (hd (moved i hs)) = row_key i"
  by (simp add: moved_def split: option.splits)

lemma moved_fav: "fav_keys hs \<subseteq> fav_keys (moved i hs)"
proof (cases "position (same_row i) hs")
  case None
  then show ?thesis by (auto simp: moved_def fav_keys_def)
next
  case (Some pos)
  then have sp: "hs = take pos hs @ hs ! pos # drop (Suc pos) hs" and eq: "row_key (hs ! pos) = row_key i"
    using position_split [OF Some] by (simp_all add: same_row_key)
  show ?thesis
  proof
    fix x assume "x \<in> fav_keys hs"
    then obtain h where h: "h \<in> set hs" "favorite h" "x = row_key h" by (auto simp: fav_keys_def)
    from h(1) have "h \<in> set (take pos hs @ hs ! pos # drop (Suc pos) hs)"
      using sp by simp
    then consider "h = hs ! pos" | "h \<in> set (remove_at pos hs)"
      by (auto simp: remove_at_def)
    then show "x \<in> fav_keys (moved i hs)"
    proof cases
      case 1
      let ?i = "i\<lparr>favorite := favorite i \<or> favorite (hs ! pos)\<rparr>"
      have "?i \<in> {g \<in> set (moved i hs). favorite g}" "row_key ?i = x"
        using 1 h Some eq by (simp_all add: moved_def)
      then show ?thesis unfolding fav_keys_def by blast
    next
      case 2
      then have "h \<in> {g \<in> set (moved i hs). favorite g}"
        using h Some by (simp add: moved_def)
      then show ?thesis unfolding fav_keys_def h(3) by blast
    qed
  qed
qed

lemma moved_distinct: "distinct (map row_key hs) \<Longrightarrow> distinct (map row_key (moved i hs))"
proof (cases "position (same_row i) hs")
  case None
  assume "distinct (map row_key hs)"
  moreover have "row_key i \<notin> row_key ` set hs"
    using None by (auto simp: position_None_iff same_row_key)
  ultimately show ?thesis using None by (simp add: moved_def)
next
  case (Some pos)
  assume d: "distinct (map row_key hs)"
  have sp: "map row_key hs = map row_key (take pos hs) @ row_key i # map row_key (drop (Suc pos) hs)"
    using position_split(1,2) [OF Some] by (metis list.simps(9) map_append same_row_key)
  with d have "row_key i \<notin> row_key ` set (remove_at pos hs)"
    by (auto simp: remove_at_def)
  with d Some show ?thesis by (simp add: moved_def distinct_remove_at)
qed

text \<open>
  Pushing a row. The newest row is on top, no row is ever there twice (copying something again moves it
  up), at most 50 rows are unpinned, and no pinned row is ever evicted: its pin survives even the move.
\<close>

theorem push_row_spec:
  assumes "distinct (map row_key hs)"
  shows "distinct (map row_key (push_row i hs))
    \<and> row_key (hd (push_row i hs)) = row_key i
    \<and> length (filter (\<lambda>h. \<not> favorite h) (push_row i hs)) \<le> 50
    \<and> fav_keys hs \<subseteq> fav_keys (push_row i hs)"
proof (cases "HISTORY_SOFT_CAP < length (moved i hs)")
  case True
  have "fav_keys (cap_from 0 (moved i hs)) = fav_keys (moved i hs)"
    by (simp add: fav_keys_def cap_from_fav)
  with True show ?thesis
    using cap_from_distinct [OF moved_distinct [OF assms]] cap_from_bound [of 0 "moved i hs"]
      cap_from_hd [of "moved i hs" 0] moved_hd [of i hs] moved_fav [of hs i]
    by (simp add: push_row_moved HISTORY_SOFT_CAP_def)
next
  case False
  have "length (filter (\<lambda>h. \<not> favorite h) (moved i hs)) \<le> 50"
    using False by (intro order_trans [OF length_filter_le]) (simp add: HISTORY_SOFT_CAP_def)
  with False show ?thesis
    using moved_distinct [OF assms] moved_hd [of i hs] moved_fav [of hs i]
    by (simp add: push_row_moved HISTORY_SOFT_CAP_def)
qed

definition demo_row :: "nat \<Rightarrow> bool \<Rightarrow> history_item" where
  "demo_row n fav = \<lparr>hi_kind = Text, hi_preview = [n], hi_time = [], hi_source = Local,
     hi_sensitive = False, hi_lamport = 0, hi_hash = [n], favorite = fav, hi_resync = False,
     source_peer_id = None, created_ms = 0\<rparr>"

theorem push_row_spec_witness:
  "distinct (map row_key [demo_row 1 False, demo_row 2 True])
   \<and> push_row (demo_row 2 False) [demo_row 1 False, demo_row 2 True] = [demo_row 2 True, demo_row 1 False]
   \<and> fav_keys [demo_row 1 False, demo_row 2 True]
       \<subseteq> fav_keys (push_row (demo_row 2 False) [demo_row 1 False, demo_row 2 True])"
proof -
  have d: "distinct (map row_key [demo_row 1 False, demo_row 2 True])"
    by (simp add: row_key_def demo_row_def)
  moreover have "push_row (demo_row 2 False) [demo_row 1 False, demo_row 2 True]
      = [demo_row 2 True, demo_row 1 False]"
    by (simp add: push_row_def demo_row_def same_row_def remove_at_def HISTORY_SOFT_CAP_def)
  ultimately show ?thesis using push_row_spec [OF d, of "demo_row 2 False"] by blast
qed

section \<open>What enters the history\<close>

lemma settled_gated_history: "history (a_state (settled ph (gated e a))) = history (a_state a)"
  unfolding settled_def by (simp, subst gated_state, simp)

lemma frame_received_history:
  assumes "decide (cfg_firewall (a_config a)) (fr_kind f) (fr_sensitive f) Inbound \<noteq> Pass
    \<or> fr_sensitive f \<or> \<not> frame_fresh b3 w f a"
  shows "history (a_state (fst (on_frame_received b3 w f a))) = history (a_state a)"
  using assms by (auto simp: on_frame_received_def Let_def case_prod_unfold frame_fresh_def)

text \<open>
  A received item that the firewall blocks or holds back, or that is a secret, or a repeat, leaves no
  row in the history (and so none in the vault or in any client), although it is acknowledged.
\<close>

theorem held_back_leaves_no_row:
  assumes "decide (cfg_firewall (a_config a)) (fr_kind f) (fr_sensitive f) Inbound \<noteq> Pass
    \<or> fr_sensitive f \<or> \<not> frame_fresh b3 w f a"
  shows "history (a_state (snd (handle b3 w (FrameReceivedClipboard f) a))) = history (a_state a)"
  using frame_received_history [OF assms]
  by (simp add: handle_frame post_transition_app settled_gated_history)

lemma bt_remove_insert: "k \<notin> bt_keys m \<Longrightarrow> bt_remove k (bt_insert k v m) = m"
proof (induction k v m rule: bt_insert.induct)
  case (2 k v k' v' m)
  have "bt_remove k m = m" if "k \<notin> bt_keys m"
    using that by (force simp: bt_remove_def bt_keys_def intro: filter_True)
  with 2 show ?case by (auto simp: bt_remove_def bt_keys_def)
qed (simp add: bt_remove_def)

lemma filter_rows_fresh: "key \<notin> pi_hash ` set rows \<Longrightarrow> filter (\<lambda>p. pi_hash p \<noteq> key) rows = rows"
  by (auto intro: filter_True)

text \<open>The payload half and the display half of an item the firewall holds.\<close>

definition held_payload :: "clip_frame \<Rightarrow> pending_payload" where
  "held_payload f = \<lparr>pp_direction = Inbound, pp_kind = fr_kind f, pp_payload = fr_payload f,
     pp_sensitive = fr_sensitive f, pp_hash = fr_hash f, pp_peer_id = Some (fr_peer_id f)\<rparr>"

definition held_row :: "clip_frame \<Rightarrow> pending_item" where
  "held_row f = \<lparr>pi_hash = hex32 (fr_hash f), pi_kind = fr_kind f, pi_preview = trim (fr_preview f),
     pi_sensitive = fr_sensitive f, pi_direction = Inbound, pi_peer_id = Some (hex32 (fr_peer_id f))\<rparr>"

lemma handle_deferred_frame:
  assumes fresh: "frame_fresh b3 w f a"
    and ask: "decide (cfg_firewall (a_config a)) (fr_kind f) (fr_sensitive f) Inbound = Defer"
    and new: "bt_get (pending_payloads a) (hex32 (fr_hash f)) = None"
  shows "pending_payloads (snd (handle b3 w (FrameReceivedClipboard f) a))
           = bt_insert (hex32 (fr_hash f)) (held_payload f) (pending_payloads a)"
    and "pending (a_state (snd (handle b3 w (FrameReceivedClipboard f) a)))
           = pending (a_state a) @ [held_row f]"
  using assms
  by (simp_all add: handle_frame post_transition_app settled_def gated_def apply_firewall_def
      event_item_def frame_simps park_pending_def Let_def held_payload_def held_row_def)

text \<open>
  The firewall's question, end to end: a fresh inbound item under an \<open>Ask\<close> rule is neither written nor
  recorded but shown as one pending row; approving it by its hash writes exactly its bytes once;
  approving or denying it leaves the parking lot as it was before the item came.
\<close>

theorem ask_then_decide:
  assumes inv: "app_inv a" and fresh: "frame_fresh b3 w f a"
    and ask: "decide (cfg_firewall (a_config a)) (fr_kind f) (fr_sensitive f) Inbound = Defer"
    and new: "hex32 (fr_hash f) \<notin> pi_hash ` set (pending (a_state a))"
    and r: "handle b3 w (FrameReceivedClipboard f) a = (as, a1)"
    and r2: "handle b3 w' (ResolvePending (hex32 (fr_hash f)) allow) a1 = (as2, a2)"
  shows "list_all (\<lambda>x. \<not> is_write x) as \<and> history (a_state a1) = history (a_state a)
    \<and> pending (a_state a1) = pending (a_state a) @ [held_row f]
    \<and> as2 = (if allow then [WriteClipboard (fr_kind f) (fr_payload f) (fr_sensitive f), EmitState]
             else [EmitState])
    \<and> pending (a_state a2) = pending (a_state a) \<and> pending_payloads a2 = pending_payloads a"
proof -
  let ?k = "hex32 (fr_hash f)"
  have park: "bt_wf (pending_payloads a)" "pi_hash ` set (pending (a_state a)) = bt_keys (pending_payloads a)"
    using inv by (simp_all add: app_inv_def core_ok_def park_inv_def park_ok_def)
  have none: "?k \<notin> bt_keys (pending_payloads a)" using new park(2) by simp
  then have gnone: "bt_get (pending_payloads a) ?k = None" by (simp add: bt_get_None_iff)
  have a1: "pending_payloads a1 = bt_insert ?k (held_payload f) (pending_payloads a)"
    "pending (a_state a1) = pending (a_state a) @ [held_row f]"
    using handle_deferred_frame [OF fresh ask gnone] by (simp_all add: r)
  have "history (a_state a1) = history (a_state a)"
    using held_back_leaves_no_row [of a f b3 w] ask by (simp add: r)
  moreover have "list_all (\<lambda>x. \<not> is_write x) as"
  proof -
    have "WriteClipboard k b s \<notin> set as" for k b s
      using writes_only_what_passed [of k b s b3 w "FrameReceivedClipboard f" a] ask by (simp add: r)
    then show ?thesis by (auto simp: list_all_iff is_write_def split: action.splits)
  qed
  moreover have "bt_get (pending_payloads a1) ?k = Some (held_payload f)"
    by (simp add: a1 bt_get_insert park)
  with r2 have "as2 = (if allow then [WriteClipboard (fr_kind f) (fr_payload f) (fr_sensitive f), EmitState]
             else [EmitState])
      \<and> pending (a_state a2) = pending (a_state a) \<and> pending_payloads a2 = pending_payloads a"
    using new by (auto simp: handle_resolve resolve_pending_def Let_def a1 bt_remove_insert [OF none]
        filter_rows_fresh held_row_def held_payload_def)
  ultimately show ?thesis using a1 by simp
qed

section \<open>The questions on a concrete link\<close>

definition demo_linked :: "rule \<Rightarrow> app" where
  "demo_linked r = settled Linked (set_firewall (policy_default\<lparr>enabled := True, p_text := r\<rparr>)
     (with_state (\<lambda>s. s\<lparr>on := True\<rparr>) (app_new (config_default []))))"

definition demo_frame :: clip_frame where
  "demo_frame = \<lparr>fr_hash = [1], fr_kind = Text, fr_payload = [104], fr_preview = [104],
     fr_sensitive = False, fr_lamport = 3, fr_resync = False, fr_peer_id = [9]\<rparr>"

definition demo_wall :: wall where
  "demo_wall = \<lparr>hhmm = [], unix_millis = 1000\<rparr>"

lemma demo_linked_inv: "app_inv (demo_linked r)"
proof -
  have "core_ok (with_state (\<lambda>s. s\<lparr>on := True\<rparr>) (app_new (config_default [])))"
    using app_inv_new [of "config_default []"] by (simp add: app_inv_def core_defs)
  then have "core_ok (set_firewall (policy_default\<lparr>enabled := True, p_text := r\<rparr>)
      (with_state (\<lambda>s. s\<lparr>on := True\<rparr>) (app_new (config_default []))))"
    by (simp add: core_defs set_firewall_def)
  then show ?thesis unfolding demo_linked_def by (rule settled_inv)
qed

lemma demo_linked_fresh: "frame_fresh b3 w demo_frame (demo_linked r)"
proof -
  have "dedup (demo_linked r) = ring_default"
    by (simp add: demo_linked_def settled_def set_firewall_def app_new_def)
  then show ?thesis
    by (simp add: frame_fresh_def demo_frame_def Let_def observe_clipboard_def ring_default_def ring_new_def)
qed

lemma demo_linked_decide:
  "decide (cfg_firewall (a_config (demo_linked Ask))) Text False Inbound = Defer"
  "decide (cfg_firewall (a_config (demo_linked Deny))) Text False Inbound = Block"
  by (simp_all add: demo_linked_def settled_def set_firewall_def decide_def policy_default_def)

lemma demo_linked_empty: "pending (a_state (demo_linked r)) = []" "history (a_state (demo_linked r)) = []"
  by (simp_all add: demo_linked_def settled_def set_firewall_def app_new_def initial_def)

theorem held_back_leaves_no_row_witness:
  "history (a_state (snd (handle (\<lambda>b. b) demo_wall (FrameReceivedClipboard demo_frame) (demo_linked Deny)))) = []"
proof -
  have "decide (cfg_firewall (a_config (demo_linked Deny))) (fr_kind demo_frame)
      (fr_sensitive demo_frame) Inbound \<noteq> Pass"
    by (simp add: demo_frame_def demo_linked_decide)
  then show ?thesis
    using held_back_leaves_no_row [of "demo_linked Deny" demo_frame "\<lambda>b. b" demo_wall]
    by (simp add: demo_linked_empty)
qed

theorem ask_then_decide_witness:
  "\<exists>as a1 a2. handle (\<lambda>b. b) demo_wall (FrameReceivedClipboard demo_frame) (demo_linked Ask) = (as, a1)
     \<and> handle (\<lambda>b. b) demo_wall (ResolvePending (hex32 [1]) True) a1
         = ([WriteClipboard Text [104] False, EmitState], a2)
     \<and> pending (a_state a1) = [held_row demo_frame] \<and> pending (a_state a2) = []"
proof -
  obtain as a1 where r: "handle (\<lambda>b. b) demo_wall (FrameReceivedClipboard demo_frame) (demo_linked Ask) = (as, a1)"
    by force
  obtain as2 a2 where r2: "handle (\<lambda>b. b) demo_wall (ResolvePending (hex32 (fr_hash demo_frame)) True) a1 = (as2, a2)"
    by force
  have "decide (cfg_firewall (a_config (demo_linked Ask))) (fr_kind demo_frame)
      (fr_sensitive demo_frame) Inbound = Defer"
    "hex32 (fr_hash demo_frame) \<notin> pi_hash ` set (pending (a_state (demo_linked Ask)))"
    by (simp_all add: demo_frame_def demo_linked_decide demo_linked_empty)
  from ask_then_decide [OF demo_linked_inv demo_linked_fresh this r r2]
  have "as2 = [WriteClipboard Text [104] False, EmitState]" "pending (a_state a1) = [held_row demo_frame]"
    "pending (a_state a2) = []"
    by (simp_all add: demo_linked_empty demo_frame_def)
  with r r2 show ?thesis by (intro exI [of _ as] exI [of _ a1] exI [of _ a2]) (simp add: demo_frame_def)
qed

end
