(* ===== verification/App_Peers.thy ===== *)
theory App_Peers
  imports App_History
begin

text \<open>
  Peers and pairing in the core: the SAS verification phase follows one pairing only, a hijacking
  \<open>PeerSeen\<close> is inert, a swap of device forgets the previous one, and a revoked peer takes its own
  parked items with it and nobody else's.
\<close>

section \<open>The SAS verification\<close>

definition sas_view :: "app \<Rightarrow> bytes32 option \<times> ustr" where
  "sas_view a = (sas_peer (a_state a), sas_phase (a_state a))"

lemma sas_view_settled [simp]: "sas_view (settled ph (gated e a)) = sas_view a"
  unfolding settled_def sas_view_def by (simp, subst (1 2) gated_state, simp)

lemma sas_view_drop_for [simp]: "sas_view (snd (drop_pending_for p a)) = sas_view a"
  unfolding sas_view_def by (subst (1 2) drop_for_frame(8)) simp

lemma sas_view_resolve: "sas_view (snd (resolve_pending h allow a)) = sas_view a"
  by (simp add: sas_view_def resolve_pending_def Let_def split: option.splits)

text \<open>What each event does to the pair of tracked peer and phase.\<close>

fun sas_step :: "event \<Rightarrow> phase \<Rightarrow> bytes32 option \<times> ustr \<Rightarrow> bytes32 option \<times> ustr" where
  "sas_step (SasPairingStarted p) ph v = (Some p, sas_showing)"
| "sas_step (SasLocalConfirmed p) ph (q, s) =
     (q, if q = Some p then (if s = sas_peer_confirmed \<or> s = sas_confirmed then sas_confirmed
                             else sas_local_confirmed) else s)"
| "sas_step (SasPeerConfirmed p) ph (q, s) =
     (q, if q = Some p then (if s = sas_local_confirmed \<or> s = sas_confirmed then sas_confirmed
                             else sas_peer_confirmed) else s)"
| "sas_step (SasPeerRejected p) ph (q, s) = (q, if q = Some p then sas_peer_rejected else s)"
| "sas_step (PeerLost p) ph (q, s) =
     (if q = Some p \<and> (s = sas_showing \<or> s = sas_peer_confirmed \<or> s = sas_local_confirmed)
      then (None, sas_idle) else (q, s))"
| "sas_step SasReset ph v = (None, sas_idle)"
| "sas_step ManualUnpair ph v = (None, sas_idle)"
| "sas_step (UntrustedPeerSeen n) ph v = (None, sas_idle)"
| "sas_step GhostTimeout ph v = (if ph \<noteq> Linked then (None, sas_idle) else v)"
| "sas_step _ ph v = v"

lemma sas_view_peer_seen: "sas_view (fst (on_peer_seen p n a)) = sas_view a"
proof -
  have *: "sas_view (with_state (\<lambda>s. s\<lparr>peer_id := p\<rparr>) (b\<lparr>last_paired_peer_id := p\<rparr>)) = sas_view b" for b
    by (simp add: sas_view_def)
  have "sas_view (with_state (\<lambda>s. s\<lparr>peer_name := n\<rparr>) a) = sas_view a"
    "sas_view (with_state (\<lambda>s. s\<lparr>vault_wipe_gen := vault_wipe_gen s + 1\<rparr>)
       (drop_pending_all (with_state (\<lambda>s. s\<lparr>history := []\<rparr>) b))) = sas_view b" for b
    by (simp_all add: sas_view_def frame_simps)
  then show ?thesis
    by (simp add: on_peer_seen_def Let_def case_prod_unfold *)
qed

lemma sas_view_pre: "sas_view (fst (pre_transition b3 w e a)) = sas_step e (a_phase a) (sas_view a)"
proof (cases e)
  case (PeerSeen p n)
  then show ?thesis by (simp add: Let_def case_prod_unfold sas_view_peer_seen)
next
  case (PeerRevoked p)
  have "sas_view (with_state (\<lambda>s. (unknown_peer s)\<lparr>trusted_peer_name := None\<rparr>) b) = sas_view b" for b
    by (simp add: sas_view_def frame_simps)
  then show ?thesis using PeerRevoked by (simp add: Let_def case_prod_unfold on_peer_revoked_def)
next
  case (LocalClipboardChange c)
  then show ?thesis
    by (simp add: on_local_clipboard_def Let_def case_prod_unfold sas_view_def push_history_def)
next
  case (FrameReceivedClipboard f)
  then show ?thesis
    by (simp add: on_frame_received_def Let_def case_prod_unfold sas_view_def push_history_def)
qed (simp_all add: sas_view_def Let_def case_prod_unfold on_peer_lost_def on_sas_local_def on_sas_peer_def
    on_ghost_timeout_def on_untrusted_def on_manual_unpair_def on_primary_failover_def
    on_set_favorite_def on_clear_history_def)

lemma sas_view_handle: "sas_view (snd (handle b3 w e a)) = sas_step e (a_phase a) (sas_view a)"
proof (cases "refused e a")
  case True
  then show ?thesis by (cases e) (simp_all add: handle_refused, simp_all add: refused_def)
next
  case False
  show ?thesis
  proof (rule handle_induct [where e = e and a = a])
    show "sas_view (snd (resolve_pending h allow a)) = sas_step e (a_phase a) (sas_view a)"
      if "e = ResolvePending h allow" for h allow
      by (simp add: that sas_view_resolve)
    show "sas_view (snd ([], a)) = sas_step e (a_phase a) (sas_view a)" if "refused e a"
      using that False by simp
    show "sas_view (snd (duplicate_actions e, a')) = sas_step e (a_phase a) (sas_view a)"
      if "pre_transition b3 w e a = (a', True, dropped)" for a' dropped
      using sas_view_pre [of b3 w e a] by (simp add: that)
    show "sas_view (snd (post_transition e dropped a')) = sas_step e (a_phase a) (sas_view a)"
      if "pre_transition b3 w e a = (a', False, dropped)" for a' dropped
      using sas_view_pre [of b3 w e a] by (simp add: that post_transition_app)
  qed
qed

lemma sas_view_app_step:
  "sas_view (app_step b3 op a) =
     (case op of Handle w e \<Rightarrow> sas_step e (a_phase a) (sas_view a) | _ \<Rightarrow> sas_view a)"
proof (cases op)
  case (SetDeviceName n)
  then show ?thesis by (auto simp: sas_view_def set_device_name_Inr split: sum.split)
next
  case (SetHistoryRetention s now)
  then show ?thesis
    by (simp add: sas_view_def set_history_retention_def expire_history_def Let_def)
qed (simp_all add: sas_view_handle, simp_all add: sas_view_def expire_history_def mark_delivered_def Let_def
    set_firewall_def set_metrics_def set_latency_def set_other_linked_peers_def handle_peer_def
    case_prod_unfold set_local_seq_def broadcast_local_def next_local_event_id_def ingest_remote_def)

definition event_of :: "app_op \<Rightarrow> event list" where
  "event_of op = (case op of Handle w e \<Rightarrow> [e] | _ \<Rightarrow> [])"

definition events_of :: "app_op list \<Rightarrow> event list" where
  "events_of ops = concat (map event_of ops)"

lemma events_of_snoc: "events_of (ops @ [op]) = events_of ops @ event_of op"
  by (simp add: events_of_def)

definition is_start :: "event \<Rightarrow> bool" where
  "is_start e = (case e of SasPairingStarted _ \<Rightarrow> True | _ \<Rightarrow> False)"

text \<open>The history of events justifies the phase shown: who confirmed since this pairing started.\<close>

definition sas_justified :: "event list \<Rightarrow> bytes32 option \<times> ustr \<Rightarrow> bool" where
  "sas_justified es v \<longleftrightarrow>
     (case fst v of
        None \<Rightarrow> snd v = sas_idle
      | Some p \<Rightarrow> \<exists>es1 es2. es = es1 @ SasPairingStarted p # es2 \<and> (\<forall>e\<in>set es2. \<not> is_start e)
          \<and> (snd v = sas_local_confirmed \<or> snd v = sas_confirmed \<longrightarrow> SasLocalConfirmed p \<in> set es2)
          \<and> (snd v = sas_peer_confirmed \<or> snd v = sas_confirmed \<longrightarrow> SasPeerConfirmed p \<in> set es2))"

lemma sas_justified_snoc_same:
  "sas_justified es v \<Longrightarrow> \<not> is_start e \<Longrightarrow> sas_justified (es @ [e]) v"
proof (cases "fst v")
  case None
  assume "sas_justified es v"
  with None show ?thesis by (simp add: sas_justified_def)
next
  case (Some p)
  assume j: "sas_justified es v" and ns: "\<not> is_start e"
  from j Some obtain es1 es2 where *: "es = es1 @ SasPairingStarted p # es2" "\<forall>e\<in>set es2. \<not> is_start e"
    "snd v = sas_local_confirmed \<or> snd v = sas_confirmed \<longrightarrow> SasLocalConfirmed p \<in> set es2"
    "snd v = sas_peer_confirmed \<or> snd v = sas_confirmed \<longrightarrow> SasPeerConfirmed p \<in> set es2"
    by (auto simp: sas_justified_def)
  with ns show ?thesis
    unfolding sas_justified_def Some option.case by (intro exI [of _ es1] exI [of _ "es2 @ [e]"]) auto
qed

lemma sas_justified_confirm:
  assumes j: "sas_justified es (Some p, s)"
    and e: "e = SasLocalConfirmed p \<or> e = SasPeerConfirmed p \<or> e = SasPeerRejected p"
    and s': "s' = snd (sas_step e ph (Some p, s))"
  shows "sas_justified (es @ [e]) (Some p, s')"
proof -
  from j obtain es1 es2 where *: "es = es1 @ SasPairingStarted p # es2" "\<forall>e\<in>set es2. \<not> is_start e"
    "s = sas_local_confirmed \<or> s = sas_confirmed \<longrightarrow> SasLocalConfirmed p \<in> set es2"
    "s = sas_peer_confirmed \<or> s = sas_confirmed \<longrightarrow> SasPeerConfirmed p \<in> set es2"
    by (auto simp: sas_justified_def)
  have "\<not> is_start e" using e by (auto simp: is_start_def)
  then have starts: "es @ [e] = es1 @ SasPairingStarted p # es2 @ [e]" "\<forall>e'\<in>set (es2 @ [e]). \<not> is_start e'"
    using *(1,2) by auto
  have "(s' = sas_local_confirmed \<or> s' = sas_confirmed \<longrightarrow> SasLocalConfirmed p \<in> set (es2 @ [e]))
      \<and> (s' = sas_peer_confirmed \<or> s' = sas_confirmed \<longrightarrow> SasPeerConfirmed p \<in> set (es2 @ [e]))"
    using e
  proof (elim disjE)
    assume "e = SasLocalConfirmed p"
    with *(4) s' show ?thesis by (cases "s = sas_peer_confirmed \<or> s = sas_confirmed") simp_all
  next
    assume "e = SasPeerConfirmed p"
    with *(3) s' show ?thesis by (cases "s = sas_local_confirmed \<or> s = sas_confirmed") simp_all
  next
    assume "e = SasPeerRejected p"
    with s' show ?thesis by simp
  qed
  with starts show ?thesis
    unfolding sas_justified_def fst_conv snd_conv option.case by blast
qed

lemma sas_justified_step:
  assumes j: "sas_justified es v" shows "sas_justified (es @ [e]) (sas_step e ph v)"
proof -
  obtain q s where v: "v = (q, s)" by force
  have none: "sas_justified (es @ [e]) (None, sas_idle)" by (simp add: sas_justified_def)
  have same: "\<not> is_start e \<Longrightarrow> sas_justified (es @ [e]) (q, s)"
    using sas_justified_snoc_same [OF j] by (simp add: v)
  have conf: "e = SasLocalConfirmed p \<or> e = SasPeerConfirmed p \<or> e = SasPeerRejected p \<Longrightarrow> q = Some p \<Longrightarrow>
      sas_justified (es @ [e]) (Some p, snd (sas_step e ph (Some p, s)))" for p
    using sas_justified_confirm [of es p s e] j v by blast
  show ?thesis
  proof (cases e)
    case (SasPairingStarted p)
    then show ?thesis
      unfolding sas_justified_def by (simp, intro exI [of _ es] exI [of _ "[]"], simp)
  next
    case (SasLocalConfirmed p)
    then show ?thesis using same conf [of p] by (cases "q = Some p") (simp_all add: v is_start_def)
  next
    case (SasPeerConfirmed p)
    then show ?thesis using same conf [of p] by (cases "q = Some p") (simp_all add: v is_start_def)
  next
    case (SasPeerRejected p)
    then show ?thesis using same conf [of p] by (cases "q = Some p") (simp_all add: v is_start_def)
  qed (use none same in \<open>simp_all add: v is_start_def\<close>)
qed

lemma sas_justified_run:
  "sas_justified (events_of ops) (sas_view (fold (app_step b3) ops (app_new c)))"
proof (induction ops rule: rev_induct)
  case Nil
  then show ?case
    by (simp add: sas_justified_def sas_view_def events_of_def app_new_def initial_def)
next
  case (snoc op ops)
  let ?a = "fold (app_step b3) ops (app_new c)"
  have "sas_justified (events_of ops @ event_of op) (sas_view (app_step b3 op ?a))"
    unfolding sas_view_app_step
    using snoc sas_justified_step [OF snoc] by (cases op) (simp_all add: event_of_def)
  then show ?case by (simp add: events_of_snoc del: app_step.simps)
qed

text \<open>
  C20: The pairing verdict "confirmed" is earned. In every run from boot, whatever other peers, other
  pairings and disconnections are interleaved: when the SAS phase is \<open>confirmed\<close>, the last pairing that
  started is with the peer shown, and since it started both the local user and that same peer confirmed.
\<close>

theorem sas_confirmed_needs_both:
  assumes "sas_phase (a_state (fold (app_step b3) ops (app_new c))) = sas_confirmed"
  shows "\<exists>p es1 es2. sas_peer (a_state (fold (app_step b3) ops (app_new c))) = Some p
    \<and> events_of ops = es1 @ SasPairingStarted p # es2
    \<and> (\<forall>q. SasPairingStarted q \<notin> set es2)
    \<and> SasLocalConfirmed p \<in> set es2 \<and> SasPeerConfirmed p \<in> set es2"
proof -
  let ?v = "sas_view (fold (app_step b3) ops (app_new c))"
  have v: "snd ?v = sas_confirmed" using assms by (simp add: sas_view_def)
  obtain p where p: "fst ?v = Some p"
    using sas_justified_run [of ops b3 c] v by (cases "fst ?v") (auto simp: sas_justified_def)
  with v sas_justified_run [of ops b3 c] obtain es1 es2 where
    "events_of ops = es1 @ SasPairingStarted p # es2" "\<forall>e\<in>set es2. \<not> is_start e"
    "SasLocalConfirmed p \<in> set es2" "SasPeerConfirmed p \<in> set es2"
    by (auto simp: sas_justified_def)
  moreover have "sas_peer (a_state (fold (app_step b3) ops (app_new c))) = Some p"
    using p by (simp add: sas_view_def)
  ultimately show ?thesis
    by (intro exI [of _ p] exI [of _ es1] exI [of _ es2]) (auto simp: is_start_def)
qed

definition demo_pairing :: "app_op list" where
  "demo_pairing = map (Handle \<lparr>hhmm = [], unix_millis = 0\<rparr>)
     [ToggleOn, SasPairingStarted [1], SasPeerConfirmed [2], SasPeerConfirmed [1], PeerLost [2],
      SasLocalConfirmed [1]]"

theorem sas_confirmed_needs_both_witness:
  "sas_phase (a_state (fold (app_step (\<lambda>b. b)) demo_pairing (app_new (config_default [])))) = sas_confirmed
   \<and> (\<exists>p. sas_peer (a_state (fold (app_step (\<lambda>b. b)) demo_pairing (app_new (config_default [])))) = Some p)"
proof -
  have "sas_view (fold (app_step (\<lambda>b. b)) demo_pairing (app_new (config_default []))) = (Some [1], sas_confirmed)"
    by (simp add: demo_pairing_def sas_view_handle)
  then have c: "sas_phase (a_state (fold (app_step (\<lambda>b. b)) demo_pairing (app_new (config_default []))))
      = sas_confirmed"
    by (simp add: sas_view_def)
  with sas_confirmed_needs_both [OF c] show ?thesis by blast
qed

end
