(* ===== verification/App_Revoke.thy ===== *)
theory App_Revoke
  imports App_Peers
begin

text \<open>
  What a change of peer does to the data kept for the previous one: the wipe of a device swap, the
  inert hijack attempt, and the selective drop of a revoked peer's parked items.
\<close>

section \<open>Swapping the device\<close>

lemma post_state_frame [frame_simps]:
  "history (a_state (snd (post_transition e d a))) = history (a_state a)"
  "vault_wipe_gen (a_state (snd (post_transition e d a))) = vault_wipe_gen (a_state a)"
  "peer_id (a_state (snd (post_transition e d a))) = peer_id (a_state a)"
  "last_paired_peer_id (snd (post_transition e d a)) = last_paired_peer_id a"
  by (simp add: post_transition_app settled_gated_history)
    (simp_all add: post_transition_app settled_def frame_simps, subst gated_state, simp,
      subst gated_state, simp)

lemma gated_no_item: "event_item e = None \<Longrightarrow> gated e a = a"
  by (simp add: gated_def apply_firewall_def)

lemma post_park_frame:
  "event_item e = None \<Longrightarrow>
     pending (a_state (snd (post_transition e d a))) = pending (a_state a)
     \<and> pending_payloads (snd (post_transition e d a)) = pending_payloads a"
  by (simp add: post_transition_app gated_no_item settled_def)

lemma handle_peer_seen:
  "\<not> is_peer_mismatch p a \<Longrightarrow>
     handle b3 w (PeerSeen p n) a =
       post_transition (PeerSeen p n) (snd (on_peer_seen p n a)) (fst (on_peer_seen p n a))"
  by (simp add: handle_def case_prod_unfold Let_def)


definition demo_paired :: app where
  "demo_paired = (restore_history [demo_row 1 True] (app_new (config_default [])))\<lparr>
     last_paired_peer_id := [7], a_phase := Discovering\<rparr>"


section \<open>The hijack attempt\<close>

text \<open>Announcements of peers, as a hostile network can send them in any number.\<close>

fun announce :: "(bytes \<Rightarrow> bytes32) \<Rightarrow> wall \<Rightarrow> (bytes32 \<times> ustr) list \<Rightarrow> app \<Rightarrow> action list \<times> app" where
  "announce b3 w [] a = ([], a)"
| "announce b3 w ((p, n) # rest) a =
     (let (as, a) = handle b3 w (PeerSeen p n) a; (as', a) = announce b3 w rest a in (as @ as', a))"

text \<open>
  While a handshake or a link with a named peer is up, announcements of other devices do nothing at
  all: no action, no change of any field, however many there are.
\<close>

theorem hijack_is_inert:
  assumes "a_phase a = Handshaking \<or> a_phase a = Linked" and "peer_name (a_state a) \<noteq> []"
    and "peer_id (a_state a) \<notin> fst ` set anns"
  shows "announce b3 w anns a = ([], a)"
  using assms(3)
proof (induction anns)
  case Nil
  then show ?case by simp
next
  case (Cons x anns)
  obtain p n where x: "x = (p, n)" by force
  have "is_peer_mismatch p a"
    using assms(1,2) Cons.prems by (auto simp: is_peer_mismatch_def x)
  then have "handle b3 w (PeerSeen p n) a = ([], a)"
    by (simp add: handle_def)
  with Cons show ?case by (simp add: x)
qed

theorem hijack_is_inert_witness:
  "announce (\<lambda>b. b) demo_wall [([8], [66]), ([9], [67])]
     (with_state (\<lambda>s. s\<lparr>peer_name := [65], peer_id := [7]\<rparr>) (demo_linked Deny))
   = ([], with_state (\<lambda>s. s\<lparr>peer_name := [65], peer_id := [7]\<rparr>) (demo_linked Deny))"
  by (rule hijack_is_inert) (simp_all add: demo_linked_def settled_def)

section \<open>Revoking one peer\<close>

lemma drop_for_rows:
  assumes "app_inv a"
  shows "pending (a_state (snd (drop_pending_for p a)))
    = filter (\<lambda>r. pi_peer_id r \<noteq> Some (hex32 p)) (pending (a_state a))"
proof -
  let ?m = "pending_payloads a"
  have ok: "park_ok (pending (a_state a)) ?m" using assms by (simp add: app_inv_def core_ok_def park_inv_def)
  then have wf: "bt_wf ?m" by (simp add: park_ok_def)
  have "pi_hash r \<notin> set (map fst (filter (\<lambda>e. pp_peer_id (snd e) = Some p) ?m))
      \<longleftrightarrow> pi_peer_id r \<noteq> Some (hex32 p)" if r: "r \<in> set (pending (a_state a))" for r
  proof -
    from ok r obtain q where q: "bt_get ?m (pi_hash r) = Some q" "row_matches r q"
      by (auto simp: park_ok_def)
    then have peer: "pi_peer_id r = Some (hex32 p) \<longleftrightarrow> pp_peer_id q = Some p"
      by (cases "pp_peer_id q") (auto simp: row_matches_def hex32_inj)
    have mem: "(pi_hash r, q) \<in> set ?m" using bt_get_Some_mem [OF q(1)] .
    have "pi_hash r \<in> set (map fst (filter (\<lambda>e. pp_peer_id (snd e) = Some p) ?m)) \<longleftrightarrow> pp_peer_id q = Some p"
    proof
      assume "pi_hash r \<in> set (map fst (filter (\<lambda>e. pp_peer_id (snd e) = Some p) ?m))"
      then obtain q' where "(pi_hash r, q') \<in> set ?m" "pp_peer_id q' = Some p" by auto
      with bt_key_unique [OF wf _ mem] show "pp_peer_id q = Some p" by blast
    next
      assume "pp_peer_id q = Some p"
      with mem have "(pi_hash r, q) \<in> set (filter (\<lambda>e. pp_peer_id (snd e) = Some p) ?m)" by simp
      then have "fst (pi_hash r, q) \<in> fst ` set (filter (\<lambda>e. pp_peer_id (snd e) = Some p) ?m)"
        by (rule imageI)
      then show "pi_hash r \<in> set (map fst (filter (\<lambda>e. pp_peer_id (snd e) = Some p) ?m))" by simp
    qed
    with peer show ?thesis by simp
  qed
  then have "filter (\<lambda>r. pi_hash r \<notin> set (map fst (filter (\<lambda>e. pp_peer_id (snd e) = Some p) ?m)))
      (pending (a_state a)) = filter (\<lambda>r. pi_peer_id r \<noteq> Some (hex32 p)) (pending (a_state a))"
    by (rule filter_cong [OF refl])
  then show ?thesis by (simp add: drop_pending_for_def)
qed

lemma handle_revoked:
  "handle b3 w (PeerRevoked p) a =
     post_transition (PeerRevoked p) (fst (drop_pending_for p a)) (fst (on_peer_revoked p a))"
  by (simp add: handle_def case_prod_unfold Let_def on_peer_revoked_def)

lemma post_dropped:
  "d \<noteq> [] \<Longrightarrow> event_item e = None \<Longrightarrow> \<not> wants_resync_strip e \<Longrightarrow>
     PendingDropped d \<in> set (fst (post_transition e d a))"
proof -
  assume d: "d \<noteq> []" and e: "event_item e = None" "\<not> wants_resync_strip e"
  obtain n n' where "fst (post_transition e d a) =
     add_emit_state n' (add_emit_state n (fix_battery (a_state (gated e a))
         (resync_strip e (if d \<noteq> [] then gated_actions e a @ [PendingDropped d] else gated_actions e a))))"
    using post_transition_actions by blast
  with d e show ?thesis
    by (simp add: add_emit_other fix_battery_other resync_strip_def)
qed

text \<open>
  Revoking a peer drops what was parked for it and nothing else, in both halves of the parking lot, and
  tells the daemon the hashes of exactly the dropped payloads; the history is kept.
\<close>

theorem revoke_is_selective:
  assumes inv: "app_inv a" and r: "handle b3 w (PeerRevoked p) a = (as, a')"
  shows "pending_payloads a' = filter (\<lambda>e. pp_peer_id (snd e) \<noteq> Some p) (pending_payloads a)
    \<and> pending (a_state a') = filter (\<lambda>i. pi_peer_id i \<noteq> Some (hex32 p)) (pending (a_state a))
    \<and> history (a_state a') = history (a_state a)
    \<and> (let gone = map (\<lambda>e. pp_hash (snd e)) (filter (\<lambda>e. pp_peer_id (snd e) = Some p) (pending_payloads a))
       in gone = [] \<or> PendingDropped gone \<in> set as)"
proof -
  have ni: "event_item (PeerRevoked p) = None" "\<not> wants_resync_strip (PeerRevoked p)"
    by (simp_all add: event_item_def wants_resync_strip_def)
  let ?d = "fst (drop_pending_for p a)" and ?b = "fst (on_peer_revoked p a)"
  have a': "a' = snd (post_transition (PeerRevoked p) ?d ?b)" and as: "as = fst (post_transition (PeerRevoked p) ?d ?b)"
    using r by (simp_all add: handle_revoked)
  have b: "pending_payloads ?b = filter (\<lambda>e. pp_peer_id (snd e) \<noteq> Some p) (pending_payloads a)"
    "pending (a_state ?b) = pending (a_state (snd (drop_pending_for p a)))"
    "history (a_state ?b) = history (a_state a)"
    by (simp_all add: on_peer_revoked_def Let_def case_prod_unfold frame_simps drop_pending_for_def)
  let ?gone = "map (\<lambda>e. pp_hash (snd e)) (filter (\<lambda>e. pp_peer_id (snd e) = Some p) (pending_payloads a))"
  have d: "?d = ?gone" by (simp add: drop_pending_for_def)
  have "pending_payloads a' = filter (\<lambda>e. pp_peer_id (snd e) \<noteq> Some p) (pending_payloads a)"
    using post_park_frame [OF ni(1), of ?d ?b] b(1) a' by metis
  moreover have "pending (a_state a') = filter (\<lambda>i. pi_peer_id i \<noteq> Some (hex32 p)) (pending (a_state a))"
    using post_park_frame [OF ni(1), of ?d ?b] b(2) a' drop_for_rows [OF inv, of p] by metis
  moreover have "history (a_state a') = history (a_state a)"
    unfolding a' post_state_frame by (rule b(3))
  moreover have "?gone = [] \<or> PendingDropped ?gone \<in> set as"
    unfolding as d [symmetric] using post_dropped [OF _ ni, of ?d ?b] by blast
  ultimately show ?thesis unfolding Let_def by blast
qed

theorem revoke_is_selective_witness:
  "\<exists>as a'. handle (\<lambda>b. b) demo_wall (PeerRevoked [9])
        (snd (handle (\<lambda>b. b) demo_wall (FrameReceivedClipboard demo_frame) (demo_linked Ask))) = (as, a')
     \<and> pending (a_state a') = []"
proof -
  let ?a = "snd (handle (\<lambda>b. b) demo_wall (FrameReceivedClipboard demo_frame) (demo_linked Ask))"
  have inv: "app_inv ?a" by (intro app_inv_handle demo_linked_inv)
  have row: "pending (a_state ?a) = [held_row demo_frame]"
    using handle_deferred_frame(2) [of "\<lambda>b. b" demo_wall demo_frame "demo_linked Ask"] demo_linked_fresh
      demo_linked_decide(1)
    by (simp add: demo_frame_def demo_linked_empty)
      (simp add: demo_linked_def settled_def set_firewall_def app_new_def bt_get_def)
  obtain as a' where r: "handle (\<lambda>b. b) demo_wall (PeerRevoked [9]) ?a = (as, a')" by force
  have "pi_peer_id (held_row demo_frame) = Some (hex32 [9])"
    by (simp add: held_row_def demo_frame_def)
  then have "pending (a_state a') = []"
    using revoke_is_selective [OF inv r] by (simp add: row)
  with r show ?thesis by blast
qed

end
