(* ===== verification/App_Life.thy ===== *)
theory App_Life
  imports App_Revoke
begin

text \<open>
  The life of the core as a whole: the invariant of every run from boot, when sync is on, the echo that
  never bounces between two devices, what a restart remembers, and which changes are published.
\<close>

section \<open>Every run\<close>

lemma ring_seed_cap [simp]: "capacity (ring_seed i r) = capacity r"
  by (simp add: ring_seed_def ring_observe_def split: option.splits)

lemma ring_seed_inv: "ring_inv r \<Longrightarrow> ring_inv (ring_seed i r)"
  by (simp add: ring_seed_def ring_observe_inv split: option.splits)

lemma fold_ring_seed: "ring_inv r \<Longrightarrow> ring_inv (fold ring_seed is r) \<and> capacity (fold ring_seed is r) = capacity r"
  by (induction "is" arbitrary: r) (simp_all add: ring_seed_inv)

lemma app_inv_restore:
  assumes "app_inv a" and "\<forall>i\<in>set items. \<not> hi_sensitive i"
  shows "app_inv (restore_history items a)"
  using assms set_cap_from [of 0 items] fold_ring_seed
  by (auto simp: app_inv_defs restore_history_def cap_history_keeping_favorites_def Let_def)

text \<open>
  C26: The invariant of every run: from boot with a vault that holds no secret, after any sequence of events,
  settings and mesh operations, the published phase is the phase of the FSM and the status follows from
  it, the firewall and name shown are those in force, every parked row describes exactly one held
  payload, the SAS phase and its peer go together, no secret is in the history, and the dedup ring is
  bounded and without duplicates.
\<close>

theorem app_run_invariant:
  assumes "\<forall>i\<in>set items. \<not> hi_sensitive i"
  shows "app_inv (fold (app_step b3) ops (restore_history items (app_new c)))"
  by (intro app_machine.run_inv app_inv_restore app_inv_new assms)

theorem app_run_invariant_witness:
  "app_inv (fold (app_step (\<lambda>b. b)) demo_pairing (restore_history [demo_row 1 True] (app_new (config_default []))))"
  by (rule app_run_invariant) (simp add: demo_row_def)

section \<open>When sync is on\<close>

definition tracked :: "app \<Rightarrow> bool" where
  "tracked a \<longleftrightarrow> (on (a_state a) \<longleftrightarrow> a_phase a \<noteq> Idle)"

definition on_after :: "event \<Rightarrow> bool \<Rightarrow> bool" where
  "on_after e b = (case e of ToggleOn \<Rightarrow> True | ToggleOff \<Rightarrow> False | ManualUnpair \<Rightarrow> False | _ \<Rightarrow> b)"

lemma on_drop_for [simp]: "on (a_state (snd (drop_pending_for p a))) = on (a_state a)"
  by (subst drop_for_frame(8)) simp

lemma on_pre: "on (a_state (fst (pre_transition b3 w e a))) = on_after e (on (a_state a))
    \<and> a_phase (fst (pre_transition b3 w e a)) = a_phase a"
  by (cases e)
    (simp_all add: on_after_def Let_def case_prod_unfold frame_simps on_peer_seen_def on_local_clipboard_def
      push_history_def on_frame_received_def on_peer_lost_def on_primary_failover_def on_untrusted_def
      on_ghost_timeout_def on_manual_unpair_def on_sas_local_def on_sas_peer_def on_set_favorite_def
      on_clear_history_def on_peer_revoked_def)

lemma transition_idle:
  "fst (transition ph e) = Idle \<longleftrightarrow>
     e = ToggleOff \<or> e = ManualUnpair \<or> ph = Idle \<and> e \<noteq> ToggleOn \<and> (\<nexists>n. e = UntrustedPeerSeen n)"
  by (cases e; cases ph) simp_all

lemma on_gated [simp]: "on (a_state (gated e a)) = on (a_state a)"
  by (subst gated_state) simp

lemma tracked_handle:
  assumes t: "tracked a" and ok: "\<nexists>n. e = UntrustedPeerSeen n"
  shows "tracked (snd (handle b3 w e a))"
proof (rule handle_induct)
  show "tracked (snd (resolve_pending h allow a))" for h allow
    using t by (simp add: tracked_def resolve_pending_def Let_def split: option.splits)
  show "tracked (snd ([], a))" using t by simp
  show "tracked (snd (duplicate_actions e, a'))" if "pre_transition b3 w e a = (a', True, d)" for a' d
    using suppressed_view [OF that] t by (simp add: tracked_def)
  show "tracked (snd (post_transition e d a'))" if "pre_transition b3 w e a = (a', False, d)" for a' d
  proof -
    have "on (a_state a') = on_after e (on (a_state a))" "a_phase a' = a_phase a"
      using on_pre [of b3 w e a] that by simp_all
    then have s: "on (a_state (snd (post_transition e d a'))) = on_after e (on (a_state a))"
      "a_phase (snd (post_transition e d a')) = fst (transition (a_phase a) e)"
      by (simp_all add: post_transition_app settled_def)
    show ?thesis
      unfolding tracked_def s transition_idle using t ok by (cases e) (simp_all add: tracked_def on_after_def)
  qed
qed

lemma tracked_step:
  assumes "tracked a" and "\<nexists>w n. op = Handle w (UntrustedPeerSeen n)"
  shows "tracked (app_step b3 op a)"
proof (cases op)
  case (SetDeviceName n)
  then show ?thesis using assms(1) by (auto simp: tracked_def set_device_name_Inr split: sum.split)
next
  case (SetHistoryRetention s now)
  then show ?thesis
    using assms(1) by (simp add: tracked_def set_history_retention_def expire_history_def Let_def)
qed (use assms in \<open>simp_all add: tracked_handle\<close>, simp_all add: tracked_def expire_history_def
    mark_delivered_def Let_def set_firewall_def set_metrics_def set_latency_def set_other_linked_peers_def
    handle_peer_def case_prod_unfold set_local_seq_def broadcast_local_def next_local_event_id_def
    ingest_remote_def)

text \<open>
  The switch the user sees is the phase of the machine: in every run without an \<open>UntrustedPeerSeen\<close>
  event, sync is shown as on exactly when the FSM has left \<open>Idle\<close>.
\<close>

theorem on_iff_not_idle:
  assumes "\<forall>op\<in>set ops. \<nexists>w n. op = Handle w (UntrustedPeerSeen n)"
  shows "on (a_state (fold (app_step b3) ops (app_new c))) \<longleftrightarrow>
    a_phase (fold (app_step b3) ops (app_new c)) \<noteq> Idle"
proof -
  have "tracked (fold (app_step b3) ops a)" if "tracked a" for a
    using that assms by (induction ops arbitrary: a) (auto intro: tracked_step simp del: app_step.simps)
  then show ?thesis by (simp add: tracked_def app_new_def initial_def)
qed

theorem on_iff_not_idle_witness:
  "a_phase (fold (app_step (\<lambda>b. b)) [Handle demo_wall ToggleOn, SetLatency 3] (app_new (config_default [])))
     \<noteq> Idle"
proof -
  have "on (a_state (fold (app_step (\<lambda>b. b)) [Handle demo_wall ToggleOn, SetLatency 3] (app_new (config_default []))))"
    by (simp add: handle_def post_transition_app settled_def set_latency_def Let_def)
  then show ?thesis
    using on_iff_not_idle [of "[Handle demo_wall ToggleOn, SetLatency 3]" "\<lambda>b. b" "config_default []"]
    by simp
qed

text \<open>The exception: \<open>UntrustedPeerSeen\<close> starts discovery on a device whose sync is off.\<close>

lemma untrusted_peer_wakes_idle:
  "a_phase (snd (handle b3 w (UntrustedPeerSeen n) (app_new c))) = Discovering
   \<and> \<not> on (a_state (snd (handle b3 w (UntrustedPeerSeen n) (app_new c))))"
  by (simp add: handle_def post_transition_app settled_def gated_no_item event_item_def on_untrusted_def
      frame_simps app_new_def initial_def)

section \<open>No echo bounces\<close>

lemma accepted_is_newest:
  "fst (observe_clipboard h now r) \<Longrightarrow> is_newest h (snd (observe_clipboard h now r))"
  by (simp add: observe_clipboard_def is_newest_def ring_push_def Let_def split: option.splits if_splits)

lemma newest_refused: "ring_inv r \<Longrightarrow> is_newest h r \<Longrightarrow> observe_clipboard h now r = (False, r)"
  using clipboard_accepts_iff [of r h now] clipboard_refused_unchanged [of h now r]
  by (metis prod.collapse)

lemma handle_dedup:
  "dedup (snd (handle b3 w (LocalClipboardChange c) a))
     = snd (observe_clipboard (ContentHash (lc_hash c)) (unix_millis w) (dedup a))"
  "frame_fresh b3 w f a \<Longrightarrow> dedup (snd (handle b3 w (FrameReceivedClipboard f) a))
     = snd (observe_clipboard (frame_digest b3 (fr_kind f) (fr_payload f)) (unix_millis w) (dedup a))"
  by (auto simp: handle_local handle_frame post_transition_app settled_def frame_simps
      on_local_clipboard_def on_frame_received_def frame_fresh_def Let_def case_prod_unfold)

lemma app_inv_ring: "app_inv a \<Longrightarrow> ring_inv (dedup a)"
  by (simp add: app_inv_def core_ok_def rings_ok_def)

lemma frame_digest_text:
  "k = Text \<or> k = Url \<or> k = Code \<Longrightarrow> valid_str t \<Longrightarrow>
     frame_digest b3 k (as_bytes t) = ContentHash (b3 (as_bytes (canon_text t)))"
  by (auto simp: frame_digest_def from_utf8_as_bytes ring_hash_def)


definition demo_copy :: local_change where
  "demo_copy = \<lparr>lc_hash = [104], lc_kind = Text, lc_payload = [104], lc_preview = [104],
     lc_sensitive = False, lc_lamport = 3\<rparr>"


section \<open>What a restart remembers\<close>

lemma seed_newest:
  assumes "ring_inv r" and "hex32_decode (hi_hash i) = Some h" and "ContentHash h \<notin> set (ring_hashes r)"
  shows "is_newest (ContentHash h) (ring_seed i r)"
  using assms by (simp add: ring_seed_def ring_observe_def ring_contains_iff is_newest_def ring_push_def Let_def)

lemma seed_hashes:
  "set (ring_hashes (ring_seed i r)) \<subseteq> set (ring_hashes r) \<union> {ContentHash h | h. hex32_decode (hi_hash i) = Some h}"
proof -
  have "set (tl (ring_hashes r)) \<subseteq> set (ring_hashes r)" by (cases "ring_hashes r") auto
  then show ?thesis
    by (auto simp: ring_seed_def ring_observe_def ring_hashes_push split: option.splits if_splits)
qed

lemma fold_seed_hashes:
  "set (ring_hashes (fold ring_seed is r)) \<subseteq>
     set (ring_hashes r) \<union> {ContentHash h | h. \<exists>i\<in>set is. hex32_decode (hi_hash i) = Some h}"
proof (induction "is" arbitrary: r)
  case Nil
  then show ?case by simp
next
  case (Cons i "is")
  show ?case using Cons.IH [of "ring_seed i r"] seed_hashes [of i r] by (auto 0 3)
qed

text \<open>
  A restart does not start a ping-pong: when the vault is restored into a fresh core, the content of its
  newest row is still known, so the copy that sits on the OS clipboard at boot is not broadcast again
  and the peer's echo of it is not applied again.
\<close>

theorem restart_remembers_newest:
  assumes h: "hex32_decode (hi_hash i) = Some h"
    and new: "\<forall>j\<in>set items. hex32_decode (hi_hash j) \<noteq> Some h"
    and c: "lc_hash c = h"
  shows "fst (handle b3 w (LocalClipboardChange c) (restore_history (i # items) (app_new cfg)))
    = [DuplicateDropped]"
proof -
  let ?a = "app_new cfg" and ?kept = "cap_from 0 (i # items)"
  have "?kept = i # (if favorite i then cap_from 0 items else cap_from 1 items)"
    by (simp add: HISTORY_SOFT_CAP_def)
  then obtain rest where kept: "?kept = i # rest" "set rest \<subseteq> set items"
    using set_cap_from [of 0 items] set_cap_from [of 1 items] by (cases "favorite i") auto
  obtain n where n: "capacity (dedup ?a) = Suc n"
    by (simp add: app_new_def ring_default_def ring_new_def DEDUP_CAPACITY_def numeral_eq_Suc)
  have d: "dedup ?a = ring_default" "ring_hashes ring_default = []"
    by (simp_all add: app_new_def ring_default_def ring_new_def ring_hashes_def)
  let ?older = "fold ring_seed (rev (take n rest)) ring_default"
  have ring: "dedup (restore_history (i # items) ?a) = ring_seed i ?older"
    using n by (simp add: restore_history_def cap_history_keeping_favorites_def Let_def kept(1) d(1)
        del: cap_from.simps)
  have inv: "ring_inv ?older" using fold_ring_seed ring_default_inv by blast
  have "ContentHash h \<notin> set (ring_hashes ?older)"
  proof
    assume "ContentHash h \<in> set (ring_hashes ?older)"
    then obtain j where "j \<in> set (take n rest)" "hex32_decode (hi_hash j) = Some h"
      using fold_seed_hashes [of "rev (take n rest)" ring_default] d(2) by auto
    then show False using new kept(2) by (auto dest: in_set_takeD)
  qed
  then have "is_newest (ContentHash h) (dedup (restore_history (i # items) ?a))"
    using seed_newest [OF inv h] ring by simp
  moreover have "ring_inv (dedup (restore_history (i # items) ?a))"
    unfolding ring by (rule ring_seed_inv [OF inv])
  ultimately have "\<not> local_fresh w c (restore_history (i # items) ?a)"
    using newest_refused c by (simp add: local_fresh_def)
  then show ?thesis by (simp add: handle_local)
qed

theorem restart_remembers_newest_witness:
  "fst (handle (\<lambda>b. b) demo_wall (LocalClipboardChange (demo_copy\<lparr>lc_hash := zero32\<rparr>))
     (restore_history [(demo_row 1 False)\<lparr>hi_hash := hex32 zero32\<rparr>, demo_row 2 True] (app_new (config_default []))))
   = [DuplicateDropped]"
proof (rule restart_remembers_newest)
  show "hex32_decode (hi_hash ((demo_row 1 False)\<lparr>hi_hash := hex32 zero32\<rparr>)) = Some zero32"
    by (simp add: decode_hex32)
  show "\<forall>j\<in>set [demo_row 2 True]. hex32_decode (hi_hash j) \<noteq> Some zero32"
    by (simp add: demo_row_def hex32_decode_def str_len_def as_bytes_def utf8_char_def)
qed simp

section \<open>What is published\<close>

lemma add_emit_mem: "EmitState \<in> set (add_emit_state n as) \<longleftrightarrow> n \<or> EmitState \<in> set as"
  by (auto simp: add_emit_state_def)

lemma post_emits:
  "EmitState \<in> set (fst (post_transition e d a)) \<longleftrightarrow>
     always_emits e \<or> st_status (a_state (gated e a)) \<noteq> status_for (a_state (gated e a))
     \<or> EmitState \<in> set (gated_actions e a)"
proof -
  have "EmitState \<in> set (fix_battery s (resync_strip e (if d \<noteq> [] then as @ [PendingDropped d] else as)))
      \<longleftrightarrow> EmitState \<in> set as" for s as
    by (simp add: fix_battery_other resync_strip_other)
  then show ?thesis
    by (simp add: post_transition_def Let_def case_prod_unfold gated_actions_def apply_firewall_app
        add_emit_mem status_for_def)
qed

text \<open>
  Every change of the published state reaches the clients: an event that changes it comes with an
  \<open>EmitState\<close>, with two exceptions, both of which only move the phase from \<open>Handshaking\<close> back to
  \<open>Discovering\<close>: a handshake timeout and a network change during the handshake.
\<close>

theorem changes_are_published:
  assumes inv: "app_inv a" and r: "handle b3 w e a = (as, a')"
    and quiet: "EmitState \<notin> set as" and changed: "a_state a' \<noteq> a_state a"
  shows "a_phase a = Handshaking \<and> (e = HandshakeTimeout \<or> e = NetworkChanged)
    \<and> a_state a' = (a_state a)\<lparr>st_phase := phase_str Discovering\<rparr>"
proof -
  have view: "st_phase (a_state a) = phase_str (a_phase a)" "st_status (a_state a) = status_for (a_state a)"
    using inv by (simp_all add: app_inv_def view_ok_def)
  have nres: "\<nexists>h b. e = ResolvePending h b"
    using r quiet by (auto simp: handle_resolve resolve_pending_def Let_def split: option.splits if_splits)
  have nref: "\<not> refused e a"
    using r changed by (auto simp: handle_refused)
  obtain b sup d where pre: "pre_transition b3 w e a = (b, sup, d)"
    by (cases "pre_transition b3 w e a") auto
  have nsup: "\<not> sup"
    using r changed pre suppressed_view [of b3 w e a b d] by (auto simp: handle_main [OF nres nref])
  then have as: "as = fst (post_transition e d b)" and a': "a' = snd (post_transition e d b)"
    using r pre by (simp_all add: handle_main [OF nres nref])
  have q: "\<not> always_emits e" "EmitState \<notin> set (gated_actions e b)"
    using quiet by (simp_all add: as post_emits)
  then have ni: "event_item e = None" by (cases e) (simp_all add: event_item_def)
  have a's: "a_state a' = (a_state b)\<lparr>st_phase := phase_str (fst (transition (a_phase b) e)),
      st_status := status_for (a_state b)\<rparr>"
    by (simp add: a' post_transition_app settled_def gated_no_item [OF ni])
  have q': "EmitState \<notin> set (snd (transition (a_phase b) e))"
    using q(2) ni by (simp add: gated_actions_def apply_firewall_def)
  have "b = a" using q(1) q' pre nsup nres by (cases e) auto
  have same: "(a_state a)\<lparr>st_phase := phase_str (a_phase a), st_status := status_for (a_state a)\<rparr> = a_state a"
    by (simp flip: view)
  have "fst (transition (a_phase a) e) \<noteq> a_phase a"
    using changed a's same \<open>b = a\<close> by metis
  then have "a_phase a = Handshaking \<and> (e = HandshakeTimeout \<or> e = NetworkChanged)"
    using q(1) q' nres \<open>b = a\<close> by (cases e; cases "a_phase a") auto
  then show ?thesis using a's \<open>b = a\<close> view(2) by auto
qed

theorem changes_are_published_witness:
  "\<exists>as a'. handle (\<lambda>b. b) demo_wall HandshakeTimeout (settled Handshaking (demo_linked Deny)) = (as, a')
     \<and> EmitState \<notin> set as \<and> st_phase (a_state a') = lit ''discovering''"
proof -
  let ?a = "settled Handshaking (demo_linked Deny)"
  have inv: "app_inv ?a" using demo_linked_inv [of Deny] by (intro settled_inv) (simp add: app_inv_def)
  obtain as a' where r: "handle (\<lambda>b. b) demo_wall HandshakeTimeout ?a = (as, a')" by force
  have q: "EmitState \<notin> set as"
    using r by (auto simp: handle_def post_transition_def Let_def settled_def apply_firewall_def event_item_def
        resync_strip_def wants_resync_strip_def add_emit_state_def status_for_def demo_linked_def)
  have "st_phase (a_state a') = phase_str Discovering"
    using r by (auto simp: handle_def post_transition_def Let_def settled_def apply_firewall_def event_item_def)
  moreover have "st_phase (a_state ?a) = phase_str Handshaking" by (simp add: settled_def)
  ultimately have c: "a_state a' \<noteq> a_state ?a" by (metis phase.distinct(7) phase_str_inj)
  show ?thesis using changes_are_published [OF inv r q c] r q by auto
qed

section \<open>A name the peer accepts\<close>

text \<open>
  A device name this device accepts is one its peers accept: the \<open>Hello\<close> that announces it, with any
  valid platform and the capabilities of this build, passes the receiver's validation.
\<close>

theorem device_name_is_announceable:
  assumes "set_device_name n a = Inr a'"
    and "str_len platform \<le> MAX_HELLO_PLATFORM" and "is_ascii_printable_cap platform"
  shows "validate \<lparr>version = PROTOCOL_VERSION,
      f_msg = Hello \<lparr>h_name = device_name (a_state a'), h_platform = platform, h_caps = SUPPORTED_CAPS\<rparr>\<rparr> = Inr ()"
proof -
  have caps: "list_all (\<lambda>c. str_len c \<le> MAX_CAP_LEN \<and> is_ascii_printable_cap c) SUPPORTED_CAPS"
    "length SUPPORTED_CAPS \<le> MAX_HELLO_CAPS"
    by (simp_all add: SUPPORTED_CAPS_def CAP_FILE_def lit_def str_len_def as_bytes_def utf8_char_def
        is_ascii_printable_cap_def MAX_CAP_LEN_def MAX_HELLO_CAPS_def)
  show ?thesis
    using assms caps
    by (auto simp: validate_iff set_device_name_Inr list_all_iff list_ex_iff MAX_HELLO_NAME_def
        MAX_HELLO_PLATFORM_def MAX_HELLO_CAPS_def MAX_CAP_LEN_def)
qed

theorem device_name_is_announceable_witness:
  "\<exists>a'. set_device_name (lit '' my phone '') (app_new (config_default [])) = Inr a'
     \<and> validate \<lparr>version = PROTOCOL_VERSION, f_msg = Hello \<lparr>h_name = device_name (a_state a'),
          h_platform = lit ''android'', h_caps = SUPPORTED_CAPS\<rparr>\<rparr> = Inr ()"
proof -
  have t: "trim (lit '' my phone '') = lit ''my phone''"
    by (simp add: lit_def trim_def trim_start_def trim_end_def is_whitespace_def)
  obtain a' where a': "set_device_name (lit '' my phone '') (app_new (config_default [])) = Inr a'"
    by (simp add: set_device_name_def t Let_def)
      (simp add: lit_def str_len_def as_bytes_def utf8_char_def MAX_HELLO_NAME_def is_control_def
        is_bidi_or_format_char_def)
  have "str_len (lit ''android'') \<le> MAX_HELLO_PLATFORM" "is_ascii_printable_cap (lit ''android'')"
    by (simp_all add: lit_def str_len_def as_bytes_def utf8_char_def MAX_HELLO_PLATFORM_def
        is_ascii_printable_cap_def)
  from device_name_is_announceable [OF a' this] a' show ?thesis by blast
qed

end
