(* ===== verification/Replay.thy ===== *)
theory Replay
  imports Text
begin

text \<open>
  The transport session of \<open>fluxsync-crypto/src/session.rs\<close>: the anti-replay window over explicit
  nonces, and encryption and decryption of the datagrams of a lossy, unordered link. The Noise transport
  state (the \<open>snow\<close> crate) is not under \<open>src/\<close>: its four operations are the fields of a parameter.
\<close>

unbundle bit_operations_syntax

section \<open>The sliding window\<close>

definition REPLAY_WINDOW :: u64 where
  "REPLAY_WINDOW = 64"

record replay_window =
  highest :: u64
  bitmap :: u64
  started :: bool

definition replay_default :: replay_window where
  "replay_default = \<lparr>highest = 0, bitmap = 0, started = False\<rparr>"

definition is_fresh :: "u64 \<Rightarrow> replay_window \<Rightarrow> bool" where
  "is_fresh nonce w =
     (if \<not> started w \<or> highest w < nonce then True
      else let diff = highest w - nonce in
           if REPLAY_WINDOW \<le> diff then False
           else bitmap w AND push_bit (unat diff) 1 = 0)"

definition accept :: "u64 \<Rightarrow> replay_window \<Rightarrow> replay_window" where
  "accept nonce w =
     (if \<not> started w then \<lparr>highest = nonce, bitmap = 1, started = True\<rparr>
      else if highest w < nonce then
        (let shift = nonce - highest w in
         w\<lparr>bitmap := (if REPLAY_WINDOW \<le> shift then 1 else push_bit (unat shift) (bitmap w) OR 1),
           highest := nonce\<rparr>)
      else
        (let diff = highest w - nonce in
         if diff < REPLAY_WINDOW then w\<lparr>bitmap := bitmap w OR push_bit (unat diff) 1\<rparr> else w))"

text \<open>
  The abstract window: the set of nonces accepted so far. Fresh is whatever is newer than all of them,
  or at most 63 behind the newest and not among them.
\<close>

definition window_fresh :: "nat \<Rightarrow> nat set \<Rightarrow> bool" where
  "window_fresh n S \<longleftrightarrow> S = {} \<or> Max S < n \<or> Max S < n + 64 \<and> n \<notin> S"

definition represents :: "replay_window \<Rightarrow> nat set \<Rightarrow> bool" where
  "represents w S \<longleftrightarrow>
     finite S \<and> (started w \<longleftrightarrow> S \<noteq> {})
     \<and> (started w \<longrightarrow> Max S = unat (highest w)
          \<and> (\<forall>d<64. bit (bitmap w) d \<longleftrightarrow> d \<le> unat (highest w) \<and> unat (highest w) - d \<in> S))"

lemma represents_default: "represents replay_default {}"
  by (simp add: represents_def replay_default_def)

lemma and_single_bit: "(x :: u64) AND push_bit d 1 = 0 \<longleftrightarrow> \<not> bit x d" if "d < 64"
proof -
  have "x AND push_bit d 1 = of_bool (bit x d) * push_bit d 1"
    by (rule bit_eqI) (auto simp: bit_simps that)
  moreover have "push_bit d (1 :: u64) \<noteq> 0"
    using that by (simp add: push_bit_eq_mult exp_eq_zero_iff)
  ultimately show ?thesis by simp
qed

lemmas and_single_bit' = and_single_bit [unfolded push_bit_eq_mult mult_1]

lemma unat_sub_le: "(a :: u64) \<le> b \<Longrightarrow> unat (b - a) = unat b - unat a"
  by (simp add: unat_sub)

lemma unat_window: "unat REPLAY_WINDOW = 64"
  by (simp add: REPLAY_WINDOW_def)

lemma is_fresh_refines:
  assumes "represents w S" shows "is_fresh n w \<longleftrightarrow> window_fresh (unat n) S"
proof (cases "started w \<and> n \<le> highest w")
  case False
  then show ?thesis
    using assms by (auto simp: is_fresh_def window_fresh_def represents_def word_less_nat_alt not_le)
next
  case True
  then have mx: "Max S = unat (highest w)" and ne: "S \<noteq> {}"
    and bits: "\<And>d. d < 64 \<Longrightarrow> bit (bitmap w) d \<longleftrightarrow> d \<le> unat (highest w) \<and> unat (highest w) - d \<in> S"
    using assms by (auto simp: represents_def)
  have le: "unat n \<le> unat (highest w)" using True by (simp add: word_le_nat_alt)
  let ?d = "unat (highest w - n)"
  have d: "?d = unat (highest w) - unat n" using True by (simp add: unat_sub_le)
  have bk: "unat (highest w) - ?d = unat n" "?d \<le> unat (highest w)" using le d by simp_all
  have "is_fresh n w \<longleftrightarrow> ?d < 64 \<and> \<not> bit (bitmap w) ?d"
  proof -
    have "\<not> highest w < n" using True by (simp add: not_less)
    then show ?thesis
      using True and_single_bit' [of ?d "bitmap w"]
      by (auto simp: is_fresh_def Let_def word_le_nat_alt unat_window)
  qed
  also have "\<dots> \<longleftrightarrow> ?d < 64 \<and> unat n \<notin> S"
    using bits [of ?d] bk by auto
  also have "\<dots> \<longleftrightarrow> window_fresh (unat n) S"
    using ne mx le d by (auto simp: window_fresh_def)
  finally show ?thesis .
qed

lemma accept_refines:
  assumes r: "represents w S" shows "represents (accept n w) (insert (unat n) S)"
proof (cases "started w")
  case False
  then show ?thesis
    using r by (auto simp: accept_def represents_def bit_1_iff)
next
  case True
  then have fin: "finite S" and ne: "S \<noteq> {}" and mx: "Max S = unat (highest w)"
    and bits: "\<And>d. d < 64 \<Longrightarrow> bit (bitmap w) d \<longleftrightarrow> d \<le> unat (highest w) \<and> unat (highest w) - d \<in> S"
    using r by (auto simp: represents_def)
  have top: "x \<le> unat (highest w)" if "x \<in> S" for x using fin that mx Max_ge by metis
  show ?thesis
  proof (cases "highest w < n")
    case True
    then have lt: "unat (highest w) < unat n" by (simp add: word_less_nat_alt)
    let ?s = "unat (n - highest w)"
    have s: "?s = unat n - unat (highest w)" using True by (simp add: unat_sub_le order_less_imp_le)
    let ?b = "if 64 \<le> ?s then 1 else push_bit ?s (bitmap w) OR 1"
    have acc: "accept n w = w\<lparr>bitmap := ?b, highest := n\<rparr>"
      using True \<open>started w\<close> by (simp add: accept_def Let_def word_le_nat_alt unat_window)
    have "Max (insert (unat n) S) = unat n" using fin ne mx lt by simp
    moreover have "bit ?b d \<longleftrightarrow> d \<le> unat n \<and> unat n - d \<in> insert (unat n) S" if d: "d < 64" for d
    proof (cases "d = 0")
      case True
      then show ?thesis by (simp add: bit_simps)
    next
      case nz: False
      have "bit ?b d \<longleftrightarrow> ?s \<le> d \<and> bit (bitmap w) (d - ?s)"
        using d nz by (auto simp: bit_simps bit_1_iff)
      also have "\<dots> \<longleftrightarrow> ?s \<le> d \<and> d - ?s \<le> unat (highest w) \<and> unat (highest w) - (d - ?s) \<in> S"
        using bits [of "d - ?s"] d by auto
      also have "\<dots> \<longleftrightarrow> d \<le> unat n \<and> unat n - d \<in> S"
      proof
        assume "?s \<le> d \<and> d - ?s \<le> unat (highest w) \<and> unat (highest w) - (d - ?s) \<in> S"
        moreover from this have "unat (highest w) - (d - ?s) = unat n - d" using s lt by linarith
        ultimately show "d \<le> unat n \<and> unat n - d \<in> S" using s lt by auto
      next
        assume a: "d \<le> unat n \<and> unat n - d \<in> S"
        then have "unat n - d \<le> unat (highest w)" using top by blast
        then have "?s \<le> d" "unat (highest w) - (d - ?s) = unat n - d" using s lt a by linarith+
        with a s lt show "?s \<le> d \<and> d - ?s \<le> unat (highest w) \<and> unat (highest w) - (d - ?s) \<in> S"
          by auto
      qed
      also have "\<dots> \<longleftrightarrow> d \<le> unat n \<and> unat n - d \<in> insert (unat n) S" using nz by auto
      finally show ?thesis .
    qed
    ultimately show ?thesis using fin \<open>started w\<close> unfolding acc by (simp add: represents_def)
  next
    case False
    then have le: "n \<le> highest w" "unat n \<le> unat (highest w)" by (simp_all add: word_le_nat_alt word_less_nat_alt)
    let ?d = "unat (highest w - n)"
    have dd: "?d = unat (highest w) - unat n" using le by (simp add: unat_sub_le)
    have mx': "Max (insert (unat n) S) = unat (highest w)" using fin ne mx le by simp
    have acc: "accept n w = (if ?d < 64 then w\<lparr>bitmap := bitmap w OR push_bit ?d 1\<rparr> else w)"
      using False \<open>started w\<close> by (simp add: accept_def Let_def word_less_nat_alt unat_window)
    have "bit (bitmap (accept n w)) d \<longleftrightarrow>
        d \<le> unat (highest w) \<and> unat (highest w) - d \<in> insert (unat n) S" if d: "d < 64" for d
    proof -
      have "bit (bitmap (accept n w)) d \<longleftrightarrow> bit (bitmap w) d \<or> d = ?d"
        using d by (auto simp: acc bit_simps)
      moreover have "d = ?d \<longleftrightarrow> d \<le> unat (highest w) \<and> unat (highest w) - d = unat n"
        using dd le by linarith
      ultimately show ?thesis using bits [OF d] by auto
    qed
    moreover have "started (accept n w)" "highest (accept n w) = highest w"
      using \<open>started w\<close> by (simp_all add: acc)
    ultimately show ?thesis using fin mx' by (simp add: represents_def)
  qed
qed

text \<open>
  C6: The bitmap implements the window: for every sequence of accepted nonces, the 64-bit word answers "is
  this nonce fresh" exactly as the set of all nonces ever accepted does.
\<close>

theorem replay_window_refines:
  "represents (fold accept ns replay_default) (unat ` set ns)
   \<and> (is_fresh n (fold accept ns replay_default) \<longleftrightarrow> window_fresh (unat n) (unat ` set ns))"
proof -
  have "represents (fold accept ns w) (unat ` set ns \<union> S)" if "represents w S" for w S
    using that
  proof (induction ns arbitrary: w S)
    case (Cons m ns)
    show ?case using Cons.IH [OF accept_refines [OF Cons.prems, of m]] by simp
  qed simp
  from this [OF represents_default] show ?thesis using is_fresh_refines by simp
qed

section \<open>The session\<close>

definition NONCE_PREFIX_LEN :: nat where
  "NONCE_PREFIX_LEN = 8"

text \<open>The operations of \<open>snow::TransportState\<close>; an error is its message.\<close>

record 't noise =
  sending_nonce :: "'t \<Rightarrow> u64"
  set_receiving_nonce :: "u64 \<Rightarrow> 't \<Rightarrow> 't"
  write_message :: "'t \<Rightarrow> bytes \<Rightarrow> ustr + bytes \<times> 't"
  read_message :: "'t \<Rightarrow> bytes \<Rightarrow> (ustr + bytes) \<times> 't"

record 't session =
  transport :: 't
  replay :: replay_window
  handshake_hash :: bytes32

datatype crypto_error =
    PatternParse ustr
  | Builder ustr
  | HandshakeError ustr
  | TransportError ustr
  | Encrypt ustr
  | Decrypt ustr
  | MissingRemoteStatic
  | DegenerateKey
  | InvalidPeerPubkey

definition session_new :: "'t \<Rightarrow> bytes32 \<Rightarrow> 't session" where
  "session_new t h = \<lparr>transport = t, replay = replay_default, handshake_hash = h\<rparr>"

text \<open>\<open>u64::to_le_bytes\<close> and \<open>u64::from_le_bytes\<close>.\<close>

fun le_bytes :: "nat \<Rightarrow> nat \<Rightarrow> bytes" where
  "le_bytes 0 n = []"
| "le_bytes (Suc k) n = of_nat (n mod 256) # le_bytes k (n div 256)"

fun le_value :: "bytes \<Rightarrow> nat" where
  "le_value [] = 0"
| "le_value (b # bs) = unat b + 256 * le_value bs"

definition to_le_bytes :: "u64 \<Rightarrow> bytes" where
  "to_le_bytes n = le_bytes 8 (unat n)"

definition from_le_bytes :: "bytes \<Rightarrow> u64" where
  "from_le_bytes bs = of_nat (le_value bs)"

lemma length_le_bytes [simp]: "length (le_bytes k n) = k"
  by (induction k n rule: le_bytes.induct) simp_all

lemma le_value_bytes: "n < 256 ^ k \<Longrightarrow> le_value (le_bytes k n) = n"
proof (induction k n rule: le_bytes.induct)
  case (2 k n)
  have "n div 256 < 256 ^ k" using 2(2) by (simp add: less_mult_imp_div_less mult.commute)
  then show ?case using 2(1) by (simp add: unat_of_nat8)
qed simp

lemma from_to_le [simp]: "from_le_bytes (to_le_bytes n) = n"
  using unat_u64_less [of n] by (simp add: from_le_bytes_def to_le_bytes_def le_value_bytes)

lemma length_to_le [simp]: "length (to_le_bytes n) = 8"
  by (simp add: to_le_bytes_def)

definition encrypt :: "'t noise \<Rightarrow> bytes \<Rightarrow> 't session \<Rightarrow> crypto_error + bytes \<times> 't session" where
  "encrypt ns plaintext s =
     (let nonce = sending_nonce ns (transport s) in
      case write_message ns (transport s) plaintext of
        Inl e \<Rightarrow> Inl (Encrypt e)
      | Inr (ct, t) \<Rightarrow> Inr (to_le_bytes nonce @ ct, s\<lparr>transport := t\<rparr>))"

definition OPAQUE :: ustr where
  "OPAQUE = lit ''decryption failed''"

definition decrypt :: "'t noise \<Rightarrow> bytes \<Rightarrow> 't session \<Rightarrow> (crypto_error + bytes) \<times> 't session" where
  "decrypt ns framed s =
     (if length framed < NONCE_PREFIX_LEN then (Inl (Decrypt OPAQUE), s)
      else
        let nonce = from_le_bytes (take NONCE_PREFIX_LEN framed);
            ct = drop NONCE_PREFIX_LEN framed
        in if length ct < 16 then (Inl (Decrypt OPAQUE), s)
           else if \<not> is_fresh nonce (replay s) then (Inl (Decrypt OPAQUE), s)
           else
             (case read_message ns (set_receiving_nonce ns nonce (transport s)) ct of
                (Inl _, t) \<Rightarrow> (Inl (Decrypt OPAQUE), s\<lparr>transport := t\<rparr>)
              | (Inr p, t) \<Rightarrow> (Inr p, s\<lparr>transport := t, replay := accept nonce (replay s)\<rparr>)))"

text \<open>A run of the receiver over the datagrams in the order they arrive.\<close>

fun decrypt_all :: "'t noise \<Rightarrow> bytes list \<Rightarrow> 't session \<Rightarrow> (crypto_error + bytes) list \<times> 't session" where
  "decrypt_all ns [] s = ([], s)"
| "decrypt_all ns (f # fs) s =
     (let (r, s) = decrypt ns f s; (rs, s) = decrypt_all ns fs s in (r # rs, s))"

fun encrypt_all :: "'t noise \<Rightarrow> bytes list \<Rightarrow> 't session \<Rightarrow> crypto_error + bytes list \<times> 't session" where
  "encrypt_all ns [] s = Inr ([], s)"
| "encrypt_all ns (p # ps) s =
     (case encrypt ns p s of
        Inl e \<Rightarrow> Inl e
      | Inr (f, s) \<Rightarrow> (case encrypt_all ns ps s of
          Inl e \<Rightarrow> Inl e
        | Inr (fs, s) \<Rightarrow> Inr (f # fs, s)))"

definition frame_nonce :: "bytes \<Rightarrow> nat" where
  "frame_nonce f = unat (from_le_bytes (take NONCE_PREFIX_LEN f))"

abbreviation isr :: "'a + 'b \<Rightarrow> bool" where
  "isr r \<equiv> \<not> isl r"

text \<open>The nonces of the datagrams that were delivered upwards.\<close>

definition delivered_nonces :: "bytes list \<Rightarrow> (crypto_error + bytes) list \<Rightarrow> nat list" where
  "delivered_nonces fs rs = map (frame_nonce \<circ> fst) (filter (\<lambda>x. isr (snd x)) (zip fs rs))"

lemma decrypt_window:
  assumes "represents (replay s) S"
  shows "represents (replay (snd (decrypt ns f s)))
      (if isr (fst (decrypt ns f s)) then insert (frame_nonce f) S else S)"
    and "isr (fst (decrypt ns f s)) \<Longrightarrow> window_fresh (frame_nonce f) S"
  using assms accept_refines [OF assms] is_fresh_refines [OF assms]
  by (auto simp: decrypt_def Let_def frame_nonce_def split: prod.split sum.split if_splits)

lemma window_fresh_new: "finite S \<Longrightarrow> window_fresh n S \<Longrightarrow> n \<notin> S"
  by (auto simp: window_fresh_def dest: Max_ge)

lemma decrypt_all_window:
  assumes "represents (replay s) S"
  shows "distinct (delivered_nonces fs (fst (decrypt_all ns fs s)))
    \<and> set (delivered_nonces fs (fst (decrypt_all ns fs s))) \<inter> S = {}"
  using assms
proof (induction fs arbitrary: s S)
  case Nil
  then show ?case by (simp add: delivered_nonces_def)
next
  case (Cons f fs)
  let ?r = "fst (decrypt ns f s)" and ?s = "snd (decrypt ns f s)"
  let ?S = "if isr ?r then insert (frame_nonce f) S else S"
  have fin: "finite S" using Cons.prems by (simp add: represents_def)
  have all: "fst (decrypt_all ns (f # fs) s) = ?r # fst (decrypt_all ns fs ?s)"
    by (simp add: Let_def case_prod_unfold)
  have dn: "delivered_nonces (f # fs) (?r # rs) =
      (if isr ?r then [frame_nonce f] else []) @ delivered_nonces fs rs" for rs
    by (simp add: delivered_nonces_def)
  note ih = Cons.IH [OF decrypt_window(1) [OF Cons.prems, of ns f]]
  show ?case
    using ih decrypt_window(2) [OF Cons.prems, of ns f] window_fresh_new [OF fin]
    unfolding all dn by (auto split: if_splits)
qed

text \<open>
  C7: No datagram is delivered twice. Whatever the network replays, reorders or forges, and whatever the
  cipher does, the datagrams a session delivers upwards all carry different nonces.
\<close>

theorem no_replay:
  "distinct (delivered_nonces fs (fst (decrypt_all ns fs (session_new t h))))"
  using decrypt_all_window [of "session_new t h" "{}"] by (simp add: session_new_def represents_default)

section \<open>Delivery over a lossy, unordered link\<close>

text \<open>
  What the Noise documentation promises of a matched pair of transport states (\<open>keys s r\<close>: \<open>r\<close> opens what
  \<open>s\<close> seals): a sealed message opens under the nonce it was sealed with, the sending nonce counts up, the
  pairing survives every operation of either side, and a sealed message carries its 16-byte tag.
\<close>

definition noise_laws :: "'t noise \<Rightarrow> ('t \<Rightarrow> 't \<Rightarrow> bool) \<Rightarrow> bool" where
  "noise_laws ns keys \<longleftrightarrow>
     (\<forall>s r p ct s'. keys s r \<and> write_message ns s p = Inr (ct, s') \<longrightarrow>
        16 \<le> length ct \<and> keys s' r \<and> sending_nonce ns s' = sending_nonce ns s + 1
        \<and> (\<forall>r'. keys s r' \<longrightarrow> fst (read_message ns (set_receiving_nonce ns (sending_nonce ns s) r') ct) = Inr p)
        \<and> (\<forall>r'. keys s r' \<longrightarrow> keys s' r'))
     \<and> (\<forall>s r n. keys s r \<longrightarrow> keys s (set_receiving_nonce ns n r))
     \<and> (\<forall>s r ct. keys s r \<longrightarrow> keys s (snd (read_message ns r ct)))"

text \<open>What frame number \<open>i\<close> of a batch is, and under which nonce.\<close>

definition opens :: "'t noise \<Rightarrow> ('t \<Rightarrow> bool) \<Rightarrow> bytes \<Rightarrow> nat \<Rightarrow> bytes \<Rightarrow> bool" where
  "opens ns ok f n p \<longleftrightarrow>
     24 \<le> length f \<and> frame_nonce f = n
     \<and> (\<forall>r. ok r \<longrightarrow> fst (read_message ns (set_receiving_nonce ns (from_le_bytes (take 8 f)) r) (drop 8 f)) = Inr p)"

lemma encrypt_opens:
  assumes laws: "noise_laws ns keys" and k: "keys (transport s) r0"
    and e: "encrypt ns p s = Inr (f, s')"
  shows "opens ns (keys (transport s)) f (unat (sending_nonce ns (transport s))) p"
    and "sending_nonce ns (transport s') = sending_nonce ns (transport s) + 1"
    and "\<And>r. keys (transport s) r \<Longrightarrow> keys (transport s') r"
proof -
  from e obtain ct t where w: "write_message ns (transport s) p = Inr (ct, t)"
    and f: "f = to_le_bytes (sending_nonce ns (transport s)) @ ct" "s' = s\<lparr>transport := t\<rparr>"
    by (auto simp: encrypt_def Let_def split: sum.splits)
  have l: "16 \<le> length ct" "sending_nonce ns t = sending_nonce ns (transport s) + 1"
    "\<And>r. keys (transport s) r \<Longrightarrow>
       fst (read_message ns (set_receiving_nonce ns (sending_nonce ns (transport s)) r) ct) = Inr p"
    "\<And>r. keys (transport s) r \<Longrightarrow> keys t r"
    using laws k w unfolding noise_laws_def by blast+
  show "opens ns (keys (transport s)) f (unat (sending_nonce ns (transport s))) p"
    using l by (simp add: opens_def f frame_nonce_def NONCE_PREFIX_LEN_def)
  show "sending_nonce ns (transport s') = sending_nonce ns (transport s) + 1" using l by (simp add: f)
  show "keys (transport s) r \<Longrightarrow> keys (transport s') r" for r using l by (simp add: f)
qed

lemma unat_inc: "Suc (unat (n :: u64)) < 2 ^ 64 \<Longrightarrow> unat (n + 1) = Suc (unat n)"
  by (simp add: unat_word_ariths)

lemma encrypt_all_opens:
  assumes "noise_laws ns keys" and "keys (transport s) r0"
    and "encrypt_all ns ps s = Inr (fs, s')"
    and "unat (sending_nonce ns (transport s)) + length ps < 2 ^ 64"
  shows "length fs = length ps \<and> (\<forall>i<length ps. opens ns (keys (transport s)) (fs ! i)
      (unat (sending_nonce ns (transport s)) + i) (ps ! i))"
  using assms(2-)
proof (induction ps arbitrary: s fs)
  case Nil
  then show ?case by simp
next
  case (Cons p ps)
  from Cons.prems(2) obtain f s1 fs' where e: "encrypt ns p s = Inr (f, s1)"
    and a: "encrypt_all ns ps s1 = Inr (fs', s')" and fs: "fs = f # fs'"
    by (auto split: sum.splits)
  note eo = encrypt_opens [OF assms(1) Cons.prems(1) e]
  have u: "unat (sending_nonce ns (transport s1)) = Suc (unat (sending_nonce ns (transport s)))"
    unfolding eo(2) using Cons.prems(3) by (intro unat_inc) simp
  have ih: "length fs' = length ps \<and> (\<forall>i<length ps. opens ns (keys (transport s1)) (fs' ! i)
      (unat (sending_nonce ns (transport s1)) + i) (ps ! i))"
    using Cons.IH [OF eo(3) [OF Cons.prems(1)] a] Cons.prems(3) u by simp
  have "opens ns (keys (transport s)) (fs ! i) (unat (sending_nonce ns (transport s)) + i) ((p # ps) ! i)"
    if "i < Suc (length ps)" for i
  proof (cases i)
    case 0
    then show ?thesis using eo(1) by (simp add: fs)
  next
    case (Suc j)
    have "opens ns (keys (transport s1)) (fs' ! j) (unat (sending_nonce ns (transport s1)) + j) (ps ! j)"
      using ih that Suc by simp
    then show ?thesis using eo(3) by (simp add: opens_def fs Suc u)
  qed
  then show ?case using ih fs by simp
qed

lemma decrypt_opens:
  assumes o: "opens ns ok f n p" and t: "ok (transport s)" and fresh: "is_fresh (from_le_bytes (take 8 f)) (replay s)"
  shows "fst (decrypt ns f s) = Inr p"
  using assms unfolding opens_def decrypt_def NONCE_PREFIX_LEN_def Let_def
  by (auto split: prod.split sum.split)

lemma decrypt_keys:
  assumes "noise_laws ns keys" and "keys t0 (transport s)"
  shows "keys t0 (transport (snd (decrypt ns f s)))"
proof -
  have "keys t0 (snd (read_message ns (set_receiving_nonce ns n (transport s)) ct))" for n ct
    using assms unfolding noise_laws_def by blast
  then show ?thesis
    using assms(2) by (simp add: decrypt_def Let_def split: prod.split sum.split) (metis snd_conv)
qed

lemma window_fresh_batch:
  assumes "finite S" "S \<subseteq> {n0..<n0 + 64}" "n \<in> {n0..<n0 + 64}" "n \<notin> S"
  shows "window_fresh n S"
proof (cases "S = {}")
  case False
  then have "Max S \<in> S" using assms(1) by simp
  with assms(2,3) have "Max S < n + 64" by auto
  with assms(4) show ?thesis by (auto simp: window_fresh_def)
qed (simp add: window_fresh_def)

lemma decrypt_batch:
  assumes laws: "noise_laws ns keys" and lens: "length fs = length ps" "length ps \<le> 64"
    and op: "\<forall>i<length ps. opens ns (keys t0) (fs ! i) (n0 + i) (ps ! i)"
    and "keys t0 (transport r)" and "represents (replay r) S"
    and "S \<subseteq> {n0..<n0 + 64}" and "\<forall>i\<in>set is. i < length ps \<and> n0 + i \<notin> S" and "distinct is"
  shows "fst (decrypt_all ns (map ((!) fs) is) r) = map (Inr \<circ> (!) ps) is"
  using assms(5-)
proof (induction "is" arbitrary: r S)
  case Nil
  then show ?case by simp
next
  case (Cons i "is")
  have i: "i < length ps" "n0 + i \<notin> S" using Cons.prems(4) by simp_all
  then have o: "opens ns (keys t0) (fs ! i) (n0 + i) (ps ! i)" using op by simp
  then have fn: "frame_nonce (fs ! i) = n0 + i" by (simp add: opens_def)
  have fin: "finite S" using Cons.prems(2) by (simp add: represents_def)
  have "window_fresh (n0 + i) S"
    using window_fresh_batch [OF fin Cons.prems(3), of "n0 + i"] i lens(2) by simp
  then have "is_fresh (from_le_bytes (take 8 (fs ! i))) (replay r)"
    using is_fresh_refines [OF Cons.prems(2)] fn by (simp add: frame_nonce_def NONCE_PREFIX_LEN_def)
  then have d: "fst (decrypt ns (fs ! i) r) = Inr (ps ! i)"
    by (rule decrypt_opens [where ok = "keys t0", OF o Cons.prems(1)])
  let ?r = "snd (decrypt ns (fs ! i) r)"
  have "represents (replay ?r) (insert (n0 + i) S)"
    using decrypt_window(1) [OF Cons.prems(2), of ns "fs ! i"] d fn by simp
  moreover have "insert (n0 + i) S \<subseteq> {n0..<n0 + 64}" using Cons.prems(3) i lens(2) by simp
  moreover have "\<forall>j\<in>set is. j < length ps \<and> n0 + j \<notin> insert (n0 + i) S"
    using Cons.prems(4,5) by auto
  ultimately have "fst (decrypt_all ns (map ((!) fs) is) ?r) = map (Inr \<circ> (!) ps) is"
    using Cons.IH [OF decrypt_keys [OF laws Cons.prems(1)]] Cons.prems(5) by simp
  with d show ?case by (simp add: Let_def case_prod_unfold)
qed

text \<open>
  A lossy, reordering link loses only what it loses: of a batch of up to 64 datagrams, whichever arrive,
  in whatever order, each is decrypted to its own plaintext.
\<close>

theorem any_order_delivery:
  assumes "noise_laws ns keys" and "keys (transport s) t"
    and "encrypt_all ns ps s = Inr (fs, s')" and "length ps \<le> 64"
    and "unat (sending_nonce ns (transport s)) + length ps < 2 ^ 64"
    and "distinct is" and "\<forall>i\<in>set is. i < length ps"
  shows "fst (decrypt_all ns (map ((!) fs) is) (session_new t h)) = map (Inr \<circ> (!) ps) is"
proof -
  from encrypt_all_opens [OF assms(1,2,3,5)]
  have e: "length fs = length ps" "\<forall>i<length ps. opens ns (keys (transport s)) (fs ! i)
      (unat (sending_nonce ns (transport s)) + i) (ps ! i)" by simp_all
  show ?thesis
    by (rule decrypt_batch [OF assms(1) e(1) assms(4) e(2), of "session_new t h" "{}"])
      (use assms in \<open>simp_all add: session_new_def represents_default\<close>)
qed

text \<open>A cipher that keeps the laws: the counter is the state, the tag is sixteen zero bytes.\<close>

definition demo_noise :: "(u64 \<times> u64) noise" where
  "demo_noise = \<lparr>sending_nonce = fst, set_receiving_nonce = (\<lambda>n t. (fst t, n)),
     write_message = (\<lambda>t p. Inr (p @ replicate 16 0, (fst t + 1, snd t))),
     read_message = (\<lambda>t ct. (Inr (take (length ct - 16) ct), (fst t, snd t + 1)))\<rparr>"

lemma demo_noise_laws: "noise_laws demo_noise (\<lambda>s r. True)"
  by (simp add: noise_laws_def demo_noise_def)

theorem any_order_delivery_witness:
  "\<exists>fs s'. encrypt_all demo_noise [[1], [2], [3]] (session_new (5, 0) []) = Inr (fs, s')
     \<and> fst (decrypt_all demo_noise [fs ! 2, fs ! 0] (session_new (0, 0) [])) = [Inr [3], Inr [1]]"
proof -
  obtain fs s' where e: "encrypt_all demo_noise [[1], [2], [3]] (session_new (5, 0) []) = Inr (fs, s')"
    by (simp add: encrypt_def demo_noise_def session_new_def)
  have "unat (sending_nonce demo_noise (transport (session_new (5 :: u64, 0 :: u64) [])))
      + length [[1 :: u8], [2], [3]] < 2 ^ 64"
    by (simp add: session_new_def demo_noise_def)
  from any_order_delivery [OF demo_noise_laws TrueI e _ this, of "[2, 0]" "(0, 0)" "[]"] e
  show ?thesis by (intro exI [of _ fs] exI [of _ s']) simp
qed

end
