(* ===== verification/Outbox.thy ===== *)
theory Outbox
  imports Wire
begin

text \<open>
  The resend buffer of \<open>fluxsyncd/src/outbox.rs\<close>: recent outbound items by content hash, bounded in
  number and bytes, with a time to live. \<open>now\<close> is \<open>Instant::now()\<close>.
\<close>

section \<open>The buffer\<close>

definition MAX_ITEMS :: nat where
  "MAX_ITEMS = 16"

definition MAX_TOTAL_BYTES :: nat where
  "MAX_TOTAL_BYTES = 2 * MAX_PAYLOAD"

definition MAX_AGE :: duration where
  "MAX_AGE = from_secs (24 * 60 * 60)"

record out_entry =
  oe_payload :: bytes
  oe_kind :: kind
  oe_origin :: bytes32
  oe_seq :: u64
  oe_created :: instant

record outbox =
  o_order :: "bytes32 list"
  o_entries :: "(bytes32, out_entry) hmap"
  total_bytes :: nat
  o_max_age :: duration

definition with_max_age :: "duration \<Rightarrow> outbox" where
  "with_max_age d = \<lparr>o_order = [], o_entries = [], total_bytes = 0, o_max_age = d\<rparr>"

definition outbox_new :: outbox where
  "outbox_new = with_max_age MAX_AGE"

definition is_expired :: "out_entry \<Rightarrow> duration \<Rightarrow> instant \<Rightarrow> bool" where
  "is_expired e max_age now \<longleftrightarrow> max_age < now - oe_created e"

definition outbox_remove :: "bytes32 \<Rightarrow> outbox \<Rightarrow> outbox" where
  "outbox_remove h ob =
     (case map_of (o_entries ob) h of
        None \<Rightarrow> ob
      | Some old \<Rightarrow>
          ob\<lparr>o_entries := hm_remove h (o_entries ob),
            total_bytes := total_bytes ob - length (oe_payload old),
            o_order := (case position (\<lambda>x. x = h) (o_order ob) of
                          Some pos \<Rightarrow> remove_at pos (o_order ob) | None \<Rightarrow> o_order ob)\<rparr>)"

definition purge_expired :: "instant \<Rightarrow> outbox \<Rightarrow> outbox" where
  "purge_expired now ob =
     fold outbox_remove
       (map fst (filter (\<lambda>e. is_expired (snd e) (o_max_age ob) now) (o_entries ob))) ob"

text \<open>The \<open>while\<close> loop pops the front of \<open>order\<close>, so it is structural in that list.\<close>

fun evict_loop :: "bytes32 list \<Rightarrow> outbox \<Rightarrow> outbox" where
  "evict_loop [] ob = ob\<lparr>o_order := []\<rparr>"
| "evict_loop (oldest # rest) ob =
     (if MAX_ITEMS < length (oldest # rest) \<or> MAX_TOTAL_BYTES < total_bytes ob then
        evict_loop rest
          (case map_of (o_entries ob) oldest of
             Some e \<Rightarrow> ob\<lparr>o_entries := hm_remove oldest (o_entries ob),
                         total_bytes := total_bytes ob - length (oe_payload e)\<rparr>
           | None \<Rightarrow> ob)
      else ob\<lparr>o_order := oldest # rest\<rparr>)"

definition evict_over_caps :: "outbox \<Rightarrow> outbox" where
  "evict_over_caps ob = evict_loop (o_order ob) ob"

definition outbox_insert :: "bytes32 \<Rightarrow> out_entry \<Rightarrow> instant \<Rightarrow> outbox \<Rightarrow> outbox" where
  "outbox_insert h e now ob =
     (let ob = outbox_remove h (purge_expired now ob);
          ob = ob\<lparr>total_bytes := min (total_bytes ob + length (oe_payload e)) (2 ^ 64 - 1),
                 o_order := o_order ob @ [h], o_entries := hm_insert h e (o_entries ob)\<rparr>
      in evict_over_caps ob)"

definition live :: "instant \<Rightarrow> outbox \<Rightarrow> bytes32 \<Rightarrow> bool" where
  "live now ob h \<longleftrightarrow>
     (case map_of (o_entries ob) h of Some e \<Rightarrow> \<not> is_expired e (o_max_age ob) now | None \<Rightarrow> False)"

definition outbox_get :: "bytes32 \<Rightarrow> instant \<Rightarrow> outbox \<Rightarrow> out_entry option" where
  "outbox_get h now ob =
     (case map_of (o_entries ob) h of
        Some e \<Rightarrow> if is_expired e (o_max_age ob) now then None else Some e
      | None \<Rightarrow> None)"

definition outbox_hashes :: "instant \<Rightarrow> outbox \<Rightarrow> bytes32 list" where
  "outbox_hashes now ob = filter (live now ob) (rev (o_order ob))"

definition outbox_len :: "instant \<Rightarrow> outbox \<Rightarrow> nat" where
  "outbox_len now ob = length (filter (\<lambda>e. \<not> is_expired (snd e) (o_max_age ob) now) (o_entries ob))"

definition outbox_remove_many :: "bytes32 list \<Rightarrow> outbox \<Rightarrow> outbox" where
  "outbox_remove_many hs ob = fold outbox_remove hs ob"

definition outbox_clear_all :: "outbox \<Rightarrow> outbox" where
  "outbox_clear_all ob = ob\<lparr>o_order := [], o_entries := [], total_bytes := 0\<rparr>"

section \<open>The invariant\<close>

definition bytes_of :: "(bytes32, out_entry) hmap \<Rightarrow> nat" where
  "bytes_of m = sum_list (map (\<lambda>e. length (oe_payload (snd e))) m)"

definition linked_up :: "outbox \<Rightarrow> bool" where
  "linked_up ob \<longleftrightarrow>
     distinct (o_order ob) \<and> distinct (map fst (o_entries ob))
     \<and> set (o_order ob) = fst ` set (o_entries ob) \<and> total_bytes ob = bytes_of (o_entries ob)"

definition outbox_inv :: "outbox \<Rightarrow> bool" where
  "outbox_inv ob \<longleftrightarrow>
     linked_up ob \<and> length (o_order ob) \<le> MAX_ITEMS \<and> total_bytes ob \<le> MAX_TOTAL_BYTES"

lemma bytes_of_remove:
  "distinct (map fst m) \<Longrightarrow> map_of m h = Some e \<Longrightarrow>
     bytes_of m = length (oe_payload e) + bytes_of (hm_remove h m)"
proof (induction m)
  case (Cons x m)
  show ?case
  proof (cases "fst x = h")
    case True
    with Cons.prems have "filter (\<lambda>e. fst e \<noteq> h) m = m"
      using hm_remove_absent [of h m] by (simp add: hm_remove_def)
    with True Cons.prems show ?thesis by (cases x) (simp add: bytes_of_def hm_remove_def)
  next
    case False
    with Cons show ?thesis by (cases x) (simp add: bytes_of_def hm_remove_def)
  qed
qed simp

lemma bytes_of_insert: "h \<notin> fst ` set m \<Longrightarrow> bytes_of (hm_insert h e m) = length (oe_payload e) + bytes_of m"
  using hm_remove_absent [of h m] by (simp add: hm_insert_def hm_remove_def bytes_of_def)

lemma remove_order:
  assumes "distinct xs"
  shows "(case position (\<lambda>x. x = h) xs of Some pos \<Rightarrow> remove_at pos xs | None \<Rightarrow> xs) = filter (\<lambda>x. x \<noteq> h) xs"
proof (cases "position (\<lambda>x. x = h) xs")
  case None
  then have "filter (\<lambda>x. x \<noteq> h) xs = xs" by (simp add: position_None_iff)
  with None show ?thesis by simp
next
  case (Some pos)
  from position_split [OF Some] have sp: "xs = take pos xs @ h # drop (Suc pos) xs"
    and nt: "\<forall>x\<in>set (take pos xs). x \<noteq> h" by simp_all
  have "distinct (take pos xs @ h # drop (Suc pos) xs)" using assms sp by simp
  then have nd: "\<forall>x\<in>set (drop (Suc pos) xs). x \<noteq> h" by auto
  have "filter (\<lambda>x. x \<noteq> h) (take pos xs @ h # drop (Suc pos) xs) = take pos xs @ drop (Suc pos) xs"
    using nt nd by (simp add: filter_id_conv)
  then show ?thesis using sp Some by (simp add: remove_at_def)
qed

lemma linked_up_remove:
  assumes "linked_up ob"
  shows "linked_up (outbox_remove h ob)"
    and "o_order (outbox_remove h ob) = filter (\<lambda>x. x \<noteq> h) (o_order ob)"
    and "map_of (o_entries (outbox_remove h ob)) = (map_of (o_entries ob))(h := None)"
    and "total_bytes (outbox_remove h ob) \<le> total_bytes ob"
    and "o_max_age (outbox_remove h ob) = o_max_age ob"
proof -
  have L: "distinct (o_order ob)" "distinct (map fst (o_entries ob))"
    "set (o_order ob) = fst ` set (o_entries ob)" "total_bytes ob = bytes_of (o_entries ob)"
    using assms by (simp_all add: linked_up_def)
  note ro = remove_order [OF L(1), of h]
  have none: "h \<notin> set (o_order ob)" if "map_of (o_entries ob) h = None"
    using that L(3) by (simp add: map_of_eq_None_iff)
  show o: "o_order (outbox_remove h ob) = filter (\<lambda>x. x \<noteq> h) (o_order ob)"
    using none by (auto simp: outbox_remove_def ro intro!: filter_True [symmetric] split: option.split)
  show m: "map_of (o_entries (outbox_remove h ob)) = (map_of (o_entries ob))(h := None)"
    by (auto simp: outbox_remove_def fun_upd_idem split: option.split)
  show "total_bytes (outbox_remove h ob) \<le> total_bytes ob" "o_max_age (outbox_remove h ob) = o_max_age ob"
    by (auto simp: outbox_remove_def split: option.split)
  show "linked_up (outbox_remove h ob)"
  proof (cases "map_of (o_entries ob) h")
    case None
    then show ?thesis using assms by (simp add: outbox_remove_def)
  next
    case (Some e)
    show ?thesis
      using L bytes_of_remove [OF L(2) Some] o
      by (simp add: linked_up_def outbox_remove_def Some ro) auto
  qed
qed

lemma remove_many_spec:
  assumes "linked_up ob"
  shows "linked_up (fold outbox_remove hs ob)
    \<and> o_order (fold outbox_remove hs ob) = filter (\<lambda>x. x \<notin> set hs) (o_order ob)
    \<and> total_bytes (fold outbox_remove hs ob) \<le> total_bytes ob
    \<and> o_max_age (fold outbox_remove hs ob) = o_max_age ob
    \<and> map_of (o_entries (fold outbox_remove hs ob)) = map_of (o_entries ob) |` (- set hs)"
  using assms
proof (induction hs arbitrary: ob)
  case Nil
  then show ?case by simp
next
  case (Cons h hs)
  note r = linked_up_remove [OF Cons.prems, of h]
  have m: "(map_of (o_entries ob))(h := None) |` (- set hs) = map_of (o_entries ob) |` (- set (h # hs))"
    by (rule ext) (simp add: restrict_map_def)
  have f: "filter (\<lambda>x. x \<notin> set hs) (filter (\<lambda>x. x \<noteq> h) (o_order ob)) = filter (\<lambda>x. x \<notin> set (h # hs)) (o_order ob)"
    by (simp add: conj_commute)
  show ?case
    using Cons.IH [OF r(1)] r(4,5) unfolding r(2) r(3) m f by auto
qed

lemma evict_loop_spec:
  assumes "linked_up (ob\<lparr>o_order := ord\<rparr>)"
  shows "outbox_inv (evict_loop ord ob)
    \<and> (\<exists>gone. ord = gone @ o_order (evict_loop ord ob))
    \<and> o_max_age (evict_loop ord ob) = o_max_age ob
    \<and> map_of (o_entries (evict_loop ord ob)) = map_of (o_entries ob) |` set (o_order (evict_loop ord ob))
    \<and> (\<forall>h e. ord \<noteq> [] \<longrightarrow> h = last ord \<longrightarrow> map_of (o_entries ob) h = Some e \<longrightarrow>
         length (oe_payload e) \<le> MAX_TOTAL_BYTES \<longrightarrow> h \<in> set (o_order (evict_loop ord ob)))"
  using assms
proof (induction ord ob rule: evict_loop.induct)
  case (1 ob)
  then have "o_entries ob = []" by (simp add: linked_up_def)
  with 1 show ?case
    by (simp add: outbox_inv_def linked_up_def bytes_of_def)
next
  case (2 oldest rest ob)
  show ?case
  proof (cases "MAX_ITEMS < length (oldest # rest) \<or> MAX_TOTAL_BYTES < total_bytes ob")
    case False
    have "map_of (o_entries ob) |` set (oldest # rest) = map_of (o_entries ob)"
    proof (rule ext)
      fix x
      have "x \<in> set (oldest # rest) \<or> map_of (o_entries ob) x = None"
        using 2(2) by (auto simp: linked_up_def map_of_eq_None_iff)
      then show "(map_of (o_entries ob) |` set (oldest # rest)) x = map_of (o_entries ob) x"
        by (auto simp: restrict_map_def)
    qed
    with False 2(2) show ?thesis by (auto simp: outbox_inv_def)
  next
    case True
    from 2(2) have L: "distinct (oldest # rest)" "distinct (map fst (o_entries ob))"
      "set (oldest # rest) = fst ` set (o_entries ob)" "total_bytes ob = bytes_of (o_entries ob)"
      by (simp_all add: linked_up_def)
    have "oldest \<in> fst ` set (o_entries ob)" using L(3) by auto
    then obtain e where e: "map_of (o_entries ob) oldest = Some e"
      by (metis map_of_eq_None_iff not_None_eq)
    let ?ob = "ob\<lparr>o_entries := hm_remove oldest (o_entries ob),
                 total_bytes := total_bytes ob - length (oe_payload e)\<rparr>"
    have step: "evict_loop (oldest # rest) ob = evict_loop rest ?ob" using True e by simp
    have lk: "linked_up (?ob\<lparr>o_order := rest\<rparr>)"
      using L bytes_of_remove [OF L(2) e] by (auto simp: linked_up_def)
    have c: "(case map_of (o_entries ob) oldest of
             Some e \<Rightarrow> ob\<lparr>o_entries := hm_remove oldest (o_entries ob),
                         total_bytes := total_bytes ob - length (oe_payload e)\<rparr>
           | None \<Rightarrow> ob) = ?ob"
      by (simp add: e)
    note ih0 = 2(1) [OF True, unfolded c, OF lk]
    have ih: "outbox_inv (evict_loop rest ?ob)"
      "\<exists>gone. rest = gone @ o_order (evict_loop rest ?ob)"
      "o_max_age (evict_loop rest ?ob) = o_max_age ?ob"
      "map_of (o_entries (evict_loop rest ?ob)) = map_of (o_entries ?ob) |` set (o_order (evict_loop rest ?ob))"
      "\<And>h e. rest \<noteq> [] \<Longrightarrow> h = last rest \<Longrightarrow> map_of (o_entries ?ob) h = Some e \<Longrightarrow>
         length (oe_payload e) \<le> MAX_TOTAL_BYTES \<Longrightarrow> h \<in> set (o_order (evict_loop rest ?ob))"
      using ih0 by blast+
    obtain gone where g: "rest = gone @ o_order (evict_loop rest ?ob)" using ih(2) by blast
    have "oldest \<notin> set (o_order (evict_loop rest ?ob))"
      using L(1) g by (metis Un_iff distinct.simps(2) set_append)
    then have m: "map_of (o_entries (evict_loop rest ?ob))
        = map_of (o_entries ob) |` set (o_order (evict_loop rest ?ob))"
      unfolding ih(4) by (intro ext) (auto simp: restrict_map_def)
    have last: "h \<in> set (o_order (evict_loop rest ?ob))"
      if "h = last (oldest # rest)" "map_of (o_entries ob) h = Some e'"
        "length (oe_payload e') \<le> MAX_TOTAL_BYTES" for h e'
    proof (cases "rest = []")
      case True
      have "o_entries ob = [(oldest, e)]"
      proof -
        have "set (map fst (o_entries ob)) = {oldest}" using L(3) True by simp
        then have "length (o_entries ob) = 1"
          using distinct_card [OF L(2)] by simp
        then obtain k v where "o_entries ob = [(k, v)]" by (metis length_Suc_conv One_nat_def length_0_conv old.prod.exhaust)
        with e show ?thesis by (simp split: if_splits)
      qed
      then have "total_bytes ob = length (oe_payload e)" using L(4) by (simp add: bytes_of_def)
      with that e True \<open>MAX_ITEMS < length (oldest # rest) \<or> MAX_TOTAL_BYTES < total_bytes ob\<close>
      show ?thesis by (simp add: MAX_ITEMS_def)
    next
      case False
      then have "h \<noteq> oldest" using that(1) L(1) by (metis distinct.simps(2) last_ConsR last_in_set)
      with False that show ?thesis by (intro ih(5)) simp_all
    qed
    have suffix: "\<exists>gone. oldest # rest = gone @ o_order (evict_loop rest ?ob)"
      using g by (metis append_Cons)
    show ?thesis
      unfolding step using ih(1) ih(3) m suffix last by (intro conjI allI impI) simp_all
  qed
qed

section \<open>Operations keep the invariant\<close>

lemma outbox_inv_new: "outbox_inv (with_max_age d)"
  by (simp add: outbox_inv_def linked_up_def with_max_age_def bytes_of_def)

lemma outbox_inv_remove_many: "outbox_inv ob \<Longrightarrow> outbox_inv (outbox_remove_many hs ob)"
proof -
  assume i: "outbox_inv ob"
  then have "linked_up ob" by (simp add: outbox_inv_def)
  note r = remove_many_spec [OF this, of hs]
  have "length (filter (\<lambda>x. x \<notin> set hs) (o_order ob)) \<le> MAX_ITEMS"
    using i by (intro order_trans [OF length_filter_le]) (simp add: outbox_inv_def)
  then show ?thesis using r i by (simp add: outbox_inv_def outbox_remove_many_def)
qed

lemma outbox_inv_clear: "outbox_inv (outbox_clear_all ob)"
  by (simp add: outbox_inv_def linked_up_def outbox_clear_all_def bytes_of_def)

text \<open>The state just before the caps are enforced.\<close>

definition staged :: "bytes32 \<Rightarrow> out_entry \<Rightarrow> instant \<Rightarrow> outbox \<Rightarrow> outbox" where
  "staged h e now ob =
     (let ob = outbox_remove h (purge_expired now ob) in
      ob\<lparr>total_bytes := min (total_bytes ob + length (oe_payload e)) (2 ^ 64 - 1),
         o_order := o_order ob @ [h], o_entries := hm_insert h e (o_entries ob)\<rparr>)"

lemma insert_staged: "outbox_insert h e now ob = evict_loop (o_order (staged h e now ob)) (staged h e now ob)"
  by (simp add: outbox_insert_def staged_def evict_over_caps_def Let_def)

lemma staged_spec:
  assumes i: "outbox_inv ob" and small: "length (oe_payload e) \<le> MAX_PAYLOAD"
  shows "linked_up (staged h e now ob)" and "last (o_order (staged h e now ob)) = h"
    and "o_order (staged h e now ob) \<noteq> []" and "map_of (o_entries (staged h e now ob)) h = Some e"
    and "o_max_age (staged h e now ob) = o_max_age ob"
proof -
  let ?p = "purge_expired now ob"
  have lk: "linked_up ob" "total_bytes ob \<le> MAX_TOTAL_BYTES" using i by (simp_all add: outbox_inv_def)
  have p: "linked_up ?p" "total_bytes ?p \<le> total_bytes ob" "o_max_age ?p = o_max_age ob"
    using remove_many_spec [OF lk(1)] by (simp_all add: purge_expired_def)
  let ?r = "outbox_remove h ?p"
  note r = linked_up_remove [OF p(1), of h]
  have new: "h \<notin> fst ` set (o_entries ?r)" "h \<notin> set (o_order ?r)"
    using r(1,2) by (auto simp: linked_up_def)
  have "total_bytes ?r + length (oe_payload e) \<le> 2 ^ 64 - 1"
    using r(4) p(2) lk(2) small by (simp add: MAX_TOTAL_BYTES_def MAX_PAYLOAD_def)
  then have m: "min (total_bytes ?r + length (oe_payload e)) (2 ^ 64 - 1) = total_bytes ?r + length (oe_payload e)"
    by (rule min_absorb1)
  show "linked_up (staged h e now ob)"
    using r(1) new unfolding staged_def Let_def m
    by (auto simp: linked_up_def bytes_of_insert)
  show "last (o_order (staged h e now ob)) = h" "o_order (staged h e now ob) \<noteq> []"
    "map_of (o_entries (staged h e now ob)) h = Some e" "o_max_age (staged h e now ob) = o_max_age ob"
    using r(5) p(3) by (simp_all add: staged_def Let_def)
qed

lemma outbox_inv_insert:
  assumes "outbox_inv ob" and "length (oe_payload e) \<le> MAX_PAYLOAD"
  shows "outbox_inv (outbox_insert h e now ob)"
proof -
  have "linked_up (staged h e now ob\<lparr>o_order := o_order (staged h e now ob)\<rparr>)"
    using staged_spec(1) [OF assms] by simp
  from evict_loop_spec [OF this] show ?thesis by (simp add: insert_staged)
qed

text \<open>The operations the daemon performs, as a machine.\<close>

datatype outbox_op =
    OInsert bytes32 out_entry instant
  | ORemoveMany "bytes32 list"
  | OClearAll

fun outbox_step :: "outbox_op \<Rightarrow> outbox \<Rightarrow> outbox" where
  "outbox_step (OInsert h e now) ob =
     (if length (oe_payload e) \<le> MAX_PAYLOAD then outbox_insert h e now ob else ob)"
| "outbox_step (ORemoveMany hs) ob = outbox_remove_many hs ob"
| "outbox_step OClearAll ob = outbox_clear_all ob"

interpretation outbox_machine: machine outbox_step outbox_inv
proof
  show "outbox_inv s \<Longrightarrow> outbox_inv (outbox_step e s)" for s e
    by (cases e) (simp_all add: outbox_inv_insert outbox_inv_remove_many outbox_inv_clear)
qed

text \<open>
  C35: The resend buffer in every run: never more than 16 items or 32 MiB, one entry per offered hash, and an
  item of legal size is offered first and served back exactly as inserted, for the whole retention
  window, even if the insertion evicts others.
\<close>

theorem outbox_serves_what_it_offers:
  assumes small: "length (oe_payload e) \<le> MAX_PAYLOAD" and live: "later - oe_created e \<le> MAX_AGE"
  shows "let ob = outbox_insert h e now (fold outbox_step ops outbox_new) in
     length (o_order ob) \<le> 16 \<and> bytes_of (o_entries ob) \<le> 2 * MAX_PAYLOAD
     \<and> distinct (outbox_hashes later ob)
     \<and> outbox_get h later ob = Some e \<and> hd (outbox_hashes later ob) = h
     \<and> set (outbox_hashes later ob) = {k. outbox_get k later ob \<noteq> None}"
proof -
  let ?ob0 = "fold outbox_step ops outbox_new"
  have inv0: "outbox_inv ?ob0"
    unfolding outbox_new_def by (rule outbox_machine.run_inv) (rule outbox_inv_new)
  have age0: "o_max_age ?ob0 = MAX_AGE"
  proof -
    have ins: "o_max_age (outbox_insert h e now ob) = o_max_age ob"
      if "outbox_inv ob" "length (oe_payload e) \<le> MAX_PAYLOAD" for h e now ob
    proof -
      have "linked_up (staged h e now ob\<lparr>o_order := o_order (staged h e now ob)\<rparr>)"
        using staged_spec(1) [OF that] by simp
      from evict_loop_spec [OF this] staged_spec(5) [OF that] show ?thesis by (simp add: insert_staged)
    qed
    have "outbox_inv ob \<Longrightarrow> o_max_age (outbox_step op ob) = o_max_age ob" for op ob
      using remove_many_spec by (cases op)
        (auto simp: ins outbox_inv_def outbox_remove_many_def outbox_clear_all_def)
    then have "outbox_inv ob \<Longrightarrow> o_max_age (fold outbox_step ops ob) = o_max_age ob" for ob
      by (induction ops arbitrary: ob) (simp_all add: outbox_machine.step_inv)
    then show ?thesis using outbox_inv_new by (simp add: outbox_new_def with_max_age_def)
  qed
  let ?st = "staged h e now ?ob0" and ?ob = "outbox_insert h e now ?ob0"
  note st = staged_spec [OF inv0 small, of h now]
  have lk: "linked_up (?st\<lparr>o_order := o_order ?st\<rparr>)" using st(1) by simp
  note ev = evict_loop_spec [OF lk, folded insert_staged]
  have inv: "outbox_inv ?ob" using ev by simp
  then have L: "distinct (o_order ?ob)" "set (o_order ?ob) = fst ` set (o_entries ?ob)"
    "total_bytes ?ob = bytes_of (o_entries ?ob)" "length (o_order ?ob) \<le> 16" "total_bytes ?ob \<le> MAX_TOTAL_BYTES"
    by (simp_all add: outbox_inv_def linked_up_def MAX_ITEMS_def)
  have mem: "h \<in> set (o_order ?ob)"
    using ev st(2-4) small by (simp add: MAX_TOTAL_BYTES_def)
  then have got: "map_of (o_entries ?ob) h = Some e" using ev st(4) by simp
  have age: "o_max_age ?ob = MAX_AGE" using ev st(5) age0 by simp
  have get: "outbox_get h later ?ob = Some e" using got live age by (simp add: outbox_get_def is_expired_def)
  obtain gone where g: "o_order ?st = gone @ o_order ?ob" using ev by blast
  have last: "last (o_order ?ob) = h" "o_order ?ob \<noteq> []"
    using g st(2) mem by (auto simp: last_append split: if_splits)
  have lv: "live later ?ob h" using get by (simp add: live_def outbox_get_def split: option.splits if_splits)
  have hd: "hd (outbox_hashes later ?ob) = h"
  proof -
    have r: "rev (o_order ?ob) = h # rev (butlast (o_order ?ob))"
      using last by (metis append_butlast_last_id rev_eq_Cons_iff rev_rev_ident)
    show ?thesis unfolding outbox_hashes_def r using lv by simp
  qed
  have ks: "set (outbox_hashes later ?ob) = {k. outbox_get k later ?ob \<noteq> None}"
    using L(2) by (auto simp: outbox_hashes_def live_def outbox_get_def map_of_eq_None_iff
        split: option.splits if_splits)
  show ?thesis
    using L get hd ks by (simp add: Let_def outbox_hashes_def MAX_TOTAL_BYTES_def)
qed

definition demo_entry :: out_entry where
  "demo_entry = \<lparr>oe_payload = [104, 105], oe_kind = Text, oe_origin = zero32, oe_seq = 7, oe_created = 1000\<rparr>"

theorem outbox_serves_what_it_offers_witness:
  "outbox_get [1] 2000 (outbox_insert [1] demo_entry 1000
      (fold outbox_step [OInsert [2] demo_entry 900, ORemoveMany [[3]]] outbox_new)) = Some demo_entry"
proof -
  have "length (oe_payload demo_entry) \<le> MAX_PAYLOAD" "2000 - oe_created demo_entry \<le> MAX_AGE"
    by (simp_all add: demo_entry_def MAX_PAYLOAD_def MAX_AGE_def from_secs_def)
  from outbox_serves_what_it_offers [OF this] show ?thesis unfolding Let_def by blast
qed

end
