(* ===== verification/Seq_Store.thy ===== *)
theory Seq_Store
  imports Prelude
begin

text \<open>
  The persisted outgoing sequence counter of \<open>fluxsyncd/src/seq_store.rs\<close>, with the two places that use
  it: the boot in \<open>driver/mod.rs\<close> and the allocation in \<open>driver/actions.rs\<close>. A file is what reading it
  gives; every write is atomic, so a failed one leaves the file as it was. Which writes fail is an input.
\<close>

definition RESERVE :: u64 where
  "RESERVE = 1000"

datatype seq_file = Absent | Unreadable | Holds u64

record seq_disk =
  main_file :: seq_file
  bak_file :: seq_file

record seq_store =
  horizon :: u64

text \<open>What happens to the directory and the two writes of one \<open>persist\<close>.\<close>

record io_outcome =
  dir_ok :: bool
  bak_ok :: bool
  main_ok :: bool

definition read_one :: "seq_file \<Rightarrow> u64 option" where
  "read_one f = (case f of Holds h \<Rightarrow> Some h | _ \<Rightarrow> None)"

definition read_horizon :: "seq_disk \<Rightarrow> u64" where
  "read_horizon d =
     (case read_one (main_file d) of
        Some h \<Rightarrow> h
      | None \<Rightarrow> (case read_one (bak_file d) of Some h \<Rightarrow> h | None \<Rightarrow> 0))"

text \<open>\<open>persist\<close>: whether it succeeded, the disk and the store afterwards.\<close>

definition persist :: "io_outcome \<Rightarrow> u64 \<Rightarrow> seq_disk \<Rightarrow> seq_store \<Rightarrow> bool \<times> seq_disk \<times> seq_store" where
  "persist io new_horizon d st =
     (if \<not> dir_ok io then (False, d, st)
      else
        let d = (if bak_ok io then d\<lparr>bak_file := Holds (horizon st)\<rparr> else d) in
        if \<not> main_ok io then (False, d, st)
        else (True, d\<lparr>main_file := Holds new_horizon\<rparr>, st\<lparr>horizon := new_horizon\<rparr>))"

definition seq_load :: "io_outcome \<Rightarrow> seq_disk \<Rightarrow> u64 \<times> seq_disk \<times> seq_store" where
  "seq_load io d =
     (let initial = read_horizon d;
          (_, d, st) = persist io (sat_add initial RESERVE) d \<lparr>horizon = initial\<rparr>
      in (initial, d, st))"

definition advance :: "io_outcome \<Rightarrow> u64 \<Rightarrow> seq_disk \<Rightarrow> seq_store \<Rightarrow> bool \<times> seq_disk \<times> seq_store" where
  "advance io current d st =
     (if current < horizon st then (True, d, st)
      else persist io (sat_add current RESERVE) d st)"

section \<open>The life of a device\<close>

text \<open>
  A device boots, allocates sequence numbers for the items it sends, and crashes at any moment, also
  between the allocation and the write. \<open>issued\<close> records every number allocated, newest first.
\<close>

record seq_sys =
  disk :: seq_disk
  running :: "(u64 \<times> seq_store) option"
  issued :: "u64 list"

definition seq_init :: seq_sys where
  "seq_init = \<lparr>disk = \<lparr>main_file = Absent, bak_file = Absent\<rparr>, running = None, issued = []\<rparr>"

datatype seq_op = Boot io_outcome | Send io_outcome | CrashBeforePersist | Crash

text \<open>Boot: \<open>app.set_local_seq(initial)\<close>; send: \<open>next_local_event_id\<close>, then \<open>advance(seq + 1)\<close>.\<close>

definition boot :: "io_outcome \<Rightarrow> seq_sys \<Rightarrow> seq_sys" where
  "boot io s = (let (initial, d, st) = seq_load io (disk s) in s\<lparr>disk := d, running := Some (initial, st)\<rparr>)"

definition allocate :: "io_outcome \<Rightarrow> seq_sys \<Rightarrow> seq_sys" where
  "allocate io s =
     (case running s of
        None \<Rightarrow> s
      | Some (seq, st) \<Rightarrow>
          (let (_, d, st) = advance io (seq + 1) (disk s) st in
           s\<lparr>disk := d, running := Some (seq + 1, st), issued := seq # issued s\<rparr>))"

fun seq_step :: "seq_op \<Rightarrow> seq_sys \<Rightarrow> seq_sys" where
  "seq_step (Boot io) s = boot io s"
| "seq_step (Send io) s = allocate io s"
| "seq_step CrashBeforePersist s =
     (case running s of
        None \<Rightarrow> s
      | Some (seq, st) \<Rightarrow> s\<lparr>running := None, issued := seq # issued s\<rparr>)"
| "seq_step Crash s = s\<lparr>running := None\<rparr>"

definition io_good :: "seq_op \<Rightarrow> bool" where
  "io_good op = (case op of Boot io \<Rightarrow> dir_ok io \<and> main_ok io | Send io \<Rightarrow> dir_ok io \<and> main_ok io | _ \<Rightarrow> True)"

definition io_all_good :: "seq_op \<Rightarrow> bool" where
  "io_all_good op =
     (case op of Boot io \<Rightarrow> dir_ok io \<and> bak_ok io \<and> main_ok io
      | Send io \<Rightarrow> dir_ok io \<and> bak_ok io \<and> main_ok io | _ \<Rightarrow> True)"

section \<open>The horizon stays ahead\<close>

text \<open>The promise: everything issued lies below the counter, and the counter below the file.\<close>

definition seq_inv :: "nat \<Rightarrow> seq_sys \<Rightarrow> bool" where
  "seq_inv k s \<longleftrightarrow>
     main_file (disk s) \<noteq> Unreadable
     \<and> unat (read_horizon (disk s)) \<le> 1000 * k
     \<and> distinct (issued s)
     \<and> (main_file (disk s) = Absent \<longrightarrow> bak_file (disk s) = Absent \<and> issued s = [] \<and> running s = None)
     \<and> (case running s of
          None \<Rightarrow> \<forall>i\<in>set (issued s). i < read_horizon (disk s)
        | Some (n, st) \<Rightarrow> horizon st = read_horizon (disk s) \<and> n < horizon st \<and> (\<forall>i\<in>set (issued s). i < n))"

definition bak_inv :: "seq_sys \<Rightarrow> bool" where
  "bak_inv s \<longleftrightarrow>
     main_file (disk s) = Absent \<and> bak_file (disk s) = Absent
     \<or> (\<exists>m b. main_file (disk s) = Holds m \<and> bak_file (disk s) = Holds b \<and> unat m = unat b + 1000)"

lemma read_holds [simp]: "read_horizon \<lparr>main_file = Holds h, bak_file = b\<rparr> = h"
  "main_file d = Holds h \<Longrightarrow> read_horizon d = h"
  by (simp_all add: read_horizon_def read_one_def)

lemma unat_reserve: "unat (h :: u64) + 1000 < 2 ^ 64 \<Longrightarrow> unat (sat_add h RESERVE) = unat h + 1000"
  by (simp add: unat_sat_add RESERVE_def)

lemma persist_good:
  assumes "dir_ok io" "main_ok io"
  shows "persist io h d st = (True,
    \<lparr>main_file = Holds h, bak_file = (if bak_ok io then Holds (horizon st) else bak_file d)\<rparr>, st\<lparr>horizon := h\<rparr>)"
  using assms by (simp add: persist_def Let_def)

lemma seq_inv_boot:
  assumes i: "seq_inv k s" and io: "dir_ok io" "main_ok io" and room: "1000 * (k + 1) < 2 ^ 64"
  shows "seq_inv (k + 1) (boot io s)"
proof -
  let ?h = "read_horizon (disk s)"
  have u: "unat (sat_add ?h RESERVE) = unat ?h + 1000"
    using i room by (intro unat_reserve) (simp add: seq_inv_def)
  have "\<forall>j\<in>set (issued s). j < ?h"
  proof (cases "running s")
    case None
    with i show ?thesis by (simp add: seq_inv_def)
  next
    case (Some r)
    obtain n st where "r = (n, st)" by force
    with Some i show ?thesis by (auto simp: seq_inv_def dest: order_less_trans)
  qed
  then show ?thesis
    using i u by (simp add: seq_inv_def boot_def seq_load_def persist_good [OF io] Let_def word_less_nat_alt)
qed

lemma word_succ: "(n :: u64) < h \<Longrightarrow> unat (n + 1) = unat n + 1"
  using unat_u64_less [of h] by (simp add: word_less_nat_alt unat_word_ariths)

lemma seq_inv_allocate:
  assumes i: "seq_inv k s" and io: "dir_ok io" "main_ok io" and room: "1000 * (k + 1) < 2 ^ 64"
  shows "seq_inv (k + 1) (allocate io s)"
proof (cases "running s")
  case None
  with i show ?thesis by (simp add: seq_inv_def allocate_def)
next
  case (Some r)
  obtain n st where r: "running s = Some (n, st)" using Some by (cases r) auto
  let ?h = "read_horizon (disk s)"
  have h: "horizon st = ?h" "n < ?h" and iss: "\<forall>j\<in>set (issued s). j < n" and d: "distinct (issued s)"
    and k: "unat ?h \<le> 1000 * k" and ab: "main_file (disk s) \<noteq> Absent" "main_file (disk s) \<noteq> Unreadable"
    using i r by (auto simp: seq_inv_def)
  have s1: "unat (n + 1) = unat n + 1" using word_succ [OF h(2)] .
  have lt: "\<forall>j\<in>set (n # issued s). j < n + 1"
    using iss s1 by (auto simp: word_less_nat_alt)
  have nd: "distinct (n # issued s)" using d iss by auto
  show ?thesis
  proof (cases "n + 1 < ?h")
    case True
    then show ?thesis
      using r h k lt nd ab by (simp add: seq_inv_def allocate_def advance_def)
  next
    case False
    have "unat (n + 1) = unat ?h" using False s1 h(2) by (simp add: word_less_nat_alt)
    then have e: "n + 1 = ?h" by (simp only: word_unat_eq_iff)
    have u: "unat (sat_add (n + 1) RESERVE) = unat ?h + 1000"
      unfolding e using k room by (intro unat_reserve) simp
    have "n + 1 < sat_add (n + 1) RESERVE" using u e by (simp add: word_less_nat_alt)
    then show ?thesis
      using False r h k lt nd u by (simp add: seq_inv_def allocate_def advance_def persist_good [OF io])
  qed
qed

lemma seq_inv_mono: "seq_inv k s \<Longrightarrow> k \<le> k' \<Longrightarrow> seq_inv k' s"
  by (auto simp: seq_inv_def split: option.splits)

lemma seq_inv_step:
  assumes i: "seq_inv k s" and g: "io_good op" and room: "1000 * (k + 1) < 2 ^ 64"
  shows "seq_inv (k + 1) (seq_step op s)"
proof (cases op)
  case (Boot io)
  then show ?thesis using seq_inv_boot [OF i _ _ room] g by (simp add: io_good_def)
next
  case (Send io)
  then show ?thesis using seq_inv_allocate [OF i _ _ room] g by (simp add: io_good_def)
next
  case CrashBeforePersist
  then show ?thesis
    using i by (auto simp: seq_inv_def split: option.splits dest: order_less_trans)
next
  case Crash
  then show ?thesis
    using i by (auto simp: seq_inv_def split: option.splits dest: order_less_trans)
qed

lemma seq_inv_run:
  assumes "list_all io_good ops" and "seq_inv k s" and "1000 * (k + length ops) < 2 ^ 64"
  shows "seq_inv (k + length ops) (fold seq_step ops s)"
  using assms
proof (induction ops arbitrary: k s)
  case (Cons op ops)
  have room: "1000 * (k + 1) < 2 ^ 64" "1000 * (k + 1 + length ops) < 2 ^ 64"
    using Cons.prems(3) by simp_all
  have "seq_inv (k + 1) (seq_step op s)"
    using Cons.prems room(1) by (intro seq_inv_step) simp_all
  with Cons.IH [of "k + 1" "seq_step op s"] Cons.prems(1) room(2) show ?case by simp
qed simp

lemma seq_inv_init: "seq_inv 0 seq_init"
  by (simp add: seq_inv_def seq_init_def read_horizon_def read_one_def)


definition io_fine :: io_outcome where
  "io_fine = \<lparr>dir_ok = True, bak_ok = True, main_ok = True\<rparr>"

definition demo_life :: "seq_op list" where
  "demo_life = [Boot io_fine, Send io_fine, Send io_fine, CrashBeforePersist, Boot io_fine, Send io_fine]"


section \<open>The backup is one generation behind\<close>

text \<open>
  When the main file is lost and the backup is read instead, numbers are issued again: the backup holds
  the horizon before the last reservation, which is where the current numbers began.
\<close>

definition lose_main :: "seq_sys \<Rightarrow> seq_sys" where
  "lose_main s = s\<lparr>running := None, disk := (disk s)\<lparr>main_file := Unreadable\<rparr>\<rparr>"

lemma bak_fallback_reissues:
  "issued (seq_step (Send io_fine) (seq_step (Boot io_fine)
     (lose_main (fold seq_step [Boot io_fine, Send io_fine] seq_init)))) = [0, 0]"
  by (simp add: lose_main_def io_fine_def seq_init_def boot_def seq_load_def persist_def allocate_def
      advance_def read_horizon_def read_one_def RESERVE_def sat_add_def)

lemma bak_inv_step:
  assumes i: "seq_inv k s" and b: "bak_inv s" and g: "io_all_good op" and room: "1000 * (k + 1) < 2 ^ 64"
  shows "bak_inv (seq_step op s)"
proof -
  let ?h = "read_horizon (disk s)"
  have k: "unat ?h \<le> 1000 * k" using i by (simp add: seq_inv_def)
  then have u: "unat (sat_add ?h RESERVE) = unat ?h + 1000" using room by (intro unat_reserve) simp
  show ?thesis
  proof (cases op)
    case (Boot io)
    then have io: "dir_ok io" "main_ok io" "bak_ok io" using g by (simp_all add: io_all_good_def)
    then show ?thesis using u by (simp add: Boot bak_inv_def boot_def seq_load_def persist_good [OF io(1,2)] Let_def)
  next
    case (Send io)
    then have io: "dir_ok io" "main_ok io" "bak_ok io" using g by (simp_all add: io_all_good_def)
    show ?thesis
    proof (cases "running s")
      case None
      then show ?thesis using b by (simp add: Send allocate_def)
    next
      case (Some r)
      obtain n st where r: "running s = Some (n, st)" using Some by (cases r) auto
      have h: "horizon st = ?h" "n < ?h" using i r by (auto simp: seq_inv_def)
      show ?thesis
      proof (cases "n + 1 < ?h")
        case True
        then show ?thesis using r h b by (simp add: Send allocate_def advance_def bak_inv_def)
      next
        case False
        have "unat (n + 1) = unat ?h" using False word_succ [OF h(2)] h(2) by (simp add: word_less_nat_alt)
        then have e: "n + 1 = ?h" by (simp only: word_unat_eq_iff)
        show ?thesis
          using False r h io u by (simp add: Send allocate_def advance_def persist_good [OF io(1,2)] bak_inv_def e)
      qed
    qed
  next
    case CrashBeforePersist
    then show ?thesis using b by (simp add: bak_inv_def split: option.split)
  next
    case Crash
    then show ?thesis using b by (simp add: bak_inv_def)
  qed
qed

lemma bak_inv_run:
  assumes "list_all io_all_good ops" and "seq_inv k s" and "bak_inv s" and "1000 * (k + length ops) < 2 ^ 64"
  shows "bak_inv (fold seq_step ops s) \<and> seq_inv (k + length ops) (fold seq_step ops s)"
  using assms
proof (induction ops arbitrary: k s)
  case (Cons op ops)
  have "io_good op" using Cons.prems(1) by (cases op) (simp_all add: io_all_good_def io_good_def)
  moreover have room: "1000 * (k + 1) < 2 ^ 64" "1000 * (k + 1 + length ops) < 2 ^ 64"
    using Cons.prems(4) by simp_all
  ultimately have "seq_inv (k + 1) (seq_step op s)"
    using Cons.prems(2) by (intro seq_inv_step)
  moreover have "bak_inv (seq_step op s)"
    using Cons.prems(1-3) room(1) by (intro bak_inv_step) simp_all
  ultimately show ?case using Cons.IH [of "k + 1" "seq_step op s"] Cons.prems(1) room(2) by simp
qed simp

text \<open>
  Losing the main file costs at most one reservation: the next boot starts at the backup, and every
  number ever issued lies less than 1000 above that, so at most 1000 numbers can come up again.
\<close>

theorem bak_fallback_bounded:
  assumes "list_all io_all_good ops" and "1000 * length ops < 2 ^ 64"
    and "n \<in> set (issued (fold seq_step ops seq_init))"
  shows "unat n < unat (read_horizon (disk (lose_main (fold seq_step ops seq_init)))) + 1000"
proof -
  let ?s = "fold seq_step ops seq_init"
  have "bak_inv seq_init" by (simp add: bak_inv_def seq_init_def)
  from bak_inv_run [OF assms(1) seq_inv_init this] assms(2)
  have b: "bak_inv ?s" and i: "seq_inv (length ops) ?s" by simp_all
  have n: "n < read_horizon (disk ?s)"
    using i assms(3) by (auto simp: seq_inv_def split: option.splits dest: order_less_trans)
  have "main_file (disk ?s) \<noteq> Absent" using i assms(3) by (auto simp: seq_inv_def)
  with b obtain m c where "main_file (disk ?s) = Holds m" "bak_file (disk ?s) = Holds c" "unat m = unat c + 1000"
    by (auto simp: bak_inv_def)
  with n show ?thesis
    by (simp add: lose_main_def read_horizon_def read_one_def word_less_nat_alt)
qed

theorem bak_fallback_bounded_witness:
  "unat (2 :: u64) < unat (read_horizon (disk (lose_main (fold seq_step demo_life seq_init)))) + 1000"
proof (rule bak_fallback_bounded)
  show "list_all io_all_good demo_life" "1000 * length demo_life < 2 ^ 64"
    by (simp_all add: demo_life_def io_all_good_def io_fine_def)
  show "2 \<in> set (issued (fold seq_step demo_life seq_init))"
    by (simp add: demo_life_def io_fine_def seq_init_def boot_def seq_load_def persist_def allocate_def
        advance_def read_horizon_def read_one_def RESERVE_def sat_add_def)
qed

end
