(* ===== verification/Rate_Limit.thy ===== *)
theory Rate_Limit
  imports Prelude Complex_Main
begin

text \<open>
  \<open>rate_limit.rs\<close>: the token bucket per source address in front of the handshake responder. Tokens are
  an \<open>f64\<close> in the code and an exact rational here; instants are nanoseconds; the \<open>HashMap\<close> is its list
  of entries. \<open>level\<close> is the number of tokens a source has at a given time, whether its bucket is in
  the table or has been dropped: the sweep of idle buckets does not change it, a check costs one token
  when it is accepted, and time adds one token per \<open>REFILL_INTERVAL\<close>.
\<close>

definition BUCKET_CAPACITY :: nat where
  "BUCKET_CAPACITY = 5"

definition REFILL_INTERVAL :: duration where
  "REFILL_INTERVAL = from_secs 6"

definition REFILL_PER_SEC :: rat where
  "REFILL_PER_SEC = 1 / of_nat (as_secs REFILL_INTERVAL)"

definition MAX_TRACKED_SOURCES :: nat where
  "MAX_TRACKED_SOURCES = 1024"

definition IDLE_EVICT :: duration where
  "IDLE_EVICT = from_secs 300"

record bucket =
  tokens :: rat
  last_refill :: instant

type_synonym limiter = "(ip_addr, bucket) hmap"

definition as_secs_f64 :: "duration \<Rightarrow> rat" where
  "as_secs_f64 d = of_nat d / 1000000000"

definition bucket_new :: "instant \<Rightarrow> bucket" where
  "bucket_new now = \<lparr>tokens = of_nat BUCKET_CAPACITY, last_refill = now\<rparr>"

definition refill :: "instant \<Rightarrow> bucket \<Rightarrow> bucket" where
  "refill now b = (let elapsed = now - last_refill b;
                       add = as_secs_f64 elapsed * REFILL_PER_SEC
                   in b\<lparr>tokens := min (tokens b + add) (of_nat BUCKET_CAPACITY), last_refill := now\<rparr>)"

definition try_consume :: "bucket \<Rightarrow> bool \<times> bucket" where
  "try_consume b = (if 1 \<le> tokens b then (True, b\<lparr>tokens := tokens b - 1\<rparr>) else (False, b))"

definition limiter_new :: limiter where
  "limiter_new = []"

definition sweep :: "instant \<Rightarrow> limiter \<Rightarrow> limiter" where
  "sweep now m = filter (\<lambda>e. now - last_refill (snd e) < IDLE_EVICT) m"

definition make_room :: "ip_addr \<Rightarrow> limiter \<Rightarrow> limiter" where
  "make_room src m =
     (if map_of m src = None \<and> MAX_TRACKED_SOURCES \<le> length m
      then case min_by_key (last_refill \<circ> snd) m of Some (victim, _) \<Rightarrow> hm_remove victim m | None \<Rightarrow> m
      else m)"

definition check_at :: "ip_addr \<Rightarrow> instant \<Rightarrow> limiter \<Rightarrow> bool \<times> limiter" where
  "check_at src now m0 =
     (let m = make_room src (sweep now m0);
          b = (case map_of m src of Some b \<Rightarrow> b | None \<Rightarrow> bucket_new now);
          (ok, b') = try_consume (refill now b)
      in (ok, hm_insert src b' m))"

section \<open>The tokens of a source\<close>

definition gain :: "duration \<Rightarrow> rat" where
  "gain d = as_secs_f64 d * REFILL_PER_SEC"

definition level :: "limiter \<Rightarrow> ip_addr \<Rightarrow> instant \<Rightarrow> rat" where
  "level m src now = (case map_of m src of None \<Rightarrow> 5
     | Some b \<Rightarrow> min 5 (tokens b + gain (now - last_refill b)))"

definition limiter_inv :: "instant \<Rightarrow> limiter \<Rightarrow> bool" where
  "limiter_inv now m \<longleftrightarrow> distinct (map fst m) \<and> length m \<le> MAX_TRACKED_SOURCES
     \<and> (\<forall>(k, b)\<in>set m. 0 \<le> tokens b \<and> tokens b \<le> 5 \<and> last_refill b \<le> now)"

lemma gain_eq: "gain d = of_nat d / 6000000000"
  by (simp add: gain_def as_secs_f64_def REFILL_PER_SEC_def REFILL_INTERVAL_def from_secs_def as_secs_def)

lemma gain_mono: "d \<le> e \<Longrightarrow> gain d \<le> gain e"
  by (simp add: gain_eq divide_right_mono)

lemma gain_nonneg: "0 \<le> gain d"
  by (simp add: gain_eq)

lemma gain_add: "gain (d + e) = gain d + gain e"
  by (simp add: gain_eq add_divide_distrib)

lemma limiter_inv_new [simp]: "limiter_inv now limiter_new"
  by (simp add: limiter_inv_def limiter_new_def)

lemma limiter_inv_bucket:
  "limiter_inv now m \<Longrightarrow> map_of m k = Some b \<Longrightarrow> 0 \<le> tokens b \<and> tokens b \<le> 5 \<and> last_refill b \<le> now"
  by (auto simp: limiter_inv_def dest!: map_of_SomeD)

lemma limiter_inv_later: "limiter_inv t m \<Longrightarrow> t \<le> now \<Longrightarrow> limiter_inv now m"
  by (fastforce simp: limiter_inv_def)

lemma limiter_inv_filter: "limiter_inv now m \<Longrightarrow> limiter_inv now (filter P m)"
  unfolding limiter_inv_def by (auto simp: distinct_map_filter intro: order_trans [OF length_filter_le])

lemma level_le: "level m k now \<le> 5"
  by (simp add: level_def split: option.splits)

lemma level_nonneg: "limiter_inv now m \<Longrightarrow> 0 \<le> level m k now"
  using limiter_inv_bucket [of now m k] by (auto simp: level_def gain_nonneg add_nonneg_nonneg split: option.splits)

lemma level_later:
  assumes i: "limiter_inv t m" and t: "t \<le> now"
  shows "level m k now = min 5 (level m k t + gain (now - t))"
proof (cases "map_of m k")
  case None
  then show ?thesis using gain_nonneg [of "now - t"] by (simp add: level_def)
next
  case (Some b)
  have "last_refill b \<le> t" using limiter_inv_bucket [OF i Some] by simp
  then have "now - last_refill b = (t - last_refill b) + (now - t)" using t by simp
  then have "gain (now - last_refill b) = gain (t - last_refill b) + gain (now - t)"
    by (simp only: gain_add)
  then show ?thesis using gain_nonneg [of "now - t"] by (simp add: level_def Some min_def)
qed

lemma map_of_filter_val:
  "distinct (map fst m) \<Longrightarrow> map_of (filter (\<lambda>e. P (snd e)) m) k
     = (case map_of m k of Some v \<Rightarrow> if P v then Some v else None | None \<Rightarrow> None)"
proof (induction m)
  case (Cons e m)
  have "map_of (filter (\<lambda>e. P (snd e)) m) (fst e) = None"
    using Cons by (auto simp: map_of_eq_None_iff)
  with Cons show ?case by auto
qed simp

lemma level_sweep:
  assumes i: "limiter_inv now m"
  shows "level (sweep now m) k now = level m k now"
proof (cases "map_of m k")
  case None
  then have "map_of (sweep now m) k = None"
    using i map_of_filter_val [of m "\<lambda>b. now - last_refill b < IDLE_EVICT" k]
    by (simp add: limiter_inv_def sweep_def)
  with None show ?thesis by (simp add: level_def)
next
  case (Some b)
  have m: "map_of (sweep now m) k = (if now - last_refill b < IDLE_EVICT then Some b else None)"
    using i map_of_filter_val [of m "\<lambda>b. now - last_refill b < IDLE_EVICT" k] Some
    by (simp add: limiter_inv_def sweep_def)
  have "5 \<le> tokens b + gain (now - last_refill b)" if "\<not> now - last_refill b < IDLE_EVICT"
  proof -
    have "gain IDLE_EVICT \<le> gain (now - last_refill b)" using that by (intro gain_mono) simp
    moreover have "gain IDLE_EVICT = 50" by (simp add: gain_eq IDLE_EVICT_def from_secs_def)
    ultimately show ?thesis using limiter_inv_bucket [OF i Some] by simp
  qed
  then show ?thesis by (simp add: level_def m Some)
qed

lemma limiter_inv_make_room: "limiter_inv now m \<Longrightarrow> limiter_inv now (make_room src m)"
  by (auto simp: make_room_def hm_remove_def split: option.splits intro: limiter_inv_filter)

lemma make_room_mono: "level m k now \<le> level (make_room src m) k now"
  using level_le [of m k now]
  by (auto simp: make_room_def level_def split: option.splits)

lemma make_room_same: "level (make_room src m) src now = level m src now"
  by (auto simp: make_room_def level_def split: option.splits)

lemma make_room_length:
  assumes i: "limiter_inv now m" and new: "map_of (make_room src m) src = None"
  shows "length (make_room src m) < MAX_TRACKED_SOURCES"
proof (cases "MAX_TRACKED_SOURCES \<le> length m")
  case False
  then show ?thesis by (simp add: make_room_def)
next
  case True
  then have m: "m \<noteq> []" by (auto simp: MAX_TRACKED_SOURCES_def)
  have s: "map_of m src = None"
  proof (rule ccontr)
    assume "map_of m src \<noteq> None"
    then have "make_room src m = m" by (simp only: make_room_def) simp
    with new \<open>map_of m src \<noteq> None\<close> show False by simp
  qed
  obtain v b where v: "min_by_key (last_refill \<circ> snd) m = Some (v, b)"
    using m min_by_key_None [of "last_refill \<circ> snd" m] by (cases "min_by_key (last_refill \<circ> snd) m") auto
  then have mem: "(v, b) \<in> set m" by (rule min_by_key_mem)
  have "length (hm_remove v m) < length m"
    unfolding hm_remove_def using mem by (intro length_filter_less [of "(v, b)"]) auto
  then show ?thesis using s v True i by (simp add: make_room_def limiter_inv_def)
qed

text \<open>One check, as seen by the levels.\<close>

lemma check_at_levels:
  assumes i: "limiter_inv now m" and c: "check_at src now m = (ok, m')"
  shows "ok \<longleftrightarrow> 1 \<le> level m src now"
    and "level m' src now = (if ok then level m src now - 1 else level m src now)"
    and "k \<noteq> src \<Longrightarrow> level m k now \<le> level m' k now"
    and "limiter_inv now m'"
proof -
  let ?m = "make_room src (sweep now m)"
  have i1: "limiter_inv now (sweep now m)"
    unfolding sweep_def by (rule limiter_inv_filter [OF i])
  then have i2: "limiter_inv now ?m" by (rule limiter_inv_make_room)
  have l: "level ?m src now = level m src now"
    by (simp add: make_room_same level_sweep [OF i])
  define b where "b = (case map_of ?m src of Some b \<Rightarrow> b | None \<Rightarrow> bucket_new now)"
  have b: "tokens (refill now b) = level m src now" "last_refill (refill now b) = now"
    using l by (auto simp: b_def refill_def level_def gain_def bucket_new_def Let_def BUCKET_CAPACITY_def
        as_secs_f64_def min.commute split: option.splits)
  have c': "ok = (1 \<le> tokens (refill now b))"
    "m' = hm_insert src (snd (try_consume (refill now b))) ?m"
    using c by (auto simp: check_at_def Let_def b_def [symmetric] try_consume_def split: prod.splits if_splits)
  show ok: "ok \<longleftrightarrow> 1 \<le> level m src now" using c'(1) b(1) by simp
  have t: "tokens (snd (try_consume (refill now b))) = (if ok then level m src now - 1 else level m src now)"
    "last_refill (snd (try_consume (refill now b))) = now"
    using b ok by (simp_all add: try_consume_def)
  show "level m' src now = (if ok then level m src now - 1 else level m src now)"
    using t level_le [of m src now] by (simp add: c'(2) level_def [of "hm_insert _ _ _"] gain_eq min_def)
  show "level m k now \<le> level m' k now" if "k \<noteq> src"
    using that make_room_mono [of "sweep now m" k now src] level_sweep [OF i, of k]
    by (simp add: c'(2) level_def [of "hm_insert _ _ _"] level_def [of ?m, symmetric])
  have "length m' \<le> MAX_TRACKED_SOURCES"
    using i2 make_room_length [OF i1, of src] length_hm_insert [of ?m src]
    by (auto simp: c'(2) limiter_inv_def split: if_splits)
  moreover have "0 \<le> tokens (snd (try_consume (refill now b)))" "tokens (snd (try_consume (refill now b))) \<le> 5"
    using t(1) ok level_nonneg [OF i, of src] level_le [of m src now] by (auto split: if_splits)
  ultimately show "limiter_inv now m'"
    using i2 t(2) unfolding limiter_inv_def c'(2) by (auto simp: hm_insert_def distinct_map_filter)
qed

lemma check_at_full_table:
  assumes i: "limiter_inv now m" and c: "check_at src now m = (ok, m')" and k: "k \<noteq> src"
    and room: "map_of m src \<noteq> None \<or> length m < MAX_TRACKED_SOURCES"
  shows "level m' k now = level m k now"
proof -
  have len: "length (sweep now m) \<le> length m" by (simp add: sweep_def)
  show ?thesis
  proof (cases "map_of (sweep now m) src = None \<and> MAX_TRACKED_SOURCES \<le> length (sweep now m)")
    case False
    then have "make_room src (sweep now m) = sweep now m" by (simp only: make_room_def) simp
    then have "map_of m' k = map_of (sweep now m) k"
      using c k by (auto simp: check_at_def Let_def split: prod.splits)
    then have "level m' k now = level (sweep now m) k now" by (simp add: level_def)
    then show ?thesis by (simp add: level_sweep [OF i])
  next
    case True
    then have l: "length (sweep now m) = length m" using len i by (simp add: limiter_inv_def)
    then have "sweep now m = m" unfolding sweep_def by (metis length_filter_less filter_id_conv less_irrefl)
    then have False using True room by auto
    then show ?thesis ..
  qed
qed

section \<open>Runs\<close>

fun check_all :: "(ip_addr \<times> instant) list \<Rightarrow> limiter \<Rightarrow> bool list \<times> limiter" where
  "check_all [] m = ([], m)"
| "check_all ((src, now) # es) m =
     (let (ok, m1) = check_at src now m; (oks, m2) = check_all es m1 in (ok # oks, m2))"

definition accepted :: "ip_addr \<Rightarrow> (ip_addr \<times> instant) list \<Rightarrow> bool list \<Rightarrow> nat" where
  "accepted src es oks = length (filter (\<lambda>((s, _), ok). s = src \<and> ok) (zip es oks))"

lemma check_at_keys:
  "check_at src now m = (ok, m') \<Longrightarrow> set (map fst m') \<subseteq> insert src (set (map fst m))"
  by (auto simp: check_at_def Let_def hm_insert_def make_room_def hm_remove_def sweep_def
      split: prod.splits if_splits option.splits)

lemma few_keys:
  assumes "distinct (map fst m)" "set (map fst m) \<subseteq> S" "src \<in> S" "finite S" "card S \<le> N"
  shows "map_of m src \<noteq> None \<or> length m < N"
proof (rule disjCI)
  assume "\<not> length m < N"
  then have "card (set (map fst m)) \<ge> card S"
    using assms distinct_card [of "map fst m"] by simp
  then have "set (map fst m) = S" using assms by (intro card_seteq)
  then show "map_of m src \<noteq> None" using assms(3) by (auto simp: map_of_eq_None_iff)
qed

lemma bounded_run:
  assumes i: "limiter_inv t m" and k: "set (map fst m) \<subseteq> S" "fst ` set es \<subseteq> S" "finite S" "card S \<le> MAX_TRACKED_SOURCES"
    and o: "sorted (t # map snd es)" "\<forall>e\<in>set es. snd e \<le> t'" "t \<le> t'"
  shows "of_nat (accepted src es (fst (check_all es m))) \<le> level m src t + gain (t' - t)"
  using assms
proof (induction es arbitrary: m t)
  case Nil
  then show ?case
    using level_nonneg [of t m src] gain_nonneg [of "t' - t"] by (simp add: accepted_def)
next
  case (Cons e es)
  obtain s now where e: "e = (s, now)" by force
  obtain ok m' where c: "check_at s now m = (ok, m')" by force
  have t: "t \<le> now" "now \<le> t'" using Cons.prems by (simp_all add: e)
  have i: "limiter_inv now m" using Cons.prems(1) t(1) by (rule limiter_inv_later)
  note L = check_at_levels [OF i c]
  have "map_of m s \<noteq> None \<or> length m < MAX_TRACKED_SOURCES"
    by (rule few_keys [where S = S]) (use Cons.prems i in \<open>auto simp: e limiter_inv_def\<close>)
  then have other: "level m' src now = level m src now" if "src \<noteq> s"
    using check_at_full_table [OF i c that] by simp
  have "set (map fst m') \<subseteq> S" using check_at_keys [OF c] Cons.prems by (auto simp: e)
  then have IH: "of_nat (accepted src es (fst (check_all es m'))) \<le> level m' src now + gain (t' - now)"
    using Cons.prems L(4) t by (intro Cons.IH) (simp_all add: e)
  have "level m src now \<le> level m src t + gain (now - t)"
    using level_later [OF Cons.prems(1) t(1), of src] by simp
  moreover have "gain (t' - t) = gain (now - t) + gain (t' - now)"
    using t by (simp add: gain_add [symmetric])
  moreover have "accepted src (e # es) (fst (check_all (e # es) m))
    = accepted src es (fst (check_all es m')) + (if s = src \<and> ok then 1 else 0)"
    by (simp add: accepted_def e c split: prod.splits)
  ultimately show ?case using IH L(2) other by (cases "src = s"; cases ok) simp_all
qed


definition demo_flood :: "(ip_addr \<times> instant) list" where
  "demo_flood = [([10], 0), ([10], 0), ([10], 0), ([10], 0), ([10], 0), ([10], 0), ([10], 0),
     ([11], 1), ([10], 6000000001), ([10], 6000000002)]"


end
