(* ===== verification/Backoff.thy ===== *)
theory Backoff
  imports Rate_Limit
begin

text \<open>
  \<open>backoff.rs\<close>: the pacing of blind redials, with the clock and the random numbers as arguments, and
  its composition with the limiter of the peer that is redialled: whatever the random numbers, the
  redials of one device during an outage of any length are never refused by the peer's limiter.
\<close>

definition INITIAL_BASE :: duration where
  "INITIAL_BASE = from_millis 500"

definition CAP :: duration where
  "CAP = from_secs 8"

definition MAX_SHIFT :: u32 where
  "MAX_SHIFT = 4"

definition MIN_STABLE :: duration where
  "MIN_STABLE = from_secs 15"

definition FLOOR_MARGIN :: duration where
  "FLOOR_MARGIN = from_millis 500"

definition STEADY_STATE_FLOOR :: duration where
  "STEADY_STATE_FLOOR = REFILL_INTERVAL + FLOOR_MARGIN"

record peer_backoff =
  attempt :: u32
  next_ready_at :: "instant option"

definition backoff_new :: peer_backoff where
  "backoff_new = \<lparr>attempt = 0, next_ready_at = None\<rparr>"

definition ready :: "peer_backoff \<Rightarrow> instant \<Rightarrow> bool" where
  "ready b now = (case next_ready_at b of None \<Rightarrow> True | Some t \<Rightarrow> t \<le> now)"

definition base_delay_for_attempt :: "u32 \<Rightarrow> duration" where
  "base_delay_for_attempt a = (let shift = min a MAX_SHIFT in from_millis (push_bit (unat shift) (as_millis INITIAL_BASE)))"

definition jitter_floor :: "duration \<Rightarrow> duration" where
  "jitter_floor base = (if CAP \<le> base then STEADY_STATE_FLOOR else base div 2)"

text \<open>The random number is one \<open>next_u64\<close>; the product is a \<open>u128\<close> in the code and does not wrap.\<close>

definition full_jitter :: "duration \<Rightarrow> u64 \<Rightarrow> duration" where
  "full_jitter base r =
     (let base_ms = as_millis base;
          floor_ms = as_millis (jitter_floor base);
          span = base_ms - floor_ms;
          extra = (if span = 0 then 0 else (unat r * (span + 1)) div 2 ^ 64)
      in from_millis (floor_ms + extra))"

definition sat_inc32 :: "u32 \<Rightarrow> u32" where
  "sat_inc32 a = (if unat a + 1 < 2 ^ 32 then a + 1 else - 1)"

definition on_attempt_failed :: "instant \<Rightarrow> u64 \<Rightarrow> peer_backoff \<Rightarrow> peer_backoff" where
  "on_attempt_failed now r b =
     (let delay = full_jitter (base_delay_for_attempt (attempt b)) r
      in b\<lparr>next_ready_at := Some (now + delay), attempt := sat_inc32 (attempt b)\<rparr>)"

definition on_handshake_ok :: "peer_backoff \<Rightarrow> peer_backoff" where
  "on_handshake_ok b = b\<lparr>attempt := 0, next_ready_at := None\<rparr>"

definition on_session_ended :: "duration \<Rightarrow> peer_backoff \<Rightarrow> peer_backoff" where
  "on_session_ended uptime b = (if MIN_STABLE \<le> uptime then b\<lparr>attempt := 0, next_ready_at := None\<rparr> else b)"

section \<open>The window of a delay\<close>

lemmas backoff_consts = INITIAL_BASE_def CAP_def MAX_SHIFT_def FLOOR_MARGIN_def STEADY_STATE_FLOOR_def
  REFILL_INTERVAL_def from_millis_def from_secs_def as_millis_def

lemma unat_sat_inc32: "unat (sat_inc32 a) = min (unat a + 1) (2 ^ 32 - 1)"
proof (cases "unat a + 1 < 2 ^ 32")
  case True
  then have "unat (a + 1) = unat a + 1" by (simp add: unat_word_ariths)
  with True show ?thesis by (simp add: sat_inc32_def)
next
  case False
  then show ?thesis
    by (simp add: sat_inc32_def unsigned_minus_1_eq_mask mask_eq_exp_minus_1)
qed

lemma shift_cases: "unat (min a MAX_SHIFT) = min (unat a) 4"
  by (simp add: min_def word_le_nat_alt MAX_SHIFT_def)

lemma base_delay: "base_delay_for_attempt a = from_millis (500 * 2 ^ min (unat a) 4)"
  by (simp add: base_delay_for_attempt_def shift_cases Let_def push_bit_eq_mult INITIAL_BASE_def)

lemma small_shift: "min (unat (a :: u32)) 4 = n \<Longrightarrow> n = 0 \<or> n = 1 \<or> n = 2 \<or> n = 3 \<or> n = (4 :: nat)"
  by linarith

lemma scaled_random:
  fixes r :: u64
  shows "(unat r * (n + 1)) div 2 ^ 64 \<le> n"
proof -
  have "unat r * (n + 1) \<le> (2 ^ 64 - 1) * (n + 1)"
    using unat_u64_less [of r] by (intro mult_le_mono1) simp
  then have "(unat r * (n + 1)) div 2 ^ 64 \<le> ((2 ^ 64 - 1) * (n + 1)) div 2 ^ 64"
    by (rule div_le_mono)
  also have "\<dots> \<le> n" by simp
  finally show ?thesis .
qed

lemma full_jitter_window:
  assumes "as_millis (jitter_floor base) \<le> as_millis base"
  shows "from_millis (as_millis (jitter_floor base)) \<le> full_jitter base r"
    and "full_jitter base r \<le> from_millis (as_millis base)"
proof -
  define n where "n = as_millis base - as_millis (jitter_floor base)"
  have b: "as_millis base = as_millis (jitter_floor base) + n" using assms by (simp add: n_def)
  show "from_millis (as_millis (jitter_floor base)) \<le> full_jitter base r"
    by (simp add: full_jitter_def Let_def from_millis_def)
  have "(if n = 0 then 0 else (unat r * (n + 1)) div 2 ^ 64) \<le> n"
    using scaled_random [of r n] by (simp split: if_split)
  then show "full_jitter base r \<le> from_millis (as_millis base)"
    unfolding full_jitter_def Let_def b from_millis_def by (intro mult_le_mono1) (simp only: diff_add_inverse add_le_cancel_left)
qed

lemma base_floor:
  "from_millis (as_millis (jitter_floor (base_delay_for_attempt a)))
     = (if 4 \<le> unat a then STEADY_STATE_FLOOR else from_millis (250 * 2 ^ unat a))"
  "as_millis (jitter_floor (base_delay_for_attempt a)) \<le> as_millis (base_delay_for_attempt a)"
proof -
  have "unat a = 0 \<or> unat a = 1 \<or> unat a = 2 \<or> unat a = 3 \<or> 4 \<le> unat a" by linarith
  then show "from_millis (as_millis (jitter_floor (base_delay_for_attempt a)))
     = (if 4 \<le> unat a then STEADY_STATE_FLOOR else from_millis (250 * 2 ^ unat a))"
    and "as_millis (jitter_floor (base_delay_for_attempt a)) \<le> as_millis (base_delay_for_attempt a)"
    by (auto simp: base_delay jitter_floor_def backoff_consts)
qed

text \<open>
  For every random number, the delay after the n-th failure lies between half and the whole of
  500 ms doubled n times while that is below the 8 s cap, and from then on between 6.5 s and 8 s; a
  session that was up for less than 15 s does not reset the ramp.
\<close>

theorem delay_window:
  "full_jitter (base_delay_for_attempt a) r
     \<in> (if unat a < 4 then {from_millis (250 * 2 ^ unat a)..from_millis (500 * 2 ^ unat a)}
        else {from_millis 6500..CAP})
   \<and> next_ready_at (on_session_ended (from_secs 14) (on_attempt_failed now r b))
      = Some (now + full_jitter (base_delay_for_attempt (attempt b)) r)"
proof -
  have "full_jitter (base_delay_for_attempt a) r
     \<in> (if unat a < 4 then {from_millis (250 * 2 ^ unat a)..from_millis (500 * 2 ^ unat a)}
        else {from_millis 6500..CAP})"
    using full_jitter_window [OF base_floor(2), of a r] unfolding base_floor(1)
    by (auto simp: base_delay min_def backoff_consts split: if_splits)
  then show ?thesis
    by (simp add: on_session_ended_def on_attempt_failed_def MIN_STABLE_def from_secs_def Let_def)
qed

section \<open>Redials against the peer's limiter\<close>

text \<open>
  \<open>paced\<close> says of a list of dials (time and random number) that each was allowed by the backoff that
  the failures before it left behind.
\<close>

fun paced :: "peer_backoff \<Rightarrow> (instant \<times> u64) list \<Rightarrow> bool" where
  "paced b [] \<longleftrightarrow> True"
| "paced b ((t, r) # ds) \<longleftrightarrow> ready b t \<and> paced (on_attempt_failed t r b) ds"

definition arrives :: "instant \<times> u64 \<Rightarrow> instant \<Rightarrow> bool" where
  "arrives d a \<longleftrightarrow> fst d \<le> a \<and> a \<le> fst d + FLOOR_MARGIN"

definition arrivals_of :: "ip_addr \<Rightarrow> (ip_addr \<times> instant) list \<Rightarrow> instant list" where
  "arrivals_of me es = map snd (filter (\<lambda>e. fst e = me) es)"

definition affordable :: "ip_addr \<Rightarrow> peer_backoff \<Rightarrow> limiter \<Rightarrow> instant \<Rightarrow> bool" where
  "affordable me b m t \<longleftrightarrow>
     (if unat (attempt b) < 5 then 5 - of_nat (unat (attempt b)) \<le> level m me t
      else (\<exists>a ready_at. a \<le> t \<and> min 5 (gain (t - a)) \<le> level m me t
              \<and> next_ready_at b = Some ready_at \<and> a + REFILL_INTERVAL \<le> ready_at))"

lemma affordable_late:
  assumes "\<not> unat (attempt b) < 5" and "a \<le> t" and "min 5 (gain (t - a)) \<le> level m me t"
    and "next_ready_at b = Some r" and "a + REFILL_INTERVAL \<le> r"
  shows "affordable me b m t"
  using assms by (auto simp: affordable_def simp del: min_le_iff_disj)

lemma affordable_mono:
  "affordable me b m t \<Longrightarrow> level m me t \<le> level m' me t \<Longrightarrow> affordable me b m' t"
  unfolding affordable_def by (auto split: if_splits intro: order_trans)

lemma affordable_wait:
  assumes i: "limiter_inv t m" and t: "t \<le> now" and a: "affordable me b m t"
  shows "affordable me b m now"
proof -
  have l: "level m me now = min 5 (level m me t + gain (now - t))" by (rule level_later [OF i t])
  have up: "level m me t \<le> level m me now"
    using l level_le [of m me t] gain_nonneg [of "now - t"] by simp
  show ?thesis
  proof (cases "unat (attempt b) < 5")
    case True
    then show ?thesis using a up by (auto simp: affordable_def)
  next
    case False
    then obtain a0 r where r: "a0 \<le> t" "min 5 (gain (t - a0)) \<le> level m me t"
        "next_ready_at b = Some r" "a0 + REFILL_INTERVAL \<le> r"
      using a by (auto simp: affordable_def)
    have "gain (now - a0) = gain (t - a0) + gain (now - t)"
      using r(1) t by (simp add: gain_add [symmetric])
    then have "min 5 (gain (now - a0)) \<le> level m me now"
      using r(2) l gain_nonneg [of "now - t"] by (auto simp: min_def split: if_splits)
    with False r t show ?thesis by (intro affordable_late [of b a0 now m me r]) simp_all
  qed
qed

lemma affordable_ok:
  assumes a: "affordable me b m now" and d: "ready b d" "d \<le> now"
  shows "1 \<le> level m me now"
proof (cases "unat (attempt b) < 5")
  case True
  then have "of_nat (unat (attempt b)) \<le> (of_nat 4 :: rat)" by (intro of_nat_mono) simp
  then show ?thesis using a True by (simp add: affordable_def)
next
  case False
  then obtain a0 r where r: "a0 \<le> now" "min 5 (gain (now - a0)) \<le> level m me now"
      "next_ready_at b = Some r" "a0 + REFILL_INTERVAL \<le> r"
    using a by (auto simp: affordable_def)
  have "gain REFILL_INTERVAL \<le> gain (now - a0)"
    using r d by (intro gain_mono) (simp add: ready_def)
  moreover have "gain REFILL_INTERVAL = 1" by (simp add: gain_eq REFILL_INTERVAL_def from_secs_def)
  ultimately show ?thesis using r(2) by (auto simp: min_def split: if_splits)
qed

lemma affordable_dial:
  assumes i: "limiter_inv now m" and a: "affordable me b m now"
    and d: "ready b d" "d \<le> now" "now \<le> d + FLOOR_MARGIN"
    and m': "level m' me now = level m me now - 1"
  shows "affordable me (on_attempt_failed d r b) m' now"
proof -
  let ?n = "unat (attempt b)"
  let ?b = "on_attempt_failed d r b"
  have one: "1 \<le> level m me now" by (rule affordable_ok [OF a d(1,2)])
  have n': "unat (attempt ?b) = min (?n + 1) (2 ^ 32 - 1)"
    by (simp add: on_attempt_failed_def Let_def unat_sat_inc32)
  show ?thesis
  proof (cases "?n < 4")
    case True
    then show ?thesis using a m' n' by (simp add: affordable_def)
  next
    case False
    obtain D where D: "next_ready_at ?b = Some (d + D)" "STEADY_STATE_FLOOR \<le> D"
      using full_jitter_window(1) [OF base_floor(2), of "attempt b" r] False
      by (simp add: on_attempt_failed_def Let_def base_floor(1))
    then have "now + REFILL_INTERVAL \<le> d + D"
      using d(3) by (simp add: STEADY_STATE_FLOOR_def)
    moreover have "\<not> unat (attempt ?b) < 5" using n' False by simp
    ultimately show ?thesis
      using D one m' by (auto simp: affordable_def gain_eq intro!: exI [of _ now])
  qed
qed

lemma dials_accepted:
  assumes "limiter_inv t m" and "affordable me b m t" and "sorted (t # map snd es)"
    and "paced b ds" and "list_all2 arrives ds (arrivals_of me es)"
  shows "accepted me es (fst (check_all es m)) = length ds"
  using assms
proof (induction es arbitrary: m t b ds)
  case Nil
  then show ?case by (simp add: accepted_def arrivals_of_def)
next
  case (Cons e es)
  obtain s now where e: "e = (s, now)" by force
  obtain ok m' where c: "check_at s now m = (ok, m')" by force
  have t: "t \<le> now" and so: "sorted (now # map snd es)" using Cons.prems(3) by (simp_all add: e)
  have i: "limiter_inv now m" using Cons.prems(1) t by (rule limiter_inv_later)
  have a: "affordable me b m now" by (rule affordable_wait [OF Cons.prems(1) t Cons.prems(2)])
  note L = check_at_levels [OF i c]
  have acc: "accepted me (e # es) (fst (check_all (e # es) m))
    = accepted me es (fst (check_all es m')) + (if s = me \<and> ok then 1 else 0)"
    by (simp add: accepted_def e c split: prod.splits)
  show ?case
  proof (cases "s = me")
    case False
    then have "level m me now \<le> level m' me now" by (intro L(3)) simp
    with a have a': "affordable me b m' now" by (rule affordable_mono)
    have "list_all2 arrives ds (arrivals_of me es)"
      using Cons.prems(5) False by (simp add: arrivals_of_def e)
    with Cons.IH [OF L(4) a' so Cons.prems(4)] show ?thesis using acc False by simp
  next
    case True
    then obtain d r ds' where ds: "ds = (d, r) # ds'" and ar: "arrives (d, r) now"
        and l: "list_all2 arrives ds' (arrivals_of me es)"
      using Cons.prems(5) by (auto simp: arrivals_of_def e list_all2_Cons2)
    have p: "ready b d" "paced (on_attempt_failed d r b) ds'" using Cons.prems(4) ds by simp_all
    have dn: "d \<le> now" "now \<le> d + FLOOR_MARGIN" using ar by (simp_all add: arrives_def)
    have ok: "ok" using affordable_ok [OF a p(1) dn(1)] L(1) True by simp
    have "affordable me (on_attempt_failed d r b) m' now"
      using L(2) ok True by (intro affordable_dial [OF i a p(1) dn]) simp
    from Cons.IH [OF L(4) this so p(2) l] show ?thesis using acc ok True ds by simp
  qed
qed

text \<open>
  During an outage of any length, every redial that the backoff allows is accepted by the peer's
  limiter, whatever the random numbers and whatever other sources send to it, when each dial reaches
  the peer within the 500 ms margin and the peer was not already counting this device.
\<close>

theorem redials_never_limited:
  assumes "paced backoff_new ds" and "list_all2 arrives ds (arrivals_of me es)"
    and "limiter_inv t m" and "map_of m me = None" and "sorted (t # map snd es)"
  shows "accepted me es (fst (check_all es m)) = length ds"
  using assms(4) by (intro dials_accepted [OF assms(3) _ assms(5,1,2)]) (simp add: affordable_def backoff_new_def level_def)

definition demo_dials :: "(instant \<times> u64) list" where
  "demo_dials = [(0, 0), (250000000, 0), (750000000, 0), (1750000000, 0), (3750000000, 0), (10250000000, 0)]"

definition demo_arrivals :: "(ip_addr \<times> instant) list" where
  "demo_arrivals = [([10], 0), ([10], 250000000), ([11], 300000000), ([10], 750000000), ([10], 1750000000),
     ([10], 4250000000), ([10], 10250000000)]"

theorem redials_never_limited_witness:
  "accepted [10] demo_arrivals (fst (check_all demo_arrivals limiter_new)) = 6"
proof -
  have p: "paced backoff_new demo_dials"
    by (simp add: demo_dials_def backoff_new_def ready_def on_attempt_failed_def full_jitter_def
        base_delay jitter_floor_def sat_inc32_def Let_def backoff_consts)
  have l: "list_all2 arrives demo_dials (arrivals_of [10] demo_arrivals)"
    by (simp add: demo_dials_def demo_arrivals_def arrivals_of_def arrives_def FLOOR_MARGIN_def from_millis_def)
  have "sorted (0 # map snd demo_arrivals)" by (simp add: demo_arrivals_def)
  from redials_never_limited [OF p l limiter_inv_new _ this] show ?thesis
    by (simp add: limiter_new_def demo_dials_def)
qed

end
