(* ===== verification/Transport.thy ===== *)
theory Transport
  imports Replay
begin

text \<open>
  \<open>transport.rs\<close>: the table of peer connections. A connection (\<open>PeerConn\<close>) lives in the primary slot or
  in the map of secondaries. An \<open>Arc<PeerConn>\<close> is the name of its slot and the identity of the
  connection there (\<open>pc_uid\<close>, numbered as they are made): a task that holds one of a connection that
  has left the table holds one without a session. Each method is one step (it
  holds the slot's locks); a send is two steps, as in the code, because the session may be swapped
  between its snapshot of the generation and the lock. The UDP socket is not modelled: a send returns
  the datagram, a receive takes one. \<open>'t noise\<close> stands for the cipher, as in the session theory.
\<close>

section \<open>Constants and small decisions\<close>

definition TYPE_HANDSHAKE_INIT :: u8 where "TYPE_HANDSHAKE_INIT = 1"
definition TYPE_HANDSHAKE_RESP :: u8 where "TYPE_HANDSHAKE_RESP = 2"
definition TYPE_ENCRYPTED :: u8 where "TYPE_ENCRYPTED = 3"
definition ROAM_MIN_INTERVAL_MS :: millis where "ROAM_MIN_INTERVAL_MS = 30000"
definition REKEY_MAX_AGE_MS :: millis where "REKEY_MAX_AGE_MS = 24 * 60 * 60 * 1000"
definition REKEY_MAX_BYTES :: u64 where "REKEY_MAX_BYTES = 1024 * 1024 * 1024"

definition roam_allowed :: "millis \<Rightarrow> millis \<Rightarrow> bool" where
  "roam_allowed now last_roam \<longleftrightarrow> ROAM_MIN_INTERVAL_MS \<le> now - last_roam"

definition rekey_due :: "millis \<Rightarrow> u64 \<Rightarrow> millis \<Rightarrow> u64 \<Rightarrow> bool" where
  "rekey_due age_ms b max_age_ms max_bytes \<longleftrightarrow> max_age_ms \<le> age_ms \<or> max_bytes \<le> b"

definition is_rekey_initiator :: "bytes32 \<Rightarrow> bytes32 \<Rightarrow> bool" where
  "is_rekey_initiator self_peer_id peer_id \<longleftrightarrow> self_peer_id < peer_id"

section \<open>The table\<close>

record 't peer_conn =
  pc_uid :: nat
  peer_addr :: "sock_addr option"
  last_peer_addr :: "sock_addr option"
  last_peer_id :: "bytes32 option"
  pc_session :: "'t session option"
  session_generation :: u64
  roaming_history :: "sock_addr list"
  last_rx_ms :: millis
  last_roam_ms :: millis
  session_established_at_ms :: millis
  bytes_since_established :: u64

definition conn_new :: "nat \<Rightarrow> millis \<Rightarrow> 't peer_conn" where
  "conn_new u now = \<lparr>pc_uid = u, peer_addr = None, last_peer_addr = None, last_peer_id = None, pc_session = None,
     session_generation = 0, roaming_history = [], last_rx_ms = now, last_roam_ms = 0,
     session_established_at_ms = 0, bytes_since_established = 0\<rparr>"

text \<open>The ephemerals already answered: the hash set beside the queue that bounds it.\<close>

record answered_inits =
  ai_seen :: "bytes32 list"
  ai_order :: "bytes32 list"

definition ANSWERED_CAP :: nat where "ANSWERED_CAP = 4096"

definition answered_default :: answered_inits where
  "answered_default = \<lparr>ai_seen = [], ai_order = []\<rparr>"

definition answer_ephemeral :: "bytes32 \<Rightarrow> answered_inits \<Rightarrow> bool \<times> answered_inits" where
  "answer_ephemeral e a =
     (if e \<in> set (ai_seen a) then (False, a)
      else let a = a\<lparr>ai_seen := e # ai_seen a, ai_order := ai_order a @ [e]\<rparr>
        in (True,
            if ANSWERED_CAP < length (ai_order a)
            then (case ai_order a of
                    old # rest \<Rightarrow> a\<lparr>ai_order := rest, ai_seen := filter (\<lambda>x. x \<noteq> old) (ai_seen a)\<rparr>
                  | [] \<Rightarrow> a)
            else a))"

definition first_answer :: "bytes \<Rightarrow> answered_inits \<Rightarrow> bool \<times> answered_inits" where
  "first_answer msg1 a = (if length msg1 < 32 then (False, a) else answer_ephemeral (take 32 msg1) a)"

record 't net =
  conn :: "'t peer_conn"
  extra :: "(bytes32, 't peer_conn) btree"
  answered :: answered_inits
  decrypt_failures :: nat
  next_uid :: nat

definition net_new :: "millis \<Rightarrow> 't net" where
  "net_new now = \<lparr>conn = conn_new 0 now, extra = [], answered = answered_default, decrypt_failures = 0,
     next_uid = 1\<rparr>"

datatype slot = Primary | Extra bytes32

definition at_slot :: "slot \<Rightarrow> 't net \<Rightarrow> 't peer_conn option" where
  "at_slot sl t = (case sl of Primary \<Rightarrow> Some (conn t) | Extra k \<Rightarrow> bt_get (extra t) k)"

definition upd_slot :: "slot \<Rightarrow> ('t peer_conn \<Rightarrow> 't peer_conn) \<Rightarrow> 't net \<Rightarrow> 't net" where
  "upd_slot sl f t = (case sl of
      Primary \<Rightarrow> t\<lparr>conn := f (conn t)\<rparr>
    | Extra k \<Rightarrow> (case bt_get (extra t) k of Some c \<Rightarrow> t\<lparr>extra := bt_insert k (f c) (extra t)\<rparr> | None \<Rightarrow> t))"

definition acquire_conn :: "millis \<Rightarrow> bytes32 \<Rightarrow> 't net \<Rightarrow> slot \<times> 't net" where
  "acquire_conn now i t =
     (let cur = last_peer_id (conn t); live = pc_session (conn t) \<noteq> None in
      if cur = Some i \<or> cur = None \<or> \<not> live then (Primary, t)
      else (Extra i,
            if bt_get (extra t) i = None
            then t\<lparr>extra := bt_insert i (conn_new (next_uid t) now) (extra t), next_uid := next_uid t + 1\<rparr>
            else t))"

definition conn_for :: "bytes32 \<Rightarrow> 't net \<Rightarrow> slot option" where
  "conn_for i t =
     (if last_peer_id (conn t) = Some i then Some Primary
      else case bt_get (extra t) i of Some _ \<Rightarrow> Some (Extra i) | None \<Rightarrow> None)"

definition push_history :: "sock_addr \<Rightarrow> 't peer_conn \<Rightarrow> 't peer_conn" where
  "push_history a c = (if a \<in> set (roaming_history c) then c
     else c\<lparr>roaming_history := take 5 (a # roaming_history c)\<rparr>)"

definition set_peer_addr :: "sock_addr \<Rightarrow> 't net \<Rightarrow> 't net" where
  "set_peer_addr a t =
     upd_slot Primary (\<lambda>c. push_history a (c\<lparr>peer_addr := Some a, last_peer_addr := Some a\<rparr>)) t"

definition set_peer_info :: "millis \<Rightarrow> bytes32 \<Rightarrow> sock_addr \<Rightarrow> 't net \<Rightarrow> 't net" where
  "set_peer_info now i a t =
     (let (sl, t) = acquire_conn now i t in
      upd_slot sl (\<lambda>c. push_history a (c\<lparr>peer_addr := Some a, last_peer_addr := Some a, last_peer_id := Some i\<rparr>)) t)"

section \<open>Installing and dropping sessions\<close>

definition stamp :: "millis \<Rightarrow> bytes32 \<Rightarrow> 't session \<Rightarrow> 't peer_conn \<Rightarrow> 't peer_conn" where
  "stamp now i s c = c\<lparr>pc_session := Some s, last_peer_id := Some i, session_generation := session_generation c + 1,
     session_established_at_ms := now, bytes_since_established := 0\<rparr>"

definition install_session :: "millis \<Rightarrow> bytes32 \<Rightarrow> 't session \<Rightarrow> 't net \<Rightarrow> 't net" where
  "install_session now i s t = (let (sl, t) = acquire_conn now i t in upd_slot sl (stamp now i s) t)"

definition session_at :: "slot \<Rightarrow> 't net \<Rightarrow> 't session option" where
  "session_at sl t = (case at_slot sl t of Some c \<Rightarrow> pc_session c | None \<Rightarrow> None)"

definition try_install_session :: "millis \<Rightarrow> bytes32 \<Rightarrow> 't session \<Rightarrow> 't net \<Rightarrow> bool \<times> 't net" where
  "try_install_session now i s t =
     (let (sl, t) = acquire_conn now i t in
      if session_at sl t \<noteq> None then (False, t) else (True, upd_slot sl (stamp now i s) t))"

definition install_primary_session_if_generation ::
  "millis \<Rightarrow> bytes32 \<Rightarrow> 't session \<Rightarrow> u64 \<Rightarrow> 't net \<Rightarrow> bool \<times> 't net" where
  "install_primary_session_if_generation now i s g t =
     (if session_generation (conn t) \<noteq> g then (False, t) else (True, upd_slot Primary (stamp now i s) t))"

definition install_session_if_generation_for ::
  "millis \<Rightarrow> bytes32 \<Rightarrow> 't session \<Rightarrow> u64 \<Rightarrow> 't net \<Rightarrow> bool \<times> 't net" where
  "install_session_if_generation_for now i s g t =
     (case conn_for i t of
        None \<Rightarrow> (False, t)
      | Some sl \<Rightarrow> (case at_slot sl t of
          None \<Rightarrow> (False, t)
        | Some c \<Rightarrow> if session_generation c \<noteq> g then (False, t) else (True, upd_slot sl (stamp now i s) t)))"

definition primary_session_generation :: "'t net \<Rightarrow> u64" where
  "primary_session_generation t = session_generation (conn t)"

text \<open>The accessors of the form \<open>conn_for(id).await?\<close> followed by a read.\<close>

definition read_for :: "('t peer_conn \<Rightarrow> 'a) \<Rightarrow> bytes32 \<Rightarrow> 't net \<Rightarrow> 'a option" where
  "read_for f i t = (case conn_for i t of None \<Rightarrow> None | Some sl \<Rightarrow> map_option f (at_slot sl t))"

definition session_generation_for :: "bytes32 \<Rightarrow> 't net \<Rightarrow> u64 option" where
  "session_generation_for i t = read_for session_generation i t"

definition session_established_at_for :: "bytes32 \<Rightarrow> 't net \<Rightarrow> millis option" where
  "session_established_at_for i t = read_for session_established_at_ms i t"

definition session_bytes_for :: "bytes32 \<Rightarrow> 't net \<Rightarrow> u64 option" where
  "session_bytes_for i t = read_for bytes_since_established i t"

definition has_session :: "'t net \<Rightarrow> bool" where
  "has_session t \<longleftrightarrow> pc_session (conn t) \<noteq> None"

definition has_session_for :: "bytes32 \<Rightarrow> 't net \<Rightarrow> bool" where
  "has_session_for i t = (case read_for pc_session i t of Some s \<Rightarrow> s \<noteq> None | None \<Rightarrow> False)"

definition session_handshake_hash_for :: "bytes32 \<Rightarrow> 't net \<Rightarrow> bytes32 option" where
  "session_handshake_hash_for i t =
     (case read_for pc_session i t of Some s \<Rightarrow> map_option handshake_hash s | None \<Rightarrow> None)"

definition cached_peer_id :: "'t net \<Rightarrow> bytes32 option" where
  "cached_peer_id t = last_peer_id (conn t)"

definition cached_peer_addr :: "'t net \<Rightarrow> sock_addr option" where
  "cached_peer_addr t = last_peer_addr (conn t)"

definition current_peer_addr :: "'t net \<Rightarrow> sock_addr option" where
  "current_peer_addr t = peer_addr (conn t)"

definition peer_addr_for :: "bytes32 \<Rightarrow> 't net \<Rightarrow> sock_addr option" where
  "peer_addr_for i t = (case read_for peer_addr i t of Some a \<Rightarrow> a | None \<Rightarrow> None)"

definition roaming_history_snapshot :: "'t net \<Rightarrow> sock_addr list" where
  "roaming_history_snapshot t = roaming_history (conn t)"

definition roaming_history_snapshot_for :: "bytes32 \<Rightarrow> 't net \<Rightarrow> sock_addr list" where
  "roaming_history_snapshot_for i t = (case read_for roaming_history i t of Some h \<Rightarrow> h | None \<Rightarrow> [])"

definition set_peer_addr_for :: "bytes32 \<Rightarrow> sock_addr \<Rightarrow> 't net \<Rightarrow> 't net" where
  "set_peer_addr_for i a t = (case conn_for i t of
      Some sl \<Rightarrow> upd_slot sl (\<lambda>c. c\<lparr>peer_addr := Some a, last_peer_addr := Some a\<rparr>) t | None \<Rightarrow> t)"

definition set_last_rx :: "millis \<Rightarrow> 't net \<Rightarrow> 't net" where
  "set_last_rx ms t = upd_slot Primary (\<lambda>c. c\<lparr>last_rx_ms := ms\<rparr>) t"

definition unlink :: "'t peer_conn \<Rightarrow> 't peer_conn" where
  "unlink c = c\<lparr>pc_session := None, session_generation := session_generation c + 1\<rparr>"

definition drop_session :: "'t net \<Rightarrow> 't net" where
  "drop_session t = upd_slot Primary unlink t"

definition drop_session_for :: "bytes32 \<Rightarrow> 't net \<Rightarrow> 't net" where
  "drop_session_for i t = (case conn_for i t of Some sl \<Rightarrow> upd_slot sl unlink t | None \<Rightarrow> t)"

definition purge_peer :: "bytes32 \<Rightarrow> 't net \<Rightarrow> 't net" where
  "purge_peer i t = (let t = drop_session_for i t in t\<lparr>extra := bt_remove i (extra t)\<rparr>)"

text \<open>The secondaries with a session, in key order.\<close>

definition live_extra :: "'t net \<Rightarrow> (bytes32 \<times> 't peer_conn) list" where
  "live_extra t = filter (\<lambda>e. pc_session (snd e) \<noteq> None) (extra t)"

definition linked_peer_ids :: "'t net \<Rightarrow> bytes32 list" where
  "linked_peer_ids t =
     (if pc_session (conn t) \<noteq> None then (case last_peer_id (conn t) of Some i \<Rightarrow> [i] | None \<Rightarrow> []) else [])
     @ map fst (live_extra t)"

definition secondary_liveness :: "'t net \<Rightarrow> (bytes32 \<times> millis) list" where
  "secondary_liveness t =
     map (\<lambda>e. (fst e, last_rx_ms (snd e))) (live_extra t)"

definition promote_secondary :: "millis \<Rightarrow> 't net \<Rightarrow> bytes32 option \<times> 't net" where
  "promote_secondary now t =
     (case live_extra t of
        [] \<Rightarrow> (None, t)
      | (i, sec) # _ \<Rightarrow>
          (let c = conn t;
               c = c\<lparr>pc_session := pc_session sec, last_peer_id := Some i, peer_addr := peer_addr sec\<rparr>;
               c = (case peer_addr sec of Some a \<Rightarrow> c\<lparr>last_peer_addr := Some a\<rparr> | None \<Rightarrow> c);
               c = c\<lparr>last_rx_ms := last_rx_ms sec, session_generation := session_generation c + 1,
                     session_established_at_ms := now, bytes_since_established := 0\<rparr>
           in (Some i, t\<lparr>extra := bt_remove i (extra t), conn := c\<rparr>)))"

section \<open>Sending and receiving\<close>

text \<open>
  A send resolves the connection and reads the generation and the address; it then takes the session
  lock, compares generations and encrypts.
\<close>

datatype send_error = NoConnection | NoPeerAddr | GenerationChanged u64 u64 | NoSession | CryptoFailed crypto_error

record pending_send =
  ps_slot :: slot
  ps_uid :: nat
  ps_generation :: u64
  ps_addr :: sock_addr

definition send_begin :: "slot \<Rightarrow> 't net \<Rightarrow> send_error + pending_send" where
  "send_begin sl t = (case at_slot sl t of None \<Rightarrow> Inl NoConnection
     | Some c \<Rightarrow> (case peer_addr c of None \<Rightarrow> Inl NoPeerAddr
         | Some a \<Rightarrow> Inr \<lparr>ps_slot = sl, ps_uid = pc_uid c, ps_generation = session_generation c, ps_addr = a\<rparr>))"

definition send_commit ::
  "'t noise \<Rightarrow> bytes \<Rightarrow> pending_send \<Rightarrow> 't net \<Rightarrow> (send_error + sock_addr \<times> bytes) \<times> 't net" where
  "send_commit ns p ps t = (case at_slot (ps_slot ps) t of None \<Rightarrow> (Inl NoSession, t)
     | Some c \<Rightarrow>
         (if pc_uid c \<noteq> ps_uid ps then (Inl NoSession, t)
          else if session_generation c \<noteq> ps_generation ps
          then (Inl (GenerationChanged (ps_generation ps) (session_generation c)), t)
          else case pc_session c of None \<Rightarrow> (Inl NoSession, t)
            | Some s \<Rightarrow> (case encrypt ns p s of
                Inl e \<Rightarrow> (Inl (CryptoFailed e), t)
              | Inr (ct, s') \<Rightarrow>
                  (Inr (ps_addr ps, TYPE_ENCRYPTED # ct),
                   upd_slot (ps_slot ps) (\<lambda>c. c\<lparr>pc_session := Some s',
                     bytes_since_established := bytes_since_established c + of_nat (length ct)\<rparr>) t))))"

definition send_on :: "'t noise \<Rightarrow> bytes \<Rightarrow> slot \<Rightarrow> 't net \<Rightarrow> (send_error + sock_addr \<times> bytes) \<times> 't net" where
  "send_on ns p sl t = (case send_begin sl t of Inl e \<Rightarrow> (Inl e, t) | Inr ps \<Rightarrow> send_commit ns p ps t)"

definition send_encrypted_to ::
  "'t noise \<Rightarrow> bytes32 \<Rightarrow> bytes \<Rightarrow> 't net \<Rightarrow> (send_error + sock_addr \<times> bytes) \<times> 't net" where
  "send_encrypted_to ns i p t =
     (case conn_for i t of None \<Rightarrow> (Inl NoConnection, t) | Some sl \<Rightarrow> send_on ns p sl t)"

definition send_encrypted :: "'t noise \<Rightarrow> bytes \<Rightarrow> 't net \<Rightarrow> (send_error + sock_addr \<times> bytes) \<times> 't net" where
  "send_encrypted ns p t = send_on ns p Primary t"

datatype recv_frame =
    RecvInit (rf_from: sock_addr) bytes
  | RecvResp (rf_from: sock_addr) bytes
  | RecvEncrypted (rf_from: sock_addr) (rf_peer: bytes32) (rf_plaintext: bytes)
  | RecvOther (rf_from: sock_addr) u8

datatype recv_error = NotDecrypted | NoSessionAtAll

text \<open>What a datagram that decrypted does to its connection: bytes, roaming, last receive.\<close>

definition roam :: "millis \<Rightarrow> sock_addr \<Rightarrow> 't peer_conn \<Rightarrow> 't peer_conn" where
  "roam now a c =
     (if Some a \<noteq> peer_addr c \<and> roam_allowed now (last_roam_ms c)
      then push_history a (c\<lparr>last_roam_ms := now, peer_addr := Some a, last_peer_addr := Some a\<rparr>)
      else c)"

definition received_on :: "millis \<Rightarrow> sock_addr \<Rightarrow> nat \<Rightarrow> 't peer_conn \<Rightarrow> 't peer_conn" where
  "received_on now a n c =
     (roam now a (c\<lparr>bytes_since_established := bytes_since_established c + of_nat n\<rparr>))\<lparr>last_rx_ms := now\<rparr>"

definition candidates :: "'t net \<Rightarrow> (bytes32 \<times> slot) list" where
  "candidates t = (case last_peer_id (conn t) of Some i \<Rightarrow> [(i, Primary)] | None \<Rightarrow> [])
     @ map (\<lambda>e. (fst e, Extra (fst e))) (extra t)"

fun try_decrypt ::
  "'t noise \<Rightarrow> bytes \<Rightarrow> (bytes32 \<times> slot) list \<Rightarrow> bool \<Rightarrow> 't net \<Rightarrow> (recv_error + bytes32 \<times> slot \<times> bytes) \<times> 't net" where
  "try_decrypt ns b [] tried t = (Inl (if tried then NotDecrypted else NoSessionAtAll), t)"
| "try_decrypt ns b ((i, sl) # cs) tried t =
     (case session_at sl t of
        None \<Rightarrow> try_decrypt ns b cs tried t
      | Some s \<Rightarrow>
          (let (r, s') = decrypt ns b s;
               t = upd_slot sl (\<lambda>c. c\<lparr>pc_session := Some s'\<rparr>) t
           in case r of Inr p \<Rightarrow> (Inr (i, sl, p), t) | Inl _ \<Rightarrow> try_decrypt ns b cs True t))"

definition recv_encrypted ::
  "'t noise \<Rightarrow> millis \<Rightarrow> sock_addr \<Rightarrow> bytes \<Rightarrow> 't net \<Rightarrow> (recv_error + recv_frame) \<times> 't net" where
  "recv_encrypted ns now from b t =
     (case try_decrypt ns b (candidates t) False t of
        (Inl NotDecrypted, t) \<Rightarrow> (Inl NotDecrypted, t\<lparr>decrypt_failures := decrypt_failures t + 1\<rparr>)
      | (Inl e, t) \<Rightarrow> (Inl e, t)
      | (Inr (i, sl, p), t) \<Rightarrow> (Inr (RecvEncrypted from i p), upd_slot sl (received_on now from (length b)) t))"

definition recv :: "'t noise \<Rightarrow> millis \<Rightarrow> sock_addr \<Rightarrow> bytes \<Rightarrow> 't net \<Rightarrow> (recv_error + recv_frame) \<times> 't net" where
  "recv ns now from datagram t =
     (case datagram of
        [] \<Rightarrow> (Inr (RecvOther from 0), t)
      | ty # body \<Rightarrow>
          (if ty = TYPE_HANDSHAKE_INIT then (Inr (RecvInit from body), t)
           else if ty = TYPE_HANDSHAKE_RESP then (Inr (RecvResp from body), t)
           else if ty = TYPE_ENCRYPTED then recv_encrypted ns now from body t
           else (Inr (RecvOther from ty), t)))"

end
