(* ===== verification/Links.thy ===== *)
theory Links
  imports Transport
begin

text \<open>
  What the connection table promises: a handshake message is answered once; each linked peer has one
  link, which sends and drops reach; a send never crosses a session swap; the failover keeps the
  survivor's session; an address is re-pinned at most once per interval. The last section shows the one
  way a caller can break the second promise.
\<close>

section \<open>Answered handshakes\<close>

definition answered_inv :: "answered_inits \<Rightarrow> bool" where
  "answered_inv a \<longleftrightarrow> distinct (ai_order a) \<and> set (ai_seen a) = set (ai_order a) \<and> length (ai_order a) \<le> ANSWERED_CAP"

lemma answered_inv_default: "answered_inv answered_default"
  by (simp add: answered_inv_def answered_default_def)

lemma answer_members:
  assumes i: "answered_inv a" and e: "e \<notin> set (ai_order a)"
  shows "ai_order (snd (answer_ephemeral e a))
      = (if length (ai_order a) = ANSWERED_CAP then tl (ai_order a) else ai_order a) @ [e]"
    and "fst (answer_ephemeral e a)"
    and "answered_inv (snd (answer_ephemeral e a))"
  using assms
  by (cases "ai_order a"; auto simp: answer_ephemeral_def answered_inv_def Let_def ANSWERED_CAP_def)+

interpretation answered_ring: recent_set answered_inv "\<lambda>_. ANSWERED_CAP" ai_order answer_ephemeral
proof unfold_locales
  fix a :: answered_inits and e
  assume i: "answered_inv a"
  show "e \<in> set (ai_order a) \<Longrightarrow> answer_ephemeral e a = (False, a)"
    using i by (simp add: answer_ephemeral_def answered_inv_def)
  then show "answered_inv (snd (answer_ephemeral e a))"
    using i answer_members [OF i, of e] by (cases "e \<in> set (ai_order a)") simp_all
  show "length (ai_order a) \<le> ANSWERED_CAP \<and> 0 < ANSWERED_CAP"
    using i by (simp add: answered_inv_def ANSWERED_CAP_def)
qed (simp_all add: answer_members)

fun answer_all :: "bytes list \<Rightarrow> answered_inits \<Rightarrow> answered_inits" where
  "answer_all [] a = a"
| "answer_all (m # ms) a = answer_all ms (snd (first_answer m a))"

lemma answer_all_ring:
  "answer_all ms a = answered_ring.observe_all (map (take 32) (filter (\<lambda>m. 32 \<le> length m) ms)) a"
  by (induction ms arbitrary: a) (auto simp: first_answer_def)

text \<open>
  A handshake initiation is answered once: whatever carries the same ephemeral again is refused, as
  long as fewer than 4096 other initiations came in since; and one too short to carry an ephemeral is
  always refused.
\<close>

theorem msg1_single_use:
  assumes "answered_inv a" and "fst (first_answer m a)" and "take 32 m' = take 32 m"
    and "length ms < ANSWERED_CAP"
  shows "\<not> fst (first_answer m' (answer_all ms (snd (first_answer m a))))"
proof (cases "length m' < 32")
  case True
  then show ?thesis by (simp add: first_answer_def)
next
  case False
  have m: "\<not> length m < 32" "fst (answer_ephemeral (take 32 m) a)"
    using assms(2) by (auto simp: first_answer_def split: if_splits)
  have l: "length (map (take 32) (filter (\<lambda>m. 32 \<le> length m) ms)) < ANSWERED_CAP"
    using assms(4) by (auto intro: le_less_trans [OF length_filter_le])
  show ?thesis
    using answered_ring.repeat_refused [OF assms(1) m(2) l] m(1) False assms(3)
    by (simp add: first_answer_def answer_all_ring)
qed

theorem msg1_single_use_witness:
  "\<not> fst (first_answer (replicate 32 7 @ [1]) (answer_all [replicate 40 9, [3]]
      (snd (first_answer (replicate 32 7) answered_default))))"
proof -
  have a: "fst (first_answer (replicate 32 7) answered_default)"
    by (simp add: first_answer_def answer_ephemeral_def answered_default_def Let_def)
  show ?thesis
    by (rule msg1_single_use [OF answered_inv_default a]) (simp_all add: ANSWERED_CAP_def)
qed

section \<open>Slots\<close>

lemma at_upd_slot:
  "bt_wf (extra t) \<Longrightarrow> at_slot sl' (upd_slot sl f t)
     = (if sl' = sl then map_option f (at_slot sl t) else at_slot sl' t)"
  by (auto simp: at_slot_def upd_slot_def bt_get_insert split: slot.splits option.splits)

lemma upd_slot_wf [simp]: "bt_wf (extra t) \<Longrightarrow> bt_wf (extra (upd_slot sl f t))"
  by (auto simp: upd_slot_def bt_wf_insert split: slot.splits option.splits)

lemma upd_slot_uid [simp]: "next_uid (upd_slot sl f t) = next_uid t"
  by (auto simp: upd_slot_def split: slot.splits option.splits)

lemma conn_at_slot: "at_slot Primary t = Some (conn t)"
  by (simp add: at_slot_def)

lemma acquire_wf: "bt_wf (extra t) \<Longrightarrow> bt_wf (extra (snd (acquire_conn now i t)))"
  by (simp add: acquire_conn_def Let_def bt_wf_insert)

lemma acquire_conn_same [simp]: "conn (snd (acquire_conn now i t)) = conn t"
  by (simp add: acquire_conn_def Let_def)

lemma acquire_at:
  assumes "bt_wf (extra t)"
  shows "at_slot sl (snd (acquire_conn now i t)) =
     (if sl = Extra i \<and> fst (acquire_conn now i t) = Extra i \<and> at_slot sl t = None
      then Some (conn_new (next_uid t) now) else at_slot sl t)"
  using assms by (auto simp: acquire_conn_def Let_def at_slot_def bt_get_insert split: slot.splits)

text \<open>What each compound operation is, in terms of the slot it lands in.\<close>

definition link_up :: "millis \<Rightarrow> bytes32 \<Rightarrow> 't session \<Rightarrow> sock_addr \<Rightarrow> 't net \<Rightarrow> 't net" where
  "link_up now i s a t =
     (let (ok, t') = try_install_session now i s t in if ok then set_peer_info now i a t' else t')"

definition relink :: "millis \<Rightarrow> bytes32 \<Rightarrow> 't session \<Rightarrow> u64 \<Rightarrow> sock_addr \<Rightarrow> 't net \<Rightarrow> 't net" where
  "relink now i s g a t =
     (let (ok, t') = install_session_if_generation_for now i s g t in if ok then set_peer_info now i a t' else t')"

datatype 't link_op =
    LinkUp millis bytes32 "'t session" sock_addr
  | Relink millis bytes32 "'t session" u64 sock_addr
  | Drop bytes32
  | DropPrimary
  | Purge bytes32
  | Promote millis
  | Send bytes32 bytes
  | Receive millis sock_addr bytes

fun link_step :: "'t noise \<Rightarrow> 't link_op \<Rightarrow> 't net \<Rightarrow> 't net" where
  "link_step ns (LinkUp now i s a) t = link_up now i s a t"
| "link_step ns (Relink now i s g a) t = relink now i s g a t"
| "link_step ns (Drop i) t = drop_session_for i t"
| "link_step ns DropPrimary t = drop_session t"
| "link_step ns (Purge i) t = purge_peer i t"
| "link_step ns (Promote now) t = snd (promote_secondary now t)"
| "link_step ns (Send i p) t = snd (send_encrypted_to ns i p t)"
| "link_step ns (Receive now from d) t = snd (recv ns now from d t)"

section \<open>A send never crosses a session swap\<close>

text \<open>
  \<open>tracked\<close> is what identifies the session of a connection: its generation and its transcript hash.
  Sealing and opening leave both alone; \<open>moves n\<close> says that at most \<open>n\<close> swaps happened.
\<close>

definition tracked :: "slot \<Rightarrow> nat \<Rightarrow> 't net \<Rightarrow> (u64 \<times> bytes32 option) option" where
  "tracked sl u t = (case at_slot sl t of
      Some c \<Rightarrow> if pc_uid c = u then Some (session_generation c, map_option handshake_hash (pc_session c)) else None
    | None \<Rightarrow> None)"

definition table_ok :: "'t net \<Rightarrow> bool" where
  "table_ok t \<longleftrightarrow> bt_wf (extra t) \<and> (\<forall>sl c. at_slot sl t = Some c \<longrightarrow> pc_uid c < next_uid t)"

definition hop :: "nat \<Rightarrow> (u64 \<times> bytes32 option) option \<Rightarrow> (u64 \<times> bytes32 option) option \<Rightarrow> bool" where
  "hop n x y \<longleftrightarrow> y = None
     \<or> (\<exists>g h h' k. x = Some (g, h) \<and> y = Some (g + of_nat k, h') \<and> k \<le> n \<and> (k = 0 \<longrightarrow> h' = h))"

lemma hop_trans:
  assumes a: "hop n x y" and b: "hop m y z"
  shows "hop (n + m) x z"
proof (cases z)
  case (Some zz)
  then obtain g' h' h'' k' where 2: "y = Some (g', h')" "z = Some (g' + of_nat k', h'')" "k' \<le> m" "k' = 0 \<longrightarrow> h'' = h'"
    using b unfolding hop_def by blast
  then obtain g h k where 1: "x = Some (g, h)" "g' = g + of_nat k" "k \<le> n" "k = 0 \<longrightarrow> h' = h"
    using a unfolding hop_def by blast
  have "z = Some (g + of_nat (k + k'), h'')" using 1(2) 2(2) by (simp add: add.assoc)
  moreover have "k + k' \<le> n + m" "k + k' = 0 \<longrightarrow> h'' = h" using 1(3,4) 2(3,4) by auto
  ultimately show ?thesis using 1(1) unfolding hop_def by blast
qed (simp add: hop_def)

lemma hop_mono: "hop n x y \<Longrightarrow> n \<le> m \<Longrightarrow> hop m x y"
  unfolding hop_def using order_trans by blast

definition moves :: "nat \<Rightarrow> 't net \<Rightarrow> 't net \<Rightarrow> bool" where
  "moves n t t' \<longleftrightarrow> table_ok t' \<and> next_uid t \<le> next_uid t'
     \<and> (\<forall>sl u. u < next_uid t \<longrightarrow> hop n (tracked sl u t) (tracked sl u t'))"

lemma moves_trans:
  assumes a: "moves n t t'" and b: "moves m t' t''"
  shows "moves (n + m) t t''"
proof -
  have "hop (n + m) (tracked sl u t) (tracked sl u t'')" if u: "u < next_uid t" for sl u
  proof (rule hop_trans)
    show "hop n (tracked sl u t) (tracked sl u t')" using a u by (simp add: moves_def)
    show "hop m (tracked sl u t') (tracked sl u t'')" using a b u by (simp add: moves_def)
  qed
  then show ?thesis using a b by (simp add: moves_def)
qed

lemma moves_mono: "moves n t t' \<Longrightarrow> n \<le> m \<Longrightarrow> moves m t t'"
  unfolding moves_def using hop_mono by blast

lemma movesI:
  assumes t: "table_ok t" and wf: "bt_wf (extra t')" and n: "next_uid t \<le> next_uid t'"
    and s: "\<And>sl c'. at_slot sl t' = Some c' \<Longrightarrow>
        next_uid t \<le> pc_uid c' \<and> pc_uid c' < next_uid t'
        \<or> (\<exists>c k. at_slot sl t = Some c \<and> pc_uid c' = pc_uid c \<and> k \<le> m
              \<and> session_generation c' = session_generation c + of_nat k
              \<and> (k = 0 \<longrightarrow> map_option handshake_hash (pc_session c') = map_option handshake_hash (pc_session c)))"
  shows "moves m t t'"
proof -
  have "pc_uid c' < next_uid t'" if a: "at_slot sl t' = Some c'" for sl c'
    using s [OF a]
  proof
    assume "\<exists>c k. at_slot sl t = Some c \<and> pc_uid c' = pc_uid c \<and> k \<le> m
        \<and> session_generation c' = session_generation c + of_nat k
        \<and> (k = 0 \<longrightarrow> map_option handshake_hash (pc_session c') = map_option handshake_hash (pc_session c))"
    then obtain c where "at_slot sl t = Some c" "pc_uid c' = pc_uid c" by blast
    then have "pc_uid c' < next_uid t" using t by (simp add: table_ok_def)
    then show ?thesis using n by simp
  qed simp
  then have "table_ok t'" using wf unfolding table_ok_def by blast
  moreover have "hop m (tracked sl u t) (tracked sl u t')"
    if u: "u < next_uid t" for sl u
  proof (cases "\<exists>c'. at_slot sl t' = Some c' \<and> pc_uid c' = u")
    case True
    then obtain c' where c': "at_slot sl t' = Some c'" "pc_uid c' = u" by blast
    have "\<not> (next_uid t \<le> pc_uid c' \<and> pc_uid c' < next_uid t')" using u c'(2) by simp
    then obtain c k where k: "at_slot sl t = Some c" "pc_uid c' = pc_uid c" "k \<le> m"
        "session_generation c' = session_generation c + of_nat k"
        "k = 0 \<longrightarrow> map_option handshake_hash (pc_session c') = map_option handshake_hash (pc_session c)"
      using s [OF c'(1)] by blast
    have "tracked sl u t = Some (session_generation c, map_option handshake_hash (pc_session c))"
      using k(1,2) c'(2) by (simp add: tracked_def)
    moreover have "tracked sl u t' = Some (session_generation c + of_nat k, map_option handshake_hash (pc_session c'))"
      using c' k(4) by (simp add: tracked_def)
    ultimately show ?thesis using k(3,5) unfolding hop_def by blast
  next
    case False
    then have "tracked sl u t' = None" by (simp add: tracked_def split: option.split)
    then show ?thesis by (simp add: hop_def)
  qed
  ultimately show ?thesis using n unfolding moves_def by blast
qed

lemma moves_refl: "table_ok t \<Longrightarrow> moves 0 t t"
  by (rule movesI) (auto simp: table_ok_def intro: exI [of _ 0])

lemma moves_upd:
  assumes t: "table_ok t" and u: "\<And>c. pc_uid (f c) = pc_uid c"
    and g: "\<And>c. at_slot sl t = Some c \<Longrightarrow> session_generation (f c) = session_generation c + of_nat k"
    and h: "\<And>c. at_slot sl t = Some c \<Longrightarrow> k = 0 \<Longrightarrow>
        map_option handshake_hash (pc_session (f c)) = map_option handshake_hash (pc_session c)"
  shows "moves k t (upd_slot sl f t)"
proof (rule movesI [OF t])
  have wf: "bt_wf (extra t)" using t by (simp add: table_ok_def)
  then show "bt_wf (extra (upd_slot sl f t))" by simp
  fix sl' c' assume a: "at_slot sl' (upd_slot sl f t) = Some c'"
  show "next_uid t \<le> pc_uid c' \<and> pc_uid c' < next_uid (upd_slot sl f t)
      \<or> (\<exists>c j. at_slot sl' t = Some c \<and> pc_uid c' = pc_uid c \<and> j \<le> k
          \<and> session_generation c' = session_generation c + of_nat j
          \<and> (j = 0 \<longrightarrow> map_option handshake_hash (pc_session c') = map_option handshake_hash (pc_session c)))"
  proof (cases "sl' = sl")
    case True
    then obtain c where c: "at_slot sl t = Some c" "c' = f c"
      using a by (auto simp: at_upd_slot [OF wf])
    then show ?thesis using True u g h by (intro disjI2 exI [of _ c] exI [of _ k]) auto
  next
    case False
    then show ?thesis using a by (auto simp: at_upd_slot [OF wf] intro!: exI [of _ 0])
  qed
qed simp

lemma moves_acquire: "table_ok t \<Longrightarrow> moves 0 t (snd (acquire_conn now i t))"
proof (rule movesI)
  assume t: "table_ok t"
  then have wf: "bt_wf (extra t)" by (simp add: table_ok_def)
  then show "bt_wf (extra (snd (acquire_conn now i t)))" by (rule acquire_wf)
  have nu: "next_uid (snd (acquire_conn now i t)) =
      (if fst (acquire_conn now i t) = Extra i \<and> at_slot (Extra i) t = None then next_uid t + 1 else next_uid t)"
    by (auto simp: acquire_conn_def Let_def at_slot_def)
  then show "next_uid t \<le> next_uid (snd (acquire_conn now i t))" by simp
  fix sl c' assume "at_slot sl (snd (acquire_conn now i t)) = Some c'"
  then show "next_uid t \<le> pc_uid c' \<and> pc_uid c' < next_uid (snd (acquire_conn now i t))
      \<or> (\<exists>c k. at_slot sl t = Some c \<and> pc_uid c' = pc_uid c \<and> k \<le> 0
          \<and> session_generation c' = session_generation c + of_nat k
          \<and> (k = 0 \<longrightarrow> map_option handshake_hash (pc_session c') = map_option handshake_hash (pc_session c)))"
    by (auto simp: acquire_at [OF wf] nu conn_new_def split: if_splits)
qed

lemma push_history_fields [simp]:
  "pc_uid (push_history a c) = pc_uid c" "session_generation (push_history a c) = session_generation c"
  "pc_session (push_history a c) = pc_session c" "last_peer_id (push_history a c) = last_peer_id c"
  "last_roam_ms (push_history a c) = last_roam_ms c" "peer_addr (push_history a c) = peer_addr c"
  by (simp_all add: push_history_def)

lemma roam_fields [simp]:
  "pc_uid (roam now a c) = pc_uid c" "session_generation (roam now a c) = session_generation c"
  "pc_session (roam now a c) = pc_session c" "last_peer_id (roam now a c) = last_peer_id c"
  by (simp_all add: roam_def)

lemma received_on_fields [simp]:
  "pc_uid (received_on now a n c) = pc_uid c" "session_generation (received_on now a n c) = session_generation c"
  "pc_session (received_on now a n c) = pc_session c" "last_peer_id (received_on now a n c) = last_peer_id c"
  by (simp_all add: received_on_def)

lemma encrypt_hash: "encrypt ns p s = Inr (ct, s') \<Longrightarrow> handshake_hash s' = handshake_hash s"
  by (auto simp: encrypt_def Let_def split: sum.splits)

lemma decrypt_hash: "handshake_hash (snd (decrypt ns b s)) = handshake_hash s"
  by (auto simp: decrypt_def Let_def split: sum.splits prod.splits)

lemma moves_stamp:
  assumes "table_ok t"
  shows "moves 1 t (upd_slot sl (stamp now i s) t)"
  by (rule moves_upd [where k = 1, OF assms]) (simp_all add: stamp_def)

lemma moves_unlink:
  assumes "table_ok t"
  shows "moves 1 t (upd_slot sl unlink t)"
  by (rule moves_upd [where k = 1, OF assms]) (simp_all add: unlink_def)

lemma moves_set_peer_info:
  assumes t: "table_ok t"
  shows "moves 0 t (set_peer_info now i a t)"
proof -
  obtain sl t1 where a: "acquire_conn now i t = (sl, t1)" by force
  have 1: "moves 0 t t1" using moves_acquire [OF t, of now i] a by simp
  then have t1: "table_ok t1" by (simp add: moves_def)
  have "moves 0 t1 (upd_slot sl (\<lambda>c. push_history a
      (c\<lparr>peer_addr := Some a, last_peer_addr := Some a, last_peer_id := Some i\<rparr>)) t1)"
    by (rule moves_upd [where k = 0, OF t1]) simp_all
  from moves_trans [OF 1 this] show ?thesis by (simp add: set_peer_info_def a)
qed

lemma moves_then_info: "moves 1 t t' \<Longrightarrow> moves 1 t (set_peer_info now i a t')"
proof -
  assume m: "moves 1 t t'"
  then have "table_ok t'" by (simp add: moves_def)
  from moves_trans [OF m moves_set_peer_info [OF this]] show ?thesis by simp
qed

lemma moves_try_install:
  assumes t: "table_ok t"
  shows "moves 1 t (snd (try_install_session now i s t))"
proof -
  obtain sl t1 where a: "acquire_conn now i t = (sl, t1)" by force
  have 1: "moves 0 t t1" using moves_acquire [OF t, of now i] a by simp
  then have "table_ok t1" by (simp add: moves_def)
  from moves_trans [OF 1 moves_stamp [OF this]] moves_mono [OF 1, of 1] show ?thesis
    by (simp add: try_install_session_def a)
qed

lemma moves_cas:
  assumes t: "table_ok t"
  shows "moves 1 t (snd (install_session_if_generation_for now i s g t))"
  using moves_mono [OF moves_refl [OF t], of 1] moves_stamp [OF t]
  by (simp add: install_session_if_generation_for_def split: option.split)

lemma moves_extra_remove:
  assumes t: "table_ok t"
  shows "moves 0 t (t\<lparr>extra := bt_remove i (extra t)\<rparr>)"
proof (rule movesI [OF t])
  show "bt_wf (extra (t\<lparr>extra := bt_remove i (extra t)\<rparr>))" using t by (simp add: table_ok_def bt_wf_remove)
  fix sl c' assume "at_slot sl (t\<lparr>extra := bt_remove i (extra t)\<rparr>) = Some c'"
  then have "at_slot sl t = Some c'" by (auto simp: at_slot_def bt_get_remove split: slot.splits if_splits)
  then show "next_uid t \<le> pc_uid c' \<and> pc_uid c' < next_uid (t\<lparr>extra := bt_remove i (extra t)\<rparr>)
      \<or> (\<exists>c k. at_slot sl t = Some c \<and> pc_uid c' = pc_uid c \<and> k \<le> 0
          \<and> session_generation c' = session_generation c + of_nat k
          \<and> (k = 0 \<longrightarrow> map_option handshake_hash (pc_session c') = map_option handshake_hash (pc_session c)))"
    by (intro disjI2 exI [of _ c'] exI [of _ 0]) simp
qed simp

lemma moves_drop:
  assumes t: "table_ok t"
  shows "moves 1 t (drop_session_for i t)"
  using moves_mono [OF moves_refl [OF t], of 1] moves_unlink [OF t]
  by (simp add: drop_session_for_def split: option.split)

lemma moves_purge:
  assumes t: "table_ok t"
  shows "moves 1 t (purge_peer i t)"
proof -
  have 1: "moves 1 t (drop_session_for i t)" by (rule moves_drop [OF t])
  then have "table_ok (drop_session_for i t)" by (simp add: moves_def)
  from moves_trans [OF 1 moves_extra_remove [OF this]] show ?thesis by (simp add: purge_peer_def Let_def)
qed

lemma promote_cases:
  obtains "live_extra t = []" "promote_secondary now t = (None, t)"
  | i sec c where "promote_secondary now t = (Some i, t\<lparr>extra := bt_remove i (extra t), conn := c\<rparr>)"
      "(i, sec) \<in> set (extra t)" "pc_session sec \<noteq> None"
      "pc_session c = pc_session sec" "last_peer_id c = Some i" "peer_addr c = peer_addr sec"
      "last_rx_ms c = last_rx_ms sec" "session_generation c = session_generation (conn t) + 1"
      "pc_uid c = pc_uid (conn t)" "roaming_history c = roaming_history (conn t)"
proof (cases "live_extra t")
  case Nil
  then show ?thesis by (intro that(1)) (simp_all add: promote_secondary_def)
next
  case (Cons e es)
  obtain i sec where e: "e = (i, sec)" by force
  have "e \<in> set (live_extra t)" unfolding Cons by simp
  then have m: "(i, sec) \<in> set (extra t)" "pc_session sec \<noteq> None" by (auto simp: e live_extra_def)
  obtain c where c: "promote_secondary now t = (Some i, t\<lparr>extra := bt_remove i (extra t), conn := c\<rparr>)"
      "pc_session c = pc_session sec" "last_peer_id c = Some i" "peer_addr c = peer_addr sec"
      "last_rx_ms c = last_rx_ms sec" "session_generation c = session_generation (conn t) + 1"
      "pc_uid c = pc_uid (conn t)" "roaming_history c = roaming_history (conn t)"
    by (auto simp: promote_secondary_def Cons e Let_def split: option.splits)
  show ?thesis by (rule that(2) [OF c(1) m c(2-)])
qed

lemma moves_promote:
  assumes t: "table_ok t"
  shows "moves 1 t (snd (promote_secondary now t))"
proof (cases rule: promote_cases [of t now])
  case 1
  then show ?thesis using moves_mono [OF moves_refl [OF t], of 1] by simp
next
  case (2 i sec c)
  have r: "moves 0 t (t\<lparr>extra := bt_remove i (extra t)\<rparr>)" by (rule moves_extra_remove [OF t])
  then have ok: "table_ok (t\<lparr>extra := bt_remove i (extra t)\<rparr>)" by (simp add: moves_def)
  have "moves 1 (t\<lparr>extra := bt_remove i (extra t)\<rparr>) (t\<lparr>extra := bt_remove i (extra t), conn := c\<rparr>)"
  proof (rule movesI [OF ok])
    show "bt_wf (extra (t\<lparr>extra := bt_remove i (extra t), conn := c\<rparr>))" using ok by (simp add: table_ok_def)
    fix sl c' assume a: "at_slot sl (t\<lparr>extra := bt_remove i (extra t), conn := c\<rparr>) = Some c'"
    show "next_uid (t\<lparr>extra := bt_remove i (extra t)\<rparr>) \<le> pc_uid c' \<and> pc_uid c' < next_uid (t\<lparr>extra := bt_remove i (extra t), conn := c\<rparr>)
      \<or> (\<exists>d k. at_slot sl (t\<lparr>extra := bt_remove i (extra t)\<rparr>) = Some d \<and> pc_uid c' = pc_uid d \<and> k \<le> 1
          \<and> session_generation c' = session_generation d + of_nat k
          \<and> (k = 0 \<longrightarrow> map_option handshake_hash (pc_session c') = map_option handshake_hash (pc_session d)))"
    proof (cases sl)
      case Primary
      then show ?thesis using a 2 by (intro disjI2 exI [of _ "conn t"] exI [of _ 1]) (simp add: at_slot_def)
    next
      case (Extra k)
      then show ?thesis using a by (intro disjI2 exI [of _ c'] exI [of _ 0]) (simp add: at_slot_def)
    qed
  qed simp
  from moves_trans [OF r this] show ?thesis using 2(1) by simp
qed

lemma moves_commit:
  assumes t: "table_ok t"
  shows "moves 0 t (snd (send_commit ns p ps t))"
proof (cases "fst (send_commit ns p ps t)")
  case (Inl e)
  then have "snd (send_commit ns p ps t) = t"
    by (auto simp: send_commit_def split: option.splits sum.splits if_splits prod.splits)
  then show ?thesis using moves_refl [OF t] by simp
next
  case (Inr r)
  then obtain c s ct s' where c: "at_slot (ps_slot ps) t = Some c" "pc_session c = Some s"
      "encrypt ns p s = Inr (ct, s')"
    and sn: "snd (send_commit ns p ps t) = upd_slot (ps_slot ps) (\<lambda>c. c\<lparr>pc_session := Some s',
        bytes_since_established := bytes_since_established c + of_nat (length ct)\<rparr>) t"
    by (auto simp: send_commit_def split: option.splits sum.splits if_splits prod.splits)
  have "moves 0 t (upd_slot (ps_slot ps) (\<lambda>c. c\<lparr>pc_session := Some s',
        bytes_since_established := bytes_since_established c + of_nat (length ct)\<rparr>) t)"
    by (rule moves_upd [where k = 0, OF t]) (simp_all add: c encrypt_hash [OF c(3)])
  then show ?thesis by (simp add: sn)
qed

lemma moves_send:
  assumes t: "table_ok t"
  shows "moves 0 t (snd (send_encrypted_to ns i p t))"
  using moves_refl [OF t] moves_commit [OF t]
  by (simp add: send_encrypted_to_def send_on_def split: option.split sum.split)

lemma moves_try_decrypt:
  assumes "table_ok t"
  shows "moves 0 t (snd (try_decrypt ns b cs tried t))"
  using assms
proof (induction ns b cs tried t rule: try_decrypt.induct)
  case (1 ns b tried t)
  then show ?case by (simp add: moves_refl)
next
  case (2 ns b i sl cs tried t)
  show ?case
  proof (cases "session_at sl t")
    case None
    then show ?thesis using 2(1) [OF None 2(3)] by simp
  next
    case (Some s)
    obtain r s' where d: "decrypt ns b s = (r, s')" by force
    let ?t = "upd_slot sl (\<lambda>c. c\<lparr>pc_session := Some s'\<rparr>) t"
    have m: "moves 0 t ?t"
      using decrypt_hash [of ns b s] d Some
      by (intro moves_upd [where k = 0, OF 2(3)]) (auto simp: session_at_def)
    then have t': "table_ok ?t" by (simp add: moves_def)
    show ?thesis
    proof (cases r)
      case (Inl e)
      have "moves 0 ?t (snd (try_decrypt ns b cs True ?t))" using 2(2) [OF Some d [symmetric] refl refl Inl t'] .
      from moves_trans [OF m this] show ?thesis by (simp add: Some d Inl)
    next
      case (Inr p)
      then show ?thesis using m by (simp add: Some d)
    qed
  qed
qed

lemma at_slot_failures [simp]: "at_slot sl (t\<lparr>decrypt_failures := n\<rparr>) = at_slot sl t"
  by (simp add: at_slot_def split: slot.split)

lemma moves_recv:
  assumes t: "table_ok t"
  shows "moves 0 t (snd (recv ns now from d t))"
proof -
  have enc: "moves 0 t (snd (recv_encrypted ns now from b t))" for b
  proof -
    obtain r t1 where d: "try_decrypt ns b (candidates t) False t = (r, t1)" by force
    have m: "moves 0 t t1" using moves_try_decrypt [OF t, of ns b "candidates t" False] d by simp
    then have t1: "table_ok t1" by (simp add: moves_def)
    have u: "moves 0 t (upd_slot sl (received_on now from n) t1)" for sl n
      using moves_trans [OF m moves_upd [where k = 0, OF t1, of "received_on now from n" sl]] by simp
    have f: "moves 0 t (t1\<lparr>decrypt_failures := n\<rparr>)" for n
      using m by (simp add: moves_def table_ok_def tracked_def)
    show ?thesis using m u f by (auto simp: recv_encrypted_def d split: sum.splits recv_error.splits)
  qed
  show ?thesis using enc moves_refl [OF t] by (simp add: recv_def split: list.split)
qed

lemma moves_step:
  assumes t: "table_ok t"
  shows "moves 1 t (link_step ns p t)"
proof (cases p)
  case (LinkUp now i s a)
  then show ?thesis
    using moves_try_install [OF t, of now i s] moves_then_info [of t _ now i a]
    by (simp add: link_up_def case_prod_unfold Let_def)
next
  case (Relink now i s g a)
  then show ?thesis
    using moves_cas [OF t, of now i s g] moves_then_info [of t _ now i a]
    by (simp add: relink_def case_prod_unfold Let_def)
next
  case DropPrimary
  then show ?thesis using moves_unlink [OF t] by (simp add: drop_session_def)
qed (simp_all add: moves_drop [OF t, simplified] moves_purge [OF t, simplified] moves_promote [OF t, simplified]
    moves_mono [OF moves_send [OF t]] moves_mono [OF moves_recv [OF t]])

lemma moves_run: "table_ok t \<Longrightarrow> moves (length ps) t (fold (link_step ns) ps t)"
proof (induction ps arbitrary: t)
  case Nil
  then show ?case by (simp add: moves_refl)
next
  case (Cons p ps)
  have 1: "moves 1 t (link_step ns p t)" using Cons.prems by (rule moves_step)
  then have "table_ok (link_step ns p t)" by (simp add: moves_def)
  from moves_trans [OF 1 Cons.IH [OF this]] show ?case by simp
qed

lemma of_nat_u64_zero: "of_nat k = (0 :: u64) \<Longrightarrow> k < 2 ^ 64 \<Longrightarrow> k = 0"
  by (auto simp: word_of_nat_eq_0_iff dest: nat_dvd_not_less)


section \<open>One link per peer\<close>

definition no_shadow :: "'t net \<Rightarrow> bool" where
  "no_shadow t \<longleftrightarrow> bt_wf (extra t)
     \<and> (pc_session (conn t) \<noteq> None \<longrightarrow> last_peer_id (conn t) \<noteq> None)
     \<and> (\<forall>i. last_peer_id (conn t) = Some i \<longrightarrow> session_at (Extra i) t = None)"

text \<open>
  The states the daemon reaches when its callers keep two rules: a session is not put up for a peer that
  has one as a secondary, and the session of a secondary is not replaced while the primary is down.
\<close>

fun keeps_rules :: "'t link_op \<Rightarrow> 't net \<Rightarrow> bool" where
  "keeps_rules (LinkUp now i s a) t \<longleftrightarrow> session_at (Extra i) t = None"
| "keeps_rules (Relink now i s g a) t \<longleftrightarrow> has_session t \<or> conn_for i t \<noteq> Some (Extra i)"
| "keeps_rules _ t \<longleftrightarrow> True"

inductive net_reach :: "'t noise \<Rightarrow> 't net \<Rightarrow> bool" for ns where
  boot: "net_reach ns (net_new now)"
| step: "net_reach ns t \<Longrightarrow> keeps_rules p t \<Longrightarrow> net_reach ns (link_step ns p t)"

lemma session_upd_slot:
  "bt_wf (extra t) \<Longrightarrow> session_at sl' (upd_slot sl f t)
     = (if sl' = sl then (case at_slot sl t of Some c \<Rightarrow> pc_session (f c) | None \<Rightarrow> None) else session_at sl' t)"
  by (simp add: session_at_def at_upd_slot split: option.split)

lemma conn_upd_slot: "conn (upd_slot sl f t) = (if sl = Primary then f (conn t) else conn t)"
  by (simp add: upd_slot_def split: slot.split option.split)

lemma session_at_primary: "session_at Primary t = pc_session (conn t)"
  by (simp add: session_at_def at_slot_def)

lemma session_acquire:
  "bt_wf (extra t) \<Longrightarrow> session_at sl (snd (acquire_conn now i t)) = session_at sl t"
  by (auto simp: session_at_def acquire_at conn_new_def split: option.splits)

text \<open>Sessions may only go, never come, and the primary keeps its peer: the link rule stays.\<close>

lemma no_shadow_less:
  assumes "no_shadow t" and "bt_wf (extra t')" and "last_peer_id (conn t') = last_peer_id (conn t)"
    and "\<And>sl. session_at sl t' \<noteq> None \<Longrightarrow> session_at sl t \<noteq> None"
  shows "no_shadow t'"
proof -
  have "session_at (Extra i) t' = None" if "last_peer_id (conn t') = Some i" for i
  proof (rule ccontr)
    assume "session_at (Extra i) t' \<noteq> None"
    then have "session_at (Extra i) t \<noteq> None" by (rule assms(4))
    then show False using that assms(1,3) by (simp add: no_shadow_def)
  qed
  then show ?thesis
    using assms(1-3) assms(4) [of Primary] by (auto simp: no_shadow_def session_at_primary)
qed

lemma no_shadow_upd:
  assumes n: "no_shadow t" and f: "\<And>c. last_peer_id (f c) = last_peer_id c"
    and s: "\<And>c. at_slot sl t = Some c \<Longrightarrow> pc_session (f c) \<noteq> None \<Longrightarrow> pc_session c \<noteq> None"
  shows "no_shadow (upd_slot sl f t)"
proof (rule no_shadow_less [OF n])
  have wf: "bt_wf (extra t)" using n by (simp add: no_shadow_def)
  then show "bt_wf (extra (upd_slot sl f t))" by simp
  show "last_peer_id (conn (upd_slot sl f t)) = last_peer_id (conn t)" by (simp add: conn_upd_slot f)
  fix sl' assume "session_at sl' (upd_slot sl f t) \<noteq> None"
  then show "session_at sl' t \<noteq> None"
    unfolding session_upd_slot [OF wf] using s by (auto simp: session_at_def split: if_splits option.splits)
qed

lemma set_peer_info_known:
  assumes n: "no_shadow t" and k: "last_peer_id (conn t) = Some i \<or> has_session t"
  shows "no_shadow (set_peer_info now i a t)"
proof -
  obtain sl t1 where a: "acquire_conn now i t = (sl, t1)" by force
  have wf: "bt_wf (extra t)" using n by (simp add: no_shadow_def)
  have wf1: "bt_wf (extra t1)" and c: "conn t1 = conn t" and s: "\<And>sl. session_at sl t1 = session_at sl t"
    using acquire_wf [OF wf, of now i] acquire_conn_same [of now i t] session_acquire [OF wf, of _ now i] a by simp_all
  have sl: "sl = (if last_peer_id (conn t) = Some i then Primary else Extra i)"
    using a k n by (auto simp: acquire_conn_def Let_def has_session_def no_shadow_def split: if_splits)
  let ?f = "\<lambda>c. push_history a (c\<lparr>peer_addr := Some a, last_peer_addr := Some a, last_peer_id := Some i\<rparr>)"
  have "no_shadow (upd_slot sl ?f t1)"
  proof (rule no_shadow_less [OF n])
    show "bt_wf (extra (upd_slot sl ?f t1))" using wf1 by simp
    show "last_peer_id (conn (upd_slot sl ?f t1)) = last_peer_id (conn t)" by (simp add: conn_upd_slot c sl)
    fix sl' assume "session_at sl' (upd_slot sl ?f t1) \<noteq> None"
    then have "session_at sl' t1 \<noteq> None"
      unfolding session_upd_slot [OF wf1] by (auto simp: session_at_def split: if_splits option.splits)
    then show "session_at sl' t \<noteq> None" by (simp add: s)
  qed
  then show ?thesis by (simp add: set_peer_info_def a)
qed

lemma stamp_primary:
  assumes n: "no_shadow t" and i: "session_at (Extra i) t = None"
  shows "no_shadow (upd_slot Primary (stamp now i s) t) \<and> last_peer_id (conn (upd_slot Primary (stamp now i s) t)) = Some i"
  using assms by (auto simp: no_shadow_def conn_upd_slot session_upd_slot stamp_def)

lemma stamp_extra:
  assumes n: "no_shadow t" and i: "last_peer_id (conn t) \<noteq> Some i"
  shows "no_shadow (upd_slot (Extra i) (stamp now i s) t)"
  using assms by (auto simp: no_shadow_def conn_upd_slot session_upd_slot)

lemma no_shadow_link_up:
  assumes n: "no_shadow t" and i: "session_at (Extra i) t = None"
  shows "no_shadow (link_up now i s a t)"
proof -
  obtain sl t1 where a: "acquire_conn now i t = (sl, t1)" by force
  have wf: "bt_wf (extra t)" using n by (simp add: no_shadow_def)
  have c: "conn t1 = conn t" "bt_wf (extra t1)" "\<And>sl. session_at sl t1 = session_at sl t"
    using acquire_wf [OF wf, of now i] acquire_conn_same [of now i t] session_acquire [OF wf, of _ now i] a by simp_all
  have n1: "no_shadow t1" using n c by (simp add: no_shadow_def)
  show ?thesis
  proof (cases sl)
    case Primary
    show ?thesis
    proof (cases "pc_session (conn t)")
      case None
      have "no_shadow (upd_slot Primary (stamp now i s) t1)" "last_peer_id (conn (upd_slot Primary (stamp now i s) t1)) = Some i"
        using stamp_primary [OF n1, of i now s] i c by simp_all
      then have "no_shadow (set_peer_info now i a (upd_slot Primary (stamp now i s) t1))"
        by (intro set_peer_info_known) simp_all
      then show ?thesis
        using None Primary by (simp add: link_up_def try_install_session_def a session_at_primary c)
    next
      case (Some s)
      then show ?thesis
        using Primary n1 by (simp add: link_up_def try_install_session_def a session_at_primary c)
    qed
  next
    case (Extra k)
    then have k: "k = i" "last_peer_id (conn t) \<noteq> Some i" "has_session t"
      using a by (auto simp: acquire_conn_def Let_def has_session_def split: if_splits)
    have "no_shadow (upd_slot (Extra i) (stamp now i s) t1)"
      using stamp_extra [OF n1] k c by simp
    moreover have "has_session (upd_slot (Extra i) (stamp now i s) t1)"
      using k c by (simp add: has_session_def conn_upd_slot)
    ultimately have "no_shadow (set_peer_info now i a (upd_slot (Extra i) (stamp now i s) t1))"
      by (intro set_peer_info_known) simp_all
    then show ?thesis using Extra k i c n1 by (simp add: link_up_def try_install_session_def a)
  qed
qed

lemma no_shadow_relink:
  assumes n: "no_shadow t" and r: "has_session t \<or> conn_for i t \<noteq> Some (Extra i)"
  shows "no_shadow (relink now i s g a t)"
proof (cases "fst (install_session_if_generation_for now i s g t)")
  case False
  then show ?thesis
    using n by (auto simp: relink_def install_session_if_generation_for_def split: option.splits if_splits)
next
  case True
  then obtain sl where sl: "conn_for i t = Some sl"
    and r': "relink now i s g a t = set_peer_info now i a (upd_slot sl (stamp now i s) t)"
    by (auto simp: relink_def install_session_if_generation_for_def split: option.splits if_splits)
  show ?thesis
  proof (cases "last_peer_id (conn t) = Some i")
    case True
    then have "sl = Primary" "session_at (Extra i) t = None"
      using sl n by (simp_all add: conn_for_def no_shadow_def)
    then show ?thesis
      using stamp_primary [OF n, of i now s] unfolding r' by (intro set_peer_info_known) simp_all
  next
    case False
    then have e: "sl = Extra i" using sl by (auto simp: conn_for_def split: option.splits)
    then have "has_session (upd_slot sl (stamp now i s) t)"
      using r sl by (simp add: has_session_def conn_upd_slot)
    then show ?thesis
      using stamp_extra [OF n False] e unfolding r' by (intro set_peer_info_known) simp_all
  qed
qed

lemma bt_get_live: "bt_wf m \<Longrightarrow> (i, c) \<in> set m \<Longrightarrow> bt_get m i = Some c"
  by (rule bt_get_mem)

lemma session_extra: "session_at (Extra i) t = (case bt_get (extra t) i of Some c \<Rightarrow> pc_session c | None \<Rightarrow> None)"
  by (simp add: session_at_def at_slot_def)

lemma live_extra_iff:
  assumes "bt_wf (extra t)"
  shows "i \<in> fst ` set (live_extra t) \<longleftrightarrow> session_at (Extra i) t \<noteq> None"
proof
  assume "i \<in> fst ` set (live_extra t)"
  then obtain c where "(i, c) \<in> set (extra t)" "pc_session c \<noteq> None" by (auto simp: live_extra_def)
  then show "session_at (Extra i) t \<noteq> None" using bt_get_mem [OF assms] by (simp add: session_extra)
next
  assume "session_at (Extra i) t \<noteq> None"
  then obtain c where "bt_get (extra t) i = Some c" "pc_session c \<noteq> None"
    by (auto simp: session_extra split: option.splits)
  then have "(i, c) \<in> set (live_extra t)" by (auto simp: live_extra_def dest: bt_get_Some_mem)
  then show "i \<in> fst ` set (live_extra t)" by force
qed

lemma has_session_alt:
  "has_session_for i t \<longleftrightarrow> (case conn_for i t of Some sl \<Rightarrow> session_at sl t \<noteq> None | None \<Rightarrow> False)"
  by (simp add: has_session_for_def read_for_def session_at_def split: option.split)

lemma conn_for_inj: "conn_for i t = Some sl \<Longrightarrow> conn_for j t = Some sl \<Longrightarrow> i = j"
  by (auto simp: conn_for_def split: if_splits option.splits)

lemma conn_for_alt:
  "conn_for i t = (if last_peer_id (conn t) = Some i then Some Primary
     else if at_slot (Extra i) t = None then None else Some (Extra i))"
  by (simp add: conn_for_def at_slot_def split: option.split)

lemma conn_for_upd:
  "bt_wf (extra t) \<Longrightarrow> (\<And>c. last_peer_id (f c) = last_peer_id c) \<Longrightarrow> conn_for i (upd_slot sl f t) = conn_for i t"
  by (auto simp: conn_for_alt conn_upd_slot at_upd_slot)

lemma has_session_drop:
  assumes wf: "bt_wf (extra t)"
  shows "has_session_for j (drop_session_for i t) \<longleftrightarrow> has_session_for j t \<and> j \<noteq> i"
proof (cases "conn_for i t")
  case None
  then show ?thesis by (auto simp: drop_session_for_def has_session_alt)
next
  case (Some sl)
  have c: "conn_for j (upd_slot sl unlink t) = conn_for j t"
    by (rule conn_for_upd [OF wf]) (simp add: unlink_def)
  have s: "session_at sl' (upd_slot sl unlink t) = (if sl' = sl then None else session_at sl' t)" for sl'
    by (simp add: session_upd_slot [OF wf] unlink_def split: option.split)
  have "conn_for j t = Some sl \<longleftrightarrow> j = i" using Some conn_for_inj by auto
  then show ?thesis
    by (auto simp: drop_session_for_def Some has_session_alt c s split: option.split)
qed

lemma linked_iff:
  assumes "no_shadow t"
  shows "i \<in> set (linked_peer_ids t) \<longleftrightarrow> has_session_for i t"
proof -
  have wf: "bt_wf (extra t)" using assms by (simp add: no_shadow_def)
  have l: "i \<in> set (linked_peer_ids t) \<longleftrightarrow>
      pc_session (conn t) \<noteq> None \<and> last_peer_id (conn t) = Some i \<or> session_at (Extra i) t \<noteq> None"
    unfolding live_extra_iff [OF wf, symmetric] linked_peer_ids_def
    by (cases "last_peer_id (conn t)"; cases "pc_session (conn t)") auto
  show ?thesis
  proof (cases "last_peer_id (conn t) = Some i")
    case True
    then have "session_at (Extra i) t = None" using assms by (simp add: no_shadow_def)
    then show ?thesis using True by (simp add: l has_session_alt conn_for_def session_at_primary)
  next
    case False
    then show ?thesis by (simp add: l has_session_alt conn_for_def session_extra split: option.split)
  qed
qed

lemma distinct_linked:
  assumes n: "no_shadow t"
  shows "distinct (linked_peer_ids t)"
proof -
  have wf: "bt_wf (extra t)" using n by (simp add: no_shadow_def)
  then have "distinct (map fst (live_extra t))"
    unfolding live_extra_def by (intro distinct_map_filter bt_wf_distinct)
  moreover have "i \<notin> fst ` set (live_extra t)" if "last_peer_id (conn t) = Some i" for i
    unfolding live_extra_iff [OF wf] using n that by (simp add: no_shadow_def)
  ultimately show ?thesis
    unfolding linked_peer_ids_def by (cases "last_peer_id (conn t)"; cases "pc_session (conn t)") simp_all
qed

lemma no_shadow_promote:
  assumes n: "no_shadow t"
  shows "no_shadow (snd (promote_secondary now t))"
proof (cases rule: promote_cases [of t now])
  case (2 i sec c)
  then show ?thesis
    using n by (auto simp: no_shadow_def session_extra bt_wf_remove bt_get_remove)
qed (use n in simp)

lemma no_shadow_remove:
  assumes "no_shadow t"
  shows "no_shadow (t\<lparr>extra := bt_remove i (extra t)\<rparr>)"
  using assms by (auto simp: no_shadow_def session_extra bt_wf_remove bt_get_remove)

lemma no_shadow_unlink: "no_shadow t \<Longrightarrow> no_shadow (upd_slot sl unlink t)"
  by (rule no_shadow_upd) (simp_all add: unlink_def)

lemma no_shadow_drop: "no_shadow t \<Longrightarrow> no_shadow (drop_session_for i t)"
  by (simp add: drop_session_for_def no_shadow_unlink split: option.split)

lemma no_shadow_send: "no_shadow t \<Longrightarrow> no_shadow (snd (send_encrypted_to ns i p t))"
proof -
  assume n: "no_shadow t"
  have "no_shadow (upd_slot sl (\<lambda>c. c\<lparr>pc_session := Some s, bytes_since_established := f c\<rparr>) t)"
    if "at_slot sl t = Some c" "pc_session c = Some s0" for sl c s s0 f
    using that by (intro no_shadow_upd [OF n]) simp_all
  then show ?thesis
    using n by (auto simp: send_encrypted_to_def send_on_def send_commit_def split: option.splits sum.splits prod.splits)
qed

lemma no_shadow_try_decrypt: "no_shadow t \<Longrightarrow> no_shadow (snd (try_decrypt ns b cs tried t))"
proof (induction ns b cs tried t rule: try_decrypt.induct)
  case (2 ns b i sl cs tried t)
  show ?case
  proof (cases "session_at sl t")
    case None
    then show ?thesis using 2(1) [OF None 2(3)] by simp
  next
    case (Some s)
    obtain r s' where d: "decrypt ns b s = (r, s')" by force
    have m: "no_shadow (upd_slot sl (\<lambda>c. c\<lparr>pc_session := Some s'\<rparr>) t)"
      using Some by (intro no_shadow_upd [OF 2(3)]) (auto simp: session_at_def)
    show ?thesis
    proof (cases r)
      case (Inl e)
      show ?thesis using 2(2) [OF Some d [symmetric] refl refl Inl m] by (simp add: Some d Inl)
    next
      case (Inr p)
      then show ?thesis using m by (simp add: Some d)
    qed
  qed
qed simp

lemma no_shadow_recv: "no_shadow t \<Longrightarrow> no_shadow (snd (recv ns now from d t))"
proof -
  assume n: "no_shadow t"
  have "no_shadow (snd (recv_encrypted ns now from b t))" for b
  proof -
    obtain r t1 where d: "try_decrypt ns b (candidates t) False t = (r, t1)" by force
    have m: "no_shadow t1" using no_shadow_try_decrypt [OF n, of ns b "candidates t" False] d by simp
    have u: "no_shadow (upd_slot sl (received_on now from k) t1)" for sl k
      by (rule no_shadow_upd [OF m]) simp_all
    have f: "no_shadow (t1\<lparr>decrypt_failures := k\<rparr>)" for k
      using m by (simp add: no_shadow_def session_extra)
    show ?thesis using m u f by (auto simp: recv_encrypted_def d split: sum.splits recv_error.splits)
  qed
  then show ?thesis using n by (simp add: recv_def split: list.split)
qed

lemma no_shadow_step:
  assumes "no_shadow t" and "keeps_rules p t"
  shows "no_shadow (link_step ns p t)"
  using assms
  by (cases p) (simp_all add: no_shadow_link_up no_shadow_relink no_shadow_drop drop_session_def no_shadow_unlink
      purge_peer_def Let_def no_shadow_remove no_shadow_promote no_shadow_send no_shadow_recv)

lemma net_reach_ok: "net_reach ns t \<Longrightarrow> no_shadow t"
proof (induction rule: net_reach.induct)
  case (boot now)
  show ?case by (simp add: no_shadow_def net_new_def conn_new_def)
qed (rule no_shadow_step)


definition quiet_noise :: "unit noise" where
  "quiet_noise = \<lparr>sending_nonce = \<lambda>_. 0, set_receiving_nonce = \<lambda>_ t. t,
     write_message = \<lambda>t p. Inr (p @ replicate 16 0, t), read_message = \<lambda>t c. (Inr (take (length c - 16) c), t)\<rparr>"

definition demo_session :: "u8 \<Rightarrow> unit session" where
  "demo_session k = session_new () [k]"

text \<open>A primary \<open>[1]\<close> and a secondary \<open>[2]\<close>; then the primary is gone.\<close>

definition demo_net :: "unit net" where
  "demo_net = fold (link_step quiet_noise)
     [LinkUp 5 [1] (demo_session 1) ([10], 9), LinkUp 6 [2] (demo_session 2) ([11], 9), Drop [1]] (net_new 0)"

lemmas link_eval = link_up_def relink_def try_install_session_def acquire_conn_def set_peer_info_def net_new_def conn_new_def
  upd_slot_def at_slot_def session_at_def stamp_def push_history_def bt_get_def conn_for_def drop_session_for_def
  unlink_def demo_session_def session_new_def Let_def

lemma demo_net_eval:
  "session_at Primary demo_net = None" "session_at (Extra [2]) demo_net = Some (demo_session 2)"
  "cached_peer_id demo_net = Some [1]" "linked_peer_ids demo_net = [[2]]"
  "map_option pc_uid (at_slot (Extra [2]) demo_net) = Some 1"
  by (simp_all add: demo_net_def link_eval cached_peer_id_def linked_peer_ids_def live_extra_def)

lemma demo_net_reach: "net_reach quiet_noise demo_net"
proof -
  have 1: "net_reach quiet_noise (link_step quiet_noise (LinkUp 5 [1] (demo_session 1) ([10], 9)) (net_new 0))"
    by (rule net_reach.step [OF net_reach.boot]) (simp add: link_eval)
  have 2: "net_reach quiet_noise (link_step quiet_noise (LinkUp 6 [2] (demo_session 2) ([11], 9))
      (link_step quiet_noise (LinkUp 5 [1] (demo_session 1) ([10], 9)) (net_new 0)))"
    by (rule net_reach.step [OF 1]) (simp add: link_eval)
  show ?thesis
    using net_reach.step [OF 2, of "Drop [1]"] by (simp add: demo_net_def)
qed



section \<open>Failover\<close>

text \<open>
  When the primary link is gone, the failover moves a live secondary into its place with its session
  and address, keeps every other link, and does nothing exactly when no secondary is live.
\<close>

theorem failover_keeps_the_mesh:
  assumes "net_reach ns t" and "\<not> has_session t"
  shows "case promote_secondary now t of
      (None, t') \<Rightarrow> t' = t \<and> linked_peer_ids t = []
    | (Some i, t') \<Rightarrow> session_at Primary t' = session_at (Extra i) t \<and> cached_peer_id t' = Some i
        \<and> has_session_for i t' \<and> peer_addr_for i t' = peer_addr_for i t
        \<and> set (linked_peer_ids t') = set (linked_peer_ids t)
        \<and> (\<forall>j. j \<noteq> i \<longrightarrow> session_at (Extra j) t' = session_at (Extra j) t)"
proof (cases rule: promote_cases [of t now])
  case 1
  then show ?thesis using assms(2) by (simp add: linked_peer_ids_def has_session_def)
next
  case (2 i sec c)
  have n: "no_shadow t" by (rule net_reach_ok [OF assms(1)])
  then have g: "bt_get (extra t) i = Some sec" using 2(2) by (auto simp: no_shadow_def intro: bt_get_mem)
  then have s: "session_at (Extra i) t = pc_session sec" by (simp add: session_extra)
  then have ne: "last_peer_id (conn t) \<noteq> Some i" using n 2(3) by (auto simp: no_shadow_def)
  let ?t = "t\<lparr>extra := bt_remove i (extra t), conn := c\<rparr>"
  have n': "no_shadow ?t" using no_shadow_promote [OF n, of now] 2(1) by simp
  have o: "session_at (Extra j) ?t = session_at (Extra j) t" if "j \<noteq> i" for j
    using that by (simp add: session_extra bt_get_remove)
  have h: "has_session_for j ?t \<longleftrightarrow> has_session_for j t" for j
  proof (cases "j = i")
    case True
    then show ?thesis using 2 s ne by (simp add: has_session_alt conn_for_alt session_at_primary at_slot_def g)
  next
    case False
    have "has_session_for j t \<longleftrightarrow> session_at (Extra j) t \<noteq> None"
      using assms(2) n by (auto simp: has_session_alt conn_for_alt session_at_primary has_session_def no_shadow_def
          at_slot_def session_extra)
    then show ?thesis
      using False 2(5) o [OF False] by (auto simp: has_session_alt conn_for_alt at_slot_def session_extra)
  qed
  have l: "set (linked_peer_ids ?t) = set (linked_peer_ids t)"
    using linked_iff [OF n] linked_iff [OF n'] h by blast
  have a: "peer_addr_for i ?t = peer_addr_for i t"
    using 2 ne by (simp add: peer_addr_for_def read_for_def conn_for_alt at_slot_def g)
  have "has_session_for i ?t"
    using 2 by (simp add: has_session_alt conn_for_alt session_at_primary)
  then show ?thesis
    using 2(1,4,5) s l a o by (simp add: session_at_primary cached_peer_id_def)
qed

theorem failover_keeps_the_mesh_witness:
  "fst (promote_secondary 9 demo_net) = Some [2]
   \<and> set (linked_peer_ids (snd (promote_secondary 9 demo_net))) = {[2]}"
proof -
  have "\<not> has_session demo_net" using demo_net_eval(1) by (simp add: has_session_def session_at_primary)
  note f = failover_keeps_the_mesh [OF demo_net_reach this, of 9]
  have p: "fst (promote_secondary 9 demo_net) = Some [2]"
    by (simp add: demo_net_def link_eval promote_secondary_def live_extra_def)
  then obtain t' where "promote_secondary 9 demo_net = (Some [2], t')" by (metis prod.collapse)
  with f p demo_net_eval(4) show ?thesis by simp
qed

section \<open>Roaming\<close>

text \<open>The datagrams a connection receives: time, source and size; \<open>repins\<close> counts the accepted roams.\<close>

fun repins :: "(millis \<times> sock_addr \<times> nat) list \<Rightarrow> 't peer_conn \<Rightarrow> nat" where
  "repins [] c = 0"
| "repins ((now, a, n) # es) c =
     (if peer_addr (received_on now a n c) = peer_addr c then 0 else 1) + repins es (received_on now a n c)"

lemma received_on_roam:
  "peer_addr (received_on now a n c) = peer_addr c \<and> last_roam_ms (received_on now a n c) = last_roam_ms c
   \<or> roam_allowed now (last_roam_ms c) \<and> last_roam_ms (received_on now a n c) = now"
  by (simp add: received_on_def roam_def)

lemma repins_since:
  "\<forall>e\<in>set es. fst e \<le> t1 \<Longrightarrow> repins es c \<le> (t1 - last_roam_ms c) div 30000"
proof (induction es arbitrary: c)
  case (Cons e es)
  obtain now a n where e: "e = (now, a, n)" by (cases e)
  let ?c = "received_on now a n c"
  have IH: "repins es ?c \<le> (t1 - last_roam_ms ?c) div 30000" using Cons by simp
  show ?case
  proof (cases "peer_addr ?c = peer_addr c \<and> last_roam_ms ?c = last_roam_ms c")
    case True
    then show ?thesis using IH by (simp add: e)
  next
    case False
    then have r: "roam_allowed now (last_roam_ms c)" "last_roam_ms ?c = now" using received_on_roam by blast+
    have "now \<le> t1" using Cons.prems by (simp add: e)
    then have "(t1 - now) + 30000 \<le> t1 - last_roam_ms c"
      using r(1) by (simp add: roam_allowed_def ROAM_MIN_INTERVAL_MS_def)
    then have "((t1 - now) + 30000) div 30000 \<le> (t1 - last_roam_ms c) div 30000" by (rule div_le_mono)
    moreover have "((t1 - now) + 30000) div 30000 = (t1 - now) div 30000 + 1" by simp
    ultimately have "(t1 - now) div 30000 + 1 \<le> (t1 - last_roam_ms c) div 30000" by simp
    then show ?thesis using IH r(2) by (simp add: e)
  qed
qed simp

text \<open>
  However many authentic datagrams an attacker on the network relays or replays to a connection, from
  whatever addresses, its peer address is re-pinned at most once, and once more per 30 seconds.
\<close>

theorem roaming_is_rate_limited:
  assumes "\<forall>e\<in>set es. t0 \<le> fst e \<and> fst e \<le> t1"
  shows "repins es c \<le> 1 + (t1 - t0) div ROAM_MIN_INTERVAL_MS"
  using assms
proof (induction es arbitrary: c)
  case (Cons e es)
  obtain now a n where e: "e = (now, a, n)" by (cases e)
  let ?c = "received_on now a n c"
  show ?case
  proof (cases "peer_addr ?c = peer_addr c")
    case True
    then show ?thesis using Cons by (simp add: e)
  next
    case False
    then have "last_roam_ms ?c = now" using received_on_roam by blast
    then have "repins es ?c \<le> (t1 - now) div 30000" using repins_since [of es t1 ?c] Cons.prems by simp
    also have "\<dots> \<le> (t1 - t0) div 30000" using Cons.prems by (intro div_le_mono diff_le_mono2) (simp add: e)
    finally show ?thesis using False by (simp add: e ROAM_MIN_INTERVAL_MS_def)
  qed
qed simp

theorem roaming_is_rate_limited_witness:
  "repins [(100000, ([9], 1), 40), (110000, ([8], 1), 40), (130000, ([7], 1), 40)] (conn demo_net) = 2
   \<and> repins [(100000, ([9], 1), 40), (110000, ([8], 1), 40), (130000, ([7], 1), 40)] (conn demo_net) \<le> 2"
proof -
  let ?es = "[(100000, ([9], 1), 40), (110000, ([8], 1), 40), (130000, ([7], 1), 40)] :: (millis \<times> sock_addr \<times> nat) list"
  have "peer_addr (conn demo_net) = Some ([10], 9)" "last_roam_ms (conn demo_net) = 0"
    by (simp_all add: demo_net_def link_eval)
  then have "repins ?es (conn demo_net) = 2"
    by (simp add: received_on_def roam_def roam_allowed_def ROAM_MIN_INTERVAL_MS_def push_history_def)
  moreover have "repins ?es (conn demo_net) \<le> 1 + (130000 - 100000) div ROAM_MIN_INTERVAL_MS"
    by (rule roaming_is_rate_limited) simp
  ultimately show ?thesis by (simp add: ROAM_MIN_INTERVAL_MS_def)
qed

section \<open>Rekeying\<close>

lemma rekey_initiator_is_one_side: "a \<noteq> b \<Longrightarrow> is_rekey_initiator a b \<longleftrightarrow> \<not> is_rekey_initiator b a"
  by (auto simp: is_rekey_initiator_def)

section \<open>A secondary that returns while the primary is down\<close>

text \<open>
  The rule \<open>keeps_rules\<close> asks of a replacement is not checked by the responder: the new session of a
  returning secondary goes to its own slot, but its address and id are then recorded through
  \<open>acquire_conn\<close>, which names the empty primary slot. The peer is listed as linked, and nothing can be
  sent to it.
\<close>

lemma returning_secondary_is_mute:
  assumes wf: "bt_wf (extra t)" and down: "\<not> has_session t" and i: "last_peer_id (conn t) \<noteq> Some i"
    and g: "session_generation_for i t = Some g"
  shows "i \<in> set (linked_peer_ids (relink now i s g a t))
    \<and> \<not> has_session_for i (relink now i s g a t)
    \<and> fst (send_encrypted_to ns i p (relink now i s g a t)) = Inl NoSession"
proof -
  obtain c where c: "bt_get (extra t) i = Some c" "session_generation c = g"
    using g i by (auto simp: session_generation_for_def read_for_def conn_for_def at_slot_def split: option.splits)
  let ?t = "upd_slot (Extra i) (stamp now i s) t"
  have q: "acquire_conn now i ?t = (Primary, ?t)"
    using down by (simp add: acquire_conn_def conn_upd_slot has_session_def)
  let ?f = "\<lambda>c. push_history a (c\<lparr>peer_addr := Some a, last_peer_addr := Some a, last_peer_id := Some i\<rparr>)"
  have r: "relink now i s g a t = upd_slot Primary ?f ?t"
    using i c by (simp add: relink_def install_session_if_generation_for_def conn_for_def at_slot_def set_peer_info_def q)
  have wf': "bt_wf (extra (upd_slot Primary ?f ?t))" using wf by simp
  have x: "session_at (Extra i) (upd_slot Primary ?f ?t) = Some s"
    using wf c by (simp add: session_upd_slot at_slot_def stamp_def)
  have p: "conn_for i (upd_slot Primary ?f ?t) = Some Primary" "pc_session (conn (upd_slot Primary ?f ?t)) = None"
    "peer_addr (conn (upd_slot Primary ?f ?t)) = Some a"
    using down by (simp_all add: conn_for_def conn_upd_slot has_session_def)
  have "i \<in> fst ` set (live_extra (upd_slot Primary ?f ?t))" using live_extra_iff [OF wf'] x by simp
  then have "i \<in> set (linked_peer_ids (upd_slot Primary ?f ?t))" 
    unfolding linked_peer_ids_def set_append set_map by (rule UnI2)
  then show ?thesis
    using p unfolding r by (simp add: has_session_alt session_at_primary send_encrypted_to_def send_on_def send_begin_def
        send_commit_def at_slot_def)
qed

text \<open>
  After the peer's next handshake has filled the primary slot as well, the peer is linked twice, and the
  ghost timeout of the stale secondary session drops the live one instead.
\<close>

lemma ghost_timeout_drops_the_live_session:
  assumes "last_peer_id (conn t) = Some i" and "session_at (Extra i) t \<noteq> None" and "bt_wf (extra t)"
  shows "session_at Primary (drop_session_for i t) = None
    \<and> session_at (Extra i) (drop_session_for i t) = session_at (Extra i) t"
  using assms by (simp add: drop_session_for_def conn_for_def session_upd_slot at_slot_def unlink_def)

text \<open>The failover also leaves the dead primary's address history with the survivor.\<close>

lemma failover_keeps_old_history:
  "promote_secondary now t = (Some i, t') \<Longrightarrow> roaming_history_snapshot_for i t' = roaming_history_snapshot t"
  by (cases rule: promote_cases [of t now])
    (auto simp: roaming_history_snapshot_for_def roaming_history_snapshot_def read_for_def conn_for_def at_slot_def)

end
