(* ===== verification/Items.thy ===== *)
theory Items
  imports Outbox
begin

text \<open>
  The transfer of one clipboard item between two linked daemons: its frames
  (\<open>fluxsyncd/src/driver/frames.rs\<close>), the reassembly of chunked items and the selective NAKs of the
  receiver (\<open>driver/inbound.rs\<close>), and the in-flight table of the sender with its acks, resends and
  retransmit timer (\<open>driver/shared.rs\<close>, \<open>driver/inbound.rs\<close>). \<open>now\<close> is \<open>Instant::now()\<close>; \<open>blake3\<close> and
  the CBOR pair \<open>ser\<close>, \<open>de\<close> are parameters, as before.
\<close>

section \<open>The frames of an item\<close>

text \<open>\<open>slice::chunks(n)\<close>, for \<open>0 < n\<close>.\<close>

fun chunks :: "nat \<Rightarrow> 'a list \<Rightarrow> 'a list list" where
  "chunks n xs = (if n = 0 \<or> xs = [] then [] else take n xs # chunks n (drop n xs))"

declare chunks.simps [simp del]

definition proto_frame :: "msg \<Rightarrow> frame" where
  "proto_frame m = \<lparr>version = PROTOCOL_VERSION, f_msg = m\<rparr>"

definition item_msg :: "u64 \<Rightarrow> bytes32 \<Rightarrow> kind \<Rightarrow> bytes \<Rightarrow> bool \<Rightarrow> bytes32 \<Rightarrow> u64 \<Rightarrow> msg" where
  "item_msg lamport h k payload sens org sq =
     ClipboardItem \<lparr>ci_lamport = lamport, ci_hash = h, ci_kind = k, ci_payload = payload,
       ci_sensitive = sens, ci_wall_time_ms = 0, ci_origin = org, ci_event_seq = sq\<rparr>"

definition chunk_msgs :: "bytes32 \<Rightarrow> bytes \<Rightarrow> msg list" where
  "chunk_msgs h payload =
     (let cs = chunks MAX_CHUNK_DATA payload
      in map (\<lambda>(idx, d). Chunk \<lparr>ch_item_id = h, ch_idx = of_nat idx, ch_total = of_nat (length cs),
               ch_data = d\<rparr>) (enumerate 0 cs))"

text \<open>\<open>if let Ok(bytes) = encode(..) { frames.push(bytes) }\<close> for each message in turn.\<close>

definition push_encoded :: "(frame \<Rightarrow> ustr + bytes) \<Rightarrow> msg list \<Rightarrow> bytes list" where
  "push_encoded ser ms =
     List.map_filter (\<lambda>m. case encode ser (proto_frame m) of Inr b \<Rightarrow> Some b | Inl _ \<Rightarrow> None) ms"

definition build_item_frames ::
  "(frame \<Rightarrow> ustr + bytes) \<Rightarrow> u64 \<Rightarrow> bytes32 \<Rightarrow> kind \<Rightarrow> bytes \<Rightarrow> bool \<Rightarrow> bytes32 \<Rightarrow> u64 \<Rightarrow> bytes list" where
  "build_item_frames ser lamport h k payload sens org sq =
     (let single =
        (if length payload \<le> MAX_CHUNK_DATA
         then (case encode ser (proto_frame (item_msg lamport h k payload sens org sq)) of
                 Inr b \<Rightarrow> Inr (if length b \<le> MAX_FRAME_PLAINTEXT then Some b else None)
               | Inl e \<Rightarrow> Inl e)
         else Inr None)
      in case single of
           Inl _ \<Rightarrow> []
         | Inr (Some b) \<Rightarrow> [b]
         | Inr None \<Rightarrow>
             push_encoded ser (item_msg lamport h k [] sens org sq # chunk_msgs h payload))"

section \<open>Reassembly\<close>

record reassembly =
  metadata :: "(u64 \<times> kind \<times> bool) option"
  ra_origin :: bytes32
  ra_event_seq :: u64
  ra_chunks :: "bytes option list"
  last_update :: instant
  first_seen :: instant
  ra_source :: bytes32
  ra_item_hash :: bytes32

type_synonym reassemblies = "(bytes32, reassembly) hmap"

record complete_item =
  cp_source :: bytes32
  cp_origin :: bytes32
  cp_event_seq :: u64
  cp_hash :: bytes32
  cp_kind :: kind
  cp_sensitive :: bool
  cp_lamport :: u64
  cp_payload :: bytes

text \<open>The map is keyed by \<open>BLAKE3(source || item_id)\<close>.\<close>

definition reassembly_key :: "(bytes \<Rightarrow> bytes32) \<Rightarrow> bytes32 \<Rightarrow> bytes32 \<Rightarrow> bytes32" where
  "reassembly_key blake3 source item_id = blake3 (source @ item_id)"

definition evict_for :: "bytes32 \<Rightarrow> reassemblies \<Rightarrow> reassemblies" where
  "evict_for key m =
     (if map_of m key = None \<and> 5 \<le> length m
      then case min_by_key (last_update \<circ> snd) m of Some (k, _) \<Rightarrow> hm_remove k m | None \<Rightarrow> m
      else m)"

text \<open>The bytes of a finished item: every slot is \<open>Some\<close> when they are taken.\<close>

definition full_payload :: "reassembly \<Rightarrow> bytes" where
  "full_payload r = concat (map the (ra_chunks r))"

definition completed :: "bytes32 \<Rightarrow> bytes32 \<Rightarrow> reassembly \<Rightarrow> u64 \<times> kind \<times> bool \<Rightarrow> complete_item" where
  "completed source h r md = (case md of (lamport, k, sens) \<Rightarrow>
     \<lparr>cp_source = source, cp_origin = ra_origin r, cp_event_seq = ra_event_seq r, cp_hash = h,
      cp_kind = k, cp_sensitive = sens, cp_lamport = lamport, cp_payload = full_payload r\<rparr>)"

text \<open>A \<open>ClipboardItem\<close> with an empty payload is the header of a chunked item.\<close>

definition on_header ::
  "(bytes \<Rightarrow> bytes32) \<Rightarrow> instant \<Rightarrow> bytes32 \<Rightarrow> clipboard_item \<Rightarrow> reassemblies \<Rightarrow> complete_item option \<times> reassemblies" where
  "on_header blake3 now peer i m =
     (let key = reassembly_key blake3 peer (ci_hash i);
          m = evict_for key m;
          md = (ci_lamport i, ci_kind i, ci_sensitive i);
          r = (case map_of m key of
                 Some r \<Rightarrow> r
               | None \<Rightarrow> \<lparr>metadata = Some md, ra_origin = ci_origin i, ra_event_seq = ci_event_seq i,
                           ra_chunks = [], last_update = now, first_seen = now, ra_source = peer,
                           ra_item_hash = ci_hash i\<rparr>);
          r = r\<lparr>metadata := Some md, ra_origin := ci_origin i, ra_event_seq := ci_event_seq i,
                last_update := now\<rparr>
      in if ra_chunks r \<noteq> [] \<and> list_all (\<lambda>c. c \<noteq> None) (ra_chunks r)
         then (Some (completed peer (ci_hash i) r md), hm_remove key m)
         else (None, hm_insert key r m))"

definition on_chunk ::
  "(bytes \<Rightarrow> bytes32) \<Rightarrow> instant \<Rightarrow> bytes32 \<Rightarrow> chunk \<Rightarrow> reassemblies \<Rightarrow> complete_item option \<times> reassemblies" where
  "on_chunk blake3 now peer c m =
     (if MAX_CHUNKS < ch_total c \<or> ch_total c = 0 then (None, m)
      else let key = reassembly_key blake3 peer (ch_item_id c);
               m = evict_for key m;
               slots = replicate (unat (ch_total c)) None;
               r = (case map_of m key of
                      Some r \<Rightarrow> r
                    | None \<Rightarrow> \<lparr>metadata = None, ra_origin = zero32, ra_event_seq = 0, ra_chunks = slots,
                                last_update = now, first_seen = now, ra_source = peer,
                                ra_item_hash = ch_item_id c\<rparr>);
               r = r\<lparr>last_update := now\<rparr>;
               r = (if ra_chunks r = [] then r\<lparr>ra_chunks := slots\<rparr> else r);
               r = (if unat (ch_idx c) < length (ra_chunks r)
                    then r\<lparr>ra_chunks := (ra_chunks r)[unat (ch_idx c) := Some (ch_data c)]\<rparr> else r)
           in case metadata r of
                Some md \<Rightarrow>
                  (if list_all (\<lambda>c. c \<noteq> None) (ra_chunks r)
                   then (Some (completed peer (ch_item_id c) r md), hm_remove key m)
                   else (None, hm_insert key r m))
              | None \<Rightarrow> (None, hm_insert key r m))"

text \<open>The transfer messages of a datagram, dispatched; the others do not touch the map.\<close>

definition arrive ::
  "(bytes \<Rightarrow> bytes32) \<Rightarrow> instant \<Rightarrow> bytes32 \<Rightarrow> msg \<Rightarrow> reassemblies \<Rightarrow> complete_item option \<times> reassemblies" where
  "arrive blake3 now peer g m =
     (case g of
        ClipboardItem i \<Rightarrow> (if ci_payload i = [] then on_header blake3 now peer i m else (None, m))
      | Chunk c \<Rightarrow> on_chunk blake3 now peer c m
      | _ \<Rightarrow> (None, m))"

text \<open>One datagram of a session, decrypted: \<open>transport_recv_loop\<close> decodes it and dispatches the frame.\<close>

definition receive ::
  "(bytes \<Rightarrow> bytes32) \<Rightarrow> (bytes \<Rightarrow> ustr + frame) \<Rightarrow> instant \<Rightarrow> bytes32 \<Rightarrow> bytes \<Rightarrow> reassemblies
     \<Rightarrow> complete_item option \<times> reassemblies" where
  "receive blake3 de now peer b m =
     (case decode de b of Inr f \<Rightarrow> arrive blake3 now peer (f_msg f) m | Inl _ \<Rightarrow> (None, m))"

fun receive_all ::
  "(bytes \<Rightarrow> bytes32) \<Rightarrow> (bytes \<Rightarrow> ustr + frame) \<Rightarrow> (instant \<times> bytes32 \<times> bytes) list \<Rightarrow> reassemblies
     \<Rightarrow> complete_item list \<times> reassemblies" where
  "receive_all blake3 de [] m = ([], m)"
| "receive_all blake3 de ((now, peer, b) # as) m =
     (let (c, m) = receive blake3 de now peer b m;
          (cs, m) = receive_all blake3 de as m
      in ((case c of Some it \<Rightarrow> [it] | None \<Rightarrow> []) @ cs, m))"

text \<open>The cleanup timer of \<open>transport_recv_loop\<close>.\<close>

definition cleanup_tick :: "instant \<Rightarrow> reassemblies \<Rightarrow> reassemblies" where
  "cleanup_tick now m =
     filter (\<lambda>e. now - first_seen (snd e) < from_secs 60 \<and> now - last_update (snd e) < from_secs 5) m"

section \<open>Selective NAKs\<close>

definition NAK_MISSING_PER_FRAME :: nat where
  "NAK_MISSING_PER_FRAME = 400"

definition missing_of :: "reassembly \<Rightarrow> u16 list" where
  "missing_of r =
     take NAK_MISSING_PER_FRAME
       (map (\<lambda>e. of_nat (fst e)) (filter (\<lambda>e. snd e = None) (enumerate 0 (ra_chunks r))))"

definition nak_for :: "reassembly \<Rightarrow> (bytes32 \<times> nak) option" where
  "nak_for r =
     (if ra_chunks r = [] then None
      else if missing_of r = [] \<and> metadata r \<noteq> None then None
      else Some (ra_source r, \<lparr>nak_item_id = ra_item_hash r, want_header = (metadata r = None),
                               missing = missing_of r\<rparr>))"

definition build_pending_naks :: "reassemblies \<Rightarrow> (bytes32 \<times> nak) list" where
  "build_pending_naks m = List.map_filter (\<lambda>e. nak_for (snd e)) m"

section \<open>The sender's in-flight table\<close>

definition RETRANSMIT_INTERVAL :: duration where "RETRANSMIT_INTERVAL = from_secs 2"
definition MAX_RETRANSMIT :: u8 where "MAX_RETRANSMIT = 6"
definition INFLIGHT_MAX_AGE :: duration where "INFLIGHT_MAX_AGE = from_secs 90"

text \<open>\<open>pending_peers\<close> is a \<open>HashSet\<close>: a list without repetition, in an arbitrary order.\<close>

record inflight =
  if_frames :: "bytes list"
  attempts :: u8
  last_sent :: instant
  first_sent :: instant
  pending_peers :: "bytes32 list"

type_synonym inflights = "(bytes32, inflight) hmap"

definition track_inflight :: "instant \<Rightarrow> bytes32 \<Rightarrow> bytes list \<Rightarrow> bytes32 list \<Rightarrow> inflights \<Rightarrow> inflights" where
  "track_inflight now h frames peers m =
     (let inf = (case map_of m h of
                   Some i \<Rightarrow> i
                 | None \<Rightarrow> \<lparr>if_frames = [], attempts = 0, last_sent = now, first_sent = now, pending_peers = []\<rparr>)
      in hm_insert h (inf\<lparr>pending_peers := fold List.insert peers (pending_peers inf), if_frames := frames,
                          attempts := 0, last_sent := now, first_sent := now\<rparr>) m)"

text \<open>An item ack: the flag says that \<open>DriverCmd::Delivered\<close> is sent.\<close>

definition on_ack :: "bytes32 \<Rightarrow> bytes32 \<Rightarrow> inflights \<Rightarrow> bool \<times> inflights" where
  "on_ack peer h m =
     (case map_of m h of
        None \<Rightarrow> (False, m)
      | Some it \<Rightarrow>
          (let rest = filter (\<lambda>p. p \<noteq> peer) (pending_peers it)
           in (peer \<in> set (pending_peers it),
               if rest = [] then hm_remove h m else hm_insert h (it\<lparr>pending_peers := rest\<rparr>) m)))"

text \<open>What a NAK pulls out: only for a peer that still owes an ack of the item.\<close>

definition nak_frames :: "bytes32 \<Rightarrow> nak \<Rightarrow> inflights \<Rightarrow> bytes list" where
  "nak_frames peer n m =
     (case map_of m (nak_item_id n) of
        None \<Rightarrow> []
      | Some it \<Rightarrow>
          (if peer \<in> set (pending_peers it)
           then (if want_header n then take 1 (if_frames it) else [])
             @ List.map_filter
                 (\<lambda>idx. if unat idx + 1 < length (if_frames it) then Some (if_frames it ! (unat idx + 1)) else None)
                 (missing n)
           else []))"

definition on_nak :: "instant \<Rightarrow> bytes32 \<Rightarrow> nak \<Rightarrow> inflights \<Rightarrow> bytes list \<times> inflights" where
  "on_nak now peer n m =
     (let out = nak_frames peer n m
      in (out,
          if out = [] then m
          else case map_of m (nak_item_id n) of
                 Some it \<Rightarrow> hm_insert (nak_item_id n) (it\<lparr>last_sent := now\<rparr>) m
               | None \<Rightarrow> m))"

datatype tick = Drop | Wait | Resend inflight

definition item_tick :: "instant \<Rightarrow> inflight \<Rightarrow> tick" where
  "item_tick now it =
     (if INFLIGHT_MAX_AGE < now - first_sent it then Drop
      else if now - last_sent it < RETRANSMIT_INTERVAL then Wait
      else if MAX_RETRANSMIT \<le> attempts it then Drop
      else Resend (it\<lparr>attempts := attempts it + 1, last_sent := now\<rparr>))"

definition retransmit_tick :: "instant \<Rightarrow> inflights \<Rightarrow> (bytes32 list \<times> bytes list) list \<times> inflights" where
  "retransmit_tick now m =
     (List.map_filter (\<lambda>e. case item_tick now (snd e) of
          Resend it \<Rightarrow> Some (pending_peers it, if_frames it) | _ \<Rightarrow> None) m,
      List.map_filter (\<lambda>e. case item_tick now (snd e) of
          Drop \<Rightarrow> None | Wait \<Rightarrow> Some e | Resend it \<Rightarrow> Some (fst e, it)) m)"

section \<open>Our own clipboard writes\<close>

definition WRITES_CAP :: nat where "WRITES_CAP = 10"
definition ECHO_WINDOW :: duration where "ECHO_WINDOW = from_millis 5000"

type_synonym recent_writes = "(bytes32 \<times> instant) list"

definition record_write :: "bytes32 \<Rightarrow> instant \<Rightarrow> recent_writes \<Rightarrow> recent_writes" where
  "record_write h now w =
     (let w = w @ [(h, now)] in if WRITES_CAP < length w then tl w else w)"

definition is_echo :: "bytes32 \<Rightarrow> instant \<Rightarrow> recent_writes \<Rightarrow> bool" where
  "is_echo h now w \<longleftrightarrow> list_ex (\<lambda>e. fst e = h \<and> now - snd e < ECHO_WINDOW) w"

end
