(* ===== verification/Items_Order.thy ===== *)
theory Items_Order
  imports Items
begin

text \<open>
  Reassembly does not depend on the order of the datagrams. The entry of one transfer represents the
  set of its parts received so far (\<open>holds\<close>); a part that completes the set delivers the item and
  clears the entry, any other part is added to the set, and frames of other transfers leave the
  entry alone as long as the table need not evict.
\<close>

section \<open>Slices\<close>

lemma chunks_Nil [simp]: "chunks n [] = []"
  by (simp add: chunks.simps)

lemma chunks_Cons: "0 < n \<Longrightarrow> xs \<noteq> [] \<Longrightarrow> chunks n xs = take n xs # chunks n (drop n xs)"
  by (simp add: chunks.simps [of n xs])

lemma chunks_concat: "0 < n \<Longrightarrow> concat (chunks n xs) = xs"
proof (induction n xs rule: chunks.induct)
  case (1 n xs)
  show ?case
  proof (cases "xs = []")
    case False
    then have "concat (chunks n xs) = take n xs @ concat (chunks n (drop n xs))"
      using 1(2) by (subst chunks_Cons) simp_all
    also have "concat (chunks n (drop n xs)) = drop n xs"
      using 1(1) 1(2) False by blast
    finally show ?thesis by simp
  qed simp
qed

lemma ceil_div_step:
  assumes "0 < n" "0 < (l::nat)"
  shows "(l + n - 1) div n = Suc ((l - n + n - 1) div n)"
proof -
  have "(l + n - 1) div n = Suc ((l - 1) div n)"
    using assms div_add_self2 [of n "l - 1"] by (simp add: add.commute)
  moreover have "(l - n + n - 1) div n = (l - 1) div n"
    using assms by (cases "n \<le> l") simp_all
  ultimately show ?thesis by simp
qed

lemma chunks_length: "0 < n \<Longrightarrow> length (chunks n xs) = (length xs + n - 1) div n"
proof (induction n xs rule: chunks.induct)
  case (1 n xs)
  show ?case
  proof (cases "xs = []")
    case False
    have "length (chunks n xs) = Suc (length (chunks n (drop n xs)))"
      using 1(2) False by (subst chunks_Cons) simp_all
    also have "length (chunks n (drop n xs)) = (length (drop n xs) + n - 1) div n"
      using 1 False by blast
    also have "length (drop n xs) = length xs - n" by (rule length_drop)
    finally show ?thesis using ceil_div_step [OF 1(2), of "length xs"] False by (metis length_greater_0_conv)
  qed (use 1 in simp)
qed

lemma chunks_bounds: "0 < n \<Longrightarrow> c \<in> set (chunks n xs) \<Longrightarrow> c \<noteq> [] \<and> length c \<le> n"
proof (induction n xs rule: chunks.induct)
  case (1 n xs)
  show ?case
  proof (cases "xs = []")
    case False
    then have "c = take n xs \<or> c \<in> set (chunks n (drop n xs))"
      using 1(2,3) chunks_Cons [of n xs] by auto
    then show ?thesis using 1 False by auto
  qed (use 1 in simp)
qed

section \<open>The parts of an item\<close>

definition pieces :: "bytes \<Rightarrow> bytes list" where
  "pieces payload = chunks MAX_CHUNK_DATA payload"

definition chunk_part :: "bytes32 \<Rightarrow> bytes list \<Rightarrow> nat \<Rightarrow> msg" where
  "chunk_part h cs i =
     Chunk \<lparr>ch_item_id = h, ch_idx = of_nat i, ch_total = of_nat (length cs), ch_data = cs ! i\<rparr>"

definition header_part :: "complete_item \<Rightarrow> msg" where
  "header_part it = item_msg (cp_lamport it) (cp_hash it) (cp_kind it) [] (cp_sensitive it) (cp_origin it) (cp_event_seq it)"

definition parts :: "complete_item \<Rightarrow> msg set" where
  "parts it = insert (header_part it)
     (chunk_part (cp_hash it) (pieces (cp_payload it)) ` {..<length (pieces (cp_payload it))})"

definition chunkable :: "bytes \<Rightarrow> bool" where
  "chunkable p \<longleftrightarrow> p \<noteq> [] \<and> length p \<le> MAX_PAYLOAD"

lemma pieces_bounds:
  assumes "chunkable p"
  shows "0 < length (pieces p) \<and> length (pieces p) \<le> 16384"
proof -
  have l: "length (pieces p) = (length p + 1023) div 1024"
    using chunks_length [of MAX_CHUNK_DATA p] by (simp add: pieces_def MAX_CHUNK_DATA_def)
  have "0 < length p" "length p \<le> 16777216"
    using assms by (auto simp: chunkable_def MAX_PAYLOAD_def)
  then show ?thesis unfolding l by (cases p) (auto simp: div_greater_zero_iff)
qed

lemma concat_pieces: "concat (pieces p) = p"
  by (simp add: pieces_def chunks_concat MAX_CHUNK_DATA_def)

lemma chunk_msgs_parts:
  "chunk_msgs h p = map (chunk_part h (pieces p)) [0..<length (pieces p)]"
  by (auto simp: chunk_msgs_def pieces_def chunk_part_def Let_def enumerate_eq_zip
      intro!: nth_equalityI)

lemma unat16 [simp]: "i \<le> 16384 \<Longrightarrow> unat (of_nat i :: u16) = i"
  by (simp add: unat_of_nat)

lemma total_in_range:
  assumes "0 < n" "n \<le> 16384"
  shows "\<not> MAX_CHUNKS < (of_nat n :: u16)" and "(of_nat n :: u16) \<noteq> 0"
proof -
  have u: "unat (of_nat n :: u16) = n" using assms by simp
  show "\<not> MAX_CHUNKS < (of_nat n :: u16)"
    using assms by (simp add: word_less_nat_alt u MAX_CHUNKS_def)
  show "(of_nat n :: u16) \<noteq> 0"
    using assms u by (metis less_numeral_extra(3) unat_0)
qed

section \<open>What an entry represents\<close>

definition slots :: "bytes32 \<Rightarrow> bytes list \<Rightarrow> msg set \<Rightarrow> bytes option list" where
  "slots h cs S = map (\<lambda>i. if chunk_part h cs i \<in> S then Some (cs ! i) else None) [0..<length cs]"

definition holds :: "complete_item \<Rightarrow> msg set \<Rightarrow> reassembly option \<Rightarrow> bool" where
  "holds it S e \<longleftrightarrow>
     (case e of
        None \<Rightarrow> S = {}
      | Some r \<Rightarrow>
          S \<noteq> {} \<and> ra_source r = cp_source it \<and> ra_item_hash r = cp_hash it
          \<and> metadata r = (if header_part it \<in> S then Some (cp_lamport it, cp_kind it, cp_sensitive it) else None)
          \<and> (header_part it \<in> S \<longrightarrow> ra_origin r = cp_origin it \<and> ra_event_seq r = cp_event_seq it)
          \<and> ra_chunks r = (if S - {header_part it} = {} then [] else slots (cp_hash it) (pieces (cp_payload it)) S))"

lemma header_not_chunk [simp]: "chunk_part h cs i \<noteq> header_part it" "header_part it \<noteq> chunk_part h cs i"
  by (auto simp: chunk_part_def header_part_def item_msg_def)

lemma chunk_part_inj:
  assumes "i \<le> 16384" "j \<le> 16384"
  shows "chunk_part h cs i = chunk_part h cs j \<longleftrightarrow> i = j"
proof
  assume "chunk_part h cs i = chunk_part h cs j"
  then have "(of_nat i :: u16) = of_nat j" by (simp add: chunk_part_def)
  then have "unat (of_nat i :: u16) = unat (of_nat j :: u16)" by simp
  then show "i = j" using assms by simp
qed simp

lemma slots_full:
  "list_all (\<lambda>c. c \<noteq> None) (slots h cs S) \<longleftrightarrow> (\<forall>i<length cs. chunk_part h cs i \<in> S)"
  by (auto simp: slots_def list_all_iff)

lemma slots_payload:
  assumes "\<forall>i<length cs. chunk_part h cs i \<in> S"
  shows "concat (map the (slots h cs S)) = concat cs"
proof -
  have "map the (slots h cs S) = map ((!) cs) [0..<length cs]"
    using assms by (auto simp: slots_def)
  then show ?thesis by (simp add: map_nth)
qed

lemma slots_update:
  assumes i: "i < length cs" and b: "length cs \<le> 16384"
  shows "(slots h cs S)[i := Some (cs ! i)] = slots h cs (insert (chunk_part h cs i) S)"
  using assms by (auto simp: slots_def nth_list_update chunk_part_inj intro!: nth_equalityI)

lemma slots_empty:
  assumes "i < length cs" "length cs \<le> 16384" "S \<subseteq> {header_part it}"
  shows "(replicate (length cs) None)[i := Some (cs ! i)] = slots h cs (insert (chunk_part h cs i) S)"
proof -
  have "replicate (length cs) None = slots h cs S"
    using assms(3) by (auto simp: slots_def intro!: nth_equalityI)
  then show ?thesis using slots_update [OF assms(1,2)] by simp
qed

section \<open>One datagram\<close>

text \<open>Which entry a message goes to.\<close>

definition part_key :: "(bytes \<Rightarrow> bytes32) \<Rightarrow> bytes32 \<Rightarrow> msg \<Rightarrow> bytes32 option" where
  "part_key blake3 peer g =
     (case g of
        ClipboardItem i \<Rightarrow> (if ci_payload i = [] then Some (reassembly_key blake3 peer (ci_hash i)) else None)
      | Chunk c \<Rightarrow> (if MAX_CHUNKS < ch_total c \<or> ch_total c = 0 then None
                   else Some (reassembly_key blake3 peer (ch_item_id c)))
      | _ \<Rightarrow> None)"

definition item_key :: "(bytes \<Rightarrow> bytes32) \<Rightarrow> complete_item \<Rightarrow> bytes32" where
  "item_key blake3 it = reassembly_key blake3 (cp_source it) (cp_hash it)"

text \<open>A table with no need to evict.\<close>

definition roomy :: "bytes32 set \<Rightarrow> reassemblies \<Rightarrow> bool" where
  "roomy U m \<longleftrightarrow> distinct (map fst m) \<and> fst ` set m \<subseteq> U \<and> finite U \<and> card U \<le> 5"

lemma roomy_no_evict:
  assumes r: "roomy U m" and k: "key \<in> U"
  shows "evict_for key m = m"
proof (cases "map_of m key = None")
  case True
  then have "fst ` set m \<subset> U" using r k by (auto simp: roomy_def map_of_eq_None_iff)
  then have "card (fst ` set m) < card U" using r by (intro psubset_card_mono) (auto simp: roomy_def)
  moreover have "card (fst ` set m) = length m"
    using r distinct_card [of "map fst m"] by (simp add: roomy_def)
  ultimately show ?thesis using r by (simp add: evict_for_def roomy_def)
qed (auto simp: evict_for_def)

lemma roomy_insert [simp]: "roomy U m \<Longrightarrow> key \<in> U \<Longrightarrow> roomy U (hm_insert key r m)"
  by (auto simp: roomy_def)

lemma roomy_remove [simp]: "roomy U m \<Longrightarrow> roomy U (hm_remove key m)"
  by (auto simp: roomy_def)

lemma arrive_table:
  assumes r: "roomy U m" and k: "\<And>key. part_key blake3 peer g = Some key \<Longrightarrow> key \<in> U"
    and a: "arrive blake3 now peer g m = (c, m')"
  shows "roomy U m'" and "part_key blake3 peer g \<noteq> Some K \<Longrightarrow> map_of m' K = map_of m K"
    and "c = Some it \<Longrightarrow> part_key blake3 peer g = Some (item_key blake3 it)"
  using assms
  by (cases g; auto simp: arrive_def part_key_def on_header_def on_chunk_def Let_def roomy_no_evict
        completed_def item_key_def split: if_splits option.splits prod.splits)+

definition finished :: "complete_item \<Rightarrow> msg set \<Rightarrow> bool" where
  "finished it S \<longleftrightarrow> parts it \<subseteq> S"

lemma finished_iff:
  "finished it S \<longleftrightarrow> header_part it \<in> S
     \<and> (\<forall>i<length (pieces (cp_payload it)). chunk_part (cp_hash it) (pieces (cp_payload it)) i \<in> S)"
  by (auto simp: finished_def parts_def)

text \<open>A part of the item, at the entry of the item.\<close>

lemma arrive_header_part:
  "arrive blake3 now peer (header_part it) m =
     on_header blake3 now peer
       \<lparr>ci_lamport = cp_lamport it, ci_hash = cp_hash it, ci_kind = cp_kind it, ci_payload = [],
        ci_sensitive = cp_sensitive it, ci_wall_time_ms = 0, ci_origin = cp_origin it,
        ci_event_seq = cp_event_seq it\<rparr> m"
  by (simp add: arrive_def header_part_def item_msg_def)

lemma arrive_chunk_part:
  "arrive blake3 now peer (chunk_part h cs i) m =
     on_chunk blake3 now peer
       \<lparr>ch_item_id = h, ch_idx = of_nat i, ch_total = of_nat (length cs), ch_data = cs ! i\<rparr> m"
  by (simp add: arrive_def chunk_part_def)

lemma arrive_header:
  assumes b: "chunkable (cp_payload it)" and r: "roomy U m" and k: "item_key blake3 it \<in> U"
    and h: "holds it S (map_of m (item_key blake3 it))" and S: "S \<subseteq> parts it"
  defines "S' \<equiv> insert (header_part it) S"
  shows "arrive blake3 now (cp_source it) (header_part it) m = (c, m') \<Longrightarrow>
     (if finished it S' then c = Some it \<and> map_of m' (item_key blake3 it) = None
      else c = None \<and> holds it S' (map_of m' (item_key blake3 it)))"
proof -
  let ?cs = "pieces (cp_payload it)" and ?h = "cp_hash it"
  have n: "0 < length ?cs" using pieces_bounds [OF b] by simp
  have ne: "?cs \<noteq> []" using n by auto
  have sl: "slots ?h ?cs S' = slots ?h ?cs S" by (simp add: slots_def S'_def)
  have full: "list_all (\<lambda>c. c \<noteq> None) (slots ?h ?cs S) \<longleftrightarrow> finished it S'"
    unfolding slots_full finished_iff S'_def by simp
  have pay: "finished it S' \<Longrightarrow> concat (map the (slots ?h ?cs S)) = cp_payload it"
    using slots_payload [of ?cs ?h S'] by (simp add: finished_iff concat_pieces flip: sl)
  have none: "S - {header_part it} = {} \<Longrightarrow> \<not> finished it S'"
  proof
    assume "S - {header_part it} = {}" "finished it S'"
    moreover from this have "chunk_part ?h ?cs 0 \<in> S'" using n by (simp add: finished_iff)
    ultimately show False by (auto simp: S'_def)
  qed
  have snil: "slots ?h ?cs S \<noteq> []" using ne by (simp add: slots_def)
  have key: "reassembly_key blake3 (cp_source it) ?h = item_key blake3 it" by (simp add: item_key_def)
  have diff: "S' - {header_part it} = S - {header_part it}" by (auto simp: S'_def)
  have in': "header_part it \<in> S'" "S' \<noteq> {}" by (simp_all add: S'_def)
  show "arrive blake3 now (cp_source it) (header_part it) m = (c, m') \<Longrightarrow> ?thesis"
    unfolding arrive_header_part
    using h none full pay snil in' roomy_no_evict [OF r k]
    by (auto simp: on_header_def key Let_def holds_def diff sl completed_def full_payload_def
        split: if_splits option.splits)
qed


lemma arrive_chunk:
  assumes b: "chunkable (cp_payload it)" and r: "roomy U m" and k: "item_key blake3 it \<in> U"
    and h: "holds it S (map_of m (item_key blake3 it))"
    and i: "i < length (pieces (cp_payload it))"
  defines "S' \<equiv> insert (chunk_part (cp_hash it) (pieces (cp_payload it)) i) S"
  shows "arrive blake3 now (cp_source it) (chunk_part (cp_hash it) (pieces (cp_payload it)) i) m = (c, m') \<Longrightarrow>
     (if finished it S' then c = Some it \<and> map_of m' (item_key blake3 it) = None
      else c = None \<and> holds it S' (map_of m' (item_key blake3 it)))"
proof -
  let ?cs = "pieces (cp_payload it)" and ?h = "cp_hash it"
  let ?n = "length ?cs"
  have n: "0 < ?n" "?n \<le> 16384" using pieces_bounds [OF b] by simp_all
  have u: "unat (of_nat ?n :: u16) = ?n" "unat (of_nat i :: u16) = i" using n i by simp_all
  have ne: "?cs \<noteq> []" using n by auto
  have full: "list_all (\<lambda>c. c \<noteq> None) (slots ?h ?cs S') \<and> header_part it \<in> S' \<longleftrightarrow> finished it S'"
    unfolding slots_full finished_iff by blast
  have pay: "finished it S' \<Longrightarrow> concat (map the (slots ?h ?cs S')) = cp_payload it"
    using slots_payload [of ?cs ?h S'] by (simp add: finished_iff concat_pieces)
  have up: "(slots ?h ?cs S)[i := Some (?cs ! i)] = slots ?h ?cs S'"
    unfolding S'_def by (rule slots_update [OF i n(2)])
  have up0: "S \<subseteq> {header_part it} \<Longrightarrow> (replicate ?n None)[i := Some (?cs ! i)] = slots ?h ?cs S'"
    unfolding S'_def by (rule slots_empty [OF i n(2)])
  have len: "slots ?h ?cs S \<noteq> []" "length (slots ?h ?cs S) = ?n" using ne by (simp_all add: slots_def)
  have key: "reassembly_key blake3 (cp_source it) ?h = item_key blake3 it" by (simp add: item_key_def)
  have hd: "header_part it \<in> S' \<longleftrightarrow> header_part it \<in> S" by (simp add: S'_def)
  have diff: "S' - {header_part it} \<noteq> {}" by (auto simp: S'_def)
  have S': "S' \<noteq> {}" by (simp add: S'_def)
  show "arrive blake3 now (cp_source it) (chunk_part ?h ?cs i) m = (c, m') \<Longrightarrow> ?thesis"
    unfolding arrive_chunk_part
    using h full pay up up0 len i n(1) S' diff roomy_no_evict [OF r k]
    by (auto simp: on_chunk_def key u total_in_range [OF n] Let_def holds_def hd
        completed_def full_payload_def split: if_splits option.splits)
qed

section \<open>A run of datagrams\<close>

definition datagram_key ::
  "(bytes \<Rightarrow> bytes32) \<Rightarrow> (bytes \<Rightarrow> ustr + frame) \<Rightarrow> instant \<times> bytes32 \<times> bytes \<Rightarrow> bytes32 option" where
  "datagram_key blake3 de a =
     (case decode de (snd (snd a)) of Inr f \<Rightarrow> part_key blake3 (fst (snd a)) (f_msg f) | Inl _ \<Rightarrow> None)"

definition datagrams_for ::
  "(bytes \<Rightarrow> bytes32) \<Rightarrow> (bytes \<Rightarrow> ustr + frame) \<Rightarrow> bytes32 \<Rightarrow> (instant \<times> bytes32 \<times> bytes) list
     \<Rightarrow> (instant \<times> bytes32 \<times> bytes) list" where
  "datagrams_for blake3 de K as = filter (\<lambda>a. datagram_key blake3 de a = Some K) as"

definition keys_of ::
  "(bytes \<Rightarrow> bytes32) \<Rightarrow> (bytes \<Rightarrow> ustr + frame) \<Rightarrow> (instant \<times> bytes32 \<times> bytes) list \<Rightarrow> bytes32 set" where
  "keys_of blake3 de as = {K. \<exists>a\<in>set as. datagram_key blake3 de a = Some K}"

definition msg_of :: "(bytes \<Rightarrow> ustr + frame) \<Rightarrow> bytes \<Rightarrow> msg" where
  "msg_of de b = (case decode de b of Inr f \<Rightarrow> f_msg f | Inl _ \<Rightarrow> Bye)"

definition items_for :: "(bytes \<Rightarrow> bytes32) \<Rightarrow> bytes32 \<Rightarrow> complete_item list \<Rightarrow> complete_item list" where
  "items_for blake3 K cs = filter (\<lambda>c. item_key blake3 c = K) cs"

text \<open>The datagrams of one item, as its sender makes them: its parts, from its source.\<close>

definition genuine ::
  "(bytes \<Rightarrow> ustr + frame) \<Rightarrow> complete_item \<Rightarrow> instant \<times> bytes32 \<times> bytes \<Rightarrow> bool" where
  "genuine de it a \<longleftrightarrow> fst (snd a) = cp_source it
     \<and> (\<exists>f. decode de (snd (snd a)) = Inr f \<and> f_msg f \<in> parts it)"

definition seen_parts :: "(bytes \<Rightarrow> ustr + frame) \<Rightarrow> (instant \<times> bytes32 \<times> bytes) list \<Rightarrow> msg set" where
  "seen_parts de as = (\<lambda>a. msg_of de (snd (snd a))) ` set as"

lemma receive_table:
  assumes r: "roomy U m" and k: "\<And>key. datagram_key blake3 de (now, peer, b) = Some key \<Longrightarrow> key \<in> U"
    and a: "receive blake3 de now peer b m = (c, m')"
  shows "roomy U m'" and "datagram_key blake3 de (now, peer, b) \<noteq> Some K \<Longrightarrow> map_of m' K = map_of m K"
    and "c = Some it \<Longrightarrow> datagram_key blake3 de (now, peer, b) = Some (item_key blake3 it)"
proof -
  show "roomy U m'"
    using r k a arrive_table(1) by (fastforce simp: receive_def datagram_key_def split: sum.splits)
  show "datagram_key blake3 de (now, peer, b) \<noteq> Some K \<Longrightarrow> map_of m' K = map_of m K"
    using r k a arrive_table(2) by (fastforce simp: receive_def datagram_key_def split: sum.splits)
  show "c = Some it \<Longrightarrow> datagram_key blake3 de (now, peer, b) = Some (item_key blake3 it)"
    using r k a arrive_table(3) by (fastforce simp: receive_def datagram_key_def split: sum.splits)
qed

lemma receive_part:
  assumes "chunkable (cp_payload it)" and "roomy U m" and "item_key blake3 it \<in> U"
    and "holds it S (map_of m (item_key blake3 it))" and "S \<subseteq> parts it"
    and g: "genuine de it (now, peer, b)"
    and a: "receive blake3 de now peer b m = (c, m')"
  shows "if finished it (insert (msg_of de b) S)
     then c = Some it \<and> map_of m' (item_key blake3 it) = None
     else c = None \<and> holds it (insert (msg_of de b) S) (map_of m' (item_key blake3 it))"
proof -
  obtain f where f: "decode de b = Inr f" "f_msg f \<in> parts it" and p: "peer = cp_source it"
    using g by (auto simp: genuine_def)
  have m: "msg_of de b = f_msg f" by (simp add: msg_of_def f)
  have a': "arrive blake3 now (cp_source it) (f_msg f) m = (c, m')"
    using a by (simp add: receive_def f p)
  from f(2) consider "f_msg f = header_part it"
    | i where "i < length (pieces (cp_payload it))"
        "f_msg f = chunk_part (cp_hash it) (pieces (cp_payload it)) i"
    by (auto simp: parts_def)
  then show ?thesis
  proof cases
    case 1
    then show ?thesis using arrive_header [OF assms(1-5)] a' m by metis
  next
    case 2
    then show ?thesis using arrive_chunk [OF assms(1-4)] a' m by metis
  qed
qed

lemma receive_all_append:
  "receive_all blake3 de (as @ bs) m =
     (let (cs, m) = receive_all blake3 de as m; (ds, m) = receive_all blake3 de bs m in (cs @ ds, m))"
  by (induction as arbitrary: m) (auto simp: Let_def split: prod.splits)

text \<open>As long as a part is missing, nothing is delivered and the entry holds what came.\<close>

lemma receive_all_partial:
  assumes "chunkable (cp_payload it)" and "roomy U m" and K: "K = item_key blake3 it" and "K \<in> U"
    and "keys_of blake3 de as \<subseteq> U" and "holds it S (map_of m K)" and "S \<subseteq> parts it"
    and "\<And>a. a \<in> set as \<Longrightarrow> datagram_key blake3 de a = Some K \<Longrightarrow> genuine de it a"
    and "\<not> finished it (S \<union> seen_parts de (datagrams_for blake3 de K as))"
    and "receive_all blake3 de as m = (cs, m')"
  shows "items_for blake3 K cs = [] \<and> roomy U m'
    \<and> holds it (S \<union> seen_parts de (datagrams_for blake3 de K as)) (map_of m' K)"
  using assms(2,5-10)
proof (induction as arbitrary: m S cs m')
  case Nil
  then show ?case by (simp add: items_for_def seen_parts_def datagrams_for_def)
next
  case (Cons a as)
  obtain t p b where a: "a = (t, p, b)" by (cases a)
  obtain c m1 where c: "receive blake3 de t p b m = (c, m1)" by force
  obtain cs1 where cs1: "receive_all blake3 de as m1 = (cs1, m')"
      and cs: "cs = (case c of Some it \<Rightarrow> [it] | None \<Rightarrow> []) @ cs1"
    using Cons.prems(7) by (auto simp: a c split: prod.splits)
  have U: "datagram_key blake3 de (t, p, b) = Some key \<Longrightarrow> key \<in> U" for key
    using Cons.prems(2) by (auto simp: keys_of_def a)
  note tab = receive_table [OF Cons.prems(1) U c]
  have sub: "keys_of blake3 de as \<subseteq> U" using Cons.prems(2) by (auto simp: keys_of_def)
  show ?case
  proof (cases "datagram_key blake3 de a = Some K")
    case False
    have "items_for blake3 K (case c of Some it \<Rightarrow> [it] | None \<Rightarrow> []) = []"
      using False tab(3) by (auto simp: items_for_def a split: option.splits)
    moreover have "datagrams_for blake3 de K (a # as) = datagrams_for blake3 de K as"
      using False by (simp add: datagrams_for_def)
    moreover have "map_of m1 K = map_of m K" using False tab(2) [of K] by (simp add: a)
    ultimately show ?thesis
      using Cons.IH [OF tab(1) sub _ Cons.prems(4) _ _ cs1] Cons.prems by (simp add: cs items_for_def)
  next
    case True
    let ?S = "insert (msg_of de b) S"
    have g: "genuine de it (t, p, b)" using Cons.prems(5) True by (simp add: a)
    have d: "S \<union> seen_parts de (datagrams_for blake3 de K (a # as))
        = ?S \<union> seen_parts de (datagrams_for blake3 de K as)"
      using True by (auto simp: datagrams_for_def seen_parts_def a)
    have nf: "\<not> finished it ?S" using Cons.prems(6) unfolding d by (auto simp: finished_def)
    have "c = None \<and> holds it ?S (map_of m1 K)"
      using receive_part [OF assms(1) Cons.prems(1) _ _ Cons.prems(4) g c] nf assms(4) Cons.prems(3)
      by (simp add: K)
    moreover have "?S \<subseteq> parts it"
      using g Cons.prems(4) by (auto simp: genuine_def msg_of_def)
    ultimately show ?thesis
      using Cons.IH [OF tab(1) sub _ _ _ _ cs1, of ?S] Cons.prems(5,6) unfolding d by (simp add: cs)
  qed
qed

section \<open>From the sender's frames to the receiver's item\<close>

definition frames_of :: "(frame \<Rightarrow> ustr + bytes) \<Rightarrow> complete_item \<Rightarrow> bytes list" where
  "frames_of ser it = build_item_frames ser (cp_lamport it) (cp_hash it) (cp_kind it) (cp_payload it)
     (cp_sensitive it) (cp_origin it) (cp_event_seq it)"

text \<open>The CBOR library encodes the given messages, to bytes it decodes.\<close>

definition cbor_ok :: "(frame \<Rightarrow> ustr + bytes) \<Rightarrow> (bytes \<Rightarrow> ustr + frame) \<Rightarrow> msg set \<Rightarrow> bool" where
  "cbor_ok ser de G \<longleftrightarrow>
     (\<forall>g\<in>G. \<exists>out. ser (proto_frame g) = Inr out \<and> de out = Inr (proto_frame g))"

definition part_list :: "complete_item \<Rightarrow> msg list" where
  "part_list it = header_part it # chunk_msgs (cp_hash it) (cp_payload it)"

lemma set_part_list: "set (part_list it) = parts it"
  by (auto simp: part_list_def parts_def chunk_msgs_parts)

lemma part_valid:
  assumes "chunkable (cp_payload it)" and "g \<in> parts it"
  shows "msg_ok g"
  using assms(2) unfolding parts_def
proof
  assume "g = header_part it"
  then show ?thesis by (simp add: header_part_def item_msg_def)
next
  assume "g \<in> chunk_part (cp_hash it) (pieces (cp_payload it)) ` {..<length (pieces (cp_payload it))}"
  then obtain i where i: "i < length (pieces (cp_payload it))"
      and g: "g = chunk_part (cp_hash it) (pieces (cp_payload it)) i" by auto
  have "length (pieces (cp_payload it) ! i) \<le> 1024"
    using chunks_bounds [of MAX_CHUNK_DATA "pieces (cp_payload it) ! i" "cp_payload it"] nth_mem [OF i]
    by (simp add: pieces_def MAX_CHUNK_DATA_def)
  then show ?thesis using i pieces_bounds [OF assms(1)] by (simp add: g chunk_part_def)
qed

lemma map_filter_all: "(\<And>x. x \<in> set xs \<Longrightarrow> f x = Some (g x)) \<Longrightarrow> List.map_filter f xs = map g xs"
  by (induction xs) (auto simp: List.map_filter_def)

lemma frames_of_split:
  assumes "1 < length (frames_of ser it) \<or> MAX_CHUNK_DATA < length (cp_payload it)"
  shows "frames_of ser it = push_encoded ser (part_list it)"
  using assms by (auto simp: frames_of_def build_item_frames_def part_list_def header_part_def Let_def
      split: if_splits sum.splits option.splits)

lemma frames_of_chunked:
  assumes cbor: "cbor_ok ser de (parts it)" and ch: "chunkable (cp_payload it)"
    and n: "1 < length (frames_of ser it) \<or> MAX_CHUNK_DATA < length (cp_payload it)"
  shows "frames_of ser it = map (\<lambda>g. projr (ser (proto_frame g))) (part_list it)"
proof -
  have "frames_of ser it = push_encoded ser (part_list it)" by (rule frames_of_split [OF n])
  also have "\<dots> = map (\<lambda>g. projr (ser (proto_frame g))) (part_list it)"
    unfolding push_encoded_def
  proof (rule map_filter_all)
    fix g assume "g \<in> set (part_list it)"
    then have g: "g \<in> parts it" by (simp add: set_part_list)
    then have "msg_ok g" by (rule part_valid [OF ch])
    moreover obtain out where "ser (proto_frame g) = Inr out" "de out = Inr (proto_frame g)"
      using cbor g by (auto simp: cbor_ok_def)
    ultimately have "encode ser (proto_frame g) = Inr (projr (ser (proto_frame g)))"
      by (simp add: encode_Inr_iff proto_frame_def)
    then show "(case encode ser (proto_frame g) of Inr b \<Rightarrow> Some b | Inl _ \<Rightarrow> None)
        = Some (projr (ser (proto_frame g)))" by simp
  qed
  finally show ?thesis .
qed

lemma chunked_frame_decodes:
  assumes cbor: "cbor_ok ser de (parts it)"
    and ch: "chunkable (cp_payload it)" and g: "g \<in> parts it"
  shows "decode de (projr (ser (proto_frame g))) = Inr (proto_frame g)"
proof -
  obtain out where out: "ser (proto_frame g) = Inr out" "de out = Inr (proto_frame g)"
      using cbor g by (auto simp: cbor_ok_def)
  then show ?thesis
    using part_valid [OF ch g] by (simp add: decode_Inr_iff) (simp add: proto_frame_def)
qed

text \<open>The frames and the parts correspond one to one.\<close>

lemma frames_parts:
  assumes cbor: "cbor_ok ser de (parts it)"
    and ch: "chunkable (cp_payload it)" and n: "1 < length (frames_of ser it)"
  shows "inj_on (msg_of de) (set (frames_of ser it))" and "msg_of de ` set (frames_of ser it) = parts it"
    and "b \<in> set (frames_of ser it) \<Longrightarrow> genuine de it (t, cp_source it, b)"
proof -
  let ?e = "\<lambda>g. projr (ser (proto_frame g))"
  have fr: "set (frames_of ser it) = ?e ` parts it"
    using frames_of_chunked [OF cbor ch] n by (simp add: set_part_list)
  have d: "g \<in> parts it \<Longrightarrow> decode de (?e g) = Inr (proto_frame g)" for g
    using chunked_frame_decodes [OF cbor ch] by blast
  then have m: "g \<in> parts it \<Longrightarrow> msg_of de (?e g) = g" for g
    by (simp add: msg_of_def proto_frame_def)
  show "inj_on (msg_of de) (set (frames_of ser it))"
    unfolding fr by (rule inj_onI) (auto simp: m)
  show "msg_of de ` set (frames_of ser it) = parts it"
    unfolding fr image_image by (simp add: m)
  show "b \<in> set (frames_of ser it) \<Longrightarrow> genuine de it (t, cp_source it, b)"
    unfolding fr by (auto simp: genuine_def d) (simp add: proto_frame_def)
qed

lemma inj_image_subset: "inj_on f F \<Longrightarrow> B \<subseteq> F \<Longrightarrow> f ` F \<subseteq> f ` B \<longleftrightarrow> F \<subseteq> B"
  using inj_on_image_eq_iff [of f F F B] by (metis image_mono order_antisym order_refl)

text \<open>The bytes that came for one item.\<close>

definition bytes_for ::
  "(bytes \<Rightarrow> bytes32) \<Rightarrow> (bytes \<Rightarrow> ustr + frame) \<Rightarrow> bytes32 \<Rightarrow> (instant \<times> bytes32 \<times> bytes) list \<Rightarrow> bytes set" where
  "bytes_for blake3 de K as = (\<lambda>a. snd (snd a)) ` set (datagrams_for blake3 de K as)"

lemma seen_parts_bytes: "seen_parts de (datagrams_for blake3 de K as) = msg_of de ` bytes_for blake3 de K as"
  by (simp add: seen_parts_def bytes_for_def image_image)

text \<open>
  C1: A chunked item survives any delivery. Let the datagrams of an item arrive in any order, repeated
  any number of times and mixed with the datagrams of other transfers (of at most five keys in all,
  the capacity of the table). The item is delivered exactly once, at the datagram that completes
  it, with the payload, hash, kind, origin and sequence number its sender put in; datagrams that come
  after that deliver nothing as long as they do not make up the whole item again.
\<close>

theorem any_order_delivers_once:
  assumes cbor: "cbor_ok ser de (parts it)"
    and ch: "chunkable (cp_payload it)" and n: "1 < length (frames_of ser it)"
    and K: "K = item_key blake3 it"
    and table: "distinct (map fst m)" "map_of m K = None"
    and room: "card (fst ` set m \<union> keys_of blake3 de (before @ done_by # after)) \<le> 5"
    and honest: "\<And>t p b. (t, p, b) \<in> set (before @ done_by # after) \<Longrightarrow> datagram_key blake3 de (t, p, b) = Some K
        \<Longrightarrow> p = cp_source it \<and> b \<in> set (frames_of ser it)"
    and fin_key: "datagram_key blake3 de done_by = Some K"
    and incomplete: "\<not> set (frames_of ser it) \<subseteq> bytes_for blake3 de K before"
    and complete: "set (frames_of ser it) \<subseteq> insert (snd (snd done_by)) (bytes_for blake3 de K before)"
    and rest: "\<not> set (frames_of ser it) \<subseteq> bytes_for blake3 de K after"
  shows "items_for blake3 K (fst (receive_all blake3 de (before @ done_by # after) m)) = [it]"
proof -
  let ?as = "before @ done_by # after" and ?F = "set (frames_of ser it)"
  let ?U = "fst ` set m \<union> keys_of blake3 de ?as"
  note fp = frames_parts [OF cbor ch n]
  have gen: "genuine de it a" if "a \<in> set ?as" "datagram_key blake3 de a = Some K" for a
  proof -
    obtain t' p' b' where a: "a = (t', p', b')" by (cases a)
    show ?thesis using honest [of t' p' b'] that fp(3) [of b' t'] by (simp add: a)
  qed
  have sub: "bytes_for blake3 de K bs \<subseteq> ?F" if "set bs \<subseteq> set ?as" for bs
    using that honest unfolding bytes_for_def datagrams_for_def by fastforce
  have fin: "finished it (msg_of de ` B) \<longleftrightarrow> ?F \<subseteq> B" if "B \<subseteq> ?F" for B
    unfolding finished_def fp(2) [symmetric] using inj_image_subset [OF fp(1) that] .
  have "finite (keys_of blake3 de ?as)"
    by (rule finite_subset [of _ "(\<lambda>a. the (datagram_key blake3 de a)) ` set ?as"])
      (force simp: keys_of_def)+
  then have r: "roomy ?U m" using table(1) room by (simp add: roomy_def)
  have kU: "K \<in> ?U" using fin_key by (auto simp: keys_of_def)
  have k1: "keys_of blake3 de before \<subseteq> ?U" "keys_of blake3 de after \<subseteq> ?U" by (auto simp: keys_of_def)
  obtain t p b where l: "done_by = (t, p, b)" by (cases done_by)
  obtain cs1 m1 where r1: "receive_all blake3 de before m = (cs1, m1)" by force
  obtain c m2 where r2: "receive blake3 de t p b m1 = (c, m2)" by force
  obtain cs3 m3 where r3: "receive_all blake3 de after m2 = (cs3, m3)" by force
  let ?S = "seen_parts de (datagrams_for blake3 de K before)"
  have h0: "holds it {} (map_of m K)" using table(2) by (simp add: holds_def)
  have nf: "\<not> finished it ({} \<union> ?S)"
    using incomplete fin [OF sub [of before]] by (simp add: seen_parts_bytes subset_iff)
  have p1: "items_for blake3 K cs1 = [] \<and> roomy ?U m1 \<and> holds it ?S (map_of m1 K)"
    using receive_all_partial [OF ch r K kU k1(1) h0 _ _ nf r1] gen by simp
  have Sp: "?S \<subseteq> parts it"
    using sub [of before] unfolding seen_parts_bytes fp(2) [symmetric] by (intro image_mono) auto
  have bF: "b \<in> ?F" using honest [of t p b] fin_key by (simp add: l)
  have fin1: "finished it (insert (msg_of de b) ?S)"
    using complete fin [of "insert b (bytes_for blake3 de K before)"] bF sub [of before]
    by (simp add: seen_parts_bytes l subset_iff)
  have U2: "datagram_key blake3 de (t, p, b) = Some key \<Longrightarrow> key \<in> ?U" for key
    using fin_key kU by (simp add: l)
  have p2: "c = Some it \<and> map_of m2 K = None \<and> roomy ?U m2"
    using receive_part [OF ch _ _ _ Sp _ r2] receive_table(1) [OF _ U2 r2] p1 kU fin1 gen [of done_by] fin_key
    by (auto simp: K l)
  have h2: "holds it {} (map_of m2 K)" using p2 by (simp add: holds_def)
  have nf3: "\<not> finished it ({} \<union> seen_parts de (datagrams_for blake3 de K after))"
    using rest fin [OF sub [of after]] by (simp add: seen_parts_bytes subset_iff)
  have p3: "items_for blake3 K cs3 = []"
    using receive_all_partial [OF ch _ K kU k1(2) h2 _ _ nf3 r3] p2 gen by simp
  show ?thesis
    using p1 p2 p3 by (simp add: receive_all_append r1 r2 r3 l items_for_def K)
qed

text \<open>A codec for the witnesses: a message is its place in a list.\<close>

definition table_ser :: "msg list \<Rightarrow> frame \<Rightarrow> ustr + bytes" where
  "table_ser gs f = (case position (\<lambda>g. proto_frame g = f) gs of Some i \<Rightarrow> Inr [of_nat i] | None \<Rightarrow> Inl [])"

definition table_de :: "msg list \<Rightarrow> bytes \<Rightarrow> ustr + frame" where
  "table_de gs b = (case b of
       [n] \<Rightarrow> if unat n < length gs then Inr (proto_frame (gs ! unat n)) else Inl []
     | _ \<Rightarrow> Inl [])"

lemma proto_frame_inj [simp]: "proto_frame g = proto_frame g' \<longleftrightarrow> g = g'"
  by (simp add: proto_frame_def)

lemma position_nth: "distinct xs \<Longrightarrow> i < length xs \<Longrightarrow> position (\<lambda>x. x = xs ! i) xs = Some i"
proof (induction xs arbitrary: i)
  case (Cons x xs)
  then show ?case by (cases i) (auto simp: nth_eq_iff_index_eq)
qed simp

lemma table_ser_nth:
  "distinct gs \<Longrightarrow> i < length gs \<Longrightarrow> table_ser gs (proto_frame (gs ! i)) = Inr [of_nat i]"
  by (simp add: table_ser_def position_nth)

lemma table_de_nth: "i < length gs \<Longrightarrow> length gs \<le> 256 \<Longrightarrow> table_de gs [of_nat i] = Inr (proto_frame (gs ! i))"
  by (simp add: table_de_def unat_of_nat)

lemma table_ok: "distinct gs \<Longrightarrow> length gs \<le> 256 \<Longrightarrow> cbor_ok (table_ser gs) (table_de gs) (set gs)"
  by (auto simp: cbor_ok_def in_set_conv_nth table_ser_nth table_de_nth)

lemma part_key_part: "chunkable (cp_payload it) \<Longrightarrow> g \<in> parts it \<Longrightarrow> part_key blake3 (cp_source it) g = Some (item_key blake3 it)"
  using total_in_range [of "length (pieces (cp_payload it))"] pieces_bounds [of "cp_payload it"]
  by (auto simp: parts_def part_key_def header_part_def item_msg_def chunk_part_def item_key_def)

definition demo_item :: complete_item where
  "demo_item = \<lparr>cp_source = [1], cp_origin = [1], cp_event_seq = 7, cp_hash = [2], cp_kind = Text,
     cp_sensitive = False, cp_lamport = 3, cp_payload = replicate 1025 65\<rparr>"

definition demo_parts :: "msg list" where
  "demo_parts = part_list demo_item"

lemma demo_source: "cp_source demo_item = [1]"
  by (simp add: demo_item_def)

lemma demo_chunkable: "chunkable (cp_payload demo_item)"
  by (simp add: chunkable_def demo_item_def MAX_PAYLOAD_def)

lemma demo_pieces: "length (pieces (cp_payload demo_item)) = 2"
  using chunks_length [of MAX_CHUNK_DATA "cp_payload demo_item"]
  by (simp add: pieces_def MAX_CHUNK_DATA_def demo_item_def)

lemma demo_parts_eq:
  "demo_parts = [header_part demo_item, chunk_part [2] (pieces (cp_payload demo_item)) 0,
     chunk_part [2] (pieces (cp_payload demo_item)) 1]"
proof -
  have "[0..<2] = [0, 1::nat]" by (simp add: upt_rec)
  then show ?thesis
    by (simp add: demo_parts_def part_list_def chunk_msgs_parts demo_pieces) (simp add: demo_item_def)
qed

lemma demo_distinct: "distinct demo_parts"
  by (simp add: demo_parts_eq chunk_part_inj)

lemma demo_codec: "cbor_ok (table_ser demo_parts) (table_de demo_parts) (parts demo_item)"
proof -
  have "length demo_parts \<le> 256" by (simp add: demo_parts_eq)
  then show ?thesis
    using table_ok [OF demo_distinct] by (simp add: demo_parts_def set_part_list)
qed

lemma demo_frames: "frames_of (table_ser demo_parts) demo_item = [[0], [1], [2]]"
proof -
  have l: "MAX_CHUNK_DATA < length (cp_payload demo_item)" by (simp add: demo_item_def MAX_CHUNK_DATA_def)
  have "frames_of (table_ser demo_parts) demo_item = map (\<lambda>g. projr (table_ser demo_parts (proto_frame g))) demo_parts"
    using frames_of_chunked [OF demo_codec demo_chunkable] l unfolding demo_parts_def by blast
  also have "\<dots> = map (\<lambda>i. [of_nat i]) [0..<length demo_parts]"
    by (intro nth_equalityI) (simp_all add: table_ser_nth [OF demo_distinct])
  also have "\<dots> = [[0], [1], [2]]" by (simp add: demo_parts_eq upt_rec)
  finally show ?thesis .
qed

lemma demo_key:
  assumes "i < 3"
  shows "datagram_key id (table_de demo_parts) (t, [1], [of_nat i]) = Some [1, 2]"
proof -
  have l: "length demo_parts = 3" by (simp add: demo_parts_eq)
  have g: "demo_parts ! i \<in> parts demo_item"
    using assms l nth_mem [of i demo_parts] by (simp add: demo_parts_def set_part_list)
  have "table_de demo_parts [of_nat i] = Inr (proto_frame (demo_parts ! i))"
    using assms l by (simp add: table_de_nth)
  then have "decode (table_de demo_parts) [of_nat i] = Inr (proto_frame (demo_parts ! i))"
    using part_valid [OF demo_chunkable g] by (simp add: decode_Inr_iff) (simp add: proto_frame_def)
  then have "datagram_key id (table_de demo_parts) (t, [1], [of_nat i]) = part_key id [1] (demo_parts ! i)"
    by (simp add: datagram_key_def) (simp add: proto_frame_def)
  also have "\<dots> = Some [1, 2]"
    using part_key_part [OF demo_chunkable g, of id] by (simp add: item_key_def reassembly_key_def) (simp add: demo_item_def)
  finally show ?thesis .
qed

theorem any_order_delivers_once_witness:
  "items_for id [1, 2] (fst (receive_all id (table_de demo_parts)
     [(0, [1], [2]), (1, [1], [0]), (1, [1], [2]), (2, [1], [1]), (3, [1], [2])] [])) = [demo_item]"
proof -
  note k = demo_key [of 0, simplified] demo_key [of 1, simplified] demo_key [of 2, simplified]
  have "items_for id [1, 2] (fst (receive_all id (table_de demo_parts)
     ([(0, [1], [2]), (1, [1], [0]), (1, [1], [2])] @ (2, [1], [1]) # [(3, [1], [2])]) [])) = [demo_item]"
  proof (rule any_order_delivers_once [OF demo_codec demo_chunkable, of _ id])
    show "[1, 2] = item_key id demo_item" by (simp add: item_key_def reassembly_key_def demo_item_def)
  qed (auto simp: demo_frames k bytes_for_def datagrams_for_def keys_of_def demo_source)
  then show ?thesis by simp
qed

end
