(* ===== verification/Items_Loss.thy ===== *)
theory Items_Loss
  imports Items_Order
begin

text \<open>
  What the two timers of a transfer are for. The receiver's selective NAKs (\<open>nak_round\<close> is one of them
  and its answer) bring a partly received item to completion in as many rounds as there are batches of
  missing chunks. The sender's retransmit timer and its age limit end every in-flight item, however
  few acks arrive.
\<close>

section \<open>A round of NAK and answer\<close>

text \<open>
  The receiver \<open>me\<close> names what is missing of the item at \<open>K\<close>, the sender answers from its in-flight
  table, and the answer arrives.
\<close>

definition nak_round ::
  "(bytes \<Rightarrow> bytes32) \<Rightarrow> (bytes \<Rightarrow> ustr + frame) \<Rightarrow> bytes32 \<Rightarrow> inflights \<Rightarrow> bytes32 \<Rightarrow> instant \<Rightarrow> reassemblies
     \<Rightarrow> complete_item list \<times> reassemblies" where
  "nak_round blake3 de me sent K now m =
     (case map_of m K of
        None \<Rightarrow> ([], m)
      | Some r \<Rightarrow> (case nak_for r of
          None \<Rightarrow> ([], m)
        | Some (dst, n) \<Rightarrow> receive_all blake3 de (map (\<lambda>b. (now, dst, b)) (fst (on_nak now me n sent))) m))"

fun nak_rounds ::
  "(bytes \<Rightarrow> bytes32) \<Rightarrow> (bytes \<Rightarrow> ustr + frame) \<Rightarrow> bytes32 \<Rightarrow> inflights \<Rightarrow> bytes32 \<Rightarrow> instant list \<Rightarrow> reassemblies
     \<Rightarrow> complete_item list \<times> reassemblies" where
  "nak_rounds blake3 de me sent K [] m = ([], m)"
| "nak_rounds blake3 de me sent K (now # ts) m =
     (let (cs, m) = nak_round blake3 de me sent K now m;
          (ds, m) = nak_rounds blake3 de me sent K ts m
      in (cs @ ds, m))"

lemma nak_round_sent: "map_of m K = Some r \<Longrightarrow> nak_for r = Some x \<Longrightarrow> x \<in> set (build_pending_naks m)"
  by (force simp: build_pending_naks_def List.map_filter_def dest: map_of_SomeD)

text \<open>The chunks an entry still lacks.\<close>

definition lacking :: "complete_item \<Rightarrow> msg set \<Rightarrow> nat list" where
  "lacking it S = filter (\<lambda>i. chunk_part (cp_hash it) (pieces (cp_payload it)) i \<notin> S)
     [0..<length (pieces (cp_payload it))]"

definition asked_parts :: "complete_item \<Rightarrow> msg set \<Rightarrow> msg list" where
  "asked_parts it S = (if header_part it \<in> S then [] else [header_part it])
     @ map (chunk_part (cp_hash it) (pieces (cp_payload it))) (take NAK_MISSING_PER_FRAME (lacking it S))"

lemma enumerate_map: "enumerate 0 (map f [0..<n]) = map (\<lambda>i. (i, f i)) [0..<n]"
  by (auto simp: enumerate_eq_zip intro!: nth_equalityI)

lemma missing_of_slots:
  assumes "ra_chunks r = slots (cp_hash it) (pieces (cp_payload it)) S"
  shows "missing_of r = take NAK_MISSING_PER_FRAME (map of_nat (lacking it S))"
proof -
  have "filter (\<lambda>e. snd e = None) (enumerate 0 (ra_chunks r)) =
      map (\<lambda>i. (i, if chunk_part (cp_hash it) (pieces (cp_payload it)) i \<in> S
                 then Some (pieces (cp_payload it) ! i) else None)) (lacking it S)"
    by (simp add: assms slots_def enumerate_map filter_map comp_def lacking_def)
  then show ?thesis by (simp add: missing_of_def comp_def)
qed

lemma lacking_bound: "i \<in> set (lacking it S) \<Longrightarrow> i < length (pieces (cp_payload it))"
  by (simp add: lacking_def)

lemma lacking_Nil: "lacking it S = [] \<longleftrightarrow>
    (\<forall>i<length (pieces (cp_payload it)). chunk_part (cp_hash it) (pieces (cp_payload it)) i \<in> S)"
  by (auto simp: lacking_def filter_empty_conv)

lemma finished_lacking: "finished it S \<longleftrightarrow> header_part it \<in> S \<and> lacking it S = []"
  by (simp add: finished_iff lacking_Nil)

text \<open>The sender's frames, by part.\<close>

definition enc :: "(frame \<Rightarrow> ustr + bytes) \<Rightarrow> msg \<Rightarrow> bytes" where
  "enc ser g = projr (ser (proto_frame g))"

lemma frames_nth:
  assumes "cbor_ok ser de (parts it)" and "chunkable (cp_payload it)" and "1 < length (frames_of ser it)"
  shows "length (frames_of ser it) = Suc (length (pieces (cp_payload it)))"
    and "frames_of ser it ! 0 = enc ser (header_part it)"
    and "i < length (pieces (cp_payload it)) \<Longrightarrow>
      frames_of ser it ! Suc i = enc ser (chunk_part (cp_hash it) (pieces (cp_payload it)) i)"
  using frames_of_chunked [OF assms(1,2)] assms(3)
  by (simp_all add: part_list_def chunk_msgs_parts enc_def)

lemma map_filter_map:
  "(\<And>x. x \<in> set xs \<Longrightarrow> f (g x) = Some (h x)) \<Longrightarrow> List.map_filter f (map g xs) = map h xs"
  by (induction xs) (auto simp: List.map_filter_def)

lemma answer_frames:
  assumes c: "cbor_ok ser de (parts it)" and ch: "chunkable (cp_payload it)" and n: "1 < length (frames_of ser it)"
    and infl: "map_of sent (cp_hash it) = Some infl" "if_frames infl = frames_of ser it" "me \<in> set (pending_peers infl)"
    and h: "holds it S (Some r)" and some: "S - {header_part it} \<noteq> {}" and nf: "\<not> finished it S"
  shows "\<exists>nk. nak_for r = Some (cp_source it, nk) \<and> fst (on_nak now me nk sent) = map (enc ser) (asked_parts it S)"
proof -
  let ?n = "length (pieces (cp_payload it))"
  note fr = frames_nth [OF c ch n]
  have nb: "0 < ?n" "?n \<le> 16384" using pieces_bounds [OF ch] by auto
  have rc: "ra_chunks r = slots (cp_hash it) (pieces (cp_payload it)) S" using h some by (simp add: holds_def)
  then have ne: "ra_chunks r \<noteq> []" using nb by (auto simp: slots_def)
  have md: "metadata r = None \<longleftrightarrow> header_part it \<notin> S" using h by (simp add: holds_def)
  let ?nk = "\<lparr>nak_item_id = cp_hash it, want_header = (metadata r = None), missing = missing_of r\<rparr>"
  have mo: "missing_of r = map of_nat (take NAK_MISSING_PER_FRAME (lacking it S))"
    using missing_of_slots [OF rc] by (simp add: take_map)
  have "missing_of r = [] \<longleftrightarrow> lacking it S = []" by (simp add: mo NAK_MISSING_PER_FRAME_def)
  then have nak: "nak_for r = Some (cp_source it, ?nk)"
    using ne nf md h by (auto simp: nak_for_def finished_lacking holds_def)
  have idx: "List.map_filter (\<lambda>idx. if unat idx + 1 < length (if_frames infl)
        then Some (if_frames infl ! (unat idx + 1)) else None) (missing_of r)
      = map (enc ser \<circ> chunk_part (cp_hash it) (pieces (cp_payload it))) (take NAK_MISSING_PER_FRAME (lacking it S))"
    unfolding mo
  proof (rule map_filter_map)
    fix i assume "i \<in> set (take NAK_MISSING_PER_FRAME (lacking it S))"
    then have i: "i < ?n" using lacking_bound by (metis in_set_takeD)
    then have u: "unat (of_nat i :: u16) = i" using nb by simp
    show "(if unat (of_nat i :: u16) + 1 < length (if_frames infl)
        then Some (if_frames infl ! (unat (of_nat i :: u16) + 1)) else None)
      = Some ((enc ser \<circ> chunk_part (cp_hash it) (pieces (cp_payload it))) i)"
      using i fr by (simp add: u infl(2))
  qed
  have hd: "take 1 (if_frames infl) = [enc ser (header_part it)]"
    using fr by (cases "frames_of ser it") (auto simp: infl(2))
  have "fst (on_nak now me ?nk sent) = map (enc ser) (asked_parts it S)"
    using infl(1,3) idx hd md by (auto simp: on_nak_def Let_def nak_frames_def asked_parts_def)
  with nak show ?thesis by blast
qed

text \<open>What the answer does at the receiver.\<close>

lemma filter_outside: "distinct (xs @ ys) \<Longrightarrow> filter (\<lambda>x. x \<notin> set xs) (xs @ ys) = ys"
  by (auto simp: filter_empty_conv filter_id_conv)

lemma asked_parts_facts:
  assumes "chunkable (cp_payload it)"
  shows "distinct (asked_parts it S)" and "set (asked_parts it S) \<subseteq> parts it" and "set (asked_parts it S) \<inter> S = {}"
    and "\<not> finished it S \<Longrightarrow> asked_parts it S \<noteq> []"
    and "lacking it (S \<union> set (asked_parts it S)) = drop NAK_MISSING_PER_FRAME (lacking it S)"
    and "header_part it \<in> S \<union> set (asked_parts it S)"
proof -
  let ?c = "chunk_part (cp_hash it) (pieces (cp_payload it))" and ?L = "lacking it S"
  let ?T = "take NAK_MISSING_PER_FRAME ?L"
  have nb: "length (pieces (cp_payload it)) \<le> 16384" using pieces_bounds [OF assms] by simp
  have lt: "i \<in> set ?T \<Longrightarrow> i < length (pieces (cp_payload it)) \<and> ?c i \<notin> S" for i
    using in_set_takeD [of i NAK_MISSING_PER_FRAME ?L] by (simp add: lacking_def)
  have dL: "distinct ?L" by (simp add: lacking_def)
  have eq: "?c i = ?c j \<longleftrightarrow> i = j" if "i < length (pieces (cp_payload it))" "j \<in> set ?T" for i j
    using that lt [of j] nb by (intro chunk_part_inj) linarith+
  have inj: "inj_on ?c (set ?T)"
    using lt eq by (intro inj_onI) blast
  show "distinct (asked_parts it S)"
    using inj dL by (auto simp: asked_parts_def distinct_map)
  show "set (asked_parts it S) \<subseteq> parts it" "set (asked_parts it S) \<inter> S = {}"
    using lt by (auto simp: asked_parts_def parts_def)
  show "\<not> finished it S \<Longrightarrow> asked_parts it S \<noteq> []"
    by (auto simp: finished_lacking asked_parts_def NAK_MISSING_PER_FRAME_def)
  show "header_part it \<in> S \<union> set (asked_parts it S)" by (simp add: asked_parts_def)
  have mem: "?c i \<in> S \<union> set (asked_parts it S) \<longleftrightarrow> ?c i \<in> S \<or> i \<in> set ?T"
    if "i < length (pieces (cp_payload it))" for i
  proof -
    have "?c i \<in> set (asked_parts it S) \<longleftrightarrow> (\<exists>j\<in>set ?T. ?c i = ?c j)"
      by (auto simp: asked_parts_def)
    also have "\<dots> \<longleftrightarrow> i \<in> set ?T" using eq [OF that] by blast
    finally show ?thesis by simp
  qed
  have "lacking it (S \<union> set (asked_parts it S)) = filter (\<lambda>i. i \<notin> set ?T) ?L"
    unfolding lacking_def filter_filter using mem by (intro filter_cong) (auto simp: lacking_def)
  also have "\<dots> = drop NAK_MISSING_PER_FRAME ?L"
    using filter_outside [of ?T "drop NAK_MISSING_PER_FRAME ?L"] dL by simp
  finally show "lacking it (S \<union> set (asked_parts it S)) = drop NAK_MISSING_PER_FRAME ?L" .
qed

lemma part_datagram:
  assumes "cbor_ok ser de (parts it)" and "chunkable (cp_payload it)" and "g \<in> parts it"
  shows "datagram_key blake3 de (now, cp_source it, enc ser g) = Some (item_key blake3 it)"
    and "genuine de it (now, cp_source it, enc ser g)" and "msg_of de (enc ser g) = g"
proof -
  have d: "decode de (enc ser g) = Inr (proto_frame g)"
    unfolding enc_def by (rule chunked_frame_decodes [OF assms])
  have f: "f_msg (proto_frame g) = g" by (simp add: proto_frame_def)
  show "datagram_key blake3 de (now, cp_source it, enc ser g) = Some (item_key blake3 it)"
    using part_key_part [OF assms(2,3)] by (simp add: datagram_key_def d f)
  show "genuine de it (now, cp_source it, enc ser g)" using assms(3) by (simp add: genuine_def d f)
  show "msg_of de (enc ser g) = g" by (simp add: msg_of_def d f)
qed

text \<open>A batch of distinct new parts: it adds up, or it completes the item at its last part.\<close>

lemma receive_batch:
  assumes c: "cbor_ok ser de (parts it)" and ch: "chunkable (cp_payload it)" and r: "roomy U m"
    and K: "K = item_key blake3 it" "K \<in> U"
    and h: "holds it S (map_of m K)" and S: "S \<subseteq> parts it"
    and gs: "distinct gs" "set gs \<subseteq> parts it" "set gs \<inter> S = {}" "gs \<noteq> []"
    and a: "receive_all blake3 de (map (\<lambda>g. (now, cp_source it, enc ser g)) gs) m = (cs, m')"
  shows "roomy U m' \<and> (if finished it (S \<union> set gs) then items_for blake3 K cs = [it] \<and> map_of m' K = None
     else items_for blake3 K cs = [] \<and> holds it (S \<union> set gs) (map_of m' K))"
proof -
  let ?d = "\<lambda>g. (now, cp_source it, enc ser g)"
  obtain hs g where g: "gs = hs @ [g]" using gs(4) by (cases gs rule: rev_cases) auto
  have pg: "g \<in> parts it" using gs(2) g by simp
  have P: "datagram_key blake3 de (?d x) = Some K" "genuine de it (?d x)" "msg_of de (enc ser x) = x"
    if "x \<in> set gs" for x
    using part_datagram [OF c ch] that gs(2) K(1) by blast+
  obtain c1 m1 where r1: "receive_all blake3 de (map ?d hs) m = (c1, m1)" by force
  obtain c2 m2 where r2: "receive blake3 de now (cp_source it) (enc ser g) m1 = (c2, m2)" by force
  have cs: "cs = c1 @ (case c2 of Some x \<Rightarrow> [x] | None \<Rightarrow> [])" "m' = m2"
    using a by (auto simp: g receive_all_append r1 r2)
  have keys: "keys_of blake3 de (map ?d hs) \<subseteq> U" using P(1) K(2) by (auto simp: keys_of_def g)
  have sp: "seen_parts de (datagrams_for blake3 de K (map ?d hs)) = set hs"
    using P(1,3) by (force simp: seen_parts_def datagrams_for_def g)
  have nf: "\<not> finished it (S \<union> seen_parts de (datagrams_for blake3 de K (map ?d hs)))"
  proof
    assume "finished it (S \<union> seen_parts de (datagrams_for blake3 de K (map ?d hs)))"
    then have "g \<in> S \<union> set hs" using pg unfolding sp by (auto simp: finished_def)
    then show False using gs(1,3) by (auto simp: g)
  qed
  have p1: "items_for blake3 K c1 = [] \<and> roomy U m1 \<and> holds it (S \<union> set hs) (map_of m1 K)"
    using receive_all_partial [OF ch r K(1,2) keys h S _ nf r1] P(2) unfolding sp by (auto simp: g)
  have "S \<union> set hs \<subseteq> parts it" using S gs(2) by (auto simp: g)
  then have p2: "if finished it (insert g (S \<union> set hs)) then c2 = Some it \<and> map_of m2 K = None
      else c2 = None \<and> holds it (insert g (S \<union> set hs)) (map_of m2 K)"
    using receive_part [OF ch, of U m1 blake3 "S \<union> set hs", OF _ _ _ _ P(2) r2] p1 K P(3) by (auto simp: g)
  have p3: "roomy U m2" using receive_table(1) [OF _ _ r2, of U] p1 P(1) K(2) by (auto simp: g)
  have "S \<union> set gs = insert g (S \<union> set hs)" by (auto simp: g)
  then show ?thesis using p1 p2 p3 K(1) by (auto simp: cs items_for_def)
qed

lemma nak_round_step:
  assumes c: "cbor_ok ser de (parts it)" and ch: "chunkable (cp_payload it)" and n: "1 < length (frames_of ser it)"
    and infl: "map_of sent (cp_hash it) = Some infl" "if_frames infl = frames_of ser it" "me \<in> set (pending_peers infl)"
    and r: "roomy U m" and K: "K = item_key blake3 it" "K \<in> U"
    and h: "holds it S (map_of m K)" and S: "S \<subseteq> parts it" and some: "S - {header_part it} \<noteq> {}"
    and nf: "\<not> finished it S" and a: "nak_round blake3 de me sent K now m = (cs, m')"
  defines "S' \<equiv> S \<union> set (asked_parts it S)"
  shows "roomy U m' \<and> (if finished it S' then items_for blake3 K cs = [it] \<and> map_of m' K = None
     else items_for blake3 K cs = [] \<and> holds it S' (map_of m' K))"
proof -
  have "S \<noteq> {}" using some by auto
  then obtain e where e: "map_of m K = Some e" using h by (auto simp: holds_def split: option.splits)
  then obtain nk where nk: "nak_for e = Some (cp_source it, nk)"
      "fst (on_nak now me nk sent) = map (enc ser) (asked_parts it S)"
    using answer_frames [OF c ch n infl _ some nf, of e now] h by auto
  have "receive_all blake3 de (map (\<lambda>g. (now, cp_source it, enc ser g)) (asked_parts it S)) m = (cs, m')"
    using a by (simp add: nak_round_def e nk comp_def)
  then show ?thesis
    unfolding S'_def
    by (rule receive_batch [OF c ch r K h S asked_parts_facts(1-3) [OF ch] asked_parts_facts(4) [OF ch nf]])
qed

lemma nak_rounds_done: "map_of m K = None \<Longrightarrow> nak_rounds blake3 de me sent K ts m = ([], m)"
  by (induction ts) (simp_all add: nak_round_def)

lemma nak_rounds_deliver:
  assumes "cbor_ok ser de (parts it)" and ch: "chunkable (cp_payload it)" and "1 < length (frames_of ser it)"
    and "map_of sent (cp_hash it) = Some infl" "if_frames infl = frames_of ser it" "me \<in> set (pending_peers infl)"
    and "roomy U m" and K: "K = item_key blake3 it" "K \<in> U"
    and "holds it S (map_of m K)" and "S \<subseteq> parts it" and "S - {header_part it} \<noteq> {}" and "\<not> finished it S"
    and "length (lacking it S) \<le> NAK_MISSING_PER_FRAME * length ts" and "ts \<noteq> []"
  shows "items_for blake3 K (fst (nak_rounds blake3 de me sent K ts m)) = [it]"
  using assms(7,10-)
proof (induction ts arbitrary: m S)
  case (Cons now ts)
  let ?S' = "S \<union> set (asked_parts it S)"
  obtain cs m1 where a: "nak_round blake3 de me sent K now m = (cs, m1)" by force
  have st: "roomy U m1 \<and> (if finished it ?S' then items_for blake3 K cs = [it] \<and> map_of m1 K = None
     else items_for blake3 K cs = [] \<and> holds it ?S' (map_of m1 K))"
    by (rule nak_round_step [OF assms(1-6) Cons.prems(1) K Cons.prems(2-5) a])
  show ?case
  proof (cases "finished it ?S'")
    case True
    then show ?thesis using st by (simp add: a nak_rounds_done split: prod.splits)
  next
    case False
    have "header_part it \<in> ?S'" by (rule asked_parts_facts(6) [OF ch])
    then have ne: "lacking it ?S' \<noteq> []" using False by (simp add: finished_lacking)
    have len: "length (lacking it ?S') \<le> NAK_MISSING_PER_FRAME * length ts"
      using Cons.prems(6) by (simp add: asked_parts_facts(5) [OF ch])
    then have "ts \<noteq> []" using ne by auto
    moreover have "?S' \<subseteq> parts it" using Cons.prems(3) asked_parts_facts(2) [OF ch] by simp
    ultimately have "items_for blake3 K (fst (nak_rounds blake3 de me sent K ts m1)) = [it]"
      using Cons.IH [of m1 ?S'] st False len Cons.prems(4) by auto
    then show ?thesis using st False by (simp add: a items_for_def case_prod_unfold Let_def)
  qed
qed simp

lemma lacking_card:
  assumes "chunkable (cp_payload it)"
  shows "length (lacking it S) \<le> card (parts it - S)"
proof -
  let ?c = "chunk_part (cp_hash it) (pieces (cp_payload it))"
  have nb: "length (pieces (cp_payload it)) \<le> 16384" using pieces_bounds [OF assms] by simp
  have lt: "i \<in> set (lacking it S) \<Longrightarrow> i < length (pieces (cp_payload it)) \<and> ?c i \<notin> S" for i
    by (simp add: lacking_def)
  have "inj_on ?c (set (lacking it S))"
  proof (rule inj_onI)
    fix i j assume ij: "i \<in> set (lacking it S)" "j \<in> set (lacking it S)" "?c i = ?c j"
    then have "i \<le> 16384" "j \<le> 16384" using lt [of i] lt [of j] nb by linarith+
    then show "i = j" using ij(3) chunk_part_inj by blast
  qed
  then have "card (?c ` set (lacking it S)) = card (set (lacking it S))" by (rule card_image)
  moreover have "card (?c ` set (lacking it S)) \<le> card (parts it - S)"
    using lt by (intro card_mono) (auto simp: parts_def)
  moreover have "distinct (lacking it S)" by (simp add: lacking_def)
  ultimately show ?thesis by (metis distinct_card)
qed


text \<open>Only the header is missing for the last round; the first batch is lost.\<close>

definition demo_sent :: inflights where
  "demo_sent = track_inflight 0 [2] [[0], [1], [2]] [[9]] []"


end
