(* ===== verification/In_Flight.thy ===== *)
theory In_Flight
  imports Items
begin

text \<open>
  The life of an item in the sender's in-flight table: runs of sends, acks, NAKs and retransmit ticks.
\<close>

section \<open>The steps\<close>

datatype flight_event =
    Track bytes32 "bytes list" "bytes32 list"
  | AckFrom bytes32 bytes32
  | NakFrom bytes32 nak
  | RetransmitTick

fun flight_step :: "instant \<times> flight_event \<Rightarrow> inflights \<Rightarrow> inflights" where
  "flight_step (now, Track h frames peers) m = track_inflight now h frames peers m"
| "flight_step (now, AckFrom p h) m = snd (on_ack p h m)"
| "flight_step (now, NakFrom p n) m = snd (on_nak now p n m)"
| "flight_step (now, RetransmitTick) m = snd (retransmit_tick now m)"

definition flight_run :: "(instant \<times> flight_event) list \<Rightarrow> inflights \<Rightarrow> inflights" where
  "flight_run es m = fold flight_step es m"

text \<open>How often a run resends the whole of item \<open>h\<close>.\<close>

definition resent :: "bytes32 \<Rightarrow> instant \<times> flight_event \<Rightarrow> inflights \<Rightarrow> nat" where
  "resent h e m =
     (case e of
        (now, RetransmitTick) \<Rightarrow>
          (case map_of m h of
             Some it \<Rightarrow> (case item_tick now it of Resend _ \<Rightarrow> 1 | _ \<Rightarrow> 0)
           | None \<Rightarrow> 0)
      | _ \<Rightarrow> 0)"

fun resends :: "bytes32 \<Rightarrow> (instant \<times> flight_event) list \<Rightarrow> inflights \<Rightarrow> nat" where
  "resends h [] m = 0"
| "resends h (e # es) m = resent h e m + resends h es (flight_step e m)"

definition tracks :: "bytes32 \<Rightarrow> instant \<times> flight_event \<Rightarrow> bool" where
  "tracks h e \<longleftrightarrow> (case snd e of Track h' _ _ \<Rightarrow> h' = h | _ \<Rightarrow> False)"

definition ackers :: "bytes32 \<Rightarrow> (instant \<times> flight_event) list \<Rightarrow> bytes32 set" where
  "ackers h es = {p. \<exists>t. (t, AckFrom p h) \<in> set es}"

section \<open>One item under one step\<close>

lemma map_of_tick:
  assumes "distinct (map fst m)"
  shows "map_of (snd (retransmit_tick now m)) h =
    (case map_of m h of
       None \<Rightarrow> None
     | Some it \<Rightarrow> (case item_tick now it of Drop \<Rightarrow> None | Wait \<Rightarrow> Some it | Resend it' \<Rightarrow> Some it'))"
  using assms
proof (induction m)
  case (Cons e m)
  have "map_of m (fst e) = None" using Cons.prems by (simp add: map_of_eq_None_iff)
  then show ?case
    using Cons by (cases "fst e = h"; cases e)
      (auto simp: retransmit_tick_def List.map_filter_def split: tick.splits)
qed (simp add: retransmit_tick_def List.map_filter_def)

lemma keys_tick: "set (map fst (snd (retransmit_tick now m))) \<subseteq> set (map fst m)"
  by (induction m) (auto simp: retransmit_tick_def List.map_filter_def split: tick.splits)

lemma distinct_tick: "distinct (map fst m) \<Longrightarrow> distinct (map fst (snd (retransmit_tick now m)))"
proof (induction m)
  case (Cons e m)
  have "fst e \<notin> set (map fst (snd (retransmit_tick now m)))"
    using keys_tick [of now m] Cons.prems by auto
  then show ?case
    using Cons by (auto simp: retransmit_tick_def List.map_filter_def split: tick.splits)
qed (simp add: retransmit_tick_def List.map_filter_def)

lemma distinct_flight_step: "distinct (map fst m) \<Longrightarrow> distinct (map fst (flight_step e m))"
  by (cases e; cases "snd e")
    (auto simp: track_inflight_def on_ack_def on_nak_def Let_def distinct_tick split: option.splits)

text \<open>What a step does to the entry of \<open>h\<close>, seen on its own.\<close>

fun entry_step :: "bytes32 \<Rightarrow> instant \<times> flight_event \<Rightarrow> inflight \<Rightarrow> inflight option" where
  "entry_step h (now, Track h' fs ps) it = Some it"
| "entry_step h (now, AckFrom p h') it =
     (let rest = filter (\<lambda>q. q \<noteq> p) (pending_peers it)
      in if h' \<noteq> h then Some it else if rest = [] then None else Some (it\<lparr>pending_peers := rest\<rparr>))"
| "entry_step h (now, NakFrom p n) it =
     Some (if nak_item_id n = h \<and> nak_frames p n [(h, it)] \<noteq> [] then it\<lparr>last_sent := now\<rparr> else it)"
| "entry_step h (now, RetransmitTick) it =
     (case item_tick now it of Drop \<Rightarrow> None | Wait \<Rightarrow> Some it | Resend it' \<Rightarrow> Some it')"

lemma flight_at:
  assumes d: "distinct (map fst m)" and t: "\<not> tracks h e"
  shows "map_of (flight_step e m) h = (case map_of m h of None \<Rightarrow> None | Some it \<Rightarrow> entry_step h e it)"
proof -
  obtain now x where e: "e = (now, x)" by (cases e)
  show ?thesis
  proof (cases x)
    case (Track h' fs ps)
    then show ?thesis using t by (simp add: e tracks_def track_inflight_def Let_def split: option.splits)
  next
    case (AckFrom p h')
    then show ?thesis by (auto simp: e on_ack_def Let_def split: option.splits)
  next
    case (NakFrom p n)
    then show ?thesis by (auto simp: e on_nak_def Let_def nak_frames_def split: option.splits)
  next
    case RetransmitTick
    then show ?thesis by (simp add: e map_of_tick [OF d] split: option.split)
  qed
qed

lemma item_tick_resend:
  "item_tick now it = Resend x \<Longrightarrow> unat (attempts it) < 6 \<and> x = it\<lparr>attempts := attempts it + 1, last_sent := now\<rparr>"
  by (auto simp: item_tick_def MAX_RETRANSMIT_def word_le_nat_alt split: if_splits)

lemma unat_attempt: "unat (a :: u8) < 6 \<Longrightarrow> unat (a + 1) = Suc (unat a)"
  by (simp add: unat_word_ariths)

text \<open>Nothing but \<open>track_inflight\<close> puts an item in, changes its frames or restarts its age.\<close>

lemma entry_step_fields:
  assumes "entry_step h e it = Some it'"
  shows "if_frames it' = if_frames it \<and> first_sent it' = first_sent it
    \<and> set (pending_peers it') = set (pending_peers it) - ackers h [e]"
  using assms item_tick_resend
  by (cases "(h, e, it)" rule: entry_step.cases) (fastforce simp: ackers_def Let_def split: if_splits tick.splits)+

lemma entry_step_attempts:
  assumes "entry_step h e it = Some it'" and "map_of m h = Some it" and "unat (attempts it) \<le> 6"
  shows "unat (attempts it') = unat (attempts it) + resent h e m \<and> unat (attempts it') \<le> 6"
  using assms
  by (cases "(h, e, it)" rule: entry_step.cases)
    (auto simp: resent_def Let_def unat_attempt split: if_splits tick.splits dest!: item_tick_resend)

lemma entry_step_nonempty:
  "entry_step h e it = Some it' \<Longrightarrow> pending_peers it \<noteq> [] \<Longrightarrow> pending_peers it' \<noteq> []"
  using item_tick_resend
  by (cases "(h, e, it)" rule: entry_step.cases) (fastforce simp: Let_def split: if_splits tick.splits)+

section \<open>Runs\<close>

lemma flight_run_absent:
  "distinct (map fst m) \<Longrightarrow> \<forall>e\<in>set es. \<not> tracks h e \<Longrightarrow> map_of m h = None \<Longrightarrow>
     map_of (flight_run es m) h = None \<and> resends h es m = 0"
proof (induction es arbitrary: m)
  case (Cons e es)
  have "resent h e m = 0" using Cons.prems(3) by (auto simp: resent_def split: prod.splits flight_event.splits)
  then show ?case
    using Cons distinct_flight_step [OF Cons.prems(1), of e] by (simp add: flight_run_def flight_at)
qed (simp add: flight_run_def)

lemma ackers_Cons: "ackers h (e # es) = ackers h [e] \<union> ackers h es"
  by (auto simp: ackers_def)

lemma resent_last: "unat (attempts it) \<le> 6 \<Longrightarrow> map_of m h = Some it \<Longrightarrow> unat (attempts it) + resent h e m \<le> 6"
  by (auto simp: resent_def split: prod.splits flight_event.splits tick.splits dest!: item_tick_resend)

text \<open>What a run makes of an entry: its age and frames stay, its budget is spent, its debtors pay.\<close>

lemma flight_run_entry:
  assumes "distinct (map fst m)" and "\<forall>e\<in>set es. \<not> tracks h e" and "map_of m h = Some it"
    and "unat (attempts it) \<le> 6" and "pending_peers it \<noteq> []"
  shows "unat (attempts it) + resends h es m \<le> 6"
    and "map_of (flight_run es m) h = Some it' \<Longrightarrow> if_frames it' = if_frames it
      \<and> set (pending_peers it') = set (pending_peers it) - ackers h es \<and> pending_peers it' \<noteq> []
      \<and> (\<forall>now. (now, RetransmitTick) \<in> set es \<longrightarrow> now - first_sent it \<le> INFLIGHT_MAX_AGE)"
proof -
  have "unat (attempts it) + resends h es m \<le> 6
    \<and> (\<forall>it'. map_of (flight_run es m) h = Some it' \<longrightarrow> if_frames it' = if_frames it
      \<and> set (pending_peers it') = set (pending_peers it) - ackers h es \<and> pending_peers it' \<noteq> []
      \<and> (\<forall>now. (now, RetransmitTick) \<in> set es \<longrightarrow> now - first_sent it \<le> INFLIGHT_MAX_AGE))"
    using assms
  proof (induction es arbitrary: m it)
    case Nil
    then show ?case by (simp add: flight_run_def ackers_def)
  next
    case (Cons e es)
    let ?m = "flight_step e m"
    have nt: "\<not> tracks h e" "\<forall>e\<in>set es. \<not> tracks h e" using Cons.prems(2) by auto
    have d: "distinct (map fst ?m)" by (rule distinct_flight_step [OF Cons.prems(1)])
    have at: "map_of ?m h = entry_step h e it" using flight_at [OF Cons.prems(1) nt(1)] Cons.prems(3) by simp
    show ?case
    proof (cases "entry_step h e it")
      case None
      then have "map_of (flight_run es ?m) h = None \<and> resends h es ?m = 0"
        using flight_run_absent [OF d nt(2)] at by simp
      then show ?thesis using resent_last [OF Cons.prems(4,3), of e] by (simp add: flight_run_def)
    next
      case (Some it1)
      note f = entry_step_fields [OF Some] and b = entry_step_attempts [OF Some Cons.prems(3,4)]
        and ne = entry_step_nonempty [OF Some Cons.prems(5)]
      have age: "now - first_sent it \<le> INFLIGHT_MAX_AGE" if "e = (now, RetransmitTick)" for now
        using Some that by (auto simp: item_tick_def not_less split: if_splits)
      note IH = Cons.IH [OF d nt(2) _ _ ne]
      have at1: "map_of ?m h = Some it1" using at Some by simp
      have run: "flight_run (e # es) m = flight_run es ?m" by (simp add: flight_run_def)
      have "unat (attempts it1) + resends h es ?m \<le> 6" using IH [OF at1] b by blast
      then have "unat (attempts it) + resends h (e # es) m \<le> 6" using b by simp
      moreover have "if_frames x = if_frames it
          \<and> set (pending_peers x) = set (pending_peers it) - ackers h (e # es) \<and> pending_peers x \<noteq> []
          \<and> (\<forall>now. (now, RetransmitTick) \<in> set (e # es) \<longrightarrow> now - first_sent it \<le> INFLIGHT_MAX_AGE)"
        if "map_of (flight_run (e # es) m) h = Some x" for x
      proof -
        have X: "if_frames x = if_frames it1 \<and> set (pending_peers x) = set (pending_peers it1) - ackers h es
            \<and> pending_peers x \<noteq> []
            \<and> (\<forall>now. (now, RetransmitTick) \<in> set es \<longrightarrow> now - first_sent it1 \<le> INFLIGHT_MAX_AGE)"
          using IH [OF at1] b that unfolding run by blast
        have "set (pending_peers x) = set (pending_peers it) - ackers h (e # es)"
          using X f unfolding ackers_Cons [of h e es] by blast
        then show ?thesis using X f age by auto
      qed
      ultimately show ?thesis by blast
    qed
  qed
  then show "unat (attempts it) + resends h es m \<le> 6"
    and "map_of (flight_run es m) h = Some it' \<Longrightarrow> if_frames it' = if_frames it
      \<and> set (pending_peers it') = set (pending_peers it) - ackers h es \<and> pending_peers it' \<noteq> []
      \<and> (\<forall>now. (now, RetransmitTick) \<in> set es \<longrightarrow> now - first_sent it \<le> INFLIGHT_MAX_AGE)"
    by auto
qed

lemma track_entry:
  assumes "map_of m h = None" and "peers \<noteq> []"
  obtains it where "map_of (track_inflight now h frames peers m) h = Some it" and "attempts it = 0"
    and "first_sent it = now" and "if_frames it = frames" and "set (pending_peers it) = set peers"
    and "pending_peers it \<noteq> []"
proof -
  have f: "set (fold List.insert ps qs) = set ps \<union> set qs" for ps qs :: "bytes32 list"
    by (induction ps arbitrary: qs) auto
  have ne: "fold List.insert peers [] \<noteq> []"
  proof
    assume e: "fold List.insert peers [] = []"
    have "set peers = {}" using f [of peers "[]"] unfolding e by simp
    then show False using assms(2) by simp
  qed
  show thesis
    by (rule that [of "\<lparr>if_frames = frames, attempts = 0, last_sent = now, first_sent = now,
          pending_peers = fold List.insert peers []\<rparr>"])
      (use assms(1) ne f [of peers "[]"] in \<open>simp_all add: track_inflight_def\<close>)
qed

lemma distinct_track: "distinct (map fst m) \<Longrightarrow> distinct (map fst (track_inflight now h frames peers m))"
  by (simp add: track_inflight_def Let_def)

text \<open>
  C14: Every transfer ends. Once an item is sent, and until it is sent anew, it is resent whole at
  most six times whatever acks and NAKs arrive, and the first retransmit tick more than 90 seconds after the
  send finds it gone or drops it: NAKs defer the resends but never that limit.
\<close>

theorem transfers_end:
  assumes "distinct (map fst m)" and "map_of m h = None" and "peers \<noteq> []" and "\<forall>e\<in>set es. \<not> tracks h e"
  shows "resends h es (track_inflight t0 h frames peers m) \<le> 6
    \<and> (\<forall>now. (now, RetransmitTick) \<in> set es \<longrightarrow> t0 + INFLIGHT_MAX_AGE < now \<longrightarrow>
         map_of (flight_run es (track_inflight t0 h frames peers m)) h = None)"
proof -
  obtain it where it: "map_of (track_inflight t0 h frames peers m) h = Some it" "attempts it = 0"
      "first_sent it = t0" "pending_peers it \<noteq> []"
    using track_entry [OF assms(2,3)] by metis
  note r = flight_run_entry [OF distinct_track [OF assms(1)] assms(4) it(1) _ it(4)]
  have "map_of (flight_run es (track_inflight t0 h frames peers m)) h = None"
    if "(now, RetransmitTick) \<in> set es" "t0 + INFLIGHT_MAX_AGE < now" for now
  proof (rule ccontr)
    assume "map_of (flight_run es (track_inflight t0 h frames peers m)) h \<noteq> None"
    then obtain it' where "map_of (flight_run es (track_inflight t0 h frames peers m)) h = Some it'" by auto
    then have "now - t0 \<le> INFLIGHT_MAX_AGE" using r(2) that(1) it(2,3) by auto
    then show False using that(2) by simp
  qed
  then show ?thesis using r(1) it(2) by auto
qed

definition demo_flight :: "(instant \<times> flight_event) list" where
  "demo_flight = [(2000000000, RetransmitTick), (3000000000, NakFrom [8] \<lparr>nak_item_id = [1], want_header = True, missing = []\<rparr>),
     (91000000000, RetransmitTick)]"

theorem transfers_end_witness:
  "resends [1] demo_flight (track_inflight 0 [1] [[5]] [[7], [8]] []) \<le> 6
   \<and> map_of (flight_run demo_flight (track_inflight 0 [1] [[5]] [[7], [8]] [])) [1] = None"
  using transfers_end [of "[]" "[1]" "[[7], [8]]" demo_flight 0 "[[5]]"]
  by (auto simp: demo_flight_def tracks_def INFLIGHT_MAX_AGE_def from_secs_def)

text \<open>
  Acks are accounted for peer by peer. In every run after a send, the item is kept for exactly
  those of its targets that have not acked, so it is gone once all have; and a NAK gets frames out of
  the table only for such a peer: whoever the item was not sent to, or has acked it, is given nothing.
\<close>

theorem acks_settle_debts:
  assumes "distinct (map fst m)" and "map_of m h = None" and "peers \<noteq> []" and "\<forall>e\<in>set es. \<not> tracks h e"
    and m': "m' = flight_run es (track_inflight t0 h frames peers m)"
  shows "(\<forall>it. map_of m' h = Some it \<longrightarrow> if_frames it = frames \<and> set (pending_peers it) = set peers - ackers h es)
    \<and> (set peers \<subseteq> ackers h es \<longrightarrow> map_of m' h = None)
    \<and> (\<forall>q n. nak_item_id n = h \<longrightarrow> nak_frames q n m' \<noteq> [] \<longrightarrow> q \<in> set peers - ackers h es)"
proof -
  obtain it where it: "map_of (track_inflight t0 h frames peers m) h = Some it" "attempts it = 0"
      "if_frames it = frames" "set (pending_peers it) = set peers" "pending_peers it \<noteq> []"
    using track_entry [OF assms(2,3)] by metis
  note r = flight_run_entry(2) [OF distinct_track [OF assms(1)] assms(4) it(1) _ it(5)]
  have e: "map_of m' h = Some x \<Longrightarrow> if_frames x = frames \<and> set (pending_peers x) = set peers - ackers h es
      \<and> pending_peers x \<noteq> []" for x
    using r it(2-4) by (auto simp: m')
  have "map_of m' h = None" if "set peers \<subseteq> ackers h es"
  proof (cases "map_of m' h")
    case (Some x)
    then have "set (pending_peers x) = set peers - ackers h es" "pending_peers x \<noteq> []" using e by auto
    then show ?thesis using that by (metis Diff_eq_empty_iff set_empty)
  qed
  moreover have "q \<in> set peers - ackers h es" if "nak_item_id n = h" "nak_frames q n m' \<noteq> []" for q n
    using that e by (auto simp: nak_frames_def split: option.splits if_splits)
  ultimately show ?thesis using e by blast
qed

theorem acks_settle_debts_witness:
  "nak_frames [9] \<lparr>nak_item_id = [1], want_header = True, missing = []\<rparr>
     (flight_run [(1, AckFrom [7] [1])] (track_inflight 0 [1] [[5]] [[7], [8]] [])) = []
   \<and> map_of (flight_run [(1, AckFrom [7] [1]), (1, AckFrom [8] [1])] (track_inflight 0 [1] [[5]] [[7], [8]] [])) [1] = None"
proof
  show "nak_frames [9] \<lparr>nak_item_id = [1], want_header = True, missing = []\<rparr>
     (flight_run [(1, AckFrom [7] [1])] (track_inflight 0 [1] [[5]] [[7], [8]] [])) = []" (is "?n = []")
  proof (rule ccontr)
    assume "?n \<noteq> []"
    moreover have "\<forall>q n. nak_item_id n = [1] \<longrightarrow>
        nak_frames q n (flight_run [(1, AckFrom [7] [1])] (track_inflight 0 [1] [[5]] [[7], [8]] [])) \<noteq> [] \<longrightarrow>
        q \<in> set [[7], [8]] - ackers [1] [(1, AckFrom [7] [1])]"
      using acks_settle_debts [of "[]" "[1]" "[[7], [8]]" "[(1, AckFrom [7] [1])]" _ 0 "[[5]]", OF _ _ _ _ refl]
      by (simp add: tracks_def)
    ultimately have "[9] \<in> set [[7], [8]] - ackers [1] [(1, AckFrom [7] [1])]"
      by (metis (no_types) nak.select_convs(1))
    then show False by simp
  qed
  show "map_of (flight_run [(1, AckFrom [7] [1]), (1, AckFrom [8] [1])]
      (track_inflight 0 [1] [[5]] [[7], [8]] [])) [1] = None"
    using acks_settle_debts [of "[]" "[1]" "[[7], [8]]" "[(1, AckFrom [7] [1]), (1, AckFrom [8] [1])]" _ 0 "[[5]]", OF _ _ _ _ refl]
    by (simp add: tracks_def ackers_def)
qed

end
