(* ===== verification/Resync.thy ===== *)
theory Resync
  imports Outbox Hex Transport
begin

text \<open>
  Catch-up after a reconnect: what a device offers, what it asks for, and the bookkeeping that
  recognises what comes back (\<open>driver/resync.rs\<close>, \<open>driver/shared.rs\<close>, \<open>driver/inbound.rs\<close>). Two tables
  with a time limit: the pulls in flight, by peer and hash, and the hashes the user cleared.
\<close>

section \<open>The metadata of a peer\<close>

record peer_meta =
  pm_name :: ustr
  pm_platform :: ustr
  pm_caps :: "ustr list"
  pm_battery :: u8
  pm_charging :: bool
  hello_seen :: bool
  verify_restart_sent :: bool

definition peer_meta_new :: peer_meta where
  "peer_meta_new = \<lparr>pm_name = [], pm_platform = [], pm_caps = [], pm_battery = 255, pm_charging = False,
     hello_seen = False, verify_restart_sent = False\<rparr>"

type_synonym peer_metas = "(bytes32, peer_meta) btree"

definition has_cap :: "ustr \<Rightarrow> bytes32 \<Rightarrow> peer_metas \<Rightarrow> bool" where
  "has_cap c peer metas \<longleftrightarrow>
     (case bt_get metas peer of Some m \<Rightarrow> list_ex (\<lambda>x. x = c) (pm_caps m) | None \<Rightarrow> False)"

definition accepts_kind :: "peer_metas \<Rightarrow> bytes32 \<Rightarrow> kind \<Rightarrow> bool" where
  "accepts_kind metas peer k \<longleftrightarrow> k \<noteq> File \<or> has_cap CAP_FILE peer metas"

section \<open>Hexadecimal names in the daemon\<close>

text \<open>The \<open>hex\<close> crate: \<open>hex::encode\<close> and \<open>hex::decode\<close>.\<close>

record hex_lib =
  hex_encode :: "bytes \<Rightarrow> ustr"
  hex_decode :: "ustr \<Rightarrow> bytes option"

definition decode_hex32 :: "hex_lib \<Rightarrow> ustr \<Rightarrow> bytes32 option" where
  "decode_hex32 hx s = (case hex_decode hx s of Some v \<Rightarrow> (if length v = 32 then Some v else None) | None \<Rightarrow> None)"

text \<open>What the daemon relies on: a name decodes back, and decoding a name the codec let through is one-to-one.\<close>

definition hex_ok :: "hex_lib \<Rightarrow> bool" where
  "hex_ok hx \<longleftrightarrow> (\<forall>h. hex_decode hx (hex_encode hx h) = Some h)
     \<and> (\<forall>s h. is_valid_resync_hash s \<longrightarrow> hex_decode hx s = Some h \<longrightarrow> s = hex_encode hx h)"

section \<open>Offers\<close>

definition build_resync_offer :: "hex_lib \<Rightarrow> bytes32 list \<Rightarrow> ustr list" where
  "build_resync_offer hx hashes = map (hex_encode hx) hashes"

definition missing_resync_hashes ::
  "ustr list \<Rightarrow> ustr list \<Rightarrow> ustr list \<Rightarrow> ustr list \<Rightarrow> ustr list \<Rightarrow> ustr list" where
  "missing_resync_hashes offered history out cleared pulled =
     take MAX_RESYNC_HASHES
       (filter (\<lambda>h. \<not> list_ex (\<lambda>x. x = h) history \<and> \<not> list_ex (\<lambda>x. x = h) out
                  \<and> \<not> list_ex (\<lambda>x. x = h) cleared \<and> \<not> list_ex (\<lambda>x. x = h) pulled) offered)"

definition resync_authorized :: "'t net \<Rightarrow> peer_metas \<Rightarrow> bytes32 \<Rightarrow> bool" where
  "resync_authorized t metas peer \<longleftrightarrow>
     peer \<in> set (linked_peer_ids t) \<and> has_cap (lit ''resync-1'') peer metas"

section \<open>Pulls in flight\<close>

definition RESYNC_PULL_TIMEOUT :: duration where "RESYNC_PULL_TIMEOUT = from_secs 60"
definition MAX_PENDING_PULLS_PER_PEER :: nat where "MAX_PENDING_PULLS_PER_PEER = 4 * MAX_RESYNC_HASHES"

type_synonym pulls = "(bytes32, (bytes32, instant) hmap) hmap"

definition fresh_pulls :: "instant \<Rightarrow> (bytes32, instant) hmap \<Rightarrow> (bytes32, instant) hmap" where
  "fresh_pulls now per = filter (\<lambda>e. now - snd e < RESYNC_PULL_TIMEOUT) per"

text \<open>\<open>if per_peer.is_empty() { map.remove(&peer_id) }\<close>\<close>

definition put_pulls :: "bytes32 \<Rightarrow> (bytes32, instant) hmap \<Rightarrow> pulls \<Rightarrow> pulls" where
  "put_pulls peer per m = (if per = [] then hm_remove peer m else hm_insert peer per m)"

fun admit_pulls ::
  "hex_lib \<Rightarrow> instant \<Rightarrow> ustr list \<Rightarrow> (bytes32, instant) hmap \<Rightarrow> ustr list \<times> (bytes32, instant) hmap" where
  "admit_pulls hx now [] per = ([], per)"
| "admit_pulls hx now (h # hs) per =
     (if MAX_PENDING_PULLS_PER_PEER \<le> length per then ([], per)
      else case decode_hex32 hx h of
        Some x \<Rightarrow> (let (tracked, per) = admit_pulls hx now hs (hm_insert x now per) in (h # tracked, per))
      | None \<Rightarrow> admit_pulls hx now hs per)"

definition track_pending_pulls :: "hex_lib \<Rightarrow> instant \<Rightarrow> bytes32 \<Rightarrow> ustr list \<Rightarrow> pulls \<Rightarrow> ustr list \<times> pulls" where
  "track_pending_pulls hx now peer wanted m =
     (let per = fresh_pulls now (case map_of m peer of Some per \<Rightarrow> per | None \<Rightarrow> []);
          (tracked, per) = admit_pulls hx now wanted per
      in (tracked, put_pulls peer per m))"

definition take_pending_pull :: "instant \<Rightarrow> bytes32 \<Rightarrow> bytes32 \<Rightarrow> pulls \<Rightarrow> bool \<times> pulls" where
  "take_pending_pull now peer h m =
     (case map_of m peer of
        None \<Rightarrow> (False, m)
      | Some per \<Rightarrow>
          (let per = fresh_pulls now per
           in (map_of per h \<noteq> None, put_pulls peer (hm_remove h per) m)))"

definition in_flight_pull_hashes :: "hex_lib \<Rightarrow> instant \<Rightarrow> pulls \<Rightarrow> ustr list" where
  "in_flight_pull_hashes hx now m = remdups (map (hex_encode hx \<circ> fst) (fresh_pulls now (concat (map snd m))))"

section \<open>Cleared hashes\<close>

definition MAX_CLEARED_TOMBSTONE :: nat where "MAX_CLEARED_TOMBSTONE = 4096"

type_synonym tombstone = "(bytes32, instant) hmap"

text \<open>The \<open>while\<close> loop that evicts the oldest; each turn removes an entry.\<close>

function shrink_to_cap :: "tombstone \<Rightarrow> tombstone" where
  "shrink_to_cap t =
     (if length t \<le> MAX_CLEARED_TOMBSTONE then t
      else case min_by_key snd t of None \<Rightarrow> t | Some (k, _) \<Rightarrow> shrink_to_cap (hm_remove k t))"
  by auto

termination
proof (relation "measure length")
  fix t :: tombstone and e k v
  assume m: "min_by_key snd t = Some e" and kv: "(k, v) = e"
  have "e \<in> set t" by (rule min_by_key_mem [OF m])
  then have "(k, v) \<in> set t" by (simp only: kv)
  then show "(hm_remove k t, t) \<in> measure length"
    unfolding hm_remove_def by (simp add: length_filter_less [of "(k, v)"])
qed simp

declare shrink_to_cap.simps [simp del]

definition mark_cleared :: "instant \<Rightarrow> bytes32 list \<Rightarrow> tombstone \<Rightarrow> tombstone" where
  "mark_cleared now hs t =
     (if hs = [] then t
      else shrink_to_cap (fold (\<lambda>h. hm_insert h now) hs (filter (\<lambda>e. now - snd e \<le> MAX_AGE) t)))"

definition cleared_hex_snapshot :: "hex_lib \<Rightarrow> instant \<Rightarrow> tombstone \<Rightarrow> ustr list" where
  "cleared_hex_snapshot hx now t = map (hex_encode hx \<circ> fst) (filter (\<lambda>e. now - snd e \<le> MAX_AGE) t)"

section \<open>The pulls as a set of claims\<close>

text \<open>When \<open>h\<close> was asked of \<open>peer\<close>, if the entry is there; whether the claim still stands.\<close>

definition asked :: "pulls \<Rightarrow> bytes32 \<Rightarrow> bytes32 \<Rightarrow> instant option" where
  "asked m peer h = (case map_of m peer of Some per \<Rightarrow> map_of per h | None \<Rightarrow> None)"

definition claimed :: "instant \<Rightarrow> pulls \<Rightarrow> bytes32 \<Rightarrow> bytes32 \<Rightarrow> bool" where
  "claimed now m peer h \<longleftrightarrow> (case asked m peer h of Some t \<Rightarrow> now - t < RESYNC_PULL_TIMEOUT | None \<Rightarrow> False)"

definition pulls_ok :: "pulls \<Rightarrow> bool" where
  "pulls_ok m \<longleftrightarrow> distinct (map fst m)
     \<and> (\<forall>(p, per)\<in>set m. distinct (map fst per) \<and> length per \<le> MAX_PENDING_PULLS_PER_PEER \<and> per \<noteq> [])"

lemma map_of_fresh_pulls:
  "distinct (map fst per) \<Longrightarrow> map_of (fresh_pulls now per) h =
     (case map_of per h of Some t \<Rightarrow> if now - t < RESYNC_PULL_TIMEOUT then Some t else None | None \<Rightarrow> None)"
proof (induction per)
  case (Cons e per)
  then show ?case
    by (auto simp: fresh_pulls_def map_of_eq_None_iff split: option.splits)
qed (simp add: fresh_pulls_def)

lemma fresh_pulls_facts:
  "distinct (map fst per) \<Longrightarrow> distinct (map fst (fresh_pulls now per))" "length (fresh_pulls now per) \<le> length per"
  by (simp_all add: fresh_pulls_def distinct_map_filter)

lemma asked_put: "asked (put_pulls peer per m) p h = (if p = peer then map_of per h else asked m p h)"
  by (simp add: asked_def put_pulls_def)

lemma pulls_ok_put:
  assumes "pulls_ok m" and "distinct (map fst per)" and "length per \<le> MAX_PENDING_PULLS_PER_PEER"
  shows "pulls_ok (put_pulls peer per m)"
  using assms by (auto simp: pulls_ok_def put_pulls_def hm_insert_def hm_remove_def distinct_map_filter)

lemma admit_pulls_facts:
  assumes "distinct (map fst per)" and "length per \<le> MAX_PENDING_PULLS_PER_PEER"
    and "admit_pulls hx now hs per = (tracked, per')"
  shows "distinct (map fst per') \<and> length per' \<le> MAX_PENDING_PULLS_PER_PEER
    \<and> map_of per' h = (if h \<in> (the \<circ> decode_hex32 hx) ` set tracked then Some now else map_of per h)
    \<and> set tracked \<subseteq> set hs \<and> (\<forall>s\<in>set tracked. decode_hex32 hx s \<noteq> None)"
  using assms
proof (induction hs arbitrary: per tracked per')
  case (Cons s hs)
  show ?case
  proof (cases "MAX_PENDING_PULLS_PER_PEER \<le> length per")
    case True
    then show ?thesis using Cons.prems by auto
  next
    case room: False
    show ?thesis
    proof (cases "decode_hex32 hx s")
      case None
      then show ?thesis using Cons.IH [OF Cons.prems(1,2), of tracked per'] Cons.prems(3) room by auto
    next
      case (Some x)
      obtain tr where tr: "admit_pulls hx now hs (hm_insert x now per) = (tr, per')" "tracked = s # tr"
        using Cons.prems(3) room Some by (auto split: prod.splits)
      have "length (hm_insert x now per) \<le> MAX_PENDING_PULLS_PER_PEER"
        using room length_hm_insert [OF Cons.prems(1), of x now] by auto
      then show ?thesis
        using Cons.IH [OF _ _ tr(1)] Cons.prems(1) Some by (auto simp: tr(2))
    qed
  qed
qed auto

text \<open>The two operations on claims, at any later time.\<close>

lemma track_claims:
  assumes ok: "pulls_ok m" and t: "track_pending_pulls hx now peer hs m = (tracked, m')" and "now \<le> later"
  shows "pulls_ok m'" and "set tracked \<subseteq> set hs"
    and "claimed later m' p h \<longleftrightarrow>
      (if p = peer \<and> h \<in> (the \<circ> decode_hex32 hx) ` set tracked then later - now < RESYNC_PULL_TIMEOUT
       else claimed later m p h)"
proof -
  let ?per = "fresh_pulls now (case map_of m peer of Some per \<Rightarrow> per | None \<Rightarrow> [])"
  obtain per' where a: "admit_pulls hx now hs ?per = (tracked, per')" and m': "m' = put_pulls peer per' m"
    using t by (auto simp: track_pending_pulls_def Let_def split: prod.splits)
  have per: "distinct (map fst (case map_of m peer of Some per \<Rightarrow> per | None \<Rightarrow> []))
      \<and> length (case map_of m peer of Some per \<Rightarrow> per | None \<Rightarrow> []) \<le> MAX_PENDING_PULLS_PER_PEER"
    using ok by (auto simp: pulls_ok_def split: option.splits dest!: map_of_SomeD)
  then have f: "distinct (map fst ?per)" "length ?per \<le> MAX_PENDING_PULLS_PER_PEER"
    using fresh_pulls_facts order_trans by blast+
  note ad = admit_pulls_facts [OF f a]
  show "pulls_ok m'" using pulls_ok_put [OF ok] ad by (simp add: m')
  show "set tracked \<subseteq> set hs" using ad by simp
  have "claimed later m' peer h \<longleftrightarrow>
      (if h \<in> (the \<circ> decode_hex32 hx) ` set tracked then later - now < RESYNC_PULL_TIMEOUT else claimed later m peer h)"
  proof (cases "h \<in> (the \<circ> decode_hex32 hx) ` set tracked")
    case True
    then have "asked m' peer h = Some now" using ad by (simp add: m' asked_put)
    then show ?thesis using True by (simp add: claimed_def)
  next
    case False
    then have "asked m' peer h = map_of ?per h" using ad by (simp add: m' asked_put)
    also have "\<dots> = (case asked m peer h of Some t \<Rightarrow> if now - t < RESYNC_PULL_TIMEOUT then Some t else None | None \<Rightarrow> None)"
      using per map_of_fresh_pulls by (auto simp: asked_def fresh_pulls_def split: option.splits)
    finally show ?thesis using False assms(3) by (auto simp: claimed_def split: option.splits)
  qed
  moreover have "p \<noteq> peer \<Longrightarrow> claimed later m' p h \<longleftrightarrow> claimed later m p h"
    by (simp add: claimed_def m' asked_put)
  ultimately show "claimed later m' p h \<longleftrightarrow>
      (if p = peer \<and> h \<in> (the \<circ> decode_hex32 hx) ` set tracked then later - now < RESYNC_PULL_TIMEOUT
       else claimed later m p h)"
    by (cases "p = peer") auto
qed

lemma take_claims:
  assumes ok: "pulls_ok m" and t: "take_pending_pull now peer h m = (found, m')" and "now \<le> later"
  shows "pulls_ok m'" and "found \<longleftrightarrow> claimed now m peer h"
    and "claimed later m' p h' \<longleftrightarrow> claimed later m p h' \<and> \<not> (p = peer \<and> h' = h)"
proof -
  have "pulls_ok m' \<and> (found \<longleftrightarrow> claimed now m peer h)
      \<and> (claimed later m' p h' \<longleftrightarrow> claimed later m p h' \<and> \<not> (p = peer \<and> h' = h))"
  proof (cases "map_of m peer")
    case None
    then show ?thesis using t ok by (auto simp: take_pending_pull_def claimed_def asked_def)
  next
    case (Some per)
    have per: "distinct (map fst per)" "length per \<le> MAX_PENDING_PULLS_PER_PEER"
      using ok map_of_SomeD [OF Some] by (auto simp: pulls_ok_def)
    let ?f = "fresh_pulls now per"
    have m': "m' = put_pulls peer (hm_remove h ?f) m" and found: "found \<longleftrightarrow> map_of ?f h \<noteq> None"
      using t by (auto simp: take_pending_pull_def Some Let_def)
    have "length (hm_remove h ?f) \<le> length per"
      unfolding hm_remove_def using fresh_pulls_facts(2) [of now per] length_filter_le order_trans by blast
    then have "pulls_ok m'"
      unfolding m' using fresh_pulls_facts(1) [OF per(1), of now] per(2) by (intro pulls_ok_put [OF ok]) simp_all
    moreover have at: "asked m peer x = map_of per x" for x by (simp add: asked_def Some)
    have "found \<longleftrightarrow> claimed now m peer h"
      by (auto simp: found claimed_def at map_of_fresh_pulls [OF per(1)] split: option.splits)
    moreover have "asked m' p h' = (if p = peer then ((map_of ?f)(h := None)) h' else asked m p h')"
      by (simp add: m' asked_put)
    then have "claimed later m' p h' \<longleftrightarrow> claimed later m p h' \<and> \<not> (p = peer \<and> h' = h)"
      using assms(3) by (auto simp: claimed_def at map_of_fresh_pulls [OF per(1)] split: option.splits)
    ultimately show ?thesis by blast
  qed
  then show "pulls_ok m'" "found \<longleftrightarrow> claimed now m peer h"
    "claimed later m' p h' \<longleftrightarrow> claimed later m p h' \<and> \<not> (p = peer \<and> h' = h)" by blast+
qed

section \<open>Runs of asking and receiving\<close>

text \<open>
  A run is recorded in a log, newest entry first. \<open>stands\<close> reads off the log alone whether a pull is
  outstanding: the reference for the table.
\<close>

datatype pull_op = AskFor bytes32 "ustr list" | Arrived bytes32 bytes32

datatype pull_entry = Asked bytes32 "bytes32 list" | Took bytes32 bytes32 bool

fun stands :: "instant \<Rightarrow> (instant \<times> pull_entry) list \<Rightarrow> bytes32 \<Rightarrow> bytes32 \<Rightarrow> bool" where
  "stands now [] peer h = False"
| "stands now ((t, Asked p hs) # log) peer h =
     (if peer = p \<and> h \<in> set hs then now - t < RESYNC_PULL_TIMEOUT else stands now log peer h)"
| "stands now ((t, Took p x f) # log) peer h = (\<not> (peer = p \<and> h = x) \<and> stands now log peer h)"

fun pull_step ::
  "hex_lib \<Rightarrow> instant \<times> pull_op \<Rightarrow> pulls \<times> (instant \<times> pull_entry) list \<Rightarrow> pulls \<times> (instant \<times> pull_entry) list" where
  "pull_step hx (now, AskFor peer hs) (m, log) =
     (let (tracked, m) = track_pending_pulls hx now peer hs m
      in (m, (now, Asked peer (map (the \<circ> decode_hex32 hx) tracked)) # log))"
| "pull_step hx (now, Arrived peer h) (m, log) =
     (let (found, m) = take_pending_pull now peer h m in (m, (now, Took peer h found) # log))"

fun well_answered :: "(instant \<times> pull_entry) list \<Rightarrow> bool" where
  "well_answered [] = True"
| "well_answered ((t, Asked p hs) # log) = well_answered log"
| "well_answered ((t, Took p h f) # log) = ((f \<longleftrightarrow> stands t log p h) \<and> well_answered log)"

definition pulls_agree :: "instant \<Rightarrow> pulls \<Rightarrow> (instant \<times> pull_entry) list \<Rightarrow> bool" where
  "pulls_agree now m log \<longleftrightarrow> pulls_ok m \<and> (\<forall>later p h. now \<le> later \<longrightarrow> (claimed later m p h \<longleftrightarrow> stands later log p h))"

lemma pulls_agree_step:
  assumes a: "pulls_agree now0 m log" and t: "now0 \<le> fst op"
    and s: "pull_step hx op (m, log) = (m', log')"
  shows "pulls_agree (fst op) m' log'"
    and "\<exists>e. log' = (fst op, e) # log \<and> (\<forall>p h f. e = Took p h f \<longrightarrow> (f \<longleftrightarrow> stands (fst op) log p h))"
proof -
  have ok: "pulls_ok m" and st: "\<And>later p h. fst op \<le> later \<Longrightarrow> claimed later m p h \<longleftrightarrow> stands later log p h"
    using a t by (auto simp: pulls_agree_def)
  have "pulls_agree (fst op) m' log' \<and> (\<exists>e. log' = (fst op, e) # log
      \<and> (\<forall>p h f. e = Took p h f \<longrightarrow> (f \<longleftrightarrow> stands (fst op) log p h)))"
  proof (cases "snd op")
    case (AskFor peer hs)
    then have op: "op = (fst op, AskFor peer hs)" by (cases op) simp
    obtain tracked where tr: "track_pending_pulls hx (fst op) peer hs m = (tracked, m')"
        and l: "log' = (fst op, Asked peer (map (the \<circ> decode_hex32 hx) tracked)) # log"
      using s by (subst (asm) op) (auto simp: Let_def split: prod.splits)
    show ?thesis
      using track_claims(1) [OF ok tr order_refl] track_claims(3) [OF ok tr] st unfolding l pulls_agree_def by simp
  next
    case (Arrived peer h)
    then have op: "op = (fst op, Arrived peer h)" by (cases op) simp
    obtain found where tk: "take_pending_pull (fst op) peer h m = (found, m')" and l: "log' = (fst op, Took peer h found) # log"
      using s by (subst (asm) op) (auto simp: Let_def split: prod.splits)
    show ?thesis
      using take_claims(1,2) [OF ok tk order_refl] take_claims(3) [OF ok tk] st unfolding l pulls_agree_def by auto
  qed
  then show "pulls_agree (fst op) m' log'"
    "\<exists>e. log' = (fst op, e) # log \<and> (\<forall>p h f. e = Took p h f \<longrightarrow> (f \<longleftrightarrow> stands (fst op) log p h))" by blast+
qed

lemma pull_run_agrees:
  assumes "sorted (map fst ops)" and "\<forall>op\<in>set ops. now0 \<le> fst op" and "pulls_agree now0 m log" and "well_answered log"
  shows "\<exists>now. pulls_agree now (fst (fold (pull_step hx) ops (m, log))) (snd (fold (pull_step hx) ops (m, log)))
    \<and> well_answered (snd (fold (pull_step hx) ops (m, log)))"
  using assms
proof (induction ops arbitrary: now0 m log)
  case (Cons op ops)
  obtain m1 log1 where s: "pull_step hx op (m, log) = (m1, log1)" by force
  have le: "now0 \<le> fst op" using Cons.prems(2) by simp
  note st = pulls_agree_step [OF Cons.prems(3) le s]
  obtain e where e: "log1 = (fst op, e) # log" "\<forall>p h f. e = Took p h f \<longrightarrow> (f \<longleftrightarrow> stands (fst op) log p h)"
    using st(2) by blast
  then have "well_answered log1" using Cons.prems(4) by (cases e) auto
  then show ?case
    using Cons.IH [OF _ _ st(1)] Cons.prems(1) by (simp add: s)
qed auto

text \<open>
  C36: The table of pulls in flight answers exactly what the log of the run says: an item that arrives from a
  peer is taken for catch-up if and only if it was asked of that peer less than 60 seconds ago and has not arrived
  from it since. So each pull is recognised once, only from the peer it was sent to, and a fresh copy
  of the same content is never mistaken for one; and no peer can make the table keep more than 128
  entries.
\<close>

theorem pulls_recognised_once:
  assumes "sorted (map fst ops)" and run: "fold (pull_step hx) ops ([], []) = (m, log)"
  shows "well_answered log \<and> (\<forall>peer per. map_of m peer = Some per \<longrightarrow> length per \<le> 128)"
proof -
  have "pulls_agree 0 [] []" by (simp add: pulls_agree_def pulls_ok_def claimed_def asked_def)
  then obtain now where "pulls_agree now m log \<and> well_answered log"
    using pull_run_agrees [OF assms(1), of 0 "[]" "[]" hx] by (auto simp: run)
  then show ?thesis
    by (auto simp: pulls_agree_def pulls_ok_def MAX_PENDING_PULLS_PER_PEER_def MAX_RESYNC_HASHES_def dest!: map_of_SomeD)
qed

definition demo_hex :: hex_lib where
  "demo_hex = \<lparr>hex_encode = hex32, hex_decode = \<lambda>s. hex32_decode s\<rparr>"

definition demo_pulls :: "(instant \<times> pull_op) list" where
  "demo_pulls = [(0, AskFor [1] [hex32 zero32]), (5, Arrived [2] zero32), (9, Arrived [1] zero32), (10, Arrived [1] zero32)]"

lemma demo_decode: "decode_hex32 demo_hex (hex32 zero32) = Some zero32"
  using decode_hex32 [OF is32_zero32] is32_zero32
  by (simp add: decode_hex32_def demo_hex_def is32_def)

lemma demo_pull_log:
  "snd (fold (pull_step demo_hex) demo_pulls ([], [])) =
     [(10, Took [1] zero32 False), (9, Took [1] zero32 True), (5, Took [2] zero32 False), (0, Asked [1] [zero32])]"
  by (simp add: demo_pulls_def track_pending_pulls_def take_pending_pull_def demo_decode fresh_pulls_def
      put_pulls_def hm_insert_def hm_remove_def MAX_PENDING_PULLS_PER_PEER_def MAX_RESYNC_HASHES_def
      RESYNC_PULL_TIMEOUT_def from_secs_def Let_def)

theorem pulls_recognised_once_witness:
  "well_answered [(10, Took [1] zero32 False), (9, Took [1] zero32 True), (5, Took [2] zero32 False), (0, Asked [1] [zero32])]"
proof -
  have s: "sorted (map fst demo_pulls)" by (simp add: demo_pulls_def)
  have "well_answered (snd (fold (pull_step demo_hex) demo_pulls ([], [])))"
    using pulls_recognised_once [OF s surjective_pairing] by blast
  then show ?thesis by (simp only: demo_pull_log)
qed

section \<open>What was cleared is not asked for again\<close>

text \<open>The tombstones after a run of \<open>ClearHistory\<close> commands.\<close>

definition cleared_run :: "(instant \<times> bytes32 list) list \<Rightarrow> tombstone" where
  "cleared_run cs = fold (\<lambda>c. mark_cleared (fst c) (snd c)) cs []"

lemma length_hm_insert_le: "length (hm_insert k v m) \<le> Suc (length m)"
  by (simp add: hm_insert_def)

lemma fold_mark:
  "length (fold (\<lambda>h. hm_insert h now) hs t) \<le> length hs + length t"
  "map_of (fold (\<lambda>h. hm_insert h now) hs t) x = (if x \<in> set hs then Some now else map_of t x)"
proof -
  show "length (fold (\<lambda>h. hm_insert h now) hs t) \<le> length hs + length t"
  proof (induction hs arbitrary: t)
    case (Cons h hs)
    show ?case using Cons.IH [of "hm_insert h now t"] length_hm_insert_le [of h now t] by simp
  qed simp
  show "map_of (fold (\<lambda>h. hm_insert h now) hs t) x = (if x \<in> set hs then Some now else map_of t x)"
    by (induction hs arbitrary: t) auto
qed

lemma map_of_filter_age:
  "distinct (map fst t) \<Longrightarrow> map_of (filter (\<lambda>e. now - snd e \<le> MAX_AGE) t) x =
     (case map_of t x of Some a \<Rightarrow> if now - a \<le> MAX_AGE then Some a else None | None \<Rightarrow> None)"
  by (induction t) (auto simp: map_of_eq_None_iff split: option.splits)

lemma distinct_fold_mark:
  "distinct (map fst t) \<Longrightarrow> distinct (map fst (fold (\<lambda>h. hm_insert h (now::instant)) hs t))"
  by (induction hs arbitrary: t) auto

lemma mark_cleared_few:
  assumes "length hs + length t \<le> MAX_CLEARED_TOMBSTONE" and "distinct (map fst t)"
  shows "length (mark_cleared now hs t) \<le> length hs + length t" and "distinct (map fst (mark_cleared now hs t))"
    and "map_of (mark_cleared now hs t) x = (if x \<in> set hs then Some now else
      if hs = [] then map_of t x
      else case map_of t x of Some a \<Rightarrow> if now - a \<le> MAX_AGE then Some a else None | None \<Rightarrow> None)"
proof -
  let ?t = "filter (\<lambda>e. now - snd e \<le> MAX_AGE) t"
  have l: "length (fold (\<lambda>h. hm_insert h now) hs ?t) \<le> length hs + length t"
    using fold_mark(1) [of now hs ?t] length_filter_le [of "\<lambda>e. now - snd e \<le> MAX_AGE" t] by linarith
  have d: "distinct (map fst ?t)" using assms(2) by (simp add: distinct_map_filter)
  have m: "mark_cleared now hs t = (if hs = [] then t else fold (\<lambda>h. hm_insert h now) hs ?t)"
    using l assms(1) by (simp add: mark_cleared_def shrink_to_cap.simps)
  show "length (mark_cleared now hs t) \<le> length hs + length t" using l by (simp add: m)
  show "distinct (map fst (mark_cleared now hs t))" using distinct_fold_mark [OF d] assms(2) by (simp add: m)
  show "map_of (mark_cleared now hs t) x = (if x \<in> set hs then Some now else
      if hs = [] then map_of t x
      else case map_of t x of Some a \<Rightarrow> if now - a \<le> MAX_AGE then Some a else None | None \<Rightarrow> None)"
    using fold_mark(2) [of now hs ?t x] map_of_filter_age [OF assms(2)] by (simp add: m)
qed

definition total_cleared :: "(instant \<times> bytes32 list) list \<Rightarrow> nat" where
  "total_cleared cs = sum_list (map (length \<circ> snd) cs)"

lemma cleared_run_keeps:
  assumes "total_cleared cs + length t \<le> MAX_CLEARED_TOMBSTONE" and "distinct (map fst t)"
    and "\<forall>c\<in>set cs. t0 \<le> fst c \<and> fst c \<le> now" and "now - t0 \<le> MAX_AGE"
    and "(\<exists>a\<ge>t0. map_of t h = Some a) \<or> (\<exists>c\<in>set cs. h \<in> set (snd c))"
  shows "\<exists>a\<ge>t0. map_of (fold (\<lambda>c. mark_cleared (fst c) (snd c)) cs t) h = Some a"
  using assms
proof (induction cs arbitrary: t)
  case (Cons c cs)
  let ?t = "mark_cleared (fst c) (snd c) t"
  have few: "length (snd c) + length t \<le> MAX_CLEARED_TOMBSTONE"
    using Cons.prems(1) by (simp add: total_cleared_def)
  note f = mark_cleared_few [OF few Cons.prems(2), of "fst c"]
  have "(\<exists>a\<ge>t0. map_of ?t h = Some a) \<or> (\<exists>c\<in>set cs. h \<in> set (snd c))"
    using Cons.prems(3-5) f(3) [of h] by fastforce
  then show ?case
    using Cons.IH [of ?t] Cons.prems(1,3,4) f(1,2) by (simp add: total_cleared_def)
qed simp

text \<open>
  What the user cleared does not come back. After any run of \<open>ClearHistory\<close> commands over at most
  4096 hashes, whatever a peer offers: the pull built from the offer names, for 24 hours, none of
  them, and besides only hashes of the offer that are neither in the history nor in the outbox nor
  already being pulled, at most 32.
\<close>

theorem cleared_items_stay_cleared:
  assumes sorted: "sorted (map fst cs)" and few: "total_cleared cs \<le> MAX_CLEARED_TOMBSTONE"
    and past: "\<forall>c\<in>set cs. fst c \<le> now"
    and pull: "pull = missing_resync_hashes offered history out (cleared_hex_snapshot hx now (cleared_run cs)) pulled"
  shows "(\<forall>(t, hs)\<in>set cs. \<forall>h\<in>set hs. now \<le> t + MAX_AGE \<longrightarrow> hex_encode hx h \<notin> set pull)
    \<and> set pull \<subseteq> set offered - set history - set out - set pulled \<and> length pull \<le> 32"
proof -
  have "hex_encode hx h \<notin> set pull" if c: "(t, hs) \<in> set cs" "h \<in> set hs" "now \<le> t + MAX_AGE" for t hs h
  proof -
    obtain before after where cs: "cs = before @ (t, hs) # after" using c(1) by (auto simp: in_set_conv_decomp)
    have before: "total_cleared before + total_cleared ((t, hs) # after) \<le> MAX_CLEARED_TOMBSTONE"
      using few by (simp add: cs total_cleared_def)
    have run: "length (fold (\<lambda>c. mark_cleared (fst c) (snd c)) bs t') \<le> total_cleared bs + length t'
        \<and> distinct (map fst (fold (\<lambda>c. mark_cleared (fst c) (snd c)) bs t'))"
      if "total_cleared bs + length t' \<le> MAX_CLEARED_TOMBSTONE" "distinct (map fst t')" for bs t'
      using that
    proof (induction bs arbitrary: t')
      case (Cons b bs)
      have fewb: "length (snd b) + length t' \<le> MAX_CLEARED_TOMBSTONE"
        using Cons.prems(1) by (simp add: total_cleared_def)
      note f = mark_cleared_few(1,2) [OF fewb Cons.prems(2), of "fst b"]
      show ?case using Cons.IH [OF _ f(2)] f(1) Cons.prems(1) by (auto simp: total_cleared_def)
    qed (simp add: total_cleared_def)
    let ?t0 = "fold (\<lambda>c. mark_cleared (fst c) (snd c)) before []"
    have t0: "length ?t0 \<le> total_cleared before" "distinct (map fst ?t0)"
      using run [of before "[]"] before by auto
    have "\<exists>a\<ge>t. map_of (fold (\<lambda>c. mark_cleared (fst c) (snd c)) ((t, hs) # after) ?t0) h = Some a"
      using before t0 c sorted past
      by (intro cleared_run_keeps [where now = now]) (auto simp: cs sorted_append)
    then obtain a where a: "t \<le> a" "map_of (cleared_run cs) h = Some a" by (auto simp: cleared_run_def cs)
    have "(h, a) \<in> set (cleared_run cs)" using a(2) by (rule map_of_SomeD)
    then have "hex_encode hx h \<in> set (cleared_hex_snapshot hx now (cleared_run cs))"
      using a(1) c(3) by (force simp: cleared_hex_snapshot_def)
    then show ?thesis
      by (auto simp: pull missing_resync_hashes_def list_ex_iff dest: in_set_takeD)
  qed
  moreover have "set pull \<subseteq> set offered - set history - set out - set pulled \<and> length pull \<le> 32"
    by (auto simp: pull missing_resync_hashes_def list_ex_iff MAX_RESYNC_HASHES_def dest: in_set_takeD)
  ultimately show ?thesis by auto
qed

theorem cleared_items_stay_cleared_witness:
  "hex32 [7] \<notin> set (missing_resync_hashes [hex32 [7], hex32 [8]] [] []
     (cleared_hex_snapshot demo_hex 500 (cleared_run [(100, [[7]]), (400, [[9]])])) [])"
  using cleared_items_stay_cleared [of "[(100, [[7]]), (400, [[9]])]" 500 _ "[hex32 [7], hex32 [8]]" "[]" "[]" demo_hex "[]",
      OF _ _ _ refl]
  by (simp add: total_cleared_def MAX_CLEARED_TOMBSTONE_def MAX_AGE_def from_secs_def demo_hex_def)

end
