(* ===== verification/Metrics.thy ===== *)
theory Metrics
  imports Core_State
begin

text \<open>
  \<open>fluxsyncd/src/metrics.rs\<close>: the connection counters. A counter is bumped with \<open>+= 1\<close> at its width;
  \<open>now\<close> is \<open>Instant::now()\<close>.
\<close>

record metrics_tracker =
  mt_metrics :: connection_metrics
  session_start :: "instant option"
  last_heartbeat_sent :: "instant option"

definition metrics_new :: metrics_tracker where
  "metrics_new =
     \<lparr>mt_metrics = \<lparr>handshakes_total = 0, handshakes_failed = 0, heartbeats_sent = 0, heartbeats_received = 0,
        heartbeats_missed_consecutive = 0, last_rtt_ms = 0, rtt_p99_ms = 0, network_changes = 0, reconnects = 0,
        decrypt_failures = 0, dedup_drops = 0, last_disconnect_reason = None, uptime_session_secs = 0,
        items_sent = 0, items_received = 0, items_resynced = 0, resync_applies_suppressed = 0, rekeys = 0\<rparr>,
      session_start = None, last_heartbeat_sent = None\<rparr>"

definition upd_metrics :: "(connection_metrics \<Rightarrow> connection_metrics) \<Rightarrow> metrics_tracker \<Rightarrow> metrics_tracker" where
  "upd_metrics f t = t\<lparr>mt_metrics := f (mt_metrics t)\<rparr>"

definition metrics_snapshot :: "instant \<Rightarrow> metrics_tracker \<Rightarrow> connection_metrics \<times> metrics_tracker" where
  "metrics_snapshot now t =
     (let t = (case session_start t of
                 Some start \<Rightarrow> upd_metrics (\<lambda>m. m\<lparr>uptime_session_secs := of_nat (as_secs (now - start))\<rparr>) t
               | None \<Rightarrow> t)
      in (mt_metrics t, t))"

definition on_handshake_start :: "metrics_tracker \<Rightarrow> metrics_tracker" where
  "on_handshake_start = upd_metrics (\<lambda>m. m\<lparr>handshakes_total := handshakes_total m + 1\<rparr>)"

definition on_link_up :: "instant \<Rightarrow> metrics_tracker \<Rightarrow> metrics_tracker" where
  "on_link_up now t = upd_metrics (\<lambda>m. m\<lparr>reconnects := reconnects m + 1, heartbeats_missed_consecutive := 0\<rparr>)
     (t\<lparr>session_start := Some now\<rparr>)"

definition on_rekey :: "metrics_tracker \<Rightarrow> metrics_tracker" where
  "on_rekey = upd_metrics (\<lambda>m. m\<lparr>rekeys := rekeys m + 1\<rparr>)"

definition on_handshake_fail :: "metrics_tracker \<Rightarrow> metrics_tracker" where
  "on_handshake_fail = upd_metrics (\<lambda>m. m\<lparr>handshakes_failed := handshakes_failed m + 1\<rparr>)"

definition on_heartbeat_sent :: "instant \<Rightarrow> metrics_tracker \<Rightarrow> metrics_tracker" where
  "on_heartbeat_sent now t =
     (upd_metrics (\<lambda>m. m\<lparr>heartbeats_sent := heartbeats_sent m + 1\<rparr>) t)\<lparr>last_heartbeat_sent := Some now\<rparr>"

definition on_heartbeat_received :: "metrics_tracker \<Rightarrow> metrics_tracker" where
  "on_heartbeat_received = upd_metrics (\<lambda>m. m\<lparr>heartbeats_received := heartbeats_received m + 1,
     heartbeats_missed_consecutive := 0\<rparr>)"

text \<open>\<open>u32::try_from(ms).unwrap_or(u32::MAX)\<close>; the average is computed in \<open>u32\<close>.\<close>

definition to_u32_sat :: "nat \<Rightarrow> u32" where
  "to_u32_sat n = (if n < 2 ^ 32 then of_nat n else - 1)"

definition on_ack_received :: "instant \<Rightarrow> metrics_tracker \<Rightarrow> metrics_tracker" where
  "on_ack_received now t =
     (case last_heartbeat_sent t of
        None \<Rightarrow> t
      | Some sent \<Rightarrow>
          (let rtt = to_u32_sat (as_millis (now - sent))
           in upd_metrics (\<lambda>m. m\<lparr>last_rtt_ms := rtt,
                rtt_p99_ms := (if rtt_p99_ms m = 0 then rtt else (rtt_p99_ms m * 9 + rtt) div 10)\<rparr>)
              (t\<lparr>last_heartbeat_sent := None\<rparr>)))"

definition on_heartbeat_missed :: "metrics_tracker \<Rightarrow> metrics_tracker" where
  "on_heartbeat_missed = upd_metrics (\<lambda>m. m\<lparr>heartbeats_missed_consecutive := heartbeats_missed_consecutive m + 1\<rparr>)"

definition on_network_change :: "metrics_tracker \<Rightarrow> metrics_tracker" where
  "on_network_change = upd_metrics (\<lambda>m. m\<lparr>network_changes := network_changes m + 1\<rparr>)"

definition on_decrypt_failure :: "metrics_tracker \<Rightarrow> metrics_tracker" where
  "on_decrypt_failure = upd_metrics (\<lambda>m. m\<lparr>decrypt_failures := decrypt_failures m + 1\<rparr>)"

definition on_dedup_drop :: "metrics_tracker \<Rightarrow> metrics_tracker" where
  "on_dedup_drop = upd_metrics (\<lambda>m. m\<lparr>dedup_drops := dedup_drops m + 1\<rparr>)"

definition on_item_sent :: "metrics_tracker \<Rightarrow> metrics_tracker" where
  "on_item_sent = upd_metrics (\<lambda>m. m\<lparr>items_sent := items_sent m + 1\<rparr>)"

definition on_item_received :: "metrics_tracker \<Rightarrow> metrics_tracker" where
  "on_item_received = upd_metrics (\<lambda>m. m\<lparr>items_received := items_received m + 1\<rparr>)"

definition on_item_resynced :: "metrics_tracker \<Rightarrow> metrics_tracker" where
  "on_item_resynced = upd_metrics (\<lambda>m. m\<lparr>items_resynced := items_resynced m + 1\<rparr>)"

definition on_resync_apply_suppressed :: "metrics_tracker \<Rightarrow> metrics_tracker" where
  "on_resync_apply_suppressed = upd_metrics (\<lambda>m. m\<lparr>resync_applies_suppressed := resync_applies_suppressed m + 1\<rparr>)"

definition on_disconnect :: "disconnect_reason \<Rightarrow> metrics_tracker \<Rightarrow> metrics_tracker" where
  "on_disconnect reason t =
     upd_metrics (\<lambda>m. m\<lparr>last_disconnect_reason := Some reason, uptime_session_secs := 0\<rparr>) (t\<lparr>session_start := None\<rparr>)"

text \<open>
  The smoothed round trip: while nothing overflows, it lies between the old value and the new
  sample, so it never runs away from what was measured.
\<close>

lemma rtt_between:
  assumes "last_heartbeat_sent t = Some sent" and "rtt_p99_ms (mt_metrics t) \<noteq> 0"
    and "as_millis (now - sent) < 400000000" and "unat (rtt_p99_ms (mt_metrics t)) < 400000000"
  defines "old \<equiv> unat (rtt_p99_ms (mt_metrics t))" and "smp \<equiv> as_millis (now - sent)"
  shows "min old smp \<le> unat (rtt_p99_ms (mt_metrics (on_ack_received now t))) + 1
    \<and> unat (rtt_p99_ms (mt_metrics (on_ack_received now t))) \<le> max old smp"
proof -
  have s: "unat (to_u32_sat smp) = smp"
    using assms(3) by (simp add: to_u32_sat_def smp_def unat_of_nat)
  have "unat (rtt_p99_ms (mt_metrics t) * 9 + to_u32_sat smp) = old * 9 + smp"
    using assms(3,4) s by (simp add: unat_word_ariths old_def smp_def)
  then have "unat (rtt_p99_ms (mt_metrics (on_ack_received now t))) = (old * 9 + smp) div 10"
    using assms(1,2) by (simp add: on_ack_received_def upd_metrics_def Let_def smp_def unat_div)
  then show ?thesis by (auto simp: min_def max_def)
qed

end
