(* ===== verification/Shared.thy ===== *)
theory Shared
  imports Items Resync Metrics Events Dedup Backoff File_Frame
begin

text \<open>
  The handles the daemon's tasks share (\<open>Shared\<close> of \<open>driver/shared.rs\<close>) as one record, and the
  operations over several of them: sending, acking, forwarding and completing items
  (\<open>driver/frames.rs\<close>, \<open>driver/inbound.rs\<close>), failover (\<open>driver/liveness.rs\<close>), the lists published
  in the state. What a task hands to another one (events, commands, datagrams, saves) is appended
  to a log, so the order of effects can be stated. An event is handed over with \<open>try_send\<close>: a full
  channel drops it, which the log does not show. \<open>env\<close> holds the libraries outside \<open>src/\<close> and the two
  clocks of one call.
\<close>

section \<open>The environment and the shared state\<close>

record 't env =
  blake3 :: "bytes \<Rightarrow> bytes32"
  cbor_ser :: "frame \<Rightarrow> ustr + bytes"
  noise_lib :: "'t noise"
  hexs :: hex_lib
  png_decode :: "bytes \<Rightarrow> (u32 \<times> u32 \<times> bytes) option"
  label :: "kind \<Rightarrow> bytes \<Rightarrow> ustr"
  sas_words_of :: "bytes32 \<Rightarrow> ustr list"
  now :: instant
  now_ms :: millis

record trusted_peer =
  tp_static_pub :: bytes32
  tp_name :: ustr

record pending_pair =
  pp_static_pub :: bytes32
  pp_name :: ustr
  pp_sas_words :: "ustr list"
  pp_from :: sock_addr
  pp_expires_at :: instant

record resolved_peer =
  rp_static_pub :: bytes32
  rp_addr :: sock_addr
  rp_name :: ustr
  rp_pair_pin :: "ustr option"
  rp_last_seen :: instant

datatype effect =
    Post event
  | Send bytes32 bytes
  | Delivered bytes32 bytes32
  | SavePeers

record 't shared =
  net :: "'t net"
  trusted :: "(bytes32, trusted_peer) hmap"
  pending_pairs :: "(bytes32, pending_pair) hmap"
  deferred_sas :: "bytes32 list"
  echo_acked :: "bytes32 list"
  disc_cache :: "(bytes32, resolved_peer) hmap"
  backoffs :: "(bytes32, peer_backoff) hmap"
  metas :: peer_metas
  flights :: inflights
  reasm :: reassemblies
  mesh_seen :: seen_set
  box :: outbox
  outbox_stage :: "(bytes32, out_entry) hmap"
  pending_pulls :: pulls
  tombstones :: tombstone
  counters :: metrics_tracker
  snapshot :: state
  keystore_dir :: bool
  hello_sent :: "(bytes32, u64) hmap"
  fx :: "effect list"

definition log_fx :: "effect \<Rightarrow> 't shared \<Rightarrow> 't shared" where
  "log_fx e sh = sh\<lparr>fx := fx sh @ [e]\<rparr>"

definition post :: "event \<Rightarrow> 't shared \<Rightarrow> 't shared" where
  "post e sh = log_fx (Post e) sh"

section \<open>Sending\<close>

definition send_to :: "'t env \<Rightarrow> bytes32 \<Rightarrow> bytes \<Rightarrow> 't shared \<Rightarrow> bool \<times> 't shared" where
  "send_to E peer b sh =
     (case send_encrypted_to (noise_lib E) peer b (net sh) of
        (r, t) \<Rightarrow> ((case r of Inr _ \<Rightarrow> True | Inl _ \<Rightarrow> False), log_fx (Send peer b) (sh\<lparr>net := t\<rparr>)))"

text \<open>\<open>if let Ok(bytes) = encode(..) { let _ = transport.send_encrypted_to(..) }\<close>\<close>

definition send_msg :: "'t env \<Rightarrow> bytes32 \<Rightarrow> msg \<Rightarrow> 't shared \<Rightarrow> 't shared" where
  "send_msg E peer g sh =
     (case encode (cbor_ser E) (proto_frame g) of Inr b \<Rightarrow> snd (send_to E peer b sh) | Inl _ \<Rightarrow> sh)"

definition send_all :: "'t env \<Rightarrow> bytes32 \<Rightarrow> bytes list \<Rightarrow> 't shared \<Rightarrow> 't shared" where
  "send_all E peer bs sh = fold (\<lambda>b sh. snd (send_to E peer b sh)) bs sh"

definition ack_source :: "'t env \<Rightarrow> bytes32 \<Rightarrow> bytes32 \<Rightarrow> 't shared \<Rightarrow> 't shared" where
  "ack_source E peer h sh = send_msg E peer (Ack 0 h) sh"

definition forward_targets :: "'t shared \<Rightarrow> kind \<Rightarrow> bytes32 \<Rightarrow> bytes32 \<Rightarrow> bytes32 list" where
  "forward_targets sh k source org =
     filter (\<lambda>d. accepts_kind (metas sh) d k)
       (filter (\<lambda>d. d \<noteq> source \<and> d \<noteq> org \<and> map_of (pending_pairs sh) d = None) (linked_peer_ids (net sh)))"

definition forward_frames ::
  "'t env \<Rightarrow> kind \<Rightarrow> bytes32 \<Rightarrow> bytes32 \<Rightarrow> bytes32 \<Rightarrow> bytes list \<Rightarrow> 't shared \<Rightarrow> 't shared" where
  "forward_frames E k source org h frames sh =
     (let targets = forward_targets sh k source org in
      if targets = [] \<or> frames = [] then sh
      else let sh = fold (\<lambda>peer. send_all E peer frames) targets sh
           in sh\<lparr>flights := track_inflight (now E) h frames targets (flights sh)\<rparr>)"

definition forward_item ::
  "'t env \<Rightarrow> kind \<Rightarrow> bytes32 \<Rightarrow> bytes32 \<Rightarrow> bytes32 \<Rightarrow> bytes \<Rightarrow> 't shared \<Rightarrow> 't shared" where
  "forward_item E k source org h frame_bytes sh = forward_frames E k source org h [frame_bytes] sh"

section \<open>Content hashes\<close>

text \<open>\<open>u32::to_le_bytes\<close>.\<close>

definition le32 :: "u32 \<Rightarrow> bytes" where
  "le32 w = map (\<lambda>i. ucast (drop_bit (8 * i) w)) [0..<4]"

definition image_rgba_hash :: "(bytes \<Rightarrow> bytes32) \<Rightarrow> u32 \<Rightarrow> u32 \<Rightarrow> bytes \<Rightarrow> bytes32" where
  "image_rgba_hash b3 w h rgba = hash_bytes (ring_hash b3 (le32 w @ le32 h @ rgba))"

definition content_digest :: "'t env \<Rightarrow> kind \<Rightarrow> bytes \<Rightarrow> bytes32 option" where
  "content_digest E k payload =
     (case k of
        Image \<Rightarrow> (case png_decode E payload of
                    Some (w, h, rgba) \<Rightarrow> Some (image_rgba_hash (blake3 E) w h rgba) | None \<Rightarrow> None)
      | File \<Rightarrow> Some (hash_bytes (ring_hash (blake3 E) payload))
      | _ \<Rightarrow> (case from_utf8 payload of
                Some text \<Rightarrow> Some (hash_bytes (ring_hash (blake3 E) (as_bytes (canon_text text))))
              | None \<Rightarrow> Some (hash_bytes (ring_hash (blake3 E) payload))))"

definition verify_content_hash :: "'t env \<Rightarrow> kind \<Rightarrow> bytes \<Rightarrow> bytes32 \<Rightarrow> bool" where
  "verify_content_hash E k payload claimed_hash \<longleftrightarrow> content_digest E k payload = Some claimed_hash"

section \<open>A complete item\<close>

text \<open>
  Verify, ack, first sight on the mesh, admission to the outbox as the firewall decides, relay, and
  delivery to the core. The flag is \<open>block_relay\<close>.
\<close>

definition admit_inbound :: "'t env \<Rightarrow> complete_item \<Rightarrow> 't shared \<Rightarrow> bool \<times> 't shared" where
  "admit_inbound E it sh =
     (if cp_sensitive it then (False, sh)
      else let staged = \<lparr>oe_payload = cp_payload it, oe_kind = cp_kind it, oe_origin = cp_origin it,
                         oe_seq = cp_event_seq it, oe_created = now E\<rparr>
           in case decide (firewall (snapshot sh)) (cp_kind it) (cp_sensitive it) Inbound of
                Pass \<Rightarrow> (False, sh\<lparr>box := outbox_insert (cp_hash it) staged (now E) (box sh)\<rparr>)
              | Defer \<Rightarrow> (False, if map_of (outbox_stage sh) (cp_hash it) = None
                              then sh\<lparr>outbox_stage := hm_insert (cp_hash it) staged (outbox_stage sh)\<rparr> else sh)
              | Block \<Rightarrow> (True, sh))"

definition deliver :: "'t env \<Rightarrow> complete_item \<Rightarrow> 't shared \<Rightarrow> 't shared" where
  "deliver E it sh =
     (let (resync, ps) = take_pending_pull (now E) (cp_source it) (cp_hash it) (pending_pulls sh)
      in post (FrameReceivedClipboard
           \<lparr>fr_hash = cp_hash it, fr_kind = cp_kind it, fr_payload = cp_payload it,
            fr_preview = label E (cp_kind it) (cp_payload it), fr_sensitive = cp_sensitive it,
            fr_lamport = cp_lamport it, fr_resync = resync, fr_peer_id = cp_source it\<rparr>)
         (sh\<lparr>pending_pulls := ps\<rparr>))"

text \<open>
  The two copies of this handler in the code differ in the frames they relay: the chunked path
  builds them anew, the single-frame path encodes the frame it got.
\<close>

definition complete_with :: "'t env \<Rightarrow> complete_item \<Rightarrow> bytes list \<Rightarrow> 't shared \<Rightarrow> 't shared" where
  "complete_with E it frames sh =
     (if \<not> verify_content_hash E (cp_kind it) (cp_payload it) (cp_hash it) then sh
      else let sh = ack_source E (cp_source it) (cp_hash it) sh;
               (first, seen) = seen_observe (EventId (DeviceId (cp_origin it)) (cp_event_seq it)) (mesh_seen sh);
               sh = sh\<lparr>mesh_seen := seen\<rparr>
           in if \<not> first then sh
              else let (block_relay, sh) = admit_inbound E it sh;
                       sh = (if block_relay then sh
                             else forward_frames E (cp_kind it) (cp_source it) (cp_origin it) (cp_hash it) frames sh)
                   in deliver E it sh)"

definition complete_reassembled_item :: "'t env \<Rightarrow> complete_item \<Rightarrow> 't shared \<Rightarrow> 't shared" where
  "complete_reassembled_item E it sh =
     complete_with E it
       (build_item_frames (cbor_ser E) (cp_lamport it) (cp_hash it) (cp_kind it) (cp_payload it)
          (cp_sensitive it) (cp_origin it) (cp_event_seq it)) sh"

section \<open>Failover and teardown\<close>

definition try_primary_failover :: "'t env \<Rightarrow> 't shared \<Rightarrow> bool \<times> 't shared" where
  "try_primary_failover E sh =
     (case promote_secondary (now_ms E) (net sh) of
        (None, t) \<Rightarrow> (False, sh\<lparr>net := t\<rparr>)
      | (Some i, t) \<Rightarrow>
          (let (name, platform, caps) = (case bt_get (metas sh) i of
                 Some m \<Rightarrow> (pm_name m, pm_platform m, pm_caps m) | None \<Rightarrow> ([], [], []))
           in (True, post MeshPeersChanged (post (PrimaryFailover i name platform caps) (sh\<lparr>net := t\<rparr>)))))"

text \<open>\<open>if peer_meta.remove(&id).is_some() { try_send(MeshPeersChanged) }\<close>\<close>

definition forget_meta :: "bytes32 \<Rightarrow> 't shared \<Rightarrow> 't shared" where
  "forget_meta peer sh =
     (if bt_get (metas sh) peer = None then sh
      else post MeshPeersChanged (sh\<lparr>metas := bt_remove peer (metas sh)\<rparr>))"

text \<open>The primary's loss is reported unless a secondary takes over.\<close>

definition lose_if_primary :: "'t env \<Rightarrow> bool \<Rightarrow> bytes32 \<Rightarrow> 't shared \<Rightarrow> 't shared" where
  "lose_if_primary E is_primary peer sh =
     (if is_primary
      then let (failed_over, sh) = try_primary_failover E sh
           in if failed_over then sh else post (PeerLost peer) sh
      else sh)"

definition session_ended :: "'t env \<Rightarrow> bytes32 \<Rightarrow> millis \<Rightarrow> 't shared \<Rightarrow> 't shared" where
  "session_ended E peer established sh =
     (let b = (case map_of (backoffs sh) peer of Some b \<Rightarrow> b | None \<Rightarrow> backoff_new)
      in sh\<lparr>backoffs := hm_insert peer (on_session_ended (from_millis (now_ms E - established)) b) (backoffs sh)\<rparr>)"

definition tear_down_links :: "'t env \<Rightarrow> msg \<Rightarrow> bool \<Rightarrow> 't shared \<Rightarrow> bytes32 list \<times> 't shared" where
  "tear_down_links E g permanent sh =
     (let ids = linked_peer_ids (net sh);
          sh = (case encode (cbor_ser E) (proto_frame g) of
                  Inr b \<Rightarrow> fold (\<lambda>i sh. snd (send_to E i b sh)) ids sh | Inl _ \<Rightarrow> sh);
          sh = fold (\<lambda>i sh. sh\<lparr>net := (if permanent then purge_peer i (net sh) else drop_session_for i (net sh))\<rparr>) ids sh;
          changed = list_ex (\<lambda>i. bt_get (metas sh) i \<noteq> None) ids;
          sh = sh\<lparr>metas := fold bt_remove ids (metas sh)\<rparr>
      in (ids, if changed then post MeshPeersChanged sh else sh))"

section \<open>Greeting and publishing\<close>

definition greet_one :: "'t env \<Rightarrow> bytes \<Rightarrow> bytes32 \<Rightarrow> 't shared \<Rightarrow> 't shared" where
  "greet_one E b i sh =
     (case session_generation_for i (net sh) of
        None \<Rightarrow> sh
      | Some g \<Rightarrow>
          (if map_of (hello_sent sh) i = Some g then sh
           else case send_to E i b sh of
             (ok, sh) \<Rightarrow> if ok then sh\<lparr>hello_sent := hm_insert i g (hello_sent sh)\<rparr> else sh))"

text \<open>The \<open>Hello\<close> is encoded once, at the first peer that needs it; a failure ends the round.\<close>

definition greet_new_sessions :: "'t env \<Rightarrow> ustr \<Rightarrow> ustr \<Rightarrow> 't shared \<Rightarrow> 't shared" where
  "greet_new_sessions E platform name sh =
     (let ids = linked_peer_ids (net sh);
          sh = sh\<lparr>hello_sent := filter (\<lambda>e. fst e \<in> set ids) (hello_sent sh)\<rparr>
      in case encode (cbor_ser E) (proto_frame (Hello \<lparr>h_name = name, h_platform = platform, h_caps = SUPPORTED_CAPS\<rparr>)) of
           Inl _ \<Rightarrow> sh
         | Inr b \<Rightarrow> fold (greet_one E b) ids sh)"

definition build_peers :: "'t net \<Rightarrow> peer_metas \<Rightarrow> bytes32 option \<Rightarrow> peer_info list" where
  "build_peers t ms primary =
     map (\<lambda>i. let m = bt_get ms i in
        \<lparr>pr_peer_id = i,
         pr_name = (case m of Some m \<Rightarrow> pm_name m | None \<Rightarrow> []),
         pr_platform = (case m of Some m \<Rightarrow> pm_platform m | None \<Rightarrow> []),
         pr_battery = (case m of Some m \<Rightarrow> pm_battery m | None \<Rightarrow> 255),
         pr_charging = (case m of Some m \<Rightarrow> pm_charging m | None \<Rightarrow> False),
         pr_primary = (Some i = primary),
         pr_caps = (case m of Some m \<Rightarrow> pm_caps m | None \<Rightarrow> [])\<rparr>) (linked_peer_ids t)"

text \<open>The order of \<open>build_paired\<close>: primary first, then online, then by name (its bytes) and id.\<close>

definition paired_before :: "paired_device \<Rightarrow> paired_device \<Rightarrow> bool" where
  "paired_before a b \<longleftrightarrow>
     (if pd_primary a \<noteq> pd_primary b then pd_primary a
      else if pd_online a \<noteq> pd_online b then pd_online a
      else if as_bytes (pd_name a) \<noteq> as_bytes (pd_name b) then as_bytes (pd_name a) < as_bytes (pd_name b)
      else pd_peer_id a \<le> pd_peer_id b)"

fun insert_paired :: "paired_device \<Rightarrow> paired_device list \<Rightarrow> paired_device list" where
  "insert_paired a [] = [a]"
| "insert_paired a (b # bs) = (if paired_before a b then a # b # bs else b # insert_paired a bs)"

definition paired_row :: "peer_info list \<Rightarrow> bytes32 option \<Rightarrow> bytes32 \<times> trusted_peer \<Rightarrow> paired_device" where
  "paired_row ps primary e =
     (let i = fst e; live = List.find (\<lambda>p. pr_peer_id p = i) ps in
      \<lparr>pd_peer_id = i,
       pd_name = (case live of Some p \<Rightarrow> (if trim (pr_name p) \<noteq> [] then pr_name p else tp_name (snd e)) | None \<Rightarrow> tp_name (snd e)),
       pd_platform = (case live of Some p \<Rightarrow> pr_platform p | None \<Rightarrow> []),
       pd_online = (live \<noteq> None),
       pd_primary = (live \<noteq> None \<and> Some i = primary),
       pd_battery = (case live of Some p \<Rightarrow> pr_battery p | None \<Rightarrow> 255),
       pd_charging = (case live of Some p \<Rightarrow> pr_charging p | None \<Rightarrow> False)\<rparr>)"

definition build_paired :: "(bytes32, trusted_peer) hmap \<Rightarrow> peer_info list \<Rightarrow> bytes32 option \<Rightarrow> paired_device list" where
  "build_paired tr ps primary = foldr insert_paired (map (paired_row ps primary) tr) []"

end
