(* ===== verification/Demo.thy ===== *)
theory Demo
  imports Links Shared
begin

text \<open>
  The state of a daemon that just started, and the closed inputs of the witnesses: two linked and trusted
  peers, libraries that answer with constants.
\<close>

definition shared_new :: "millis \<Rightarrow> state \<Rightarrow> 't shared" where
  "shared_new ms st =
     \<lparr>net = net_new ms, trusted = [], pending_pairs = [], deferred_sas = [], echo_acked = [], disc_cache = [],
      backoffs = [], metas = [], flights = [], reasm = [], mesh_seen = seen_default, box = outbox_new,
      outbox_stage = [], pending_pulls = [], tombstones = [], counters = metrics_new, snapshot = st,
      keystore_dir = False, hello_sent = [], fx = []\<rparr>"

definition demo_env :: "unit env" where
  "demo_env = \<lparr>blake3 = \<lambda>_. [9], cbor_ser = \<lambda>_. Inr [7], noise_lib = quiet_noise, hexs = demo_hex, png_decode = \<lambda>_. None,
     label = \<lambda>_ _. [], sas_words_of = \<lambda>_. [], now = 0, now_ms = 0\<rparr>"

text \<open>The primary \<open>[1]\<close> and the secondary \<open>[2]\<close>, both trusted.\<close>

definition demo_shared :: "unit shared" where
  "demo_shared = (shared_new 0 (initial (config_default [])))
     \<lparr>net := fold (link_step quiet_noise)
        [LinkUp 5 [1] (demo_session 1) ([10, 0, 0, 1], 9), LinkUp 6 [2] (demo_session 2) ([10, 0, 0, 2], 9)] (net_new 0),
      trusted := [([1], \<lparr>tp_static_pub = [1], tp_name = []\<rparr>), ([2], \<lparr>tp_static_pub = [2], tp_name = []\<rparr>)]\<rparr>"

lemma demo_env_sel [simp]:
  "blake3 demo_env = (\<lambda>_. [9])" "cbor_ser demo_env = (\<lambda>_. Inr [7])" "noise_lib demo_env = quiet_noise"
  "label demo_env = (\<lambda>_ _. [])" "now demo_env = 0" "now_ms demo_env = 0"
  by (simp_all add: demo_env_def)

lemma demo_shared_sel [simp]:
  "pending_pairs demo_shared = []" "pending_pulls demo_shared = []" "fx demo_shared = []" "mesh_seen demo_shared = seen_default"
  "map_of (trusted demo_shared) [1] = Some \<lparr>tp_static_pub = [1], tp_name = []\<rparr>" "metas demo_shared = []"
  "snapshot demo_shared = initial (config_default [])" "box demo_shared = outbox_new" "reasm demo_shared = []"
  "linked_peer_ids (net demo_shared) = [[1], [2]]"
  by (simp_all add: demo_shared_def shared_new_def link_eval linked_peer_ids_def live_extra_def)

text \<open>A text of \<open>[3]\<close>, as \<open>[1]\<close> relays it.\<close>

definition demo_relayed :: clipboard_item where
  "demo_relayed = \<lparr>ci_lamport = 1, ci_hash = [9], ci_kind = Text, ci_payload = [65], ci_sensitive = False,
     ci_wall_time_ms = 0, ci_origin = [3], ci_event_seq = 1\<rparr>"

end
