(* ===== verification/Inbound.thy ===== *)
theory Inbound
  imports Shared
begin

text \<open>
  \<open>dispatch_inbound_frame\<close> of \<open>driver/inbound.rs\<close>: what one decoded frame of an authenticated peer does
  to the shared state, one definition per arm, and the gate (FS-052) before them.
\<close>

section \<open>Items\<close>

definition on_item :: "'t env \<Rightarrow> bytes32 \<Rightarrow> clipboard_item \<Rightarrow> 't shared \<Rightarrow> 't shared" where
  "on_item E peer i sh =
     (if ci_payload i = []
      then case on_header (blake3 E) (now E) peer i (reasm sh) of
             (c, m) \<Rightarrow> (case c of Some it \<Rightarrow> complete_reassembled_item E it (sh\<lparr>reasm := m\<rparr>)
                               | None \<Rightarrow> sh\<lparr>reasm := m\<rparr>)
      else complete_with E
             \<lparr>cp_source = peer, cp_origin = ci_origin i, cp_event_seq = ci_event_seq i, cp_hash = ci_hash i,
              cp_kind = ci_kind i, cp_sensitive = ci_sensitive i, cp_lamport = ci_lamport i, cp_payload = ci_payload i\<rparr>
             (case encode (cbor_ser E) (proto_frame (ClipboardItem i)) of Inr b \<Rightarrow> [b] | Inl _ \<Rightarrow> []) sh)"

definition on_chunk_msg :: "'t env \<Rightarrow> bytes32 \<Rightarrow> chunk \<Rightarrow> 't shared \<Rightarrow> 't shared" where
  "on_chunk_msg E peer c sh =
     (case on_chunk (blake3 E) (now E) peer c (reasm sh) of
        (done_item, m) \<Rightarrow>
          (case done_item of Some it \<Rightarrow> complete_reassembled_item E it (sh\<lparr>reasm := m\<rparr>)
                           | None \<Rightarrow> sh\<lparr>reasm := m\<rparr>))"

definition on_ack_msg :: "'t env \<Rightarrow> bytes32 \<Rightarrow> bytes32 \<Rightarrow> 't shared \<Rightarrow> 't shared" where
  "on_ack_msg E peer h sh =
     (let sh = sh\<lparr>counters := on_ack_received (now E) (counters sh)\<rparr> in
      if h = zero32 then sh
      else case on_ack peer h (flights sh) of
        (delivered_now, m) \<Rightarrow>
          (let sh = sh\<lparr>flights := m\<rparr> in if delivered_now then log_fx (Delivered h peer) sh else sh))"

definition on_nak_msg :: "'t env \<Rightarrow> bytes32 \<Rightarrow> nak \<Rightarrow> 't shared \<Rightarrow> 't shared" where
  "on_nak_msg E peer n sh =
     (case on_nak (now E) peer n (flights sh) of
        (out, m) \<Rightarrow> (send_all E peer out sh)\<lparr>flights := m\<rparr>)"

section \<open>The state of a peer\<close>

definition meta_of :: "bytes32 \<Rightarrow> 't shared \<Rightarrow> peer_meta" where
  "meta_of peer sh = (case bt_get (metas sh) peer of Some m \<Rightarrow> m | None \<Rightarrow> peer_meta_new)"

definition on_battery :: "bytes32 \<Rightarrow> u8 \<Rightarrow> bool \<Rightarrow> 't shared \<Rightarrow> 't shared" where
  "on_battery peer lvl ch sh =
     (let e = meta_of peer sh;
          changed = (pm_battery e \<noteq> lvl \<or> pm_charging e \<noteq> ch);
          sh = sh\<lparr>metas := bt_insert peer (e\<lparr>pm_battery := lvl, pm_charging := ch\<rparr>) (metas sh)\<rparr>;
          sh = (if changed then post MeshPeersChanged sh else sh)
      in if cached_peer_id (net sh) = Some peer then post (BatteryChangedPeer lvl ch) sh else sh)"

definition on_heartbeat :: "'t env \<Rightarrow> bytes32 \<Rightarrow> 't shared \<Rightarrow> 't shared" where
  "on_heartbeat E peer sh =
     send_msg E peer (Ack 0 zero32) (sh\<lparr>counters := on_heartbeat_received (counters sh)\<rparr>)"

section \<open>Goodbyes\<close>

definition on_bye :: "'t env \<Rightarrow> bytes32 \<Rightarrow> 't shared \<Rightarrow> 't shared" where
  "on_bye E peer sh =
     (let is_primary = (cached_peer_id (net sh) = Some peer);
          sh = (if is_primary then session_ended E peer (session_established_at_ms (conn (net sh))) sh
                else case session_established_at_for peer (net sh) of
                  Some established \<Rightarrow> session_ended E peer established sh | None \<Rightarrow> sh);
          sh = sh\<lparr>net := drop_session_for peer (net sh)\<rparr>;
          sh = forget_meta peer sh;
          sh = sh\<lparr>echo_acked := filter (\<lambda>p. p \<noteq> peer) (echo_acked sh)\<rparr>
      in lose_if_primary E is_primary peer sh)"

text \<open>Removal of a peer's trust, with the save, as \<open>Revoke\<close> and a rejected pairing do it.\<close>

definition untrust :: "bytes32 \<Rightarrow> 't shared \<Rightarrow> 't shared" where
  "untrust peer sh =
     (let removed = (map_of (trusted sh) peer \<noteq> None);
          sh = sh\<lparr>trusted := hm_remove peer (trusted sh), disc_cache := hm_remove peer (disc_cache sh),
                 backoffs := hm_remove peer (backoffs sh)\<rparr>
      in if removed \<and> keystore_dir sh then log_fx SavePeers sh else sh)"

definition on_revoke :: "'t env \<Rightarrow> bytes32 \<Rightarrow> 't shared \<Rightarrow> 't shared" where
  "on_revoke E peer sh =
     (let sh = untrust peer sh;
          had_pending = (map_of (pending_pairs sh) peer \<noteq> None);
          sh = sh\<lparr>pending_pairs := hm_remove peer (pending_pairs sh)\<rparr>;
          sh = (if had_pending then post SasReset sh else sh);
          sh = sh\<lparr>deferred_sas := filter (\<lambda>p. p \<noteq> peer) (deferred_sas sh),
                 echo_acked := filter (\<lambda>p. p \<noteq> peer) (echo_acked sh)\<rparr>;
          sh = sh\<lparr>net := purge_peer peer (net sh)\<rparr>;
          sh = forget_meta peer sh
      in lose_if_primary E (cached_peer_id (net sh) = Some peer) peer sh)"

section \<open>Hello\<close>

definition CAP_SAS :: ustr where "CAP_SAS = lit ''sas-confirm''"
definition CAP_VERIFY :: ustr where "CAP_VERIFY = lit ''verify-restart''"
definition CAP_RESYNC :: ustr where "CAP_RESYNC = lit ''resync-1''"

definition record_hello :: "bytes32 \<Rightarrow> hello \<Rightarrow> ustr list \<Rightarrow> 't shared \<Rightarrow> 't shared" where
  "record_hello peer h caps sh =
     (let e = meta_of peer sh;
          e' = e\<lparr>pm_name := h_name h, pm_platform := (if h_platform h \<noteq> [] then h_platform h else pm_platform e),
                 pm_caps := caps, hello_seen := True\<rparr>;
          changed = (pm_name e \<noteq> h_name h \<or> h_platform h \<noteq> [] \<and> pm_platform e \<noteq> h_platform h \<or> pm_caps e \<noteq> caps);
          sh = sh\<lparr>metas := bt_insert peer e' (metas sh)\<rparr>
      in if changed then post MeshPeersChanged sh else sh)"

definition hello_sas :: "'t env \<Rightarrow> bytes32 \<Rightarrow> ustr list \<Rightarrow> 't shared \<Rightarrow> 't shared" where
  "hello_sas E peer caps sh =
     (let has_pending = (map_of (pending_pairs sh) peer \<noteq> None);
          had_deferred = (peer \<in> set (deferred_sas sh));
          sh = sh\<lparr>deferred_sas := filter (\<lambda>p. p \<noteq> peer) (deferred_sas sh)\<rparr>
      in if \<not> (had_deferred \<or> has_pending) then sh
         else if CAP_SAS \<in> set caps
         then (if had_deferred \<and> \<not> has_pending then send_msg E peer (PairConfirm True) sh else sh)
         else post (SasPeerConfirmed peer) sh)"

definition hello_verify :: "'t env \<Rightarrow> bytes32 \<Rightarrow> ustr list \<Rightarrow> 't shared \<Rightarrow> 't shared" where
  "hello_verify E peer caps sh =
     (if map_of (pending_pairs sh) peer \<noteq> None \<and> CAP_VERIFY \<in> set caps
      then let e = meta_of peer sh in
        if verify_restart_sent e then sh
        else send_msg E peer PairVerifyStarted
               (sh\<lparr>metas := bt_insert peer (e\<lparr>verify_restart_sent := True\<rparr>) (metas sh)\<rparr>)
      else sh)"

definition hello_offer :: "'t env \<Rightarrow> bytes32 \<Rightarrow> ustr list \<Rightarrow> 't shared \<Rightarrow> 't shared" where
  "hello_offer E peer caps sh =
     (let hashes = outbox_hashes (now E) (box sh) in
      if map_of (pending_pairs sh) peer = None \<and> CAP_RESYNC \<in> set caps \<and> hashes \<noteq> []
      then send_msg E peer (ResyncOffer (build_resync_offer (hexs E) hashes)) sh else sh)"

definition on_hello :: "'t env \<Rightarrow> bytes32 \<Rightarrow> hello \<Rightarrow> 't shared \<Rightarrow> 't shared" where
  "on_hello E peer h sh =
     (let caps = negotiate_caps (h_caps h);
          sh = hello_offer E peer caps (hello_verify E peer caps (hello_sas E peer caps (record_hello peer h caps sh)))
      in if cached_peer_id (net sh) = Some peer
         then let sh = post (PeerSeen peer (h_name h)) sh;
                  sh = (if h_platform h \<noteq> [] then post (PeerPlatform (h_platform h)) sh else sh)
              in post (PeerCaps caps) sh
         else sh)"

section \<open>Resync\<close>

definition on_offer :: "'t env \<Rightarrow> bytes32 \<Rightarrow> ustr list \<Rightarrow> 't shared \<Rightarrow> 't shared" where
  "on_offer E peer offered sh =
     (if \<not> resync_authorized (net sh) (metas sh) peer then sh
      else let wanted = missing_resync_hashes offered (map hi_hash (history (snapshot sh)))
                 (map (hex_encode (hexs E)) (outbox_hashes (now E) (box sh)))
                 (cleared_hex_snapshot (hexs E) (now E) (tombstones sh))
                 (in_flight_pull_hashes (hexs E) (now E) (pending_pulls sh));
               (tracked, ps) = track_pending_pulls (hexs E) (now E) peer wanted (pending_pulls sh);
               sh = sh\<lparr>pending_pulls := ps\<rparr>
           in if tracked = [] then sh else send_msg E peer (ResyncPull tracked) sh)"

definition serve_pull :: "'t env \<Rightarrow> bytes32 \<Rightarrow> ustr \<Rightarrow> 't shared \<Rightarrow> 't shared" where
  "serve_pull E peer s sh =
     (case decode_hex32 (hexs E) s of
        None \<Rightarrow> sh
      | Some h \<Rightarrow> (case outbox_get h (now E) (box sh) of
          None \<Rightarrow> sh
        | Some e \<Rightarrow>
            (if decide (firewall (snapshot sh)) (oe_kind e) False Outbound \<noteq> Pass then sh
             else if \<not> accepts_kind (metas sh) peer (oe_kind e) then sh
             else let frames = build_item_frames (cbor_ser E) 0 h (oe_kind e) (oe_payload e) False (oe_origin e) (oe_seq e) in
               if frames = [] then sh
               else let sh = send_all E peer frames sh
                    in sh\<lparr>flights := track_inflight (now E) h frames [peer] (flights sh),
                          counters := on_item_resynced (counters sh)\<rparr>)))"

definition on_pull :: "'t env \<Rightarrow> bytes32 \<Rightarrow> ustr list \<Rightarrow> 't shared \<Rightarrow> 't shared" where
  "on_pull E peer asked_for sh =
     (if \<not> resync_authorized (net sh) (metas sh) peer then sh
      else fold (serve_pull E peer) (take MAX_RESYNC_HASHES asked_for) sh)"

section \<open>Pairing confirmations\<close>

definition PAIRING_WINDOW :: duration where "PAIRING_WINDOW = from_secs 90"
definition MAX_PENDING_PAIRS :: nat where "MAX_PENDING_PAIRS = 64"

definition in_sas_flow :: "bytes32 \<Rightarrow> 't shared \<Rightarrow> bool" where
  "in_sas_flow peer sh \<longleftrightarrow> sas_peer (snapshot sh) = Some peer
     \<and> sas_phase (snapshot sh) \<in> {sas_showing, sas_local_confirmed, sas_peer_confirmed, sas_confirmed}"

definition on_accept :: "'t env \<Rightarrow> bytes32 \<Rightarrow> 't shared \<Rightarrow> 't shared" where
  "on_accept E peer sh =
     (let had_pending = (map_of (pending_pairs sh) peer \<noteq> None);
          sh = (case map_of (pending_pairs sh) peer of
                  Some p \<Rightarrow> sh\<lparr>pending_pairs := hm_insert peer (p\<lparr>pp_expires_at := now E + PAIRING_WINDOW\<rparr>) (pending_pairs sh)\<rparr>
                | None \<Rightarrow> sh)
      in if had_pending \<or> in_sas_flow peer sh then post (SasPeerConfirmed peer) sh
         else if map_of (trusted sh) peer \<noteq> None \<and> has_cap CAP_SAS peer (metas sh)
         then (if peer \<in> set (echo_acked sh) then sh
               else send_msg E peer (PairConfirm True) (sh\<lparr>echo_acked := peer # echo_acked sh\<rparr>))
         else sh)"

definition on_reject :: "'t env \<Rightarrow> bytes32 \<Rightarrow> 't shared \<Rightarrow> 't shared" where
  "on_reject E peer sh =
     (let had_pending = (map_of (pending_pairs sh) peer \<noteq> None);
          sh = sh\<lparr>pending_pairs := hm_remove peer (pending_pairs sh),
                 deferred_sas := filter (\<lambda>p. p \<noteq> peer) (deferred_sas sh),
                 echo_acked := filter (\<lambda>p. p \<noteq> peer) (echo_acked sh)\<rparr>;
          sh = untrust peer sh;
          sh = sh\<lparr>net := purge_peer peer (net sh)\<rparr>;
          sh = forget_meta peer sh;
          sh = (if had_pending \<or> in_sas_flow peer sh then post (SasPeerRejected peer) sh else sh)
      in lose_if_primary E (cached_peer_id (net sh) = Some peer) peer sh)"

text \<open>The sweep and the cap of the pending pairs, as every insert does them.\<close>

definition make_pending_room :: "instant \<Rightarrow> (bytes32, pending_pair) hmap \<Rightarrow> (bytes32, pending_pair) hmap" where
  "make_pending_room t m =
     (let m = filter (\<lambda>e. t < pp_expires_at (snd e)) m in
      if MAX_PENDING_PAIRS \<le> length m
      then case min_by_key (pp_expires_at \<circ> snd) m of Some (victim, _) \<Rightarrow> hm_remove victim m | None \<Rightarrow> m
      else m)"

definition on_verify_started :: "'t env \<Rightarrow> bytes32 \<Rightarrow> 't shared \<Rightarrow> 't shared" where
  "on_verify_started E peer sh =
     (case map_of (trusted sh) peer of
        None \<Rightarrow> sh
      | Some tp \<Rightarrow>
          (if map_of (pending_pairs sh) peer \<noteq> None \<or> in_sas_flow peer sh then sh
           else case session_handshake_hash_for peer (net sh) of
             None \<Rightarrow> sh
           | Some h \<Rightarrow>
               (let p = \<lparr>pp_static_pub = tp_static_pub tp, pp_name = tp_name tp, pp_sas_words = sas_words_of E h,
                         pp_from = (case peer_addr_for peer (net sh) of Some a \<Rightarrow> a | None \<Rightarrow> ([0, 0, 0, 0], 0)),
                         pp_expires_at = now E + PAIRING_WINDOW\<rparr>
                in post (SasPairingStarted peer)
                     (sh\<lparr>pending_pairs := hm_insert peer p (make_pending_room (now E) (pending_pairs sh))\<rparr>))))"

section \<open>The dispatch\<close>

text \<open>The FS-052 gate: data frames need a peer that is trusted and not waiting for its confirmation.\<close>

definition blocks_until_confirmed :: "msg \<Rightarrow> bool" where
  "blocks_until_confirmed g = (case g of ClipboardItem _ \<Rightarrow> True | Chunk _ \<Rightarrow> True | ResyncOffer _ \<Rightarrow> True
     | ResyncPull _ \<Rightarrow> True | _ \<Rightarrow> False)"

definition gate_refuses :: "msg \<Rightarrow> bytes32 \<Rightarrow> 't shared \<Rightarrow> bool" where
  "gate_refuses g peer sh \<longleftrightarrow> blocks_until_confirmed g
     \<and> (map_of (pending_pairs sh) peer \<noteq> None \<or> map_of (trusted sh) peer = None)"

definition dispatch_inbound_frame :: "'t env \<Rightarrow> msg \<Rightarrow> bytes32 \<Rightarrow> 't shared \<Rightarrow> 't shared" where
  "dispatch_inbound_frame E g peer sh =
     (if gate_refuses g peer sh then sh
      else case g of
        ClipboardItem i \<Rightarrow> on_item E peer i sh
      | Chunk c \<Rightarrow> on_chunk_msg E peer c sh
      | BatteryStatus _ lvl ch \<Rightarrow> on_battery peer lvl ch sh
      | Heartbeat _ _ \<Rightarrow> on_heartbeat E peer sh
      | Ack _ h \<Rightarrow> on_ack_msg E peer h sh
      | Nak n \<Rightarrow> on_nak_msg E peer n sh
      | Bye \<Rightarrow> on_bye E peer sh
      | Revoke \<Rightarrow> on_revoke E peer sh
      | HandshakeInit _ \<Rightarrow> sh
      | HandshakeResp _ \<Rightarrow> sh
      | Hello h \<Rightarrow> on_hello E peer h sh
      | ResyncOffer hs \<Rightarrow> on_offer E peer hs sh
      | ResyncPull hs \<Rightarrow> on_pull E peer hs sh
      | PairConfirm yes \<Rightarrow> (if yes then on_accept E peer sh else on_reject E peer sh)
      | PairVerifyStarted \<Rightarrow> on_verify_started E peer sh)"

end
