(* ===== verification/Inbound_Safety.thy ===== *)
theory Inbound_Safety
  imports Demo Inbound
begin

text \<open>
  What the frames of one peer can make the daemon do: which effects a dispatch may append to the log,
  which fields it may touch, and whose.
\<close>

section \<open>What sending leaves alone\<close>

lemma send_to_fields [simp]:
  "trusted (snd (send_to E p b sh)) = trusted sh" "pending_pairs (snd (send_to E p b sh)) = pending_pairs sh"
  "deferred_sas (snd (send_to E p b sh)) = deferred_sas sh" "echo_acked (snd (send_to E p b sh)) = echo_acked sh"
  "disc_cache (snd (send_to E p b sh)) = disc_cache sh" "backoffs (snd (send_to E p b sh)) = backoffs sh"
  "metas (snd (send_to E p b sh)) = metas sh" "flights (snd (send_to E p b sh)) = flights sh"
  "reasm (snd (send_to E p b sh)) = reasm sh" "mesh_seen (snd (send_to E p b sh)) = mesh_seen sh"
  "box (snd (send_to E p b sh)) = box sh" "outbox_stage (snd (send_to E p b sh)) = outbox_stage sh"
  "pending_pulls (snd (send_to E p b sh)) = pending_pulls sh" "tombstones (snd (send_to E p b sh)) = tombstones sh"
  "counters (snd (send_to E p b sh)) = counters sh" "snapshot (snd (send_to E p b sh)) = snapshot sh"
  "keystore_dir (snd (send_to E p b sh)) = keystore_dir sh" "hello_sent (snd (send_to E p b sh)) = hello_sent sh"
  "fx (snd (send_to E p b sh)) = fx sh @ [Send p b]"
  by (simp_all add: send_to_def log_fx_def split: prod.split)

lemma log_fx_fields [simp]:
  "net (log_fx e sh) = net sh" "trusted (log_fx e sh) = trusted sh" "pending_pairs (log_fx e sh) = pending_pairs sh"
  "deferred_sas (log_fx e sh) = deferred_sas sh" "echo_acked (log_fx e sh) = echo_acked sh"
  "disc_cache (log_fx e sh) = disc_cache sh" "backoffs (log_fx e sh) = backoffs sh"
  "metas (log_fx e sh) = metas sh" "flights (log_fx e sh) = flights sh"
  "reasm (log_fx e sh) = reasm sh" "mesh_seen (log_fx e sh) = mesh_seen sh"
  "box (log_fx e sh) = box sh" "outbox_stage (log_fx e sh) = outbox_stage sh"
  "pending_pulls (log_fx e sh) = pending_pulls sh" "tombstones (log_fx e sh) = tombstones sh"
  "counters (log_fx e sh) = counters sh" "snapshot (log_fx e sh) = snapshot sh"
  "keystore_dir (log_fx e sh) = keystore_dir sh" "hello_sent (log_fx e sh) = hello_sent sh"
  "fx (log_fx e sh) = fx sh @ [e]"
  by (simp_all add: log_fx_def)

declare post_def [simp]

text \<open>Two states that differ at most in the connection table and the log.\<close>

definition same_tables :: "'t shared \<Rightarrow> 't shared \<Rightarrow> bool" where
  "same_tables a b \<longleftrightarrow> b = a\<lparr>net := net b, fx := fx b\<rparr>"

lemma same_tables_refl [simp]: "same_tables a a"
  by (simp add: same_tables_def)

lemma same_tables_trans: "same_tables a b \<Longrightarrow> same_tables b c \<Longrightarrow> same_tables a c"
  by (cases a; cases b; cases c) (simp add: same_tables_def)

lemma same_tables_send_to: "same_tables sh (snd (send_to E p b sh))"
  by (simp add: same_tables_def send_to_def log_fx_def split: prod.split)

lemma same_tables_send_msg: "same_tables sh (send_msg E p g sh)"
  by (simp add: send_msg_def same_tables_send_to split: sum.split)

lemma same_tables_send_all: "same_tables sh (send_all E p bs sh)"
proof (induction bs arbitrary: sh)
  case (Cons b bs)
  show ?case
    using same_tables_trans [OF same_tables_send_to Cons.IH [of "snd (send_to E p b sh)"]]
    by (simp add: send_all_def)
qed (simp add: send_all_def)

lemma same_tables_fold:
  assumes "\<And>x sh. same_tables sh (f x sh)"
  shows "same_tables sh (fold f xs sh)"
proof (induction xs arbitrary: sh)
  case (Cons x xs)
  show ?case using same_tables_trans [OF assms [of sh x] Cons.IH [of "f x sh"]] by simp
qed simp

lemma same_tablesD:
  assumes "same_tables a b"
  shows "trusted b = trusted a" "pending_pairs b = pending_pairs a" "deferred_sas b = deferred_sas a"
    "echo_acked b = echo_acked a" "disc_cache b = disc_cache a" "backoffs b = backoffs a" "metas b = metas a"
    "flights b = flights a" "reasm b = reasm a" "mesh_seen b = mesh_seen a" "box b = box a"
    "outbox_stage b = outbox_stage a" "pending_pulls b = pending_pulls a" "tombstones b = tombstones a"
    "counters b = counters a" "snapshot b = snapshot a" "keystore_dir b = keystore_dir a" "hello_sent b = hello_sent a"
  using assms by (cases a; cases b; simp add: same_tables_def)+

lemma same_tables_ack: "same_tables sh (ack_source E p h sh)"
  by (simp add: ack_source_def same_tables_send_msg)

lemmas ack_source_fields [simp] = same_tablesD [OF same_tables_ack]
lemmas send_msg_fields [simp] = same_tablesD [OF same_tables_send_msg]
lemmas send_all_fields [simp] = same_tablesD [OF same_tables_send_all]

section \<open>What the log gains\<close>

definition adds :: "(effect \<Rightarrow> bool) \<Rightarrow> 't shared \<Rightarrow> 't shared \<Rightarrow> bool" where
  "adds P a b \<longleftrightarrow> (\<exists>xs. fx b = fx a @ xs \<and> (\<forall>e\<in>set xs. P e))"

lemma adds_same: "fx b = fx a \<Longrightarrow> adds P a b"
  by (simp add: adds_def)

lemma adds_one: "fx b = fx a @ [e] \<Longrightarrow> P e \<Longrightarrow> adds P a b"
  by (simp add: adds_def)

lemma adds_trans: "adds P a b \<Longrightarrow> adds P b c \<Longrightarrow> adds P a c"
  by (auto simp: adds_def)

lemma adds_mono: "adds P a b \<Longrightarrow> (\<And>e. P e \<Longrightarrow> Q e) \<Longrightarrow> adds Q a b"
  by (auto simp: adds_def)

lemma adds_cong: "adds P a b \<Longrightarrow> fx a = fx a' \<Longrightarrow> fx b = fx b' \<Longrightarrow> adds P a' b'"
  by (simp add: adds_def)

lemma adds_send_msg: "(\<And>b. encode (cbor_ser E) (proto_frame g) = Inr b \<Longrightarrow> P (Send p b)) \<Longrightarrow> adds P sh (send_msg E p g sh)"
  by (auto simp: send_msg_def intro: adds_same adds_one split: sum.split)

lemma adds_fold:
  assumes "\<And>x sh. x \<in> set xs \<Longrightarrow> adds P sh (f x sh)"
  shows "adds P sh (fold f xs sh)"
  using assms
proof (induction xs arbitrary: sh)
  case (Cons x xs)
  have "adds P sh (f x sh)" using Cons.prems by simp
  moreover have "adds P (f x sh) (fold f xs (f x sh))" using Cons by simp
  ultimately show ?case using adds_trans by simp
qed (simp add: adds_same)

lemma adds_send_all: "(\<And>b. b \<in> set bs \<Longrightarrow> P (Send p b)) \<Longrightarrow> adds P sh (send_all E p bs sh)"
  unfolding send_all_def by (rule adds_fold) (simp add: adds_def)

lemma adds_forward:
  assumes "\<And>d b. d \<in> set (forward_targets sh k source org) \<Longrightarrow> b \<in> set frames \<Longrightarrow> P (Send d b)"
  shows "adds P sh (forward_frames E k source org h frames sh)"
proof -
  have "adds P sh (fold (\<lambda>peer. send_all E peer frames) (forward_targets sh k source org) sh)"
    using assms by (intro adds_fold adds_send_all)
  then show ?thesis by (simp add: forward_frames_def Let_def adds_same adds_def)
qed

lemma forward_tables:
  "\<exists>fl. same_tables (sh\<lparr>flights := fl\<rparr>) (forward_frames E k source org h frames sh)"
proof (cases "forward_targets sh k source org = [] \<or> frames = []")
  case True
  then show ?thesis by (intro exI [of _ "flights sh"]) (simp add: forward_frames_def Let_def)
next
  case False
  let ?s = "fold (\<lambda>peer. send_all E peer frames) (forward_targets sh k source org) sh"
  have "same_tables sh ?s" by (rule same_tables_fold) (rule same_tables_send_all)
  then have "same_tables (sh\<lparr>flights := fl\<rparr>) (?s\<lparr>flights := fl\<rparr>)" for fl
    by (cases sh; cases ?s) (simp add: same_tables_def)
  then show ?thesis using False by (auto simp: forward_frames_def Let_def)
qed

lemma forward_fields [simp]:
  "trusted (forward_frames E k s r h fs sh) = trusted sh" "pending_pairs (forward_frames E k s r h fs sh) = pending_pairs sh"
  "deferred_sas (forward_frames E k s r h fs sh) = deferred_sas sh" "echo_acked (forward_frames E k s r h fs sh) = echo_acked sh"
  "disc_cache (forward_frames E k s r h fs sh) = disc_cache sh" "backoffs (forward_frames E k s r h fs sh) = backoffs sh"
  "metas (forward_frames E k s r h fs sh) = metas sh" "reasm (forward_frames E k s r h fs sh) = reasm sh"
  "mesh_seen (forward_frames E k s r h fs sh) = mesh_seen sh" "box (forward_frames E k s r h fs sh) = box sh"
  "outbox_stage (forward_frames E k s r h fs sh) = outbox_stage sh"
  "pending_pulls (forward_frames E k s r h fs sh) = pending_pulls sh" "tombstones (forward_frames E k s r h fs sh) = tombstones sh"
  "counters (forward_frames E k s r h fs sh) = counters sh" "snapshot (forward_frames E k s r h fs sh) = snapshot sh"
  "keystore_dir (forward_frames E k s r h fs sh) = keystore_dir sh" "hello_sent (forward_frames E k s r h fs sh) = hello_sent sh"
proof -
  obtain fl where "same_tables (sh\<lparr>flights := fl\<rparr>) (forward_frames E k s r h fs sh)" using forward_tables by blast
  from same_tablesD [OF this]
  show "trusted (forward_frames E k s r h fs sh) = trusted sh" "pending_pairs (forward_frames E k s r h fs sh) = pending_pairs sh"
    "deferred_sas (forward_frames E k s r h fs sh) = deferred_sas sh" "echo_acked (forward_frames E k s r h fs sh) = echo_acked sh"
    "disc_cache (forward_frames E k s r h fs sh) = disc_cache sh" "backoffs (forward_frames E k s r h fs sh) = backoffs sh"
    "metas (forward_frames E k s r h fs sh) = metas sh" "reasm (forward_frames E k s r h fs sh) = reasm sh"
    "mesh_seen (forward_frames E k s r h fs sh) = mesh_seen sh" "box (forward_frames E k s r h fs sh) = box sh"
    "outbox_stage (forward_frames E k s r h fs sh) = outbox_stage sh"
    "pending_pulls (forward_frames E k s r h fs sh) = pending_pulls sh" "tombstones (forward_frames E k s r h fs sh) = tombstones sh"
    "counters (forward_frames E k s r h fs sh) = counters sh" "snapshot (forward_frames E k s r h fs sh) = snapshot sh"
    "keystore_dir (forward_frames E k s r h fs sh) = keystore_dir sh" "hello_sent (forward_frames E k s r h fs sh) = hello_sent sh"
    by simp_all
qed

section \<open>A complete item\<close>

definition first_sight :: "complete_item \<Rightarrow> 't shared \<Rightarrow> bool" where
  "first_sight it sh \<longleftrightarrow> fst (seen_observe (EventId (DeviceId (cp_origin it)) (cp_event_seq it)) (mesh_seen sh))"

definition verified :: "'t env \<Rightarrow> complete_item \<Rightarrow> bool" where
  "verified E it \<longleftrightarrow> verify_content_hash E (cp_kind it) (cp_payload it) (cp_hash it)"

definition inbound_verdict :: "complete_item \<Rightarrow> 't shared \<Rightarrow> decision" where
  "inbound_verdict it sh = decide (firewall (snapshot sh)) (cp_kind it) (cp_sensitive it) Inbound"

text \<open>Who an item may be relayed to.\<close>

definition relay_ok :: "complete_item \<Rightarrow> 't shared \<Rightarrow> bytes32 \<Rightarrow> bool" where
  "relay_ok it sh d \<longleftrightarrow> d \<noteq> cp_source it \<and> d \<noteq> cp_origin it \<and> map_of (pending_pairs sh) d = None
     \<and> accepts_kind (metas sh) d (cp_kind it)
     \<and> (cp_sensitive it \<or> inbound_verdict it sh \<noteq> Block)"

definition delivery :: "'t env \<Rightarrow> complete_item \<Rightarrow> 't shared \<Rightarrow> event" where
  "delivery E it sh = FrameReceivedClipboard
     \<lparr>fr_hash = cp_hash it, fr_kind = cp_kind it, fr_payload = cp_payload it,
      fr_preview = label E (cp_kind it) (cp_payload it), fr_sensitive = cp_sensitive it,
      fr_lamport = cp_lamport it, fr_resync = fst (take_pending_pull (now E) (cp_source it) (cp_hash it) (pending_pulls sh)),
      fr_peer_id = cp_source it\<rparr>"

lemma admit_inbound_fields:
  assumes "admit_inbound E it sh = (blocked, sh')"
  shows "fx sh' = fx sh \<and> net sh' = net sh \<and> trusted sh' = trusted sh \<and> pending_pairs sh' = pending_pairs sh
    \<and> deferred_sas sh' = deferred_sas sh \<and> echo_acked sh' = echo_acked sh \<and> disc_cache sh' = disc_cache sh
    \<and> backoffs sh' = backoffs sh \<and> metas sh' = metas sh \<and> flights sh' = flights sh \<and> reasm sh' = reasm sh
    \<and> mesh_seen sh' = mesh_seen sh \<and> pending_pulls sh' = pending_pulls sh \<and> tombstones sh' = tombstones sh
    \<and> counters sh' = counters sh \<and> snapshot sh' = snapshot sh \<and> keystore_dir sh' = keystore_dir sh
    \<and> hello_sent sh' = hello_sent sh"
    and "blocked \<longleftrightarrow> \<not> cp_sensitive it \<and> inbound_verdict it sh = Block"
  using assms by (auto simp: admit_inbound_def inbound_verdict_def Let_def split: if_splits decision.splits)

text \<open>The three stages of the log: the ack, the relays, the delivery.\<close>

lemma complete_with_stages:
  assumes v: "verified E it"
  shows "\<exists>acks relays. fx (complete_with E it frames sh) =
      fx sh @ acks @ relays @ (if first_sight it sh then [Post (delivery E it sh)] else [])
    \<and> acks = (case encode (cbor_ser E) (proto_frame (Ack 0 (cp_hash it))) of Inr b \<Rightarrow> [Send (cp_source it) b] | Inl _ \<Rightarrow> [])
    \<and> (\<forall>e\<in>set relays. \<exists>d b. e = Send d b \<and> b \<in> set frames \<and> relay_ok it sh d \<and> first_sight it sh)"
proof -
  let ?id = "EventId (DeviceId (cp_origin it)) (cp_event_seq it)"
  let ?s1 = "ack_source E (cp_source it) (cp_hash it) sh"
  let ?acks = "case encode (cbor_ser E) (proto_frame (Ack 0 (cp_hash it))) of Inr b \<Rightarrow> [Send (cp_source it) b] | Inl _ \<Rightarrow> []"
  have a1: "fx ?s1 = fx sh @ ?acks"
    by (simp add: ack_source_def send_msg_def split: sum.split)
  have ms: "mesh_seen ?s1 = mesh_seen sh" by simp
  obtain first seen where o: "seen_observe ?id (mesh_seen sh) = (first, seen)" by force
  have f: "first_sight it sh \<longleftrightarrow> first" by (simp add: first_sight_def o)
  show ?thesis
  proof (cases first)
    case False
    have "complete_with E it frames sh = ?s1\<lparr>mesh_seen := seen\<rparr>"
      using v False by (simp add: complete_with_def verified_def Let_def ms o)
    then show ?thesis using a1 False by (intro exI [of _ ?acks] exI [of _ "[]"]) (simp add: f)
  next
    case True
    let ?s2 = "?s1\<lparr>mesh_seen := seen\<rparr>"
    obtain blocked s3 where ad: "admit_inbound E it ?s2 = (blocked, s3)" by force
    let ?s4 = "if blocked then s3
      else forward_frames E (cp_kind it) (cp_source it) (cp_origin it) (cp_hash it) frames s3"
    have ad_f: "fx s3 = fx ?s1" "pending_pairs s3 = pending_pairs sh" "metas s3 = metas sh"
        "pending_pulls s3 = pending_pulls sh" "snapshot s3 = snapshot sh"
      using admit_inbound_fields(1) [OF ad] by simp_all
    have bl: "blocked \<longleftrightarrow> \<not> cp_sensitive it \<and> inbound_verdict it sh = Block"
      using admit_inbound_fields(2) [OF ad] by (simp add: inbound_verdict_def)
    have "adds (\<lambda>e. \<exists>d b. e = Send d b \<and> b \<in> set frames \<and> relay_ok it sh d \<and> first_sight it sh) s3 ?s4"
    proof (cases blocked)
      case False
      then show ?thesis
        using bl f True ad_f by (auto simp: forward_targets_def relay_ok_def intro!: adds_forward)
    qed (simp add: adds_same)
    then obtain relays where r: "fx ?s4 = fx s3 @ relays"
        "\<forall>e\<in>set relays. \<exists>d b. e = Send d b \<and> b \<in> set frames \<and> relay_ok it sh d \<and> first_sight it sh"
      by (auto simp: adds_def)
    have pl: "pending_pulls ?s4 = pending_pulls sh" using ad_f by simp
    have "fx (complete_with E it frames sh) = fx ?s4 @ [Post (delivery E it sh)]"
      using v True pl by (simp add: complete_with_def verified_def Let_def ms o ad deliver_def delivery_def split: prod.split)
    then show ?thesis using a1 r ad_f f True by (intro exI [of _ ?acks] exI [of _ relays]) simp
  qed
qed

lemma complete_with_unverified: "\<not> verified E it \<Longrightarrow> complete_with E it frames sh = sh"
  by (simp add: complete_with_def verified_def)

text \<open>An item is no business of trust, pairing, metadata or backoff.\<close>

lemma complete_with_fields:
  "trusted (complete_with E it frames sh) = trusted sh \<and> pending_pairs (complete_with E it frames sh) = pending_pairs sh
   \<and> deferred_sas (complete_with E it frames sh) = deferred_sas sh \<and> echo_acked (complete_with E it frames sh) = echo_acked sh
   \<and> disc_cache (complete_with E it frames sh) = disc_cache sh \<and> backoffs (complete_with E it frames sh) = backoffs sh
   \<and> metas (complete_with E it frames sh) = metas sh \<and> reasm (complete_with E it frames sh) = reasm sh
   \<and> tombstones (complete_with E it frames sh) = tombstones sh \<and> snapshot (complete_with E it frames sh) = snapshot sh"
proof -
  let ?id = "EventId (DeviceId (cp_origin it)) (cp_event_seq it)"
  obtain first seen where o: "seen_observe ?id (mesh_seen sh) = (first, seen)" by force
  obtain blocked s3 where ad: "admit_inbound E it ((ack_source E (cp_source it) (cp_hash it) sh)\<lparr>mesh_seen := seen\<rparr>) = (blocked, s3)"
    by force
  show ?thesis
    using admit_inbound_fields(1) [OF ad]
    by (simp add: complete_with_def Let_def o ad deliver_def split: prod.split)
qed

section \<open>The other arms answer the speaker only\<close>

definition reply_only :: "bytes32 \<Rightarrow> effect \<Rightarrow> bool" where
  "reply_only peer e = (case e of Send d _ \<Rightarrow> d = peer | Post ev \<Rightarrow> (\<forall>fr. ev \<noteq> FrameReceivedClipboard fr)
     | Delivered _ p \<Rightarrow> p = peer | SavePeers \<Rightarrow> True)"

lemma reply_only_simps [simp]:
  "reply_only peer (Send d b) \<longleftrightarrow> d = peer" "reply_only peer (Post ev) \<longleftrightarrow> (\<forall>fr. ev \<noteq> FrameReceivedClipboard fr)"
  "reply_only peer (Delivered h p) \<longleftrightarrow> p = peer" "reply_only peer SavePeers"
  by (simp_all add: reply_only_def)

lemma adds_post: "P (Post ev) \<Longrightarrow> adds P sh (log_fx (Post ev) sh)"
  by (simp add: adds_def)

lemma adds_reply_msg: "adds (reply_only peer) sh (send_msg E peer g sh)"
  by (rule adds_send_msg) simp

lemma adds_reply_all: "adds (reply_only peer) sh (send_all E peer bs sh)"
  by (rule adds_send_all) simp

lemma adds_upd: "adds P a b \<Longrightarrow> fx b' = fx b \<Longrightarrow> adds P a b'"
  by (simp add: adds_def)

lemma adds_forget_meta: "adds (reply_only peer) sh (forget_meta p sh)"
  by (simp add: forget_meta_def adds_def)

lemma adds_untrust: "adds (reply_only peer) sh (untrust p sh)"
  by (simp add: untrust_def Let_def adds_def)

lemma adds_failover: "try_primary_failover E sh = (r, sh') \<Longrightarrow> adds (reply_only peer) sh sh'"
  by (auto simp: try_primary_failover_def adds_def split: prod.splits option.splits)

lemma adds_lose: "adds (reply_only peer) sh (lose_if_primary E b p sh)"
proof (cases b)
  case True
  obtain r sh' where f: "try_primary_failover E sh = (r, sh')" by force
  show ?thesis
    using adds_trans [OF adds_failover [OF f] adds_post [of "reply_only peer" "PeerLost p"]] adds_failover [OF f] True
    by (simp add: lose_if_primary_def f)
qed (simp add: lose_if_primary_def adds_same)

lemma adds_battery: "adds (reply_only peer) sh (on_battery p l c sh)"
  by (simp add: on_battery_def Let_def adds_def)

lemma adds_heartbeat: "adds (reply_only peer) sh (on_heartbeat E peer sh)"
  unfolding on_heartbeat_def by (rule adds_cong [OF adds_reply_msg]) simp_all

lemma adds_ack: "adds (reply_only peer) sh (on_ack_msg E peer h sh)"
  by (simp add: on_ack_msg_def Let_def adds_def split: prod.split)

lemma adds_nak: "adds (reply_only peer) sh (on_nak_msg E peer n sh)"
proof -
  obtain out m where o: "on_nak (now E) peer n (flights sh) = (out, m)" by force
  show ?thesis using adds_reply_all [of peer sh E out] by (simp add: on_nak_msg_def o adds_def)
qed

lemma session_ended_fx [simp]: "fx (session_ended E p t sh) = fx sh"
  by (simp add: session_ended_def Let_def)

lemma adds_bye: "adds (reply_only peer) sh (on_bye E peer sh)"
  unfolding on_bye_def Let_def
  by (rule adds_trans [OF _ adds_lose], rule adds_upd [OF adds_cong [OF adds_forget_meta]])
    (simp_all split: option.split)

lemma adds_revoke: "adds (reply_only peer) sh (on_revoke E peer sh)"
proof -
  let ?s1 = "untrust peer sh"
  let ?s2 = "?s1\<lparr>pending_pairs := hm_remove peer (pending_pairs ?s1)\<rparr>"
  let ?s3 = "if map_of (pending_pairs ?s1) peer \<noteq> None then post SasReset ?s2 else ?s2"
  let ?s4 = "?s3\<lparr>deferred_sas := filter (\<lambda>p. p \<noteq> peer) (deferred_sas ?s3),
                 echo_acked := filter (\<lambda>p. p \<noteq> peer) (echo_acked ?s3)\<rparr>"
  let ?s5 = "?s4\<lparr>net := purge_peer peer (net ?s4)\<rparr>"
  have "adds (reply_only peer) ?s1 ?s5" by (simp add: adds_def)
  then have "adds (reply_only peer) sh ?s5" using adds_trans [OF adds_untrust] by blast
  then have "adds (reply_only peer) sh (forget_meta peer ?s5)" using adds_trans adds_forget_meta by blast
  then show ?thesis unfolding on_revoke_def Let_def using adds_trans adds_lose by blast
qed

lemma adds_reject: "adds (reply_only peer) sh (on_reject E peer sh)"
proof -
  let ?s1 = "sh\<lparr>pending_pairs := hm_remove peer (pending_pairs sh),
                 deferred_sas := filter (\<lambda>p. p \<noteq> peer) (deferred_sas sh),
                 echo_acked := filter (\<lambda>p. p \<noteq> peer) (echo_acked sh)\<rparr>"
  let ?s2 = "untrust peer ?s1"
  let ?s3 = "?s2\<lparr>net := purge_peer peer (net ?s2)\<rparr>"
  let ?s4 = "forget_meta peer ?s3"
  let ?s5 = "if map_of (pending_pairs sh) peer \<noteq> None \<or> in_sas_flow peer ?s4 then post (SasPeerRejected peer) ?s4 else ?s4"
  have "adds (reply_only peer) sh ?s2" using adds_untrust [of peer ?s1 peer] by (simp add: adds_def)
  then have "adds (reply_only peer) sh ?s3" by (simp add: adds_def)
  then have "adds (reply_only peer) sh ?s4" using adds_trans adds_forget_meta by blast
  then have "adds (reply_only peer) sh ?s5" by (auto simp: adds_def)
  then show ?thesis unfolding on_reject_def Let_def using adds_trans adds_lose by blast
qed

lemma adds_hello: "adds (reply_only peer) sh (on_hello E peer h sh)"
proof -
  let ?caps = "negotiate_caps (h_caps h)"
  have r: "adds (reply_only peer) s (record_hello peer h ?caps s)" for s :: "'a shared"
    by (simp add: record_hello_def Let_def adds_def)
  have sa: "adds (reply_only peer) s (hello_sas E peer ?caps s)" for s :: "'a shared"
    using adds_reply_msg [of peer "s\<lparr>deferred_sas := filter (\<lambda>p. p \<noteq> peer) (deferred_sas s)\<rparr>" E "PairConfirm True"]
    by (auto simp: hello_sas_def Let_def adds_def)
  have v: "adds (reply_only peer) s (hello_verify E peer ?caps s)" for s :: "'a shared"
    using adds_reply_msg [of peer "s\<lparr>metas := bt_insert peer ((meta_of peer s)\<lparr>verify_restart_sent := True\<rparr>) (metas s)\<rparr>" E PairVerifyStarted]
    by (auto simp: hello_verify_def Let_def adds_def)
  have o: "adds (reply_only peer) s (hello_offer E peer ?caps s)" for s :: "'a shared"
    by (auto simp: hello_offer_def Let_def adds_same intro: adds_reply_msg)
  let ?s = "hello_offer E peer ?caps (hello_verify E peer ?caps (hello_sas E peer ?caps (record_hello peer h ?caps sh)))"
  have "adds (reply_only peer) sh ?s" using r sa v o adds_trans by metis
  then show ?thesis by (auto simp: on_hello_def Let_def adds_def)
qed

lemma adds_offer: "adds (reply_only peer) sh (on_offer E peer hs sh)"
proof (cases "resync_authorized (net sh) (metas sh) peer")
  case True
  obtain tracked ps where t: "track_pending_pulls (hexs E) (now E) peer (missing_resync_hashes hs (map hi_hash (history (snapshot sh)))
      (map (hex_encode (hexs E)) (outbox_hashes (now E) (box sh))) (cleared_hex_snapshot (hexs E) (now E) (tombstones sh))
      (in_flight_pull_hashes (hexs E) (now E) (pending_pulls sh))) (pending_pulls sh) = (tracked, ps)" by force
  show ?thesis
    using True adds_reply_msg [of peer "sh\<lparr>pending_pulls := ps\<rparr>" E "ResyncPull tracked"]
    by (auto simp: on_offer_def Let_def t adds_def)
qed (simp add: on_offer_def adds_same)

lemma adds_serve: "adds (reply_only peer) sh (serve_pull E peer h sh)"
  using adds_reply_all by (auto simp: serve_pull_def Let_def adds_def split: option.split)

lemma adds_pull: "adds (reply_only peer) sh (on_pull E peer hs sh)"
  by (auto simp: on_pull_def adds_same intro: adds_fold adds_serve)

lemma adds_accept: "adds (reply_only peer) sh (on_accept E peer sh)"
proof -
  let ?s = "case map_of (pending_pairs sh) peer of
      Some p \<Rightarrow> sh\<lparr>pending_pairs := hm_insert peer (p\<lparr>pp_expires_at := now E + PAIRING_WINDOW\<rparr>) (pending_pairs sh)\<rparr>
    | None \<Rightarrow> sh"
  have f: "fx ?s = fx sh" by (simp split: option.split)
  show ?thesis
    using f adds_reply_msg [of peer "?s\<lparr>echo_acked := peer # echo_acked ?s\<rparr>" E "PairConfirm True"]
    by (auto simp: on_accept_def Let_def adds_def)
qed

lemma adds_verify_started: "adds (reply_only peer) sh (on_verify_started E peer sh)"
  by (simp add: on_verify_started_def Let_def adds_def split: option.split)

section \<open>A dispatch\<close>

definition new_fx :: "'t shared \<Rightarrow> 't shared \<Rightarrow> effect list" where
  "new_fx sh sh' = drop (length (fx sh)) (fx sh')"

lemma adds_new: "adds P sh sh' \<Longrightarrow> e \<in> set (new_fx sh sh') \<Longrightarrow> P e"
  by (auto simp: adds_def new_fx_def)

lemma header_source: "on_header b t peer i m = (Some it, m') \<Longrightarrow> cp_source it = peer \<and> cp_hash it = ci_hash i"
  by (auto simp: on_header_def Let_def completed_def split: if_splits option.splits)

lemma chunk_source: "on_chunk b t peer c m = (Some it, m') \<Longrightarrow> cp_source it = peer \<and> cp_hash it = ch_item_id c"
  by (auto simp: on_chunk_def Let_def completed_def split: if_splits option.splits)

text \<open>Every arm is a reply to the speaker, or keeps a part, or completes an item of the speaker.\<close>

lemma dispatch_cases:
  assumes "\<not> gate_refuses g peer sh"
  shows "adds (reply_only peer) sh (dispatch_inbound_frame E g peer sh)
    \<or> (blocks_until_confirmed g \<and> (\<exists>it frames m. dispatch_inbound_frame E g peer sh = complete_with E it frames (sh\<lparr>reasm := m\<rparr>)
          \<and> cp_source it = peer))"
proof -
  note d = dispatch_inbound_frame_def assms
  show ?thesis
  proof (cases g)
    case (ClipboardItem i)
    show ?thesis
    proof (cases "ci_payload i = []")
      case True
      obtain c m where h: "on_header (blake3 E) (now E) peer i (reasm sh) = (c, m)" by force
      show ?thesis
        using header_source [of "blake3 E" "now E" peer i "reasm sh"] h ClipboardItem True
        by (cases c) (auto simp: d on_item_def adds_same complete_reassembled_item_def blocks_until_confirmed_def)
    next
      case False
      let ?it = "\<lparr>cp_source = peer, cp_origin = ci_origin i, cp_event_seq = ci_event_seq i, cp_hash = ci_hash i,
          cp_kind = ci_kind i, cp_sensitive = ci_sensitive i, cp_lamport = ci_lamport i, cp_payload = ci_payload i\<rparr>"
      let ?fs = "case encode (cbor_ser E) (proto_frame (ClipboardItem i)) of Inr b \<Rightarrow> [b] | Inl _ \<Rightarrow> []"
      have "dispatch_inbound_frame E g peer sh = complete_with E ?it ?fs (sh\<lparr>reasm := reasm sh\<rparr>)"
        using assms ClipboardItem False by (simp add: dispatch_inbound_frame_def on_item_def)
      moreover have "blocks_until_confirmed g" "cp_source ?it = peer"
        by (simp_all add: ClipboardItem blocks_until_confirmed_def)
      ultimately show ?thesis by blast
    qed
  next
    case (Chunk c)
    obtain r m where h: "on_chunk (blake3 E) (now E) peer c (reasm sh) = (r, m)" by force
    show ?thesis
      using chunk_source [of "blake3 E" "now E" peer c "reasm sh"] h Chunk
      by (cases r) (auto simp: d on_chunk_msg_def adds_same complete_reassembled_item_def blocks_until_confirmed_def)
  qed (auto simp: d adds_battery adds_heartbeat adds_ack adds_nak adds_bye adds_revoke adds_same adds_hello
      adds_offer adds_pull adds_accept adds_reject adds_verify_started)
qed

lemma gate_refuses_keeps: "gate_refuses g peer sh \<Longrightarrow> dispatch_inbound_frame E g peer sh = sh"
  by (simp add: dispatch_inbound_frame_def)

lemma reasm_irrelevant [simp]:
  "first_sight it (sh\<lparr>reasm := m\<rparr>) = first_sight it sh" "relay_ok it (sh\<lparr>reasm := m\<rparr>) d = relay_ok it sh d"
  "delivery E it (sh\<lparr>reasm := m\<rparr>) = delivery E it sh"
  by (simp_all add: first_sight_def relay_ok_def inbound_verdict_def delivery_def)

definition is_delivery :: "effect \<Rightarrow> bool" where
  "is_delivery e \<longleftrightarrow> (\<exists>fr. e = Post (FrameReceivedClipboard fr))"

lemma item_effects:
  assumes "e \<in> set (new_fx sh (complete_with E it frames (sh\<lparr>reasm := m\<rparr>)))"
  shows "verified E it
    \<and> ((\<exists>b. e = Send (cp_source it) b) \<or> (\<exists>d b. e = Send d b \<and> relay_ok it sh d \<and> first_sight it sh)
        \<or> e = Post (delivery E it sh) \<and> first_sight it sh)"
proof (cases "verified E it")
  case True
  obtain acks relays where st: "fx (complete_with E it frames (sh\<lparr>reasm := m\<rparr>)) =
      fx sh @ acks @ relays @ (if first_sight it sh then [Post (delivery E it sh)] else [])"
    "acks = (case encode (cbor_ser E) (proto_frame (Ack 0 (cp_hash it))) of Inr b \<Rightarrow> [Send (cp_source it) b] | Inl _ \<Rightarrow> [])"
    "\<forall>e\<in>set relays. \<exists>d b. e = Send d b \<and> b \<in> set frames \<and> relay_ok it sh d \<and> first_sight it sh"
    using complete_with_stages [OF True, of frames "sh\<lparr>reasm := m\<rparr>"] by auto
  then show ?thesis
    using assms True by (auto simp: new_fx_def split: if_splits sum.splits)
next
  case False
  then show ?thesis using assms by (simp add: complete_with_unverified new_fx_def)
qed

text \<open>A text from \<open>[1]\<close> is acked, relayed to \<open>[2]\<close> and delivered.\<close>

abbreviation demo_complete :: complete_item where
  "demo_complete \<equiv> \<lparr>cp_source = [1], cp_origin = [3], cp_event_seq = 1, cp_hash = [9], cp_kind = Text, cp_sensitive = False,
     cp_lamport = 1, cp_payload = [65]\<rparr>"

lemma demo_verified: "verify_content_hash demo_env Text [65] [9]"
  by (simp add: verify_content_hash_def content_digest_def ring_hash_def split: option.split)

lemma demo_dispatch:
  "dispatch_inbound_frame demo_env (ClipboardItem demo_relayed) [1] demo_shared = complete_with demo_env demo_complete [[7]] demo_shared"
  by (simp add: dispatch_inbound_frame_def gate_refuses_def demo_relayed_def on_item_def encode_def validate_def validate_item_def
      MAX_PAYLOAD_def proto_frame_def)

lemma demo_links: "linked_peer_ids (snd (send_encrypted_to quiet_noise [1] [7] (net demo_shared))) = [[1], [2]]"
  by (simp add: demo_shared_def shared_new_def link_eval linked_peer_ids_def live_extra_def send_encrypted_to_def send_on_def
      send_begin_def send_commit_def quiet_noise_def encrypt_def)

lemma demo_forward:
  assumes "pending_pairs sh = []" and "linked_peer_ids (net sh) = [[1], [2]]"
  shows "Send [2] [7] \<in> set (fx (forward_frames demo_env Text [1] [3] h [[7]] sh))"
  using assms
  by (simp add: forward_frames_def forward_targets_def accepts_kind_def send_all_def send_to_def Let_def log_fx_def split: prod.split)

lemma demo_relay:
  "Post (FrameReceivedClipboard
        \<lparr>fr_hash = [9], fr_kind = Text, fr_payload = [65], fr_preview = [], fr_sensitive = False, fr_lamport = 1,
         fr_resync = False, fr_peer_id = [1]\<rparr>)
     \<in> set (new_fx demo_shared (dispatch_inbound_frame demo_env (ClipboardItem demo_relayed) [1] demo_shared))"
  "Send [2] [7] \<in> set (new_fx demo_shared (dispatch_inbound_frame demo_env (ClipboardItem demo_relayed) [1] demo_shared))"
proof -
  let ?s1 = "ack_source demo_env [1] [9] demo_shared"
  obtain seen where o: "seen_observe (EventId (DeviceId [3]) 1) seen_default = (True, seen)"
    by (simp add: seen_observe_def seen_contains_def seen_default_def seen_new_def)
  obtain s3 where ad: "admit_inbound demo_env demo_complete (?s1\<lparr>mesh_seen := seen\<rparr>) = (False, s3)"
      and n: "net s3 = net ?s1" "pending_pairs s3 = []" "pending_pulls s3 = []"
    by (simp add: admit_inbound_def initial_def config_default_def decide_def policy_default_def normalized_def)
  have "net ?s1 = snd (send_encrypted_to quiet_noise [1] [7] (net demo_shared))"
    by (simp add: ack_source_def send_msg_def send_to_def encode_def validate_def proto_frame_def log_fx_def split: prod.split)
  then have l: "linked_peer_ids (net s3) = [[1], [2]]" using demo_links n(1) by simp
  have c: "complete_with demo_env demo_complete [[7]] demo_shared
      = deliver demo_env demo_complete (forward_frames demo_env Text [1] [3] [9] [[7]] s3)"
    by (simp add: complete_with_def demo_verified Let_def o ad)
  show "Post (FrameReceivedClipboard
        \<lparr>fr_hash = [9], fr_kind = Text, fr_payload = [65], fr_preview = [], fr_sensitive = False, fr_lamport = 1,
         fr_resync = False, fr_peer_id = [1]\<rparr>)
     \<in> set (new_fx demo_shared (dispatch_inbound_frame demo_env (ClipboardItem demo_relayed) [1] demo_shared))"
    by (simp add: demo_dispatch c deliver_def n(3) take_pending_pull_def post_def log_fx_def new_fx_def)
  show "Send [2] [7] \<in> set (new_fx demo_shared (dispatch_inbound_frame demo_env (ClipboardItem demo_relayed) [1] demo_shared))"
    using demo_forward [OF n(2) l, of "[9]"]
    by (simp add: demo_dispatch c deliver_def n(3) take_pending_pull_def post_def log_fx_def new_fx_def)
qed

text \<open>
  C2: What reaches the core from the network is what it claims to be. Whatever frame a peer sends in
  whatever state of the daemon: if the dispatch hands clipboard content to the core, the peer is trusted
  and not waiting for its confirmation, the content carries its name, the hash is the digest of
  the content by the sender's own rule, and the catch-up flag says exactly whether this hash was
  asked of this peer and has not come yet.
\<close>

theorem deliveries_are_verified:
  assumes ok: "pulls_ok (pending_pulls sh)"
    and d: "Post (FrameReceivedClipboard fr) \<in> set (new_fx sh (dispatch_inbound_frame E g peer sh))"
  shows "map_of (trusted sh) peer \<noteq> None \<and> map_of (pending_pairs sh) peer = None \<and> fr_peer_id fr = peer
    \<and> content_digest E (fr_kind fr) (fr_payload fr) = Some (fr_hash fr)
    \<and> (fr_resync fr \<longleftrightarrow> claimed (now E) (pending_pulls sh) peer (fr_hash fr))"
proof -
  have ng: "\<not> gate_refuses g peer sh"
    using d gate_refuses_keeps [of g peer sh E] by (auto simp: new_fx_def)
  have "\<not> adds (reply_only peer) sh (dispatch_inbound_frame E g peer sh)"
    using adds_new [OF _ d] by fastforce
  then obtain it frames m where it: "blocks_until_confirmed g" "cp_source it = peer"
      "dispatch_inbound_frame E g peer sh = complete_with E it frames (sh\<lparr>reasm := m\<rparr>)"
    using dispatch_cases [OF ng] by blast
  have e: "verified E it" "FrameReceivedClipboard fr = delivery E it sh"
    using item_effects [of "Post (FrameReceivedClipboard fr)" sh E it frames m] d by (auto simp: it(3))
  obtain found m' where t: "take_pending_pull (now E) peer (cp_hash it) (pending_pulls sh) = (found, m')" by force
  have "map_of (trusted sh) peer \<noteq> None \<and> map_of (pending_pairs sh) peer = None"
    using ng it(1) by (auto simp: gate_refuses_def)
  then show ?thesis
    using e take_claims(2) [OF ok t order_refl] it(2)
    by (simp add: delivery_def t verified_def verify_content_hash_def)
qed

theorem deliveries_are_verified_witness:
  "content_digest demo_env Text [65] = Some [9]
   \<and> Post (FrameReceivedClipboard
        \<lparr>fr_hash = [9], fr_kind = Text, fr_payload = [65], fr_preview = [], fr_sensitive = False, fr_lamport = 1,
         fr_resync = False, fr_peer_id = [1]\<rparr>)
     \<in> set (new_fx demo_shared (dispatch_inbound_frame demo_env (ClipboardItem demo_relayed) [1] demo_shared))"
proof -
  have p: "pulls_ok (pending_pulls demo_shared)" by (simp add: pulls_ok_def)
  show ?thesis using deliveries_are_verified [OF p] demo_relay(1) by fastforce
qed



end
