(* ===== verification/Inbound_Trust.thy ===== *)
theory Inbound_Trust
  imports Inbound_Safety
begin

text \<open>
  Whose pairing a frame can change, and the invariant of the shared tables over every run of inbound
  datagrams.
\<close>

section \<open>Failover and metadata leave the pairing tables alone\<close>

lemma same_tables_failover: "try_primary_failover E sh = (r, sh') \<Longrightarrow> same_tables sh sh'"
  by (auto simp: try_primary_failover_def same_tables_def log_fx_def split: prod.splits option.splits)

lemma same_tables_lose: "same_tables sh (lose_if_primary E b p sh)"
proof -
  obtain r sh' where f: "try_primary_failover E sh = (r, sh')" by force
  have "same_tables sh' (post (PeerLost p) sh')" by (simp add: same_tables_def log_fx_def)
  then show ?thesis
    using same_tables_failover [OF f] same_tables_trans by (auto simp: lose_if_primary_def f)
qed

lemmas lose_fields [simp] = same_tablesD [OF same_tables_lose]

lemma forget_meta_fields [simp]:
  "trusted (forget_meta p sh) = trusted sh" "pending_pairs (forget_meta p sh) = pending_pairs sh"
  "deferred_sas (forget_meta p sh) = deferred_sas sh" "echo_acked (forget_meta p sh) = echo_acked sh"
  "disc_cache (forget_meta p sh) = disc_cache sh" "backoffs (forget_meta p sh) = backoffs sh"
  "flights (forget_meta p sh) = flights sh" "reasm (forget_meta p sh) = reasm sh"
  "mesh_seen (forget_meta p sh) = mesh_seen sh" "box (forget_meta p sh) = box sh"
  "outbox_stage (forget_meta p sh) = outbox_stage sh" "pending_pulls (forget_meta p sh) = pending_pulls sh"
  "tombstones (forget_meta p sh) = tombstones sh" "snapshot (forget_meta p sh) = snapshot sh"
  "hello_sent (forget_meta p sh) = hello_sent sh" "net (forget_meta p sh) = net sh"
  by (simp_all add: forget_meta_def)

lemma forget_meta_metas: "metas (forget_meta p sh) = (if bt_get (metas sh) p = None then metas sh else bt_remove p (metas sh))"
  by (simp add: forget_meta_def)

lemma untrust_fields [simp]:
  "trusted (untrust p sh) = hm_remove p (trusted sh)" "pending_pairs (untrust p sh) = pending_pairs sh"
  "deferred_sas (untrust p sh) = deferred_sas sh" "echo_acked (untrust p sh) = echo_acked sh"
  "disc_cache (untrust p sh) = hm_remove p (disc_cache sh)" "backoffs (untrust p sh) = hm_remove p (backoffs sh)"
  "flights (untrust p sh) = flights sh" "reasm (untrust p sh) = reasm sh" "metas (untrust p sh) = metas sh"
  "mesh_seen (untrust p sh) = mesh_seen sh" "box (untrust p sh) = box sh" "snapshot (untrust p sh) = snapshot sh"
  "outbox_stage (untrust p sh) = outbox_stage sh" "pending_pulls (untrust p sh) = pending_pulls sh"
  "tombstones (untrust p sh) = tombstones sh" "hello_sent (untrust p sh) = hello_sent sh" "net (untrust p sh) = net sh"
  by (simp_all add: untrust_def Let_def)

lemma session_ended_fields [simp]:
  "trusted (session_ended E p t sh) = trusted sh" "pending_pairs (session_ended E p t sh) = pending_pairs sh"
  "deferred_sas (session_ended E p t sh) = deferred_sas sh" "echo_acked (session_ended E p t sh) = echo_acked sh"
  "disc_cache (session_ended E p t sh) = disc_cache sh" "metas (session_ended E p t sh) = metas sh"
  "flights (session_ended E p t sh) = flights sh" "reasm (session_ended E p t sh) = reasm sh"
  "mesh_seen (session_ended E p t sh) = mesh_seen sh" "box (session_ended E p t sh) = box sh"
  "outbox_stage (session_ended E p t sh) = outbox_stage sh" "pending_pulls (session_ended E p t sh) = pending_pulls sh"
  "tombstones (session_ended E p t sh) = tombstones sh" "hello_sent (session_ended E p t sh) = hello_sent sh"
  "q \<noteq> p \<Longrightarrow> map_of (backoffs (session_ended E p t sh)) q = map_of (backoffs sh) q"
  "distinct (map fst (backoffs sh)) \<Longrightarrow> distinct (map fst (backoffs (session_ended E p t sh)))"
  by (simp_all add: session_ended_def Let_def)

section \<open>One arm at a time\<close>

definition pairing_view :: "'t shared \<Rightarrow> (bytes32, trusted_peer) hmap \<times> (bytes32, pending_pair) hmap \<times> bytes32 list
    \<times> bytes32 list \<times> (bytes32, resolved_peer) hmap \<times> (bytes32, peer_backoff) hmap" where
  "pairing_view sh = (trusted sh, pending_pairs sh, deferred_sas sh, echo_acked sh, disc_cache sh, backoffs sh)"

text \<open>What one peer's frame may change of another's pairing: nothing.\<close>

definition personal :: "bytes32 \<Rightarrow> 't shared \<Rightarrow> 't shared \<Rightarrow> bool" where
  "personal peer a b \<longleftrightarrow> (\<forall>q. q \<noteq> peer \<longrightarrow>
     map_of (trusted b) q = map_of (trusted a) q \<and> map_of (pending_pairs b) q = map_of (pending_pairs a) q
     \<and> (q \<in> set (deferred_sas b) \<longleftrightarrow> q \<in> set (deferred_sas a)) \<and> (q \<in> set (echo_acked b) \<longleftrightarrow> q \<in> set (echo_acked a))
     \<and> map_of (disc_cache b) q = map_of (disc_cache a) q \<and> map_of (backoffs b) q = map_of (backoffs a) q)"

lemma personal_same: "pairing_view b = pairing_view a \<Longrightarrow> personal peer a b"
  by (simp add: personal_def pairing_view_def)

lemma view_complete [simp]: "pairing_view (complete_with E it frames sh) = pairing_view sh"
  using complete_with_fields [of E it frames sh] by (simp add: pairing_view_def)

lemma view_item [simp]: "pairing_view (on_item E peer i sh) = pairing_view sh"
  by (simp add: on_item_def complete_reassembled_item_def split: prod.split option.split)
    (simp add: pairing_view_def)

lemma view_chunk [simp]: "pairing_view (on_chunk_msg E peer c sh) = pairing_view sh"
  by (simp add: on_chunk_msg_def complete_reassembled_item_def split: prod.split option.split)
    (simp add: pairing_view_def)

lemma view_simps [simp]:
  "pairing_view (log_fx e sh) = pairing_view sh" "pairing_view (send_msg E p g sh) = pairing_view sh"
  "pairing_view (send_all E p bs sh) = pairing_view sh" "pairing_view (sh\<lparr>metas := ms\<rparr>) = pairing_view sh"
  "pairing_view (sh\<lparr>flights := fl\<rparr>) = pairing_view sh" "pairing_view (sh\<lparr>counters := ct\<rparr>) = pairing_view sh"
  "pairing_view (sh\<lparr>pending_pulls := ps\<rparr>) = pairing_view sh" "pairing_view (sh\<lparr>reasm := rs\<rparr>) = pairing_view sh"
  by (simp_all add: pairing_view_def)

lemma view_battery [simp]: "pairing_view (on_battery peer l ch sh) = pairing_view sh"
  by (simp add: on_battery_def Let_def)

lemma view_heartbeat [simp]: "pairing_view (on_heartbeat E peer sh) = pairing_view sh"
  by (simp add: on_heartbeat_def)

lemma view_ack [simp]: "pairing_view (on_ack_msg E peer h sh) = pairing_view sh"
  by (simp add: on_ack_msg_def Let_def split: prod.split)

lemma view_nak [simp]: "pairing_view (on_nak_msg E peer n sh) = pairing_view sh"
  by (simp add: on_nak_msg_def split: prod.split)

lemma view_offer [simp]: "pairing_view (on_offer E peer hs sh) = pairing_view sh"
  unfolding on_offer_def Let_def by (simp split: prod.split)

lemma view_serve: "pairing_view (serve_pull E peer h sh) = pairing_view sh"
  by (simp add: serve_pull_def Let_def pairing_view_def split: option.split)

lemma view_pull [simp]: "pairing_view (on_pull E peer hs sh) = pairing_view sh"
proof -
  have "pairing_view (fold (serve_pull E peer) xs s) = pairing_view s" for xs and s :: "'a shared"
    by (induction xs arbitrary: s) (simp_all add: view_serve)
  then show ?thesis by (simp add: on_pull_def)
qed

definition undefer :: "bytes32 \<Rightarrow> 't shared \<Rightarrow> 't shared" where
  "undefer peer sh = sh\<lparr>deferred_sas := filter (\<lambda>p. p \<noteq> peer) (deferred_sas sh)\<rparr>"

lemma hello_view: "pairing_view (on_hello E peer h sh) = pairing_view (undefer peer sh)"
proof -
  have r: "pairing_view (record_hello peer h caps s) = pairing_view s" for caps and s :: "'a shared"
    by (simp add: record_hello_def Let_def)
  have v: "pairing_view (hello_verify E peer caps s) = pairing_view s" for caps and s :: "'a shared"
    by (simp add: hello_verify_def Let_def)
  have o: "pairing_view (hello_offer E peer caps s) = pairing_view s" for caps and s :: "'a shared"
    by (simp add: hello_offer_def Let_def)
  have u: "pairing_view (hello_sas E peer caps s) = pairing_view (undefer peer s)" for caps and s :: "'a shared"
    by (simp add: hello_sas_def Let_def undefer_def)
  have c: "pairing_view (undefer peer a) = pairing_view (undefer peer b)" if "pairing_view a = pairing_view b"
    for a b :: "'a shared"
    using that by (simp add: pairing_view_def undefer_def)
  show ?thesis by (simp add: on_hello_def Let_def o v u c [OF r])
qed

lemma hello_fields:
  "trusted (on_hello E peer h sh) = trusted sh" "pending_pairs (on_hello E peer h sh) = pending_pairs sh"
  "deferred_sas (on_hello E peer h sh) = filter (\<lambda>p. p \<noteq> peer) (deferred_sas sh)"
  "echo_acked (on_hello E peer h sh) = echo_acked sh" "disc_cache (on_hello E peer h sh) = disc_cache sh"
  "backoffs (on_hello E peer h sh) = backoffs sh"
  using hello_view [of E peer h sh] by (simp_all add: pairing_view_def undefer_def)

lemma bye_personal: "personal peer sh (on_bye E peer sh) \<and> trusted (on_bye E peer sh) = trusted sh
    \<and> pending_pairs (on_bye E peer sh) = pending_pairs sh"
  by (simp add: on_bye_def Let_def personal_def split: option.split)

lemma revoke_personal: "personal peer sh (on_revoke E peer sh) \<and> map_of (pending_pairs (on_revoke E peer sh)) peer = None"
  by (simp add: on_revoke_def Let_def personal_def)

lemma reject_personal: "personal peer sh (on_reject E peer sh) \<and> map_of (pending_pairs (on_reject E peer sh)) peer = None"
  by (simp add: on_reject_def Let_def personal_def)

lemma accept_personal: "personal peer sh (on_accept E peer sh) \<and> trusted (on_accept E peer sh) = trusted sh
    \<and> (map_of (pending_pairs (on_accept E peer sh)) peer = None \<longleftrightarrow> map_of (pending_pairs sh) peer = None)"
  by (simp add: on_accept_def Let_def personal_def split: option.split)

lemma map_of_filter_sub:
  assumes "distinct (map fst m)"
  shows "map_of (filter P m) q = (case map_of m q of Some v \<Rightarrow> if P (q, v) then Some v else None | None \<Rightarrow> None)"
  using assms by (induction m) (auto simp: map_of_eq_None_iff split: option.splits)

text \<open>The three ways a frame treats the pairing tables.\<close>

definition kept :: "bytes32 \<Rightarrow> 't shared \<Rightarrow> 't shared \<Rightarrow> bool" where
  "kept peer a b \<longleftrightarrow> personal peer a b \<and> trusted b = trusted a
     \<and> (map_of (pending_pairs b) peer \<noteq> None \<longrightarrow> map_of (pending_pairs a) peer \<noteq> None)"

definition dropped :: "bytes32 \<Rightarrow> 't shared \<Rightarrow> 't shared \<Rightarrow> bool" where
  "dropped peer a b \<longleftrightarrow> personal peer a b \<and> trusted b = hm_remove peer (trusted a)
     \<and> map_of (pending_pairs b) peer = None"

definition reopened :: "bytes32 \<Rightarrow> 't shared \<Rightarrow> 't shared \<Rightarrow> bool" where
  "reopened peer a b \<longleftrightarrow> trusted b = trusted a \<and> disc_cache b = disc_cache a \<and> backoffs b = backoffs a
     \<and> deferred_sas b = deferred_sas a \<and> echo_acked b = echo_acked a \<and> map_of (trusted a) peer \<noteq> None
     \<and> (\<forall>q. q \<noteq> peer \<longrightarrow> map_of (pending_pairs b) q = map_of (pending_pairs a) q \<or> map_of (pending_pairs b) q = None)"

lemma kept_view: "pairing_view b = pairing_view a \<Longrightarrow> kept peer a b"
  by (simp add: kept_def personal_same) (simp add: pairing_view_def)

lemma revoke_dropped: "dropped peer sh (on_revoke E peer sh)"
  using revoke_personal [of peer sh E] by (simp add: dropped_def) (simp add: on_revoke_def Let_def)

lemma reject_dropped: "dropped peer sh (on_reject E peer sh)"
  using reject_personal [of peer sh E] by (simp add: dropped_def) (simp add: on_reject_def Let_def)

lemma hello_kept: "kept peer sh (on_hello E peer h sh)"
  by (simp add: kept_def personal_def hello_fields)

lemma pending_room_other:
  assumes "distinct (map fst m)"
  shows "map_of (make_pending_room t m) q = map_of m q \<or> map_of (make_pending_room t m) q = None"
proof -
  have "map_of (filter (\<lambda>e. t < pp_expires_at (snd e)) m) q = map_of m q
      \<or> map_of (filter (\<lambda>e. t < pp_expires_at (snd e)) m) q = None"
    unfolding map_of_filter_sub [OF assms] by (simp split: option.split)
  then show ?thesis by (auto simp: make_pending_room_def Let_def split: option.split)
qed

lemma verify_reopened:
  assumes "distinct (map fst (pending_pairs sh))"
  shows "kept peer sh (on_verify_started E peer sh) \<or> reopened peer sh (on_verify_started E peer sh)"
proof (cases "map_of (trusted sh) peer = None \<or> map_of (pending_pairs sh) peer \<noteq> None \<or> in_sas_flow peer sh
    \<or> session_handshake_hash_for peer (net sh) = None")
  case True
  then have "on_verify_started E peer sh = sh"
    by (auto simp: on_verify_started_def split: option.split)
  then show ?thesis by (simp add: kept_view)
next
  case False
  then show ?thesis
    using pending_room_other [OF assms] by (auto simp: on_verify_started_def reopened_def Let_def) (metis option.distinct(1))
qed

lemma dispatch_pairing:
  assumes "distinct (map fst (pending_pairs sh))"
  shows "kept peer sh (dispatch_inbound_frame E g peer sh)
    \<or> g \<in> {Revoke, PairConfirm False} \<and> dropped peer sh (dispatch_inbound_frame E g peer sh)
    \<or> g = PairVerifyStarted \<and> reopened peer sh (dispatch_inbound_frame E g peer sh)"
proof (cases "gate_refuses g peer sh")
  case True
  then show ?thesis by (simp add: gate_refuses_keeps kept_view)
next
  case False
  note d = dispatch_inbound_frame_def False
  have b: "kept peer sh (on_bye E peer sh)" using bye_personal [of peer sh E] by (simp add: kept_def)
  have a: "kept peer sh (on_accept E peer sh)" using accept_personal [of peer sh E] by (simp add: kept_def)
  show ?thesis
    by (cases g) (simp_all add: d b a kept_view hello_kept revoke_dropped reject_dropped verify_reopened [OF assms])
qed




end
