(* ===== verification/Inbound_Inv.thy ===== *)
theory Inbound_Inv
  imports Inbound_Trust
begin

text \<open>
  The well-formedness of the shared tables (one entry per key, every bound, the invariants of the
  parts) and its preservation by every datagram of every peer, so over every run.
\<close>

section \<open>The invariant\<close>

definition reasm_ok :: "reassemblies \<Rightarrow> bool" where
  "reasm_ok m \<longleftrightarrow> distinct (map fst m) \<and> length m \<le> 5
     \<and> (\<forall>r\<in>snd ` set m. length (ra_chunks r) \<le> 16384 \<and> (\<forall>d. Some d \<in> set (ra_chunks r) \<longrightarrow> length d \<le> 1024))"

definition stage_ok :: "(bytes32, out_entry) hmap \<Rightarrow> bool" where
  "stage_ok m \<longleftrightarrow> distinct (map fst m) \<and> (\<forall>e\<in>snd ` set m. length (oe_payload e) \<le> MAX_PAYLOAD)"

definition shared_ok :: "'t shared \<Rightarrow> bool" where
  "shared_ok sh \<longleftrightarrow>
     distinct (map fst (trusted sh)) \<and> distinct (map fst (pending_pairs sh)) \<and> length (pending_pairs sh) \<le> MAX_PENDING_PAIRS
     \<and> distinct (map fst (disc_cache sh)) \<and> distinct (map fst (backoffs sh)) \<and> bt_wf (metas sh)
     \<and> distinct (map fst (flights sh)) \<and> reasm_ok (reasm sh) \<and> seen_inv (mesh_seen sh) \<and> outbox_inv (box sh)
     \<and> stage_ok (outbox_stage sh) \<and> pulls_ok (pending_pulls sh)"

lemma shared_ok_same: "same_tables a b \<Longrightarrow> shared_ok b = shared_ok a"
  by (simp add: shared_ok_def same_tablesD)

lemma shared_ok_upd [simp]:
  "shared_ok (sh\<lparr>net := t\<rparr>) = shared_ok sh" "shared_ok (sh\<lparr>fx := es\<rparr>) = shared_ok sh"
  "shared_ok (sh\<lparr>counters := ct\<rparr>) = shared_ok sh" "shared_ok (sh\<lparr>echo_acked := ea\<rparr>) = shared_ok sh"
  "shared_ok (sh\<lparr>deferred_sas := da\<rparr>) = shared_ok sh" "shared_ok (log_fx e sh) = shared_ok sh"
  by (simp_all add: shared_ok_def)

lemma length_hm_remove: "length (hm_remove k m) \<le> length m"
  by (simp add: hm_remove_def)

section \<open>Reassembly\<close>

lemma evict_ok:
  assumes "reasm_ok m"
  shows "reasm_ok (evict_for key m)" and "map_of (evict_for key m) key = None \<Longrightarrow> length (evict_for key m) \<le> 4"
proof -
  show "reasm_ok (evict_for key m)"
    using assms length_hm_remove [of _ m]
    by (auto simp: evict_for_def reasm_ok_def hm_remove_def distinct_map_filter intro: le_trans [OF length_filter_le]
        split: option.split)
  show "length (evict_for key m) \<le> 4" if n: "map_of (evict_for key m) key = None"
  proof (cases "map_of m key = None \<and> 5 \<le> length m")
    case True
    then have "m \<noteq> []" by auto
    then obtain k r where kr: "min_by_key (last_update \<circ> snd) m = Some (k, r)"
      using min_by_key_None [of "last_update \<circ> snd" m] by (cases "min_by_key (last_update \<circ> snd) m") auto
    then have "(k, r) \<in> set m" by (rule min_by_key_mem)
    then have "length (hm_remove k m) < length m"
      unfolding hm_remove_def by (intro length_filter_less [of "(k, r)"]) auto
    then show ?thesis using assms True kr by (simp add: evict_for_def reasm_ok_def)
  next
    case False
    then have "evict_for key m = m" unfolding evict_for_def by (rule if_not_P)
    then show ?thesis using False n by auto
  qed
qed

definition entry_ok :: "reassembly \<Rightarrow> bool" where
  "entry_ok r \<longleftrightarrow> length (ra_chunks r) \<le> 16384 \<and> (\<forall>d. Some d \<in> set (ra_chunks r) \<longrightarrow> length d \<le> 1024)"

lemma reasm_put:
  assumes "reasm_ok m" and "map_of m key = None \<Longrightarrow> length m \<le> 4" and "entry_ok r"
  shows "reasm_ok (hm_insert key r m)"
proof -
  have "length (hm_insert key r m) \<le> 5"
    using assms(1,2) length_hm_insert [of m key r] by (auto simp: reasm_ok_def)
  then show ?thesis using assms(1,3) by (auto simp: reasm_ok_def entry_ok_def hm_insert_def distinct_map_filter)
qed

lemma reasm_remove: "reasm_ok m \<Longrightarrow> reasm_ok (hm_remove key m)"
  by (auto simp: reasm_ok_def hm_remove_def distinct_map_filter intro: le_trans [OF length_filter_le])

lemma reasm_entry: "reasm_ok m \<Longrightarrow> map_of m key = Some r \<Longrightarrow> entry_ok r"
  by (force simp: reasm_ok_def entry_ok_def dest: map_of_SomeD)

lemma payload_bound:
  assumes "entry_ok r" and "list_all (\<lambda>c. c \<noteq> None) (ra_chunks r)"
  shows "length (full_payload r) \<le> MAX_PAYLOAD"
proof -
  have "length (concat (map the cs)) \<le> length cs * 1024"
    if "\<forall>d. Some d \<in> set cs \<longrightarrow> length d \<le> 1024" "list_all (\<lambda>c. c \<noteq> None) cs" for cs :: "bytes option list"
    using that
  proof (induction cs)
    case (Cons a cs)
    then obtain d where a: "a = Some d" by (cases a) auto
    have "length d \<le> 1024" using Cons.prems(1) a by auto
    moreover have "length (concat (map the cs)) \<le> length cs * 1024" using Cons by simp
    ultimately show ?case by (simp add: a)
  qed simp
  then have "length (full_payload r) \<le> length (ra_chunks r) * 1024"
    using assms by (simp add: full_payload_def entry_ok_def)
  also have "\<dots> \<le> 16384 * 1024" using assms(1) by (simp add: entry_ok_def)
  finally show ?thesis by (simp add: MAX_PAYLOAD_def)
qed

lemma on_header_ok:
  assumes m: "reasm_ok m" and h: "on_header b t peer i m = (c, m')"
  shows "reasm_ok m'" and "c = Some it \<Longrightarrow> length (cp_payload it) \<le> MAX_PAYLOAD"
proof -
  let ?key = "reassembly_key b peer (ci_hash i)"
  let ?m = "evict_for ?key m"
  let ?md = "(ci_lamport i, ci_kind i, ci_sensitive i)"
  let ?ra = "case map_of ?m ?key of Some r \<Rightarrow> r
     | None \<Rightarrow> \<lparr>metadata = Some ?md, ra_origin = ci_origin i, ra_event_seq = ci_event_seq i,
                ra_chunks = [], last_update = t, first_seen = t, ra_source = peer, ra_item_hash = ci_hash i\<rparr>"
  let ?r = "?ra\<lparr>metadata := Some ?md, ra_origin := ci_origin i, ra_event_seq := ci_event_seq i, last_update := t\<rparr>"
  have e: "entry_ok ?r"
  proof (cases "map_of ?m ?key")
    case (Some r)
    then show ?thesis using reasm_entry [OF evict_ok(1) [OF m] Some] by (simp add: entry_ok_def)
  qed (simp add: entry_ok_def)
  have res: "(c, m') = (if ra_chunks ?r \<noteq> [] \<and> list_all (\<lambda>c. c \<noteq> None) (ra_chunks ?r)
      then (Some (completed peer (ci_hash i) ?r ?md), hm_remove ?key ?m) else (None, hm_insert ?key ?r ?m))"
    using h by (simp only: on_header_def Let_def)
  show "reasm_ok m'"
    using res reasm_put [OF evict_ok [OF m] e] reasm_remove [OF evict_ok(1) [OF m]] by (simp split: if_splits)
  show "length (cp_payload it) \<le> MAX_PAYLOAD" if "c = Some it"
    using res that payload_bound [OF e] by (auto simp: completed_def split: if_splits)
qed

lemma on_chunk_ok:
  assumes m: "reasm_ok m" and v: "msg_ok (Chunk k)" and h: "on_chunk b t peer k m = (c, m')"
  shows "reasm_ok m'" and "c = Some it \<Longrightarrow> length (cp_payload it) \<le> MAX_PAYLOAD"
proof -
  let ?key = "reassembly_key b peer (ch_item_id k)"
  let ?m = "evict_for ?key m"
  let ?slots = "replicate (unat (ch_total k)) None :: bytes option list"
  let ?ra = "case map_of ?m ?key of Some r \<Rightarrow> r
     | None \<Rightarrow> \<lparr>metadata = None, ra_origin = zero32, ra_event_seq = 0, ra_chunks = ?slots,
                last_update = t, first_seen = t, ra_source = peer, ra_item_hash = ch_item_id k\<rparr>"
  let ?rb = "?ra\<lparr>last_update := t\<rparr>"
  let ?rc = "if ra_chunks ?rb = [] then ?rb\<lparr>ra_chunks := ?slots\<rparr> else ?rb"
  let ?r = "if unat (ch_idx k) < length (ra_chunks ?rc)
     then ?rc\<lparr>ra_chunks := (ra_chunks ?rc)[unat (ch_idx k) := Some (ch_data k)]\<rparr> else ?rc"
  have slots: "length ?slots \<le> 16384" "length (ch_data k) \<le> 1024" using v by simp_all
  have e0: "entry_ok ?ra"
    using reasm_entry [OF evict_ok(1) [OF m], of ?key] slots(1) by (simp add: entry_ok_def split: option.split)
  then have e1: "entry_ok ?rb" by (simp add: entry_ok_def)
  have sl: "entry_ok (r\<lparr>ra_chunks := ?slots\<rparr>)" for r using slots(1) by (simp add: entry_ok_def)
  have e2: "entry_ok ?rc" using e1 sl by presburger
  have upd: "entry_ok (r\<lparr>ra_chunks := (ra_chunks r)[j := Some d]\<rparr>)" if "entry_ok r" "length d \<le> 1024" for r j d
    using that set_update_subset_insert [of "ra_chunks r" j "Some d"] by (auto simp: entry_ok_def)
  have e: "entry_ok ?r" using upd [OF e2 slots(2)] e2 by presburger
  define r where "r = ?r"
  have er: "entry_ok r" unfolding r_def by (rule e)
  have res: "(c, m') = (if MAX_CHUNKS < ch_total k \<or> ch_total k = 0 then (None, m)
      else case metadata r of
         Some md \<Rightarrow> (if list_all (\<lambda>c. c \<noteq> None) (ra_chunks r)
            then (Some (completed peer (ch_item_id k) r md), hm_remove ?key ?m) else (None, hm_insert ?key r ?m))
       | None \<Rightarrow> (None, hm_insert ?key r ?m))"
    unfolding r_def using h by (simp only: on_chunk_def Let_def)
  have put: "reasm_ok (hm_insert ?key r ?m)" by (rule reasm_put [OF evict_ok [OF m] er])
  have rem: "reasm_ok (hm_remove ?key ?m)" by (rule reasm_remove [OF evict_ok(1) [OF m]])
  show "reasm_ok m'"
    using res put rem m by (auto split: if_splits option.splits)
  show "length (cp_payload it) \<le> MAX_PAYLOAD" if "c = Some it"
    using res that payload_bound [OF er] by (auto simp: completed_def split: if_splits option.splits prod.splits)
qed

section \<open>Preservation\<close>

lemma distinct_fold_track: "distinct (map fst m) \<Longrightarrow> distinct (map fst (track_inflight t h fs ps m))"
  by (simp add: track_inflight_def Let_def)

lemma forward_ok: "shared_ok sh \<Longrightarrow> shared_ok (forward_frames E k s r h fs sh)"
proof -
  assume ok: "shared_ok sh"
  have "distinct (map fst (flights (forward_frames E k s r h fs sh)))"
  proof (cases "forward_targets sh k s r = [] \<or> fs = []")
    case True
    then show ?thesis using ok by (simp add: forward_frames_def Let_def shared_ok_def)
  next
    case False
    have "same_tables sh (fold (\<lambda>peer. send_all E peer fs) (forward_targets sh k s r) sh)"
      by (rule same_tables_fold) (rule same_tables_send_all)
    then show ?thesis
      using ok False by (simp add: forward_frames_def Let_def shared_ok_def same_tablesD distinct_fold_track)
  qed
  then show ?thesis using ok by (simp add: shared_ok_def)
qed

lemma admit_ok:
  assumes ok: "shared_ok sh" and l: "length (cp_payload it) \<le> MAX_PAYLOAD" and a: "admit_inbound E it sh = (b, sh')"
  shows "shared_ok sh'"
proof -
  let ?e = "\<lparr>oe_payload = cp_payload it, oe_kind = cp_kind it, oe_origin = cp_origin it,
      oe_seq = cp_event_seq it, oe_created = now E\<rparr>"
  have o: "outbox_inv (outbox_insert (cp_hash it) ?e (now E) (box sh))"
    using ok l by (intro outbox_inv_insert) (simp_all add: shared_ok_def)
  have "stage_ok (hm_insert (cp_hash it) ?e (outbox_stage sh))"
    using ok l by (auto simp: shared_ok_def stage_ok_def hm_insert_def distinct_map_filter)
  then show ?thesis
    using ok o a by (auto simp: admit_inbound_def Let_def shared_ok_def split: if_splits decision.splits)
qed

lemma deliver_ok: "shared_ok sh \<Longrightarrow> shared_ok (deliver E it sh)"
proof -
  assume ok: "shared_ok sh"
  obtain found ps where t: "take_pending_pull (now E) (cp_source it) (cp_hash it) (pending_pulls sh) = (found, ps)" by force
  have "pulls_ok ps" using take_claims(1) [OF _ t order_refl] ok by (simp add: shared_ok_def)
  then show ?thesis using ok by (simp add: deliver_def t shared_ok_def)
qed

lemma complete_ok:
  assumes ok: "shared_ok sh" and l: "length (cp_payload it) \<le> MAX_PAYLOAD"
  shows "shared_ok (complete_with E it frames sh)"
proof -
  let ?id = "EventId (DeviceId (cp_origin it)) (cp_event_seq it)"
  let ?s1 = "ack_source E (cp_source it) (cp_hash it) sh"
  obtain first seen where o: "seen_observe ?id (mesh_seen sh) = (first, seen)" by force
  have "seen_inv seen" using seen_observe_inv [of "mesh_seen sh" ?id] ok by (simp add: o shared_ok_def)
  moreover have "shared_ok ?s1" using ok shared_ok_same [OF same_tables_ack] by blast
  ultimately have s2: "shared_ok (?s1\<lparr>mesh_seen := seen\<rparr>)" by (simp add: shared_ok_def)
  obtain b s3 where ad: "admit_inbound E it (?s1\<lparr>mesh_seen := seen\<rparr>) = (b, s3)" by force
  have s3: "shared_ok s3" by (rule admit_ok [OF s2 l ad])
  show ?thesis
    using ok s2 s3 by (simp add: complete_with_def Let_def o ad deliver_ok forward_ok)
qed

lemma reasm_upd_ok: "shared_ok sh \<Longrightarrow> reasm_ok m \<Longrightarrow> shared_ok (sh\<lparr>reasm := m\<rparr>)"
  by (simp add: shared_ok_def)

lemma metas_upd_ok: "shared_ok sh \<Longrightarrow> bt_wf ms \<Longrightarrow> shared_ok (sh\<lparr>metas := ms\<rparr>)"
  by (simp add: shared_ok_def)

lemma metas_wf: "shared_ok sh \<Longrightarrow> bt_wf (metas sh)"
  by (simp add: shared_ok_def)

lemma on_item_ok:
  assumes ok: "shared_ok sh" and v: "msg_ok (ClipboardItem i)"
  shows "shared_ok (on_item E peer i sh)"
proof (cases "ci_payload i = []")
  case True
  obtain c m where h: "on_header (blake3 E) (now E) peer i (reasm sh) = (c, m)" by force
  have r: "reasm_ok (reasm sh)" using ok by (simp add: shared_ok_def)
  show ?thesis
    using on_header_ok [OF r h] True ok
    by (auto simp: on_item_def h complete_reassembled_item_def reasm_upd_ok intro!: complete_ok split: option.split)
next
  case False
  then show ?thesis
    using v ok by (simp add: on_item_def complete_ok MAX_PAYLOAD_def)
qed

lemma on_chunk_msg_ok:
  assumes ok: "shared_ok sh" and v: "msg_ok (Chunk k)"
  shows "shared_ok (on_chunk_msg E peer k sh)"
proof -
  obtain c m where h: "on_chunk (blake3 E) (now E) peer k (reasm sh) = (c, m)" by force
  have r: "reasm_ok (reasm sh)" using ok by (simp add: shared_ok_def)
  show ?thesis
    using on_chunk_ok [OF r v h] ok
    by (auto simp: on_chunk_msg_def h complete_reassembled_item_def reasm_upd_ok intro!: complete_ok split: option.split)
qed

lemma forget_ok: "shared_ok sh \<Longrightarrow> shared_ok (forget_meta p sh)"
  by (simp add: forget_meta_def metas_upd_ok bt_wf_remove metas_wf)

lemma lose_ok: "shared_ok sh \<Longrightarrow> shared_ok (lose_if_primary E b p sh)"
  using shared_ok_same [OF same_tables_lose] by blast

lemma send_msg_ok: "shared_ok sh \<Longrightarrow> shared_ok (send_msg E p g sh)"
  using shared_ok_same [OF same_tables_send_msg] by blast

lemma send_all_ok: "shared_ok sh \<Longrightarrow> shared_ok (send_all E p bs sh)"
  using shared_ok_same [OF same_tables_send_all] by blast

lemma battery_ok: "shared_ok sh \<Longrightarrow> shared_ok (on_battery p l ch sh)"
  by (simp add: on_battery_def Let_def metas_upd_ok bt_wf_insert metas_wf)

lemma ack_ok: "shared_ok sh \<Longrightarrow> shared_ok (on_ack_msg E p h sh)"
proof -
  assume ok: "shared_ok sh"
  obtain d m where a: "on_ack p h (flights sh) = (d, m)" by force
  have "distinct (map fst m)"
    using ok a by (auto simp: on_ack_def Let_def shared_ok_def split: option.splits if_splits)
  then show ?thesis using ok by (simp add: on_ack_msg_def Let_def a shared_ok_def)
qed

lemma nak_ok: "shared_ok sh \<Longrightarrow> shared_ok (on_nak_msg E p n sh)"
proof -
  assume ok: "shared_ok sh"
  obtain d m where a: "on_nak (now E) p n (flights sh) = (d, m)" by force
  have "distinct (map fst m)"
    using ok a by (auto simp: on_nak_def Let_def shared_ok_def split: option.splits if_splits)
  then show ?thesis using send_all_ok [OF ok, of E p d] by (simp add: on_nak_msg_def a shared_ok_def)
qed

lemma untrust_ok: "shared_ok sh \<Longrightarrow> shared_ok (untrust p sh)"
  by (simp add: shared_ok_def untrust_def Let_def)

lemma pending_upd_ok:
  "shared_ok sh \<Longrightarrow> distinct (map fst m) \<Longrightarrow> length m \<le> MAX_PENDING_PAIRS \<Longrightarrow> shared_ok (sh\<lparr>pending_pairs := m\<rparr>)"
  by (simp add: shared_ok_def)

lemma pending_remove_ok: "shared_ok sh \<Longrightarrow> shared_ok (sh\<lparr>pending_pairs := hm_remove p (pending_pairs sh)\<rparr>)"
  using length_hm_remove [of p "pending_pairs sh"] by (intro pending_upd_ok) (auto simp: shared_ok_def)

lemma bye_ok: "shared_ok sh \<Longrightarrow> shared_ok (on_bye E p sh)"
proof -
  assume ok: "shared_ok sh"
  have se: "shared_ok (session_ended E p t sh)" for t
    using ok by (simp add: shared_ok_def)
  let ?s1 = "if cached_peer_id (net sh) = Some p then session_ended E p (session_established_at_ms (conn (net sh))) sh
     else case session_established_at_for p (net sh) of Some t \<Rightarrow> session_ended E p t sh | None \<Rightarrow> sh"
  have "shared_ok ?s1" using ok se by (simp split: option.split)
  then have "shared_ok (forget_meta p (?s1\<lparr>net := drop_session_for p (net ?s1)\<rparr>))" by (intro forget_ok) simp
  then show ?thesis unfolding on_bye_def Let_def by (intro lose_ok) simp
qed

lemma revoke_ok: "shared_ok sh \<Longrightarrow> shared_ok (on_revoke E p sh)"
proof -
  assume ok: "shared_ok sh"
  let ?s1 = "untrust p sh"
  let ?s2 = "?s1\<lparr>pending_pairs := hm_remove p (pending_pairs ?s1)\<rparr>"
  have "shared_ok ?s2" by (rule pending_remove_ok [OF untrust_ok [OF ok]])
  then show ?thesis unfolding on_revoke_def Let_def by (intro lose_ok forget_ok) simp
qed

lemma reject_ok: "shared_ok sh \<Longrightarrow> shared_ok (on_reject E p sh)"
proof -
  assume ok: "shared_ok sh"
  have "shared_ok (sh\<lparr>pending_pairs := hm_remove p (pending_pairs sh)\<rparr>)" by (rule pending_remove_ok [OF ok])
  then have "shared_ok (sh\<lparr>pending_pairs := hm_remove p (pending_pairs sh),
      deferred_sas := filter (\<lambda>q. q \<noteq> p) (deferred_sas sh), echo_acked := filter (\<lambda>q. q \<noteq> p) (echo_acked sh)\<rparr>)"
    by (simp add: shared_ok_def)
  then have f: "shared_ok (forget_meta p ((untrust p (sh\<lparr>pending_pairs := hm_remove p (pending_pairs sh),
      deferred_sas := filter (\<lambda>q. q \<noteq> p) (deferred_sas sh), echo_acked := filter (\<lambda>q. q \<noteq> p) (echo_acked sh)\<rparr>))\<lparr>net := t\<rparr>))" for t
    by (intro forget_ok) (simp add: untrust_ok)
  show ?thesis unfolding on_reject_def Let_def by (rule lose_ok) (simp add: f)
qed

lemma hello_ok: "shared_ok sh \<Longrightarrow> shared_ok (on_hello E p h sh)"
proof -
  assume ok: "shared_ok sh"
  let ?caps = "negotiate_caps (h_caps h)"
  have r: "shared_ok s \<Longrightarrow> shared_ok (record_hello p h ?caps s)" for s :: "'a shared"
    by (simp add: record_hello_def Let_def metas_upd_ok bt_wf_insert metas_wf)
  have u: "shared_ok s \<Longrightarrow> shared_ok (hello_sas E p ?caps s)" for s :: "'a shared"
    by (simp add: hello_sas_def Let_def send_msg_ok)
  have v: "shared_ok s \<Longrightarrow> shared_ok (hello_verify E p ?caps s)" for s :: "'a shared"
    by (simp add: hello_verify_def Let_def send_msg_ok metas_upd_ok bt_wf_insert metas_wf)
  have o: "shared_ok s \<Longrightarrow> shared_ok (hello_offer E p ?caps s)" for s :: "'a shared"
    by (simp add: hello_offer_def Let_def send_msg_ok)
  show ?thesis using o [OF v [OF u [OF r [OF ok]]]] by (simp add: on_hello_def Let_def)
qed

lemma offer_ok: "shared_ok sh \<Longrightarrow> shared_ok (on_offer E p hs sh)"
proof -
  assume ok: "shared_ok sh"
  obtain tracked ps where t: "track_pending_pulls (hexs E) (now E) p (missing_resync_hashes hs (map hi_hash (history (snapshot sh)))
      (map (hex_encode (hexs E)) (outbox_hashes (now E) (box sh))) (cleared_hex_snapshot (hexs E) (now E) (tombstones sh))
      (in_flight_pull_hashes (hexs E) (now E) (pending_pulls sh))) (pending_pulls sh) = (tracked, ps)" by force
  have "pulls_ok ps" using track_claims(1) [OF _ t order_refl] ok by (simp add: shared_ok_def)
  then have "shared_ok (sh\<lparr>pending_pulls := ps\<rparr>)" using ok by (simp add: shared_ok_def)
  then show ?thesis using ok by (simp add: on_offer_def Let_def t send_msg_ok)
qed

lemma pull_ok: "shared_ok sh \<Longrightarrow> shared_ok (on_pull E p hs sh)"
proof -
  have s: "shared_ok s \<Longrightarrow> shared_ok (serve_pull E p h s)" for h and s :: "'a shared"
  proof -
    assume ok: "shared_ok s"
    have "shared_ok ((send_all E p fs s)\<lparr>flights := track_inflight t h' fs ps (flights s), counters := ct\<rparr>)" for fs t h' ps ct
      using send_all_ok [OF ok, of E p fs] by (simp add: shared_ok_def distinct_fold_track)
    then show ?thesis using ok by (simp add: serve_pull_def Let_def split: option.split)
  qed
  have "shared_ok s \<Longrightarrow> shared_ok (fold (serve_pull E p) xs s)" for xs and s :: "'a shared"
    by (induction xs arbitrary: s) (simp_all add: s)
  then show "shared_ok sh \<Longrightarrow> shared_ok (on_pull E p hs sh)" by (simp add: on_pull_def)
qed

lemma accept_ok: "shared_ok sh \<Longrightarrow> shared_ok (on_accept E p sh)"
proof -
  assume ok: "shared_ok sh"
  have u: "shared_ok (sh\<lparr>pending_pairs := hm_insert p (pp\<lparr>pp_expires_at := now E + PAIRING_WINDOW\<rparr>) (pending_pairs sh)\<rparr>)"
    if "map_of (pending_pairs sh) p = Some pp" for pp
    using ok that length_hm_insert [of "pending_pairs sh" p] by (auto simp: shared_ok_def)
  show ?thesis
    using ok u by (cases "map_of (pending_pairs sh) p") (simp_all add: on_accept_def Let_def send_msg_ok)
qed

lemma verify_ok: "shared_ok sh \<Longrightarrow> shared_ok (on_verify_started E p sh)"
proof -
  assume ok: "shared_ok sh"
  have room: "distinct (map fst (make_pending_room t m)) \<and> length (make_pending_room t m) < MAX_PENDING_PAIRS"
    if d: "distinct (map fst m)" and l: "length m \<le> MAX_PENDING_PAIRS" for t and m :: "(bytes32, pending_pair) hmap"
  proof -
    let ?m = "filter (\<lambda>e. t < pp_expires_at (snd e)) m"
    have m: "distinct (map fst ?m)" "length ?m \<le> MAX_PENDING_PAIRS"
      using d le_trans [OF length_filter_le l] by (simp_all add: distinct_map_filter)
    show ?thesis
    proof (cases "MAX_PENDING_PAIRS \<le> length ?m")
      case True
      then have "?m \<noteq> []" by (auto simp: MAX_PENDING_PAIRS_def)
      then obtain v e where ve: "min_by_key (pp_expires_at \<circ> snd) ?m = Some (v, e)"
        using min_by_key_None [of "pp_expires_at \<circ> snd" ?m] by (cases "min_by_key (pp_expires_at \<circ> snd) ?m") auto
      then have "(v, e) \<in> set ?m" by (rule min_by_key_mem)
      then have "length (hm_remove v ?m) < length ?m"
        unfolding hm_remove_def by (intro length_filter_less [of "(v, e)"]) auto
      then show ?thesis using True m ve by (simp add: make_pending_room_def Let_def)
    next
      case False
      then show ?thesis using m by (simp add: make_pending_room_def Let_def)
    qed
  qed
  have r: "distinct (map fst (make_pending_room t (pending_pairs sh)))
      \<and> length (make_pending_room t (pending_pairs sh)) < MAX_PENDING_PAIRS" for t
    using room ok by (simp add: shared_ok_def)
  have ins: "shared_ok (sh\<lparr>pending_pairs := hm_insert p pp (make_pending_room t (pending_pairs sh))\<rparr>)" for t pp
    using r [of t] length_hm_insert_le [of p pp "make_pending_room t (pending_pairs sh)"]
    by (intro pending_upd_ok [OF ok]) simp_all
  show ?thesis using ok by (simp add: on_verify_started_def Let_def ins split: option.split)
qed

lemma dispatch_ok:
  assumes "shared_ok sh" and "msg_ok g"
  shows "shared_ok (dispatch_inbound_frame E g peer sh)"
proof -
  have hb: "shared_ok (on_heartbeat E peer sh)" using assms(1) by (simp add: on_heartbeat_def send_msg_ok)
  show ?thesis
    unfolding dispatch_inbound_frame_def using assms hb
    by (cases g) (simp_all del: msg_ok.simps add: on_item_ok on_chunk_msg_ok battery_ok ack_ok nak_ok bye_ok revoke_ok hello_ok
        offer_ok pull_ok accept_ok reject_ok verify_ok)
qed

end
