(* ===== verification/Receive.thy ===== *)
theory Receive
  imports Inbound_Inv In_Flight Rate_Limit
begin

text \<open>
  One datagram of the receive loop (\<open>transport_recv_loop\<close> of \<open>driver/inbound.rs\<close>): the transport, the
  LAN-only filter (\<open>is_local_ip\<close> of \<open>config.rs\<close>), the rate limit of handshakes, and the decoder in front
  of the dispatch. What the loop hands to another task is its reaction: a responder to spawn, a
  response for the waiting initiator, an address to persist. Beside it the three timers of the loop.
\<close>

section \<open>Local addresses\<close>

text \<open>An IPv4 address is four bytes, an IPv6 address sixteen.\<close>

definition v4_local :: "ip_addr \<Rightarrow> bool" where
  "v4_local a \<longleftrightarrow> a ! 0 = 127
     \<or> (a ! 0 = 10 \<or> a ! 0 = 172 \<and> 16 \<le> a ! 1 \<and> a ! 1 \<le> 31 \<or> a ! 0 = 192 \<and> a ! 1 = 168)
     \<or> a ! 0 = 169 \<and> a ! 1 = 254"

definition to_ipv4_mapped :: "ip_addr \<Rightarrow> ip_addr option" where
  "to_ipv4_mapped a = (if take 12 a = replicate 10 0 @ [0xFF, 0xFF] then Some (drop 12 a) else None)"

definition segment0 :: "ip_addr \<Rightarrow> u16" where
  "segment0 a = ucast (a ! 0) * 256 + ucast (a ! 1)"

definition is_local_ip :: "ip_addr \<Rightarrow> bool" where
  "is_local_ip a =
     (if length a = 4 then v4_local a
      else case to_ipv4_mapped a of
        Some v4 \<Rightarrow> v4_local v4
      | None \<Rightarrow> a = replicate 15 0 @ [1] \<or> and (segment0 a) 0xFE00 = 0xFC00 \<or> and (segment0 a) 0xFFC0 = 0xFE80)"

section \<open>One datagram\<close>

datatype reaction =
    Respond sock_addr bytes
  | Pass_response sock_addr bytes
  | Persist_addr bytes32 sock_addr

record 't recv_loop =
  rl_limiter :: limiter
  rl_persisted :: "sock_addr option"
  rl_shared :: "'t shared"

definition on_plaintext ::
  "'t env \<Rightarrow> (bytes \<Rightarrow> ustr + frame) \<Rightarrow> bytes32 \<Rightarrow> bytes \<Rightarrow> 't shared \<Rightarrow> 't shared" where
  "on_plaintext E de peer p sh =
     (case decode de p of Inr f \<Rightarrow> dispatch_inbound_frame E (f_msg f) peer sh | Inl _ \<Rightarrow> sh)"

definition on_frame ::
  "'t env \<Rightarrow> (bytes \<Rightarrow> ustr + frame) \<Rightarrow> bool \<Rightarrow> recv_frame \<Rightarrow> 't recv_loop \<Rightarrow> reaction list \<times> 't recv_loop" where
  "on_frame E de lan_only f l =
     (if lan_only \<and> \<not> is_local_ip (fst (rf_from f)) then ([], l)
      else case f of
        RecvInit from m \<Rightarrow>
          (if \<not> on (snapshot (rl_shared l)) then ([], l)
           else case check_at (fst from) (now E) (rl_limiter l) of
             (ok, lm) \<Rightarrow> (if ok then [Respond from m] else [], l\<lparr>rl_limiter := lm\<rparr>))
      | RecvResp from m \<Rightarrow> ([Pass_response from m], l)
      | RecvEncrypted from peer p \<Rightarrow>
          (let persist = rl_persisted l \<noteq> Some from \<and> keystore_dir (rl_shared l)
                 \<and> current_peer_addr (net (rl_shared l)) = Some from
           in (if persist then [Persist_addr peer from] else [],
               l\<lparr>rl_persisted := (if persist then Some from else rl_persisted l),
                 rl_shared := on_plaintext E de peer p (rl_shared l)\<rparr>))
      | RecvOther from ty \<Rightarrow> ([], l))"

definition on_datagram ::
  "'t env \<Rightarrow> (bytes \<Rightarrow> ustr + frame) \<Rightarrow> bool \<Rightarrow> sock_addr \<Rightarrow> bytes \<Rightarrow> 't recv_loop \<Rightarrow> reaction list \<times> 't recv_loop" where
  "on_datagram E de lan_only from d l =
     (case recv (noise_lib E) (now_ms E) from d (net (rl_shared l)) of
        (r, t) \<Rightarrow>
          (let l = l\<lparr>rl_shared := (rl_shared l)\<lparr>net := t\<rparr>\<rparr>
           in case r of Inl _ \<Rightarrow> ([], l) | Inr f \<Rightarrow> on_frame E de lan_only f l))"

section \<open>The timers of the loop\<close>

text \<open>The resends run in a task of their own; here they leave at once.\<close>

definition on_retransmit_tick :: "'t env \<Rightarrow> 't shared \<Rightarrow> 't shared" where
  "on_retransmit_tick E sh =
     (case retransmit_tick (now E) (flights sh) of
        (out, m) \<Rightarrow> fold (\<lambda>(peers, frames) sh. fold (\<lambda>peer. send_all E peer frames) peers sh) out (sh\<lparr>flights := m\<rparr>))"

definition on_nak_tick :: "'t env \<Rightarrow> 't shared \<Rightarrow> 't shared" where
  "on_nak_tick E sh = fold (\<lambda>(source, n). send_msg E source (Nak n)) (build_pending_naks (reasm sh)) sh"

definition on_cleanup_tick :: "'t env \<Rightarrow> 't shared \<Rightarrow> 't shared" where
  "on_cleanup_tick E sh = sh\<lparr>reasm := cleanup_tick (now E) (reasm sh)\<rparr>"

section \<open>The tables stay well formed\<close>

lemma on_plaintext_ok: "shared_ok sh \<Longrightarrow> shared_ok (on_plaintext E de peer p sh)"
  by (auto simp: on_plaintext_def decode_Inr_iff intro: dispatch_ok split: sum.split)

lemma on_frame_ok: "shared_ok (rl_shared l) \<Longrightarrow> shared_ok (rl_shared (snd (on_frame E de lan f l)))"
  by (simp add: on_frame_def Let_def on_plaintext_ok split: recv_frame.split prod.split)

lemma retransmit_ok:
  assumes ok: "shared_ok sh"
  shows "shared_ok (on_retransmit_tick E sh)"
proof -
  obtain out m where r: "retransmit_tick (now E) (flights sh) = (out, m)" by force
  have "distinct (map fst m)" using distinct_tick [of "flights sh" "now E"] ok by (simp add: r shared_ok_def)
  then have ok: "shared_ok (sh\<lparr>flights := m\<rparr>)" using ok by (simp add: shared_ok_def)
  have s: "shared_ok sh \<Longrightarrow> shared_ok (fold (\<lambda>peer. send_all E peer fs) ps sh)" for ps fs and sh :: "'a shared"
    by (induction ps arbitrary: sh) (simp_all add: send_all_ok)
  have "shared_ok sh \<Longrightarrow> shared_ok (fold (\<lambda>(peers, frames) sh. fold (\<lambda>peer. send_all E peer frames) peers sh) out sh)" for sh :: "'a shared"
    by (induction out arbitrary: sh) (auto simp: s)
  then show ?thesis using ok by (simp add: on_retransmit_tick_def r)
qed

lemma nak_tick_ok: "shared_ok sh \<Longrightarrow> shared_ok (on_nak_tick E sh)"
proof -
  have "shared_ok sh \<Longrightarrow> shared_ok (fold (\<lambda>(s, n). send_msg E s (Nak n)) xs sh)" for xs and sh :: "'a shared"
    by (induction xs arbitrary: sh) (auto simp: send_msg_ok)
  then show "shared_ok sh \<Longrightarrow> shared_ok (on_nak_tick E sh)" by (simp add: on_nak_tick_def)
qed

lemma cleanup_ok: "shared_ok sh \<Longrightarrow> shared_ok (on_cleanup_tick E sh)"
  by (auto simp: on_cleanup_tick_def shared_ok_def reasm_ok_def cleanup_tick_def distinct_map_filter
      intro: le_trans [OF length_filter_le])

text \<open>The arms of the loop's \<open>select\<close>, each with the clocks it reads.\<close>

datatype loop_arm = Datagram sock_addr bytes | Retransmit_timer | Nak_timer | Cleanup_timer

fun arm_step :: "'t env \<Rightarrow> (bytes \<Rightarrow> ustr + frame) \<Rightarrow> bool \<Rightarrow> loop_arm \<Rightarrow> 't recv_loop \<Rightarrow> 't recv_loop" where
  "arm_step E de lan_only (Datagram from d) l = snd (on_datagram E de lan_only from d l)"
| "arm_step E de lan_only Retransmit_timer l = l\<lparr>rl_shared := on_retransmit_tick E (rl_shared l)\<rparr>"
| "arm_step E de lan_only Nak_timer l = l\<lparr>rl_shared := on_nak_tick E (rl_shared l)\<rparr>"
| "arm_step E de lan_only Cleanup_timer l = l\<lparr>rl_shared := on_cleanup_tick E (rl_shared l)\<rparr>"

definition loop_step ::
  "'t env \<Rightarrow> (bytes \<Rightarrow> ustr + frame) \<Rightarrow> bool \<Rightarrow> instant \<times> millis \<times> loop_arm \<Rightarrow> 't recv_loop \<Rightarrow> 't recv_loop" where
  "loop_step E de lan_only a l = (case a of (t, ms, arm) \<Rightarrow> arm_step (E\<lparr>now := t, now_ms := ms\<rparr>) de lan_only arm l)"

lemma datagram_ok: "shared_ok (rl_shared l) \<Longrightarrow> shared_ok (rl_shared (snd (on_datagram E de lan from d l)))"
  by (simp add: on_datagram_def Let_def on_frame_ok split: prod.split sum.split)

lemma loop_ok: "shared_ok (rl_shared l) \<Longrightarrow> shared_ok (rl_shared (loop_step E de lan a l))"
  by (cases a; cases "snd (snd a)") (simp_all add: loop_step_def datagram_ok retransmit_ok nak_tick_ok cleanup_ok)

interpretation recv_machine: machine "loop_step E de lan" "\<lambda>l. shared_ok (rl_shared l)" for E de lan
  by unfold_locales (rule loop_ok)


lemma shared_new_ok: "shared_ok (shared_new ms st)"
  using outbox_inv_new [of MAX_AGE]
  by (simp add: shared_ok_def shared_new_def reasm_ok_def stage_ok_def pulls_ok_def bt_wf_def seen_default_inv outbox_new_def)


text \<open>
  With \<open>lan_only\<close> a datagram from a public address starts nothing: no responder, no response passed
  on, no address persisted, no change of any table and nothing sent or posted. Only the connection
  table may differ.
\<close>

theorem foreign_sources_start_nothing:
  assumes "\<not> is_local_ip (fst from)" and "on_datagram E de True from d l = (rs, l')"
  shows "rs = [] \<and> rl_limiter l' = rl_limiter l \<and> rl_persisted l' = rl_persisted l
    \<and> fx (rl_shared l') = fx (rl_shared l) \<and> same_tables (rl_shared l) (rl_shared l')"
proof -
  obtain r t where r: "recv (noise_lib E) (now_ms E) from d (net (rl_shared l)) = (r, t)" by force
  have f: "rf_from g = from" if "r = Inr g" for g
    using r that
    by (auto simp: recv_def recv_encrypted_def split: list.splits if_splits prod.splits sum.splits recv_error.splits)
  have "on_datagram E de True from d l = ([], l\<lparr>rl_shared := (rl_shared l)\<lparr>net := t\<rparr>\<rparr>)"
    using assms(1) f by (auto simp: on_datagram_def r Let_def on_frame_def split: sum.split)
  then show ?thesis using assms(2) by (auto simp: same_tables_def)
qed

text \<open>But the transport has decrypted the datagram and moved the peer's address before the filter sees it.\<close>

definition demo_loop :: "unit recv_loop" where
  "demo_loop = \<lparr>rl_limiter = [], rl_persisted = None, rl_shared = demo_shared\<rparr>"

lemma foreign_source_roams:
  "current_peer_addr (net (rl_shared (snd (on_datagram (demo_env\<lparr>now_ms := 40000\<rparr>) demo_de True ([8, 8, 8, 8], 9)
     (3 # replicate 8 0 @ replicate 16 0) demo_loop)))) = Some ([8, 8, 8, 8], 9)"
  by (simp add: on_datagram_def demo_loop_def demo_shared_def shared_new_def link_eval recv_def recv_encrypted_def candidates_def
      quiet_noise_def TYPE_HANDSHAKE_INIT_def TYPE_HANDSHAKE_RESP_def TYPE_ENCRYPTED_def decrypt_def is_fresh_def replay_default_def NONCE_PREFIX_LEN_def
      received_on_def roam_def roam_allowed_def ROAM_MIN_INTERVAL_MS_def on_frame_def is_local_ip_def v4_local_def current_peer_addr_def)

definition demo_on :: "unit recv_loop" where
  "demo_on = demo_loop\<lparr>rl_shared := demo_shared\<lparr>snapshot := (snapshot demo_shared)\<lparr>on := True\<rparr>\<rparr>\<rparr>"

lemma local_source_answered:
  "fst (on_datagram demo_env demo_de True ([10, 0, 0, 8], 9) [1, 5] demo_on) = [Respond ([10, 0, 0, 8], 9) [5]]"
proof -
  have l: "is_local_ip [10, 0, 0, 8]" by (simp add: is_local_ip_def v4_local_def)
  have "fst (check_at [10, 0, 0, 8] 0 []) = True"
    by (simp add: check_at_def sweep_def make_room_def refill_def bucket_new_def try_consume_def BUCKET_CAPACITY_def as_secs_f64_def
        MAX_TRACKED_SOURCES_def Let_def)
  then show ?thesis
    by (cases "check_at [10, 0, 0, 8] 0 []") (simp add: on_datagram_def recv_def TYPE_HANDSHAKE_INIT_def on_frame_def demo_on_def demo_loop_def l)
qed

theorem foreign_sources_start_nothing_witness:
  "fst (on_datagram demo_env demo_de True ([8, 8, 8, 8], 9) [1, 5] demo_on) = []"
proof -
  have f: "\<not> is_local_ip (fst ([8, 8, 8, 8], 9 :: u16))" by (simp add: is_local_ip_def v4_local_def)
  show ?thesis using foreign_sources_start_nothing [OF f surjective_pairing] by blast
qed

end
