(* ===== verification/Fingerprint.thy ===== *)
theory Fingerprint
  imports Text Replay
begin

text \<open>
  The verbal fingerprint of \<open>fluxsync-crypto\<close> (\<open>fingerprint.rs\<close>, \<open>wordlist.rs\<close>): six words for the first sixty
  bits of a hash, and what they commit to.
\<close>

section \<open>The word list\<close>

definition WORDLIST :: "string list" where
  "WORDLIST =
   [''abandon'', ''ability'', ''able'', ''about'', ''above'', ''absent'', ''absorb'', ''absurd'', ''abuse'', ''access'',
    ''account'', ''accuse'', ''achieve'', ''acid'', ''acquire'', ''across'', ''action'', ''actor'', ''actress'', ''actual'',
    ''adapt'', ''addict'', ''address'', ''adjust'', ''admit'', ''adult'', ''advance'', ''advice'', ''aerobic'', ''affair'',
    ''afford'', ''afraid'', ''again'', ''agent'', ''agree'', ''ahead'', ''airport'', ''aisle'', ''alarm'', ''album'',
    ''alcohol'', ''alert'', ''alien'', ''alley'', ''allow'', ''almost'', ''alone'', ''alpha'', ''already'', ''also'', ''alter'',
    ''always'', ''amateur'', ''amazing'', ''among'', ''amount'', ''amused'', ''analyst'', ''anchor'', ''ancient'', ''anger'',
    ''angle'', ''angry'', ''animal'', ''ankle'', ''annual'', ''another'', ''answer'', ''antenna'', ''antique'', ''anxiety'',
    ''apart'', ''apology'', ''appear'', ''apple'', ''approve'', ''april'', ''arch'', ''arctic'', ''area'', ''arena'', ''argue'',
    ''armed'', ''armor'', ''army'', ''around'', ''arrange'', ''arrest'', ''arrive'', ''arrow'', ''artist'', ''artwork'',
    ''aspect'', ''assault'', ''asset'', ''assist'', ''assume'', ''asthma'', ''athlete'', ''atom'', ''attack'', ''attend'',
    ''attract'', ''auction'', ''audit'', ''august'', ''aunt'', ''author'', ''auto'', ''autumn'', ''average'', ''avocado'',
    ''avoid'', ''awake'', ''aware'', ''away'', ''awesome'', ''awful'', ''awkward'', ''axis'', ''baby'', ''bacon'', ''badge'',
    ''balance'', ''balcony'', ''ball'', ''bamboo'', ''banana'', ''banner'', ''barely'', ''bargain'', ''barrel'', ''base'',
    ''basic'', ''basket'', ''battle'', ''beach'', ''bean'', ''beauty'', ''because'', ''become'', ''beef'', ''before'',
    ''begin'', ''behave'', ''behind'', ''believe'', ''below'', ''belt'', ''bench'', ''benefit'', ''best'', ''betray'',
    ''better'', ''between'', ''beyond'', ''bicycle'', ''bike'', ''bind'', ''biology'', ''bird'', ''birth'', ''bitter'',
    ''black'', ''blade'', ''blame'', ''blanket'', ''blast'', ''bleak'', ''bless'', ''blind'', ''blood'', ''blossom'',
    ''blouse'', ''blue'', ''blur'', ''blush'', ''board'', ''boat'', ''body'', ''boil'', ''bomb'', ''bone'', ''bonus'', ''book'',
    ''boost'', ''border'', ''boring'', ''borrow'', ''boss'', ''bottom'', ''bounce'', ''bracket'', ''brain'', ''brand'',
    ''brass'', ''brave'', ''bread'', ''breeze'', ''brick'', ''bridge'', ''brief'', ''bright'', ''bring'', ''brisk'', ''broken'',
    ''bronze'', ''broom'', ''brother'', ''brown'', ''brush'', ''bubble'', ''buddy'', ''budget'', ''buffalo'', ''build'',
    ''bulb'', ''bulk'', ''bullet'', ''bundle'', ''bunker'', ''burden'', ''burger'', ''burst'', ''busy'', ''butter'', ''buyer'',
    ''buzz'', ''cabbage'', ''cabin'', ''cable'', ''cactus'', ''cage'', ''cake'', ''call'', ''calm'', ''camera'', ''camp'',
    ''canal'', ''cancel'', ''candy'', ''cannon'', ''canoe'', ''canvas'', ''canyon'', ''capable'', ''capital'', ''captain'',
    ''carbon'', ''card'', ''cargo'', ''carpet'', ''carry'', ''cart'', ''case'', ''cash'', ''casino'', ''castle'', ''casual'',
    ''catalog'', ''catch'', ''cattle'', ''caught'', ''cause'', ''caution'', ''cave'', ''ceiling'', ''celery'', ''cement'',
    ''census'', ''century'', ''cereal'', ''certain'', ''chair'', ''chalk'', ''change'', ''chaos'', ''chapter'', ''charge'',
    ''chase'', ''chat'', ''cheap'', ''check'', ''cheese'', ''chef'', ''cherry'', ''chest'', ''chicken'', ''chief'', ''child'',
    ''chimney'', ''choice'', ''choose'', ''chronic'', ''chuckle'', ''chunk'', ''churn'', ''cigar'', ''circle'', ''citizen'',
    ''city'', ''civil'', ''claim'', ''clap'', ''clarify'', ''claw'', ''clay'', ''clean'', ''clerk'', ''clever'', ''click'',
    ''client'', ''cliff'', ''climb'', ''clinic'', ''clip'', ''clock'', ''clog'', ''close'', ''cloth'', ''cloud'', ''clown'',
    ''club'', ''clump'', ''cluster'', ''clutch'', ''coach'', ''coast'', ''coconut'', ''code'', ''coffee'', ''coil'', ''coin'',
    ''collect'', ''color'', ''column'', ''combine'', ''come'', ''comfort'', ''comic'', ''common'', ''company'', ''concert'',
    ''conduct'', ''confirm'', ''connect'', ''control'', ''cook'', ''cool'', ''copper'', ''copy'', ''coral'', ''core'', ''corn'',
    ''correct'', ''cost'', ''cotton'', ''couch'', ''country'', ''couple'', ''course'', ''cousin'', ''cover'', ''coyote'',
    ''crack'', ''cradle'', ''craft'', ''cram'', ''crane'', ''crash'', ''crater'', ''crawl'', ''crazy'', ''cream'', ''credit'',
    ''creek'', ''crew'', ''cricket'', ''crime'', ''crisp'', ''critic'', ''crop'', ''cross'', ''crouch'', ''crowd'', ''crucial'',
    ''cruel'', ''cruise'', ''crumble'', ''crunch'', ''crush'', ''crystal'', ''cube'', ''culture'', ''curious'', ''current'',
    ''curtain'', ''curve'', ''cushion'', ''custom'', ''cute'', ''cycle'', ''damage'', ''damp'', ''dance'', ''danger'',
    ''daring'', ''dash'', ''dawn'', ''deal'', ''debate'', ''debris'', ''decade'', ''decide'', ''decline'', ''deer'',
    ''defense'', ''define'', ''defy'', ''degree'', ''delay'', ''deliver'', ''demand'', ''demise'', ''denial'', ''dentist'',
    ''deny'', ''depart'', ''depend'', ''deposit'', ''depth'', ''deputy'', ''derive'', ''desert'', ''design'', ''desk'',
    ''despair'', ''destroy'', ''detail'', ''detect'', ''develop'', ''device'', ''devote'', ''diagram'', ''dial'', ''diamond'',
    ''diary'', ''dice'', ''diesel'', ''diet'', ''differ'', ''digital'', ''dignity'', ''dilemma'', ''dinner'', ''direct'',
    ''dirt'', ''disease'', ''dish'', ''dismiss'', ''display'', ''divert'', ''divide'', ''divorce'', ''dizzy'', ''doctor'',
    ''doll'', ''dolphin'', ''domain'', ''donate'', ''donkey'', ''donor'', ''door'', ''dose'', ''double'', ''dove'', ''draft'',
    ''dragon'', ''drama'', ''drastic'', ''draw'', ''dream'', ''dress'', ''drift'', ''drill'', ''drink'', ''drip'', ''drive'',
    ''drop'', ''drum'', ''duck'', ''dumb'', ''dune'', ''during'', ''dust'', ''dutch'', ''duty'', ''dwarf'', ''dynamic'',
    ''eager'', ''eagle'', ''early'', ''earn'', ''earth'', ''easily'', ''east'', ''easy'', ''echo'', ''ecology'', ''economy'',
    ''edge'', ''edit'', ''educate'', ''effort'', ''eight'', ''either'', ''elbow'', ''elder'', ''elegant'', ''element'',
    ''elite'', ''else'', ''embark'', ''embody'', ''embrace'', ''emerge'', ''emotion'', ''employ'', ''empower'', ''empty'',
    ''enable'', ''enact'', ''endless'', ''endorse'', ''enemy'', ''energy'', ''enforce'', ''engage'', ''engine'', ''enhance'',
    ''enjoy'', ''enlist'', ''enough'', ''enrich'', ''enroll'', ''ensure'', ''enter'', ''entire'', ''entry'', ''episode'',
    ''equal'', ''equip'', ''erase'', ''erode'', ''erosion'', ''error'', ''erupt'', ''escape'', ''essay'', ''essence'',
    ''estate'', ''eternal'', ''ethics'', ''evil'', ''evoke'', ''evolve'', ''exact'', ''example'', ''excess'', ''excite'',
    ''exclude'', ''excuse'', ''execute'', ''exhaust'', ''exhibit'', ''exile'', ''exist'', ''exit'', ''exotic'', ''expand'',
    ''expect'', ''expire'', ''explain'', ''expose'', ''express'', ''extend'', ''extra'', ''eyebrow'', ''fabric'', ''face'',
    ''faculty'', ''fade'', ''faint'', ''faith'', ''fall'', ''false'', ''fame'', ''family'', ''famous'', ''fancy'', ''fantasy'',
    ''farm'', ''fashion'', ''fatal'', ''father'', ''fatigue'', ''fault'', ''feature'', ''federal'', ''feed'', ''feel'',
    ''female'', ''fence'', ''fetch'', ''fever'', ''fiber'', ''fiction'', ''field'', ''figure'', ''file'', ''film'', ''filter'',
    ''final'', ''find'', ''fine'', ''finger'', ''finish'', ''fire'', ''firm'', ''first'', ''fiscal'', ''fish'', ''fitness'',
    ''flag'', ''flame'', ''flash'', ''flat'', ''flavor'', ''flee'', ''flight'', ''flip'', ''float'', ''flock'', ''floor'',
    ''flower'', ''fluid'', ''flush'', ''foam'', ''focus'', ''foil'', ''fold'', ''follow'', ''food'', ''foot'', ''force'',
    ''forest'', ''forget'', ''fork'', ''fortune'', ''forum'', ''forward'', ''fossil'', ''foster'', ''found'', ''fragile'',
    ''frame'', ''fresh'', ''friend'', ''fringe'', ''frog'', ''front'', ''frost'', ''frown'', ''frozen'', ''fruit'', ''fuel'',
    ''funny'', ''furnace'', ''fury'', ''future'', ''gadget'', ''gain'', ''galaxy'', ''gallery'', ''game'', ''garage'',
    ''garbage'', ''garden'', ''garlic'', ''garment'', ''gasp'', ''gate'', ''gather'', ''gauge'', ''gaze'', ''general'',
    ''genius'', ''genre'', ''gentle'', ''genuine'', ''gesture'', ''ghost'', ''giant'', ''gift'', ''giggle'', ''ginger'',
    ''giraffe'', ''girl'', ''give'', ''glad'', ''glance'', ''glare'', ''glass'', ''glide'', ''glimpse'', ''globe'', ''gloom'',
    ''glory'', ''glove'', ''glow'', ''glue'', ''goat'', ''goddess'', ''gold'', ''good'', ''goose'', ''gorilla'', ''gospel'',
    ''gossip'', ''govern'', ''gown'', ''grab'', ''grace'', ''grain'', ''grant'', ''grape'', ''grass'', ''gravity'', ''great'',
    ''green'', ''grid'', ''grief'', ''grit'', ''grocery'', ''group'', ''grow'', ''grunt'', ''guard'', ''guess'', ''guide'',
    ''guilt'', ''guitar'', ''habit'', ''hair'', ''half'', ''hammer'', ''hamster'', ''hand'', ''happy'', ''harbor'', ''hard'',
    ''harsh'', ''harvest'', ''have'', ''hawk'', ''hazard'', ''head'', ''health'', ''heart'', ''heavy'', ''height'', ''hello'',
    ''helmet'', ''help'', ''hero'', ''hidden'', ''high'', ''hill'', ''hint'', ''hire'', ''history'', ''hobby'', ''hockey'',
    ''hold'', ''hole'', ''holiday'', ''hollow'', ''home'', ''honey'', ''hood'', ''hope'', ''horn'', ''horror'', ''horse'',
    ''host'', ''hotel'', ''hour'', ''hover'', ''huge'', ''human'', ''humble'', ''humor'', ''hundred'', ''hungry'', ''hunt'',
    ''hurdle'', ''hurry'', ''hurt'', ''husband'', ''hybrid'', ''icon'', ''idea'', ''idle'', ''ignore'', ''illegal'',
    ''illness'', ''image'', ''imitate'', ''immense'', ''immune'', ''impact'', ''impose'', ''improve'', ''impulse'', ''inch'',
    ''include'', ''income'', ''index'', ''indoor'', ''infant'', ''inflict'', ''inform'', ''inhale'', ''inherit'', ''initial'',
    ''inject'', ''injury'', ''inmate'', ''inner'', ''input'', ''inquiry'', ''insane'', ''insect'', ''inside'', ''inspire'',
    ''install'', ''intact'', ''into'', ''invest'', ''invite'', ''involve'', ''iron'', ''island'', ''isolate'', ''issue'',
    ''item'', ''ivory'', ''jacket'', ''jaguar'', ''jazz'', ''jealous'', ''jeans'', ''jelly'', ''jewel'', ''join'', ''joke'',
    ''journey'', ''judge'', ''juice'', ''jump'', ''jungle'', ''junior'', ''junk'', ''just'', ''keen'', ''keep'', ''ketchup'',
    ''kick'', ''kidney'', ''kind'', ''kingdom'', ''kiss'', ''kitchen'', ''kite'', ''kitten'', ''kiwi'', ''knee'', ''knife'',
    ''knock'', ''know'', ''label'', ''labor'', ''ladder'', ''lady'', ''lake'', ''lamp'', ''laptop'', ''large'', ''later'',
    ''latin'', ''laugh'', ''laundry'', ''lava'', ''lawn'', ''lawsuit'', ''layer'', ''lazy'', ''leader'', ''leaf'', ''learn'',
    ''leave'', ''lecture'', ''left'', ''legal'', ''legend'', ''leisure'', ''lemon'', ''lend'', ''length'', ''lens'',
    ''leopard'', ''lesson'', ''letter'', ''level'', ''liar'', ''liberty'', ''library'', ''license'', ''life'', ''lift'',
    ''light'', ''like'', ''limb'', ''limit'', ''link'', ''lion'', ''liquid'', ''list'', ''little'', ''live'', ''lizard'',
    ''load'', ''loan'', ''lobster'', ''local'', ''lock'', ''logic'', ''lonely'', ''long'', ''loop'', ''lottery'', ''loud'',
    ''lounge'', ''love'', ''loyal'', ''lucky'', ''luggage'', ''lumber'', ''lunar'', ''lunch'', ''luxury'', ''lyrics'',
    ''machine'', ''magic'', ''magnet'', ''maid'', ''mail'', ''main'', ''major'', ''make'', ''mammal'', ''manage'', ''mandate'',
    ''mango'', ''mansion'', ''manual'', ''maple'', ''marble'', ''march'', ''margin'', ''marine'', ''market'', ''mask'',
    ''mass'', ''master'', ''match'', ''math'', ''matrix'', ''matter'', ''maximum'', ''maze'', ''meadow'', ''mean'', ''measure'',
    ''meat'', ''medal'', ''media'', ''melody'', ''melt'', ''member'', ''memory'', ''mention'', ''menu'', ''mercy'', ''merge'',
    ''merit'', ''merry'', ''mesh'', ''message'', ''metal'', ''method'', ''middle'', ''milk'', ''million'', ''mimic'', ''mind'',
    ''minimum'', ''minor'', ''minute'', ''miracle'', ''mirror'', ''misery'', ''miss'', ''mistake'']"

definition FINGERPRINT_WORDS :: nat where
  "FINGERPRINT_WORDS = 6"

text \<open>Chop the first eight bytes into six ten-bit slots, least significant first.\<close>

definition words_from_hash_bytes :: "bytes \<Rightarrow> ustr list" where
  "words_from_hash_bytes b =
     (let v = from_le_bytes (take 8 b)
      in map (\<lambda>i. lit (WORDLIST ! unat (and (drop_bit (i * 10) v) 0x3FF))) [0..<FINGERPRINT_WORDS])"

definition fingerprint :: "(bytes \<Rightarrow> bytes32) \<Rightarrow> bytes32 \<Rightarrow> ustr list" where
  "fingerprint blake3 public_key = words_from_hash_bytes (blake3 public_key)"

definition fingerprint_from_handshake_hash :: "bytes32 \<Rightarrow> ustr list" where
  "fingerprint_from_handshake_hash h = words_from_hash_bytes h"

section \<open>The list is in strict alphabetical order\<close>

fun word_less :: "string \<Rightarrow> string \<Rightarrow> bool" where
  "word_less [] [] \<longleftrightarrow> False"
| "word_less [] (c # cs) \<longleftrightarrow> True"
| "word_less (c # cs) [] \<longleftrightarrow> False"
| "word_less (c # cs) (d # ds) \<longleftrightarrow> (of_char c :: nat) < of_char d \<or> c = d \<and> word_less cs ds"

fun climbing :: "string list \<Rightarrow> bool" where
  "climbing (x # y # xs) \<longleftrightarrow> word_less x y \<and> climbing (y # xs)"
| "climbing _ \<longleftrightarrow> True"

lemma word_less_trans: "word_less a b \<Longrightarrow> word_less b c \<Longrightarrow> word_less a c"
proof (induction a b arbitrary: c rule: word_less.induct)
  case (2 c cs)
  then show ?case by (metis word_less.simps(1,2) neq_Nil_conv word_less.simps(3))
next
  case (4 c cs d ds)
  then show ?case by (cases c) auto
qed auto

lemma word_less_irrefl: "\<not> word_less a a"
  by (induction a) simp_all

lemma climbing_sorted: "climbing ws \<Longrightarrow> sorted_wrt word_less ws"
proof (induction ws rule: climbing.induct)
  case (1 x y xs)
  then have "sorted_wrt word_less (y # xs)" "word_less x y" by simp_all
  then show ?case using word_less_trans [of x y] by auto
qed simp_all

lemma sorted_words_distinct: "sorted_wrt word_less ws \<Longrightarrow> distinct ws"
  by (induction ws) (auto simp: word_less_irrefl)

lemma wordlist_length: "length WORDLIST = 1024"
  by (simp add: WORDLIST_def)

lemma wordlist_climbs: "climbing WORDLIST"
  by (simp add: WORDLIST_def)

lemma wordlist_distinct: "distinct WORDLIST"
  by (rule sorted_words_distinct [OF climbing_sorted [OF wordlist_climbs]])

section \<open>What the words commit to\<close>

definition slots10 :: "u64 \<Rightarrow> nat list" where
  "slots10 v = map (\<lambda>i. unat (and (drop_bit (i * 10) v) 0x3FF)) [0..<FINGERPRINT_WORDS]"

lemma slot_take_bit: "and (w :: u64) 0x3FF = take_bit 10 w"
proof -
  have "(0x3FF :: u64) = mask 10" by (simp add: mask_eq_exp_minus_1)
  then show ?thesis by (simp add: take_bit_eq_mask)
qed

lemma slot_bound: "unat (take_bit 10 (w :: u64)) < 1024"
  by (simp add: unsigned_take_bit_eq take_bit_nat_less_exp [of 10, simplified])

lemma words_eq_slots: "words_from_hash_bytes b = map (\<lambda>n. lit (WORDLIST ! n)) (slots10 (from_le_bytes (take 8 b)))"
  by (simp add: words_from_hash_bytes_def slots10_def Let_def)

lemma lit_inj: "lit s = lit t \<longleftrightarrow> s = t"
proof -
  have "inj (of_char :: char \<Rightarrow> uchar)" by (auto intro: injI)
  then show ?thesis by (simp add: lit_def inj_map_eq_map)
qed

lemma word_at_inj: "m < 1024 \<Longrightarrow> n < 1024 \<Longrightarrow> lit (WORDLIST ! m) = lit (WORDLIST ! n) \<longleftrightarrow> m = n"
  using wordlist_distinct wordlist_length by (simp add: lit_inj nth_eq_iff_index_eq)

lemma low_bits: "m \<le> 64 \<Longrightarrow> take_bit m (x :: u64) = take_bit m y \<longleftrightarrow> (\<forall>j<m. bit x j = bit y j)"
proof (rule iffI)
  assume m: "m \<le> 64" and e: "take_bit m x = take_bit m y"
  have "bit (take_bit m x) j = bit (take_bit m y) j" for j using e by simp
  then have "(j < m \<and> bit x j) = (j < m \<and> bit y j)" for j by (simp add: bit_take_bit_iff)
  then show "\<forall>j<m. bit x j = bit y j" by blast
qed (auto simp: bit_eq_iff bit_take_bit_iff)

lemma slots_eq_iff: "slots10 v = slots10 w \<longleftrightarrow> take_bit 60 v = take_bit 60 w"
proof -
  have "slots10 v = slots10 w \<longleftrightarrow> (\<forall>i<6. take_bit 10 (drop_bit (i * 10) v) = take_bit 10 (drop_bit (i * 10) w))"
    by (simp add: slots10_def slot_take_bit FINGERPRINT_WORDS_def Ball_def word_unat_eq_iff del: upt_Suc)
  also have "\<dots> \<longleftrightarrow> (\<forall>i<6. \<forall>j<10. bit v (i * 10 + j) = bit w (i * 10 + j))"
    by (simp add: low_bits bit_drop_bit_eq)
  also have "\<dots> \<longleftrightarrow> (\<forall>n<60. bit v n = bit w n)"
  proof (rule iffI)
    assume h: "\<forall>i<6. \<forall>j<10. bit v (i * 10 + j) = bit w (i * 10 + j)"
    have "bit v n = bit w n" if "n < 60" for n
    proof -
      have "n div 10 < 6" "n mod 10 < 10" using that by simp_all
      then have "bit v (n div 10 * 10 + n mod 10) = bit w (n div 10 * 10 + n mod 10)" using h by blast
      then show ?thesis by simp
    qed
    then show "\<forall>n<60. bit v n = bit w n" by blast
  qed simp
  also have "\<dots> \<longleftrightarrow> take_bit 60 v = take_bit 60 w"
    by (simp add: low_bits)
  finally show ?thesis .
qed

text \<open>
  The six words commit to exactly sixty bits: two hashes show the same words if and only if they
  agree on the low sixty bits of their first eight bytes. So two sides that read the same words aloud
  hold hashes equal there, and no pair of different words looks alike.
\<close>

theorem words_commit_to_60_bits:
  "fingerprint_from_handshake_hash g = fingerprint_from_handshake_hash h
     \<longleftrightarrow> take_bit 60 (from_le_bytes (take 8 g)) = take_bit 60 (from_le_bytes (take 8 h))"
proof -
  have b: "n \<in> set (slots10 v) \<Longrightarrow> n < 1024" for n v
    by (auto simp: slots10_def slot_take_bit slot_bound)
  have "inj_on (\<lambda>n. lit (WORDLIST ! n)) {n. n < 1024}"
    by (auto intro!: inj_onI simp: word_at_inj)
  then have "words_from_hash_bytes g = words_from_hash_bytes h
      \<longleftrightarrow> slots10 (from_le_bytes (take 8 g)) = slots10 (from_le_bytes (take 8 h))"
    unfolding words_eq_slots
    by (rule inj_on_map_eq_map [OF inj_on_subset [of _ "{n. n < 1024}"]]) (auto dest: b)
  then show ?thesis by (simp add: fingerprint_from_handshake_hash_def slots_eq_iff)
qed

end
