(* ===== verification/Noise_IK.thy ===== *)
theory Noise_IK
  imports Fingerprint
begin

text \<open>
  \<open>fluxsync-crypto\<close>: the identity (\<open>identity.rs\<close>), the check of a peer's static key, the two sides of the
  Noise IK handshake (\<open>handshake.rs\<close>), the at-rest format (\<open>at_rest.rs\<close>) and the pairing PIN (\<open>lib.rs\<close>). The
  libraries \<open>snow\<close>, \<open>x25519-dalek\<close> and \<open>chacha20poly1305\<close> are parameters; a random draw is an argument.
\<close>

section \<open>Identity\<close>

record identity =
  id_secret :: bytes32
  id_public :: bytes32

text \<open>The parameter is \<open>PublicKey::from\<close>.\<close>

definition identity_of :: "(bytes32 \<Rightarrow> bytes32) \<Rightarrow> bytes32 \<Rightarrow> identity" where
  "identity_of x25519_public b = \<lparr>id_secret = b, id_public = x25519_public b\<rparr>"

definition from_secret_bytes :: "(bytes32 \<Rightarrow> bytes32) \<Rightarrow> bytes32 \<Rightarrow> crypto_error + identity" where
  "from_secret_bytes x25519_public b =
     (if b = zero32 then Inl DegenerateKey else Inr (identity_of x25519_public b))"

definition identity_peer_id :: "(bytes \<Rightarrow> bytes32) \<Rightarrow> identity \<Rightarrow> bytes32" where
  "identity_peer_id blake3 i = blake3 (id_public i)"

definition LOW_ORDER_POINTS :: "bytes32 list" where
  "LOW_ORDER_POINTS =
     [replicate 32 0,
      [0x01, 0x00, 0x00, 0x00, 0x00, 0x00, 0x00, 0x00, 0x00, 0x00, 0x00, 0x00, 0x00, 0x00, 0x00, 0x00,
       0x00, 0x00, 0x00, 0x00, 0x00, 0x00, 0x00, 0x00, 0x00, 0x00, 0x00, 0x00, 0x00, 0x00, 0x00, 0x00],
      [0xE0, 0xEB, 0x7A, 0x7C, 0x3B, 0x41, 0xB8, 0xAE, 0x16, 0x56, 0xE3, 0xFA, 0xF1, 0x9F, 0xC4, 0x6A,
       0xDA, 0x09, 0x8D, 0xEB, 0x9C, 0x32, 0xB1, 0xFD, 0x86, 0x62, 0x05, 0x16, 0x5F, 0x49, 0xB8, 0x00],
      [0x5F, 0x9C, 0x95, 0xBC, 0xA3, 0x50, 0x8C, 0x24, 0xB1, 0xD0, 0xB1, 0x55, 0x9C, 0x83, 0xEF, 0x5B,
       0x04, 0x44, 0x5C, 0xC4, 0x58, 0x1C, 0x8E, 0x86, 0xD8, 0x22, 0x4E, 0xDD, 0xD0, 0x9F, 0x11, 0x57],
      [0xEC, 0xFF, 0xFF, 0xFF, 0xFF, 0xFF, 0xFF, 0xFF, 0xFF, 0xFF, 0xFF, 0xFF, 0xFF, 0xFF, 0xFF, 0xFF,
       0xFF, 0xFF, 0xFF, 0xFF, 0xFF, 0xFF, 0xFF, 0xFF, 0xFF, 0xFF, 0xFF, 0xFF, 0xFF, 0xFF, 0xFF, 0x7F],
      [0xED, 0xFF, 0xFF, 0xFF, 0xFF, 0xFF, 0xFF, 0xFF, 0xFF, 0xFF, 0xFF, 0xFF, 0xFF, 0xFF, 0xFF, 0xFF,
       0xFF, 0xFF, 0xFF, 0xFF, 0xFF, 0xFF, 0xFF, 0xFF, 0xFF, 0xFF, 0xFF, 0xFF, 0xFF, 0xFF, 0xFF, 0x7F],
      [0xEE, 0xFF, 0xFF, 0xFF, 0xFF, 0xFF, 0xFF, 0xFF, 0xFF, 0xFF, 0xFF, 0xFF, 0xFF, 0xFF, 0xFF, 0xFF,
       0xFF, 0xFF, 0xFF, 0xFF, 0xFF, 0xFF, 0xFF, 0xFF, 0xFF, 0xFF, 0xFF, 0xFF, 0xFF, 0xFF, 0xFF, 0x7F]]"

definition validate_peer_pubkey :: "bytes32 \<Rightarrow> crypto_error + unit" where
  "validate_peer_pubkey k =
     (let masked = k[31 := and (k ! 31) 0x7F] in
      if masked \<in> set LOW_ORDER_POINTS then Inl InvalidPeerPubkey else Inr ())"

section \<open>The handshake\<close>

text \<open>\<open>'h\<close> is snow's \<open>HandshakeState\<close>, \<open>'t\<close> its \<open>TransportState\<close>. The pattern is a constant: parsing it is part of the build.\<close>

record ('h, 't) snow =
  parse_pattern :: "ustr + unit"
  build_initiator :: "bytes32 \<Rightarrow> bytes32 \<Rightarrow> ustr + 'h"
  build_responder :: "bytes32 \<Rightarrow> ustr + 'h"
  hs_write :: "'h \<Rightarrow> ustr + bytes \<times> 'h"
  hs_read :: "bytes \<Rightarrow> 'h \<Rightarrow> ustr + 'h"
  hs_hash :: "'h \<Rightarrow> bytes"
  remote_static :: "'h \<Rightarrow> bytes option"
  into_transport :: "'h \<Rightarrow> ustr + 't"

definition snapshot_hash :: "('h, 't) snow \<Rightarrow> 'h \<Rightarrow> crypto_error + bytes32" where
  "snapshot_hash sn h =
     (if length (hs_hash sn h) = 32 then Inr (hs_hash sn h)
      else Inl (HandshakeError (lit ''handshake hash not 32 bytes'')))"

text \<open>The session a finished state gives.\<close>

definition finished_session :: "('h, 't) snow \<Rightarrow> 'h \<Rightarrow> crypto_error + 't session" where
  "finished_session sn h =
     (case snapshot_hash sn h of
        Inl e \<Rightarrow> Inl e
      | Inr hash \<Rightarrow> (case into_transport sn h of
          Inl e \<Rightarrow> Inl (TransportError e)
        | Inr t \<Rightarrow> Inr (session_new t hash)))"

definition initiator_start :: "('h, 't) snow \<Rightarrow> identity \<Rightarrow> bytes32 \<Rightarrow> crypto_error + 'h \<times> bytes" where
  "initiator_start sn i peer_static_pub =
     (case parse_pattern sn of
        Inl e \<Rightarrow> Inl (PatternParse e)
      | Inr _ \<Rightarrow> (case build_initiator sn (id_secret i) peer_static_pub of
          Inl e \<Rightarrow> Inl (Builder e)
        | Inr h \<Rightarrow> (case hs_write sn h of
            Inl e \<Rightarrow> Inl (HandshakeError e)
          | Inr (buf, h) \<Rightarrow> Inr (h, buf))))"

definition initiator_finish :: "('h, 't) snow \<Rightarrow> 'h \<Rightarrow> bytes \<Rightarrow> crypto_error + 't session" where
  "initiator_finish sn h msg2 =
     (case hs_read sn msg2 h of
        Inl e \<Rightarrow> Inl (HandshakeError e)
      | Inr h \<Rightarrow> finished_session sn h)"

definition IK_MSG2_LEN :: nat where
  "IK_MSG2_LEN = 32 + 16"

definition responder_step :: "('h, 't) snow \<Rightarrow> identity \<Rightarrow> bytes \<Rightarrow> crypto_error + 't session \<times> bytes \<times> bytes32" where
  "responder_step sn i msg1 =
     (case parse_pattern sn of
        Inl e \<Rightarrow> Inl (PatternParse e)
      | Inr _ \<Rightarrow> (case build_responder sn (id_secret i) of
          Inl e \<Rightarrow> Inl (Builder e)
        | Inr h \<Rightarrow> (case hs_read sn msg1 h of
            Inl e \<Rightarrow> Inl (HandshakeError e)
          | Inr h \<Rightarrow> (case remote_static sn h of
              None \<Rightarrow> Inl MissingRemoteStatic
            | Some rs \<Rightarrow>
                (if length rs \<noteq> 32 then Inl (HandshakeError (lit ''remote static not 32 bytes''))
                 else case hs_write sn h of
                   Inl e \<Rightarrow> Inl (HandshakeError e)
                 | Inr (buf, h) \<Rightarrow> (case finished_session sn h of
                     Inl e \<Rightarrow> Inl e
                   | Inr s \<Rightarrow> Inr (s, buf, rs)))))))"

section \<open>At rest\<close>

text \<open>The cipher: encryption under key and nonce, and decryption.\<close>

record aead =
  aead_encrypt :: "bytes32 \<Rightarrow> bytes \<Rightarrow> bytes \<Rightarrow> ustr + bytes"
  aead_decrypt :: "bytes32 \<Rightarrow> bytes \<Rightarrow> bytes \<Rightarrow> ustr + bytes"

definition NONCE_LEN :: nat where
  "NONCE_LEN = 24"

definition seal :: "aead \<Rightarrow> bytes \<Rightarrow> bytes32 \<Rightarrow> bytes \<Rightarrow> crypto_error + bytes" where
  "seal c nonce key plaintext =
     (case aead_encrypt c key nonce plaintext of
        Inl e \<Rightarrow> Inl (Encrypt e) | Inr ct \<Rightarrow> Inr (nonce @ ct))"

definition open_blob :: "aead \<Rightarrow> bytes32 \<Rightarrow> bytes \<Rightarrow> crypto_error + bytes" where
  "open_blob c key blob =
     (if length blob < NONCE_LEN then Inl (Decrypt (lit ''at-rest blob too short''))
      else case aead_decrypt c key (take NONCE_LEN blob) (drop NONCE_LEN blob) of
        Inl e \<Rightarrow> Inl (Decrypt e) | Inr p \<Rightarrow> Inr p)"

lemma open_seal:
  assumes "\<And>k n p ct. aead_encrypt c k n p = Inr ct \<Longrightarrow> aead_decrypt c k n ct = Inr p"
    and "length nonce = NONCE_LEN" and "seal c nonce key p = Inr blob"
  shows "open_blob c key blob = Inr p"
  using assms(2,3) by (auto simp: seal_def open_blob_def assms(1) split: sum.splits)

section \<open>The pairing PIN\<close>

definition digits6 :: "nat \<Rightarrow> ustr" where
  "digits6 n = map (\<lambda>i. 48 + n div 10 ^ (5 - i) mod 10) [0..<6]"

definition gen_pair_pin :: "u32 \<Rightarrow> ustr" where
  "gen_pair_pin r = digits6 (unat r mod 1000000)"

lemma pin_format: "length (gen_pair_pin r) = 6 \<and> (\<forall>c\<in>set (gen_pair_pin r). 48 \<le> c \<and> c \<le> 57)"
  by (auto simp: gen_pair_pin_def digits6_def)

end
