(* ===== verification/Peer_Store.thy ===== *)
theory Peer_Store
  imports Shared Noise_IK
begin

text \<open>
  The trust store on disk: \<open>peers.json\<close> (\<open>keystore.rs\<close>) and the operations of the driver over it
  (\<open>driver/peers.rs\<close>). A file is what reading it gives; a write is atomic (\<open>fsutil.rs\<close>), and which of the
  attempts succeed is an argument. The JSON text is not modelled: a file parses or it does not. The
  address text of an entry either is an address or it is not.
\<close>

section \<open>The file\<close>

datatype addr_text = Addr sock_addr | Garbled

record stored_peer =
  sp_id_hex :: ustr
  sp_pub_hex :: ustr
  sp_name :: ustr
  sp_addr :: "addr_text option"

datatype peers_file = Missing | Blank | Corrupt | Peers "stored_peer list"

text \<open>\<open>None\<close> is an error.\<close>

definition load_peers :: "peers_file \<Rightarrow> stored_peer list option" where
  "load_peers f = (case f of Missing \<Rightarrow> Some [] | Blank \<Rightarrow> Some [] | Corrupt \<Rightarrow> None | Peers ps \<Rightarrow> Some ps)"

definition save_peers :: "bool \<Rightarrow> stored_peer list \<Rightarrow> peers_file \<Rightarrow> bool \<times> peers_file" where
  "save_peers io ps f = (if io then (True, Peers ps) else (False, f))"

definition upsert_peer :: "stored_peer \<Rightarrow> stored_peer list \<Rightarrow> stored_peer list" where
  "upsert_peer new ps = filter (\<lambda>p. sp_id_hex p \<noteq> sp_id_hex new) ps @ [new]"

section \<open>Saving\<close>

type_synonym trust = "(bytes32, trusted_peer) hmap"

text \<open>The addresses on disk, collected into a map: a later entry wins.\<close>

definition disk_addr :: "peers_file \<Rightarrow> ustr \<Rightarrow> addr_text option" where
  "disk_addr f h =
     (case load_peers f of
        None \<Rightarrow> None
      | Some ps \<Rightarrow> (case map_of (rev (map (\<lambda>p. (sp_id_hex p, sp_addr p)) ps)) h of Some a \<Rightarrow> a | None \<Rightarrow> None))"

definition stored_of :: "hex_lib \<Rightarrow> peers_file \<Rightarrow> bytes32 \<times> trusted_peer \<Rightarrow> stored_peer" where
  "stored_of hx f e =
     \<lparr>sp_id_hex = hex_encode hx (fst e), sp_pub_hex = hex_encode hx (tp_static_pub (snd e)),
      sp_name = tp_name (snd e), sp_addr = disk_addr f (hex_encode hx (fst e))\<rparr>"

definition save_current_peers :: "hex_lib \<Rightarrow> bool \<Rightarrow> trust \<Rightarrow> peers_file \<Rightarrow> bool \<times> peers_file" where
  "save_current_peers hx io tr f = save_peers io (map (stored_of hx f) tr) f"

definition PEERS_PERSIST_ATTEMPTS :: nat where
  "PEERS_PERSIST_ATTEMPTS = 3"

text \<open>\<open>io k\<close>: the write succeeds with \<open>k\<close> attempts left after it.\<close>

fun retrying :: "(nat \<Rightarrow> bool) \<Rightarrow> nat \<Rightarrow> (bool \<Rightarrow> peers_file \<Rightarrow> bool \<times> peers_file) \<Rightarrow> peers_file \<Rightarrow> bool \<times> peers_file" where
  "retrying io 0 w f = (False, f)"
| "retrying io (Suc k) w f = (case w (io k) f of (True, f) \<Rightarrow> (True, f) | (False, f) \<Rightarrow> retrying io k w f)"

definition save_peers_with_retry :: "hex_lib \<Rightarrow> (nat \<Rightarrow> bool) \<Rightarrow> trust \<Rightarrow> peers_file \<Rightarrow> bool \<times> peers_file" where
  "save_peers_with_retry hx io tr f = retrying io PEERS_PERSIST_ATTEMPTS (\<lambda>ok. save_current_peers hx ok tr) f"

definition upsert_peer_persist :: "(nat \<Rightarrow> bool) \<Rightarrow> stored_peer \<Rightarrow> peers_file \<Rightarrow> bool \<times> peers_file" where
  "upsert_peer_persist io entry f =
     (case load_peers f of
        None \<Rightarrow> (False, f)
      | Some stored \<Rightarrow> retrying io PEERS_PERSIST_ATTEMPTS (\<lambda>ok. save_peers ok (upsert_peer entry stored)) f)"

definition v6_segment0 :: "ip_addr \<Rightarrow> u16" where
  "v6_segment0 a = ucast (a ! 0) * 256 + ucast (a ! 1)"

definition is_redialable_addr :: "ip_addr \<Rightarrow> bool" where
  "is_redialable_addr a =
     (if list_all (\<lambda>b. b = 0) a \<or> (if length a = 4 then 224 \<le> a ! 0 \<and> a ! 0 \<le> 239 else a ! 0 = 0xFF) then False
      else if length a = 4 then \<not> (a ! 0 = 169 \<and> a ! 1 = 254)
      else and (v6_segment0 a) 0xFFC0 \<noteq> 0xFE80)"

definition persist_last_addr ::
  "hex_lib \<Rightarrow> (nat \<Rightarrow> bool) \<Rightarrow> bool \<Rightarrow> trust \<Rightarrow> bytes32 \<Rightarrow> sock_addr \<Rightarrow> peers_file \<Rightarrow> peers_file" where
  "persist_last_addr hx io keystore tr peer addr f =
     (if \<not> keystore then f
      else if \<not> is_redialable_addr (fst addr) then f
      else case map_of tr peer of
        None \<Rightarrow> f
      | Some tp \<Rightarrow>
          snd (upsert_peer_persist io
            \<lparr>sp_id_hex = hex_encode hx peer, sp_pub_hex = hex_encode hx (tp_static_pub tp), sp_name = tp_name tp,
             sp_addr = Some (Addr addr)\<rparr> f))"

section \<open>Loading at boot\<close>

definition MAX_PERSISTED_PEERS :: nat where
  "MAX_PERSISTED_PEERS = 64"

definition peer_id_for :: "(bytes \<Rightarrow> bytes32) \<Rightarrow> bytes32 \<Rightarrow> bytes32" where
  "peer_id_for b3 k = hash_bytes (ring_hash b3 k)"

definition load_entry ::
  "(bytes \<Rightarrow> bytes32) \<Rightarrow> hex_lib \<Rightarrow> stored_peer \<Rightarrow> (bytes32 \<times> trusted_peer \<times> sock_addr option) option" where
  "load_entry b3 hx p =
     (case decode_hex32 hx (sp_pub_hex p) of
        None \<Rightarrow> None
      | Some k \<Rightarrow>
          (case validate_peer_pubkey k of
             Inl _ \<Rightarrow> None
           | Inr _ \<Rightarrow> Some (peer_id_for b3 k, \<lparr>tp_static_pub = k, tp_name = sp_name p\<rparr>,
               (case sp_addr p of Some (Addr a) \<Rightarrow> Some a | _ \<Rightarrow> None))))"

definition load_trusted_peers ::
  "(bytes \<Rightarrow> bytes32) \<Rightarrow> hex_lib \<Rightarrow> peers_file \<Rightarrow> (bytes32 \<times> trusted_peer \<times> sock_addr option) list" where
  "load_trusted_peers b3 hx f =
     (case load_peers f of
        None \<Rightarrow> []
      | Some stored \<Rightarrow> take MAX_PERSISTED_PEERS (List.map_filter (load_entry b3 hx) stored))"

text \<open>The trust set of the boot: the entries inserted one by one.\<close>

definition boot_trust :: "(bytes \<Rightarrow> bytes32) \<Rightarrow> hex_lib \<Rightarrow> peers_file \<Rightarrow> trust" where
  "boot_trust b3 hx f = fold (\<lambda>(i, tp, _). hm_insert i tp) (load_trusted_peers b3 hx f) []"

definition least_id :: "trust \<Rightarrow> trusted_peer option" where
  "least_id tr =
     (case map fst tr of [] \<Rightarrow> None | i # is \<Rightarrow> map_of tr (fold min is i))"

definition choose_boot_trusted_peer :: "trust \<Rightarrow> bytes32 option \<Rightarrow> trusted_peer option" where
  "choose_boot_trusted_peer tr primary =
     (case primary of
        None \<Rightarrow> least_id tr
      | Some i \<Rightarrow> (case map_of tr i of Some p \<Rightarrow> Some p | None \<Rightarrow> least_id tr))"

section \<open>What is saved is what is loaded\<close>

definition hex_roundtrip :: "hex_lib \<Rightarrow> bool" where
  "hex_roundtrip hx \<longleftrightarrow> (\<forall>h. hex_decode hx (hex_encode hx h) = Some h)"

lemma map_of_rev_distinct: "distinct (map fst m) \<Longrightarrow> map_of (rev m) = map_of m"
  by (subst map_of_inject_set) (simp_all add: rev_map [symmetric])

lemma retrying_saves:
  assumes "\<And>ok f. w ok f = (if ok then (True, Peers (mk f)) else (False, f))"
  shows "retrying io n w f = (if \<exists>k<n. io k then (True, Peers (mk f)) else (False, f))"
  by (induction n) (auto simp: assms less_Suc_eq)

lemma save_with_retry:
  "save_peers_with_retry hx io tr f =
     (if \<exists>k<3. io k then (True, Peers (map (stored_of hx f) tr)) else (False, f))"
  unfolding save_peers_with_retry_def PEERS_PERSIST_ATTEMPTS_def
  by (rule retrying_saves) (simp add: save_current_peers_def save_peers_def)

lemma upsert_persist:
  "upsert_peer_persist io e f =
     (case load_peers f of Some ps \<Rightarrow> (if \<exists>k<3. io k then (True, Peers (upsert_peer e ps)) else (False, f)) | None \<Rightarrow> (False, f))"
  unfolding upsert_peer_persist_def PEERS_PERSIST_ATTEMPTS_def
  by (auto simp: save_peers_def retrying_saves [of _ "\<lambda>_. upsert_peer e (the (load_peers f))"] split: option.split)

text \<open>A trust set as every operation keeps it: one entry per peer, under the id of its key.\<close>

definition trust_ok :: "(bytes \<Rightarrow> bytes32) \<Rightarrow> trust \<Rightarrow> bool" where
  "trust_ok b3 tr \<longleftrightarrow> distinct (map fst tr)
     \<and> (\<forall>(i, tp)\<in>set tr. i = peer_id_for b3 (tp_static_pub tp) \<and> is32 (tp_static_pub tp)
          \<and> validate_peer_pubkey (tp_static_pub tp) = Inr ())"

lemma load_entry_stored:
  assumes "hex_roundtrip hx" and "i = peer_id_for b3 (tp_static_pub tp)" "is32 (tp_static_pub tp)" "validate_peer_pubkey (tp_static_pub tp) = Inr ()"
  shows "load_entry b3 hx (stored_of hx f (i, tp)) =
    Some (i, tp, case disk_addr f (hex_encode hx i) of Some (Addr a) \<Rightarrow> Some a | _ \<Rightarrow> None)"
  using assms by (simp add: load_entry_def stored_of_def decode_hex32_def hex_roundtrip_def is32_def split: addr_text.split option.split)

lemma load_saved:
  assumes hx: "hex_roundtrip hx" and tr: "trust_ok b3 tr"
  shows "List.map_filter (load_entry b3 hx) (map (stored_of hx f) tr) =
    map (\<lambda>(i, tp). (i, tp, case disk_addr f (hex_encode hx i) of Some (Addr a) \<Rightarrow> Some a | _ \<Rightarrow> None)) tr"
  using tr unfolding trust_ok_def
proof (induction tr)
  case (Cons e tr)
  obtain i tp where e: "e = (i, tp)" by force
  show ?case using Cons load_entry_stored [OF hx, of i b3 tp f] by (simp add: e List.map_filter_def)
qed (simp add: List.map_filter_def)

lemma map_of_boot:
  "map_of (fold (\<lambda>(i, tp, _). hm_insert i tp) es tr) i =
     (case map_of (rev (map (\<lambda>(i, tp, _). (i, tp)) es)) i of Some tp \<Rightarrow> Some tp | None \<Rightarrow> map_of tr i)"
  by (induction es arbitrary: tr) (auto simp: map_add_def split: option.split)

text \<open>What a boot loads from the file a save wrote.\<close>

lemma load_after_save:
  assumes hx: "hex_roundtrip hx" and tr: "trust_ok b3 tr" and few: "length tr \<le> MAX_PERSISTED_PEERS"
  shows "load_trusted_peers b3 hx (Peers (map (stored_of hx f) tr)) =
      map (\<lambda>(i, tp). (i, tp, case disk_addr f (hex_encode hx i) of Some (Addr a) \<Rightarrow> Some a | _ \<Rightarrow> None)) tr"
  using few by (simp add: load_trusted_peers_def load_peers_def load_saved [OF hx tr])

lemma boot_after_save:
  assumes hx: "hex_roundtrip hx" and tr: "trust_ok b3 tr" and few: "length tr \<le> MAX_PERSISTED_PEERS"
  shows "map_of (boot_trust b3 hx (Peers (map (stored_of hx f) tr))) = map_of tr"
proof -
  have "map (\<lambda>(i, tp, _). (i, tp)) (load_trusted_peers b3 hx (Peers (map (stored_of hx f) tr))) = tr"
    by (simp add: load_after_save [OF hx tr few] comp_def case_prod_beta)
  moreover have "map_of (rev tr) = map_of tr"
    using tr by (intro map_of_rev_distinct) (simp add: trust_ok_def)
  ultimately show ?thesis by (simp add: boot_trust_def map_of_boot fun_eq_iff split: option.split)
qed

text \<open>
  C30: A restart trusts exactly whom the daemon trusted. After a save that succeeds, whatever the file
  held before, the boot loads the very trust set: the same peers, keys and names, as long as there are
  at most 64 of them; and each keeps the address the file had for it.
\<close>

theorem restart_keeps_trust:
  assumes hx: "hex_roundtrip hx" and tr: "trust_ok b3 tr" and few: "length tr \<le> MAX_PERSISTED_PEERS"
    and s: "save_peers_with_retry hx io tr f = (True, f')"
  shows "map_of (boot_trust b3 hx f') = map_of tr
    \<and> (\<forall>i a. i \<in> fst ` set tr \<longrightarrow> disk_addr f (hex_encode hx i) = Some (Addr a) \<longrightarrow>
         (\<exists>tp. (i, tp, Some a) \<in> set (load_trusted_peers b3 hx f')))"
proof -
  have f': "f' = Peers (map (stored_of hx f) tr)" using s by (simp add: save_with_retry split: if_splits)
  have "map_of (boot_trust b3 hx f') = map_of tr" unfolding f' by (rule boot_after_save [OF hx tr few])
  moreover have "\<exists>tp. (i, tp, Some a) \<in> set (load_trusted_peers b3 hx f')"
    if "i \<in> fst ` set tr" "disk_addr f (hex_encode hx i) = Some (Addr a)" for i a
    using that unfolding f' by (force simp: load_after_save [OF hx tr few])
  ultimately show ?thesis by blast
qed

definition full_hex :: hex_lib where
  "full_hex = \<lparr>hex_encode = hex32, hex_decode = \<lambda>s. decode_pairs (as_bytes s)\<rparr>"

definition demo_trust :: trust where
  "demo_trust = [(replicate 32 9, \<lparr>tp_static_pub = replicate 32 9, tp_name = lit ''phone''\<rparr>)]"

lemma full_hex_roundtrip: "hex_roundtrip full_hex"
  by (simp add: hex_roundtrip_def full_hex_def decode_pairs_hex32)

lemma demo_key_valid: "validate_peer_pubkey (replicate 32 9) = Inr ()"
proof -
  have "p ! 0 \<noteq> 9" if "p \<in> set LOW_ORDER_POINTS" for p
    using that unfolding LOW_ORDER_POINTS_def by auto
  then have "(replicate 32 9)[31 := x] \<notin> set LOW_ORDER_POINTS" for x
    by (metis nth_list_update_neq nth_replicate zero_less_numeral zero_neq_numeral)
  then show ?thesis by (simp add: validate_peer_pubkey_def Let_def)
qed

theorem restart_keeps_trust_witness:
  "map_of (boot_trust (\<lambda>b. b) full_hex
      (snd (save_peers_with_retry full_hex (\<lambda>k. k = 1) demo_trust Corrupt))) (replicate 32 9)
   = Some \<lparr>tp_static_pub = replicate 32 9, tp_name = lit ''phone''\<rparr>"
proof -
  have tr: "trust_ok (\<lambda>b. b) demo_trust"
    by (simp add: trust_ok_def demo_trust_def peer_id_for_def ring_hash_def is32_def demo_key_valid)
  have few: "length demo_trust \<le> MAX_PERSISTED_PEERS" by (simp add: demo_trust_def MAX_PERSISTED_PEERS_def)
  have "save_peers_with_retry full_hex (\<lambda>k. k = 1) demo_trust Corrupt =
      (True, snd (save_peers_with_retry full_hex (\<lambda>k. k = 1) demo_trust Corrupt))"
    by (simp add: save_with_retry)
  from restart_keeps_trust [OF full_hex_roundtrip tr few this] show ?thesis by (simp add: demo_trust_def)
qed

text \<open>A corrupt file is refused by an upsert and replaced by a whole save; and a boot keeps the first 64 entries.\<close>

lemma corrupt_file: "upsert_peer_persist io e Corrupt = (False, Corrupt)"
    "io 2 \<Longrightarrow> fst (save_peers_with_retry hx io tr Corrupt)"
  by (auto intro!: exI [of _ 2] simp: upsert_persist load_peers_def save_with_retry)

lemma boot_caps: "length (load_trusted_peers b3 hx f) \<le> 64"
  by (simp add: load_trusted_peers_def MAX_PERSISTED_PEERS_def split: option.split)

end
