(* ===== verification/Handshake.thy ===== *)
theory Handshake
  imports Links Peer_Store Inbound Demo
begin

text \<open>
  \<open>fluxsyncd/src/handshake.rs\<close>: the three handshake tasks and the reaper of unconfirmed pairings. A task
  gives way to the others at its awaits. \<open>ms k\<close> is what the others do at the \<open>k\<close>-th of the awaits that
  matter: any list of steps on the connections, and any replacement of the trust set, the pending pairs or the
  pairing window. The reads of one snapshot are one step, and so is what runs under one lock.
\<close>

section \<open>The host of the tasks\<close>

record 't host =
  hub :: "'t shared"
  pairing_window :: "instant option"
  peers_disk :: peers_file
  sent :: "(u8 \<times> bytes \<times> sock_addr) list"

text \<open>What a task needs from outside: the libraries, its identity, whether sends and disk writes succeed.\<close>

record ('h, 't) hs_env =
  env_of :: "'t env"
  ik :: "('h, 't) snow"
  self_id :: identity
  disk_io :: "nat \<Rightarrow> bool"
  udp_ok :: bool

datatype hs_error = Noise crypto_error | SendFailed | NoReply | Replayed | KeyMismatch | Refused | TrustFull | NotPersisted

definition on_hub :: "('t shared \<Rightarrow> 't shared) \<Rightarrow> 't host \<Rightarrow> 't host" where
  "on_hub f h = h\<lparr>hub := f (hub h)\<rparr>"

definition on_net :: "('t net \<Rightarrow> 't net) \<Rightarrow> 't host \<Rightarrow> 't host" where
  "on_net f h = on_hub (\<lambda>s. s\<lparr>net := f (net s)\<rparr>) h"

definition send_typed :: "('h, 't) hs_env \<Rightarrow> u8 \<Rightarrow> bytes \<Rightarrow> sock_addr \<Rightarrow> 't host \<Rightarrow> bool \<times> 't host" where
  "send_typed R ty body to h = (if udp_ok R then (True, h\<lparr>sent := sent h @ [(ty, body, to)]\<rparr>) else (False, h))"

datatype 't meddle =
    Net "'t link_op"
  | Trusts trust
  | Pendings "(bytes32, pending_pair) hmap"
  | Window "instant option"

fun meddle_step :: "'t noise \<Rightarrow> 't meddle \<Rightarrow> 't host \<Rightarrow> 't host" where
  "meddle_step ns (Net x) h = on_net (link_step ns x) h"
| "meddle_step ns (Trusts tr) h = on_hub (\<lambda>s. s\<lparr>trusted := tr\<rparr>) h"
| "meddle_step ns (Pendings ps) h = on_hub (\<lambda>s. s\<lparr>pending_pairs := ps\<rparr>) h"
| "meddle_step ns (Window w) h = h\<lparr>pairing_window := w\<rparr>"

definition meddle :: "('h, 't) hs_env \<Rightarrow> 't meddle list \<Rightarrow> 't host \<Rightarrow> 't host" where
  "meddle R ms h = fold (meddle_step (noise_lib (env_of R))) ms h"

section \<open>Shared pieces\<close>

definition MAX_TOFU_TRUSTED_PEERS :: nat where "MAX_TOFU_TRUSTED_PEERS = 256"

definition TOFU_PLACEHOLDER_NAME :: ustr where "TOFU_PLACEHOLDER_NAME = lit ''New Peer''"

definition tofu_trusted_peer :: "bytes32 \<Rightarrow> trusted_peer" where
  "tofu_trusted_peer pub = \<lparr>tp_static_pub = pub, tp_name = TOFU_PLACEHOLDER_NAME\<rparr>"

definition sas_of :: "'t session \<Rightarrow> ustr list" where
  "sas_of s = fingerprint_from_handshake_hash (handshake_hash s)"

text \<open>The sweep, the cap and the insert of an unconfirmed pair, and its announcement.\<close>

definition insert_pending :: "'t env \<Rightarrow> bytes32 \<Rightarrow> bytes32 \<Rightarrow> ustr \<Rightarrow> ustr list \<Rightarrow> sock_addr \<Rightarrow> 't shared \<Rightarrow> 't shared" where
  "insert_pending E peer pub name sas from s =
     post (SasPairingStarted peer)
       (s\<lparr>pending_pairs := hm_insert peer
            \<lparr>pp_static_pub = pub, pp_name = name, pp_sas_words = sas, pp_from = from, pp_expires_at = now E + PAIRING_WINDOW\<rparr>
            (make_pending_room (now E) (pending_pairs s))\<rparr>)"

definition persist_addr :: "('h, 't) hs_env \<Rightarrow> bytes32 \<Rightarrow> sock_addr \<Rightarrow> 't host \<Rightarrow> 't host" where
  "persist_addr R peer addr h =
     h\<lparr>peers_disk := persist_last_addr (hexs (env_of R)) (disk_io R) (keystore_dir (hub h)) (trusted (hub h)) peer addr (peers_disk h)\<rparr>"

text \<open>The reply: the first datagram of the five seconds from the peer's port with the size of a reply.\<close>

fun await_msg2 :: "sock_addr \<Rightarrow> (sock_addr \<times> bytes) list \<Rightarrow> bytes option" where
  "await_msg2 addr [] = None"
| "await_msg2 addr ((from, b) # rest) =
     (if snd from = snd addr \<and> length b = IK_MSG2_LEN then Some b else await_msg2 addr rest)"

section \<open>The initiator\<close>

text \<open>
  \<open>incoming\<close> are the replies that arrive in time. \<open>ms 0\<close> happens while it waits, \<open>ms 1\<close> between the check of
  the trust set and the install, \<open>ms 2\<close> and \<open>ms 3\<close> around the record of the address.
\<close>

definition dial ::
  "('h, 't) hs_env \<Rightarrow> bytes32 \<Rightarrow> sock_addr \<Rightarrow> (sock_addr \<times> bytes) list \<Rightarrow> 't meddle list \<Rightarrow> 't host
     \<Rightarrow> (hs_error + 't session) \<times> 't host" where
  "dial R pub addr incoming ms h =
     (case initiator_start (ik R) (self_id R) pub of
        Inl e \<Rightarrow> (Inl (Noise e), h)
      | Inr (st, msg1) \<Rightarrow>
          (case send_typed R TYPE_HANDSHAKE_INIT msg1 addr h of
             (False, h) \<Rightarrow> (Inl SendFailed, h)
           | (True, h) \<Rightarrow>
               (let h = meddle R ms h in
                case await_msg2 addr incoming of
                  None \<Rightarrow> (Inl NoReply, h)
                | Some msg2 \<Rightarrow> (case initiator_finish (ik R) st msg2 of
                    Inl e \<Rightarrow> (Inl (Noise e), h) | Inr s \<Rightarrow> (Inr s, h)))))"

definition initiator_links ::
  "('h, 't) hs_env \<Rightarrow> bytes32 \<Rightarrow> bytes32 \<Rightarrow> sock_addr \<Rightarrow> ustr \<Rightarrow> bool \<Rightarrow> 't session \<Rightarrow> (nat \<Rightarrow> 't meddle list) \<Rightarrow> 't host \<Rightarrow> 't host" where
  "initiator_links R peer pub addr name fresh s ms h =
     (let E = env_of R;
          h = on_net (set_peer_info (now_ms E) peer addr) (meddle R (ms 2) h);
          h = persist_addr R peer addr (meddle R (ms 3) h);
          h = (if fresh then on_hub (insert_pending E peer pub name (sas_of s) addr) h else h)
      in on_hub (\<lambda>sh. post HandshakeOk (post (PeerSeen peer name) sh)) h)"

text \<open>\<open>fresh\<close>: the task runs for a pair command, and has the pending set.\<close>

definition run_initiator ::
  "('h, 't) hs_env \<Rightarrow> (nat \<Rightarrow> 't meddle list) \<Rightarrow> (sock_addr \<times> bytes) list \<Rightarrow> bytes32 \<Rightarrow> sock_addr \<Rightarrow> bytes32 \<Rightarrow> ustr \<Rightarrow> bool
     \<Rightarrow> 't host \<Rightarrow> (hs_error + unit) \<times> 't host" where
  "run_initiator R ms incoming pub addr peer name fresh h =
     (case dial R pub addr incoming (ms 0) h of
        (Inl e, h) \<Rightarrow> (Inl e, h)
      | (Inr s, h) \<Rightarrow>
          (if map_of (trusted (hub h)) peer = None then (Inr (), h)
           else let h = meddle R (ms 1) h;
                    (installed, t) = try_install_session (now_ms (env_of R)) peer s (net (hub h));
                    h = on_net (\<lambda>_. t) h
                in if \<not> installed then (Inr (), h)
                   else (Inr (), initiator_links R peer pub addr name fresh s ms h)))"

definition run_rekey_initiator ::
  "('h, 't) hs_env \<Rightarrow> (nat \<Rightarrow> 't meddle list) \<Rightarrow> (sock_addr \<times> bytes) list \<Rightarrow> bytes32 \<Rightarrow> sock_addr \<Rightarrow> bytes32 \<Rightarrow> u64
     \<Rightarrow> 't host \<Rightarrow> (hs_error + unit) \<times> 't host" where
  "run_rekey_initiator R ms incoming pub addr peer generation h =
     (case dial R pub addr incoming (ms 0) h of
        (Inl e, h) \<Rightarrow> (Inl e, h)
      | (Inr s, h) \<Rightarrow>
          (if map_of (trusted (hub h)) peer = None then (Inr (), h)
           else let h = meddle R (ms 1) h;
                    (installed, t) = install_session_if_generation_for (now_ms (env_of R)) peer s generation (net (hub h));
                    h = on_net (\<lambda>_. t) h
                in if \<not> installed then (Inr (), h)
                   else let h = on_net (set_peer_info (now_ms (env_of R)) peer addr) (meddle R (ms 2) h);
                            h = on_hub (\<lambda>sh. sh\<lparr>counters := on_rekey (counters sh)\<rparr>) h;
                            h = persist_addr R peer addr (meddle R (ms 3) h)
                        in (Inr (), on_hub (post HandshakeOk) h)))"

section \<open>The responder\<close>

text \<open>What the task reads first: the generation it may replace, and whether that session is live.\<close>

record snap =
  rekey_generation :: "u64 option"
  replacing_live_session :: bool
  secondary_generation :: "u64 option"
  replaces_live :: bool

definition take_snap :: "bytes32 \<Rightarrow> 't net \<Rightarrow> snap" where
  "take_snap peer t =
     (let (rekey, replacing) = (if cached_peer_id t = Some peer then (Some (primary_session_generation t), has_session t)
                                else (None, False));
          secondary = (if rekey = None then session_generation_for peer t else None)
      in \<lparr>rekey_generation = rekey, replacing_live_session = replacing, secondary_generation = secondary,
          replaces_live = (replacing \<or> secondary \<noteq> None \<and> has_session_for peer t)\<rparr>)"

definition window_open :: "'t env \<Rightarrow> 't host \<Rightarrow> bool" where
  "window_open E h = (case pairing_window h of Some deadline \<Rightarrow> now E < deadline | None \<Rightarrow> False)"

definition answer_once :: "('h, 't) hs_env \<Rightarrow> bytes32 \<Rightarrow> bytes \<Rightarrow> 't host \<Rightarrow> bool \<times> 't host" where
  "answer_once R peer msg1 h =
     (if map_of (trusted (hub h)) peer \<noteq> None \<or> window_open (env_of R) h
      then let (first, a) = first_answer msg1 (answered (net (hub h)))
           in (first, on_net (\<lambda>t. t\<lparr>answered := a\<rparr>) h)
      else (True, h))"

text \<open>The entry, and whether it was trusted on first use just now.\<close>

definition resolve_trust ::
  "('h, 't) hs_env \<Rightarrow> bytes32 \<Rightarrow> bytes32 \<Rightarrow> sock_addr \<Rightarrow> 't host \<Rightarrow> (hs_error + trusted_peer \<times> bool) \<times> 't host" where
  "resolve_trust R peer pub from h =
     (case map_of (trusted (hub h)) peer of
        Some existing \<Rightarrow>
          (if tp_static_pub existing \<noteq> pub then (Inl KeyMismatch, h) else (Inr (existing, False), h))
      | None \<Rightarrow>
          (if \<not> window_open (env_of R) h then (Inl Refused, h)
           else if MAX_TOFU_TRUSTED_PEERS \<le> length (trusted (hub h)) then (Inl TrustFull, h)
           else let new_peer = tofu_trusted_peer pub;
                    hx = hexs (env_of R);
                    h' = on_hub (\<lambda>s. s\<lparr>trusted := hm_insert peer new_peer (trusted s)\<rparr>) h
                in if keystore_dir (hub h)
                   then (case upsert_peer_persist (disk_io R)
                           \<lparr>sp_id_hex = hex_encode hx peer, sp_pub_hex = hex_encode hx pub,
                            sp_name = tp_name new_peer, sp_addr = Some (Addr from)\<rparr> (peers_disk h) of
                           (True, f) \<Rightarrow> (Inr (new_peer, True), h'\<lparr>peers_disk := f\<rparr>)
                         | (False, f) \<Rightarrow> (Inl NotPersisted, on_hub (\<lambda>s. s\<lparr>trusted := hm_remove peer (trusted s)\<rparr>) (h'\<lparr>peers_disk := f\<rparr>)))
                   else (Inr (new_peer, True), h')))"

text \<open>
  The install. A session that may be replaced is replaced only if the peer is still trusted and the
  generation of the snapshot is current; \<open>ms\<close> happens between the two..
\<close>

definition commit_session ::
  "('h, 't) hs_env \<Rightarrow> snap \<Rightarrow> bytes32 \<Rightarrow> 't session \<Rightarrow> 't meddle list \<Rightarrow> 't host \<Rightarrow> bool \<times> 't host" where
  "commit_session R sn peer s ms h =
     (let replace = (\<lambda>g. if map_of (trusted (hub h)) peer = None then (False, h)
            else let h = meddle R ms h;
                     (ok, t) = install_session_if_generation_for (now_ms (env_of R)) peer s g (net (hub h))
                 in (ok, on_net (\<lambda>_. t) h))
      in case rekey_generation sn of
           Some g \<Rightarrow> replace g
         | None \<Rightarrow> (case secondary_generation sn of
             Some g \<Rightarrow> replace g
           | None \<Rightarrow> (let (ok, t) = try_install_session (now_ms (env_of R)) peer s (net (hub h)) in (ok, on_net (\<lambda>_. t) h))))"

definition responder_links ::
  "('h, 't) hs_env \<Rightarrow> snap \<Rightarrow> bytes32 \<Rightarrow> trusted_peer \<Rightarrow> bytes \<Rightarrow> sock_addr \<Rightarrow> (nat \<Rightarrow> 't meddle list) \<Rightarrow> 't host \<Rightarrow> (hs_error + unit) \<times> 't host" where
  "responder_links R sn peer entry msg2 from ms h =
     (let h = on_net (set_peer_info (now_ms (env_of R)) peer from) (meddle R (ms 5) h);
          h = (if replaces_live sn then on_hub (\<lambda>s. s\<lparr>counters := on_rekey (counters s)\<rparr>) h else h);
          h = persist_addr R peer from (meddle R (ms 6) h)
      in case send_typed R TYPE_HANDSHAKE_RESP msg2 from h of
           (False, h) \<Rightarrow> (Inl SendFailed, h)
         | (True, h) \<Rightarrow>
             (Inr (), on_hub (\<lambda>s. post HandshakeOk
                (if replacing_live_session sn then s else post (PeerSeen peer (tp_name entry)) s)) h))"

definition run_responder ::
  "('h, 't) hs_env \<Rightarrow> (nat \<Rightarrow> 't meddle list) \<Rightarrow> bytes \<Rightarrow> sock_addr \<Rightarrow> 't host \<Rightarrow> (hs_error + unit) \<times> 't host" where
  "run_responder R ms msg1 from h =
     (case responder_step (ik R) (self_id R) msg1 of
        Inl e \<Rightarrow> (Inl (Noise e), h)
      | Inr (s, msg2, rs) \<Rightarrow>
          (let peer = peer_id_for (blake3 (env_of R)) rs;
               sn = take_snap peer (net (hub h));
               (first, h) = answer_once R peer msg1 (meddle R (ms 0) h)
           in if \<not> first then (Inl Replayed, h)
              else case resolve_trust R peer rs from (meddle R (ms 1) h) of
                (Inl e, h) \<Rightarrow> (Inl e, h)
              | (Inr (entry, newly_tofu), h) \<Rightarrow>
                  (let h = meddle R (ms 2) h;
                       h = (if newly_tofu
                            then on_hub (insert_pending (env_of R) peer rs (tp_name entry) (sas_of s) from) h else h);
                       (installed, h) = commit_session R sn peer s (ms 4) (meddle R (ms 3) h)
                   in if \<not> installed then (Inr (), h) else responder_links R sn peer entry msg2 from ms h)))"

section \<open>The reaper\<close>

definition reap ::
  "('h, 't) hs_env \<Rightarrow> 't host \<Rightarrow> 't host" where
  "reap R h =
     (let E = env_of R; alive = (\<lambda>e. now E < pp_expires_at (snd e));
          expired = filter (\<lambda>e. \<not> alive e) (pending_pairs (hub h));
          h = on_hub (\<lambda>s. s\<lparr>pending_pairs := filter alive (pending_pairs s)\<rparr>) h
      in if expired = [] then h
         else let h = on_hub (post SasReset) h;
                  ids = map fst expired;
                  removed_trust = List.map_filter (\<lambda>i. map_option (Pair i) (map_of (trusted (hub h)) i)) ids;
                  h = on_hub (\<lambda>s. s\<lparr>trusted := fold hm_remove ids (trusted s)\<rparr>) h;
                  h = on_net (fold purge_peer ids) h
              in if \<not> keystore_dir (hub h) then h
                 else case save_peers_with_retry (hexs E) (disk_io R) (trusted (hub h)) (peers_disk h) of
                   (True, f) \<Rightarrow> h\<lparr>peers_disk := f\<rparr>
                 | (False, f) \<Rightarrow>
                     on_hub (\<lambda>s. s\<lparr>trusted := fold (\<lambda>(i, p). hm_insert i p) removed_trust (trusted s),
                                    pending_pairs := fold (\<lambda>(i, p) m. if map_of m i = None then hm_insert i p m else m)
                                      expired (pending_pairs s)\<rparr>) (h\<lparr>peers_disk := f\<rparr>))"

end
