(* ===== verification/Rehandshake.thy ===== *)
theory Rehandshake
  imports Handshake
begin

text \<open>
  What the generation of a session protects: a handshake that replaces a session of a peer whose trust is
  taken away while it runs installs nothing. Two corners it does not cover are shown by example.
\<close>

section \<open>Properties the data traffic does not touch\<close>

definition same_link :: "'t peer_conn \<Rightarrow> 't peer_conn \<Rightarrow> bool" where
  "same_link c c' \<longleftrightarrow> session_generation c' = session_generation c \<and> last_peer_id c' = last_peer_id c
     \<and> (pc_session c' = None \<longleftrightarrow> pc_session c = None)"

locale link_blind =
  fixes Q :: "'t net \<Rightarrow> bool"
  assumes upd: "Q t \<Longrightarrow> at_slot sl t = Some c \<Longrightarrow> same_link c (f c) \<Longrightarrow> Q (upd_slot sl f t)"
    and failures: "Q t \<Longrightarrow> Q (net.decrypt_failures_update (\<lambda>_. n) t)"
begin

lemma upd_any:
  assumes "Q t" and "\<And>c. at_slot sl t = Some c \<Longrightarrow> same_link c (f c)"
  shows "Q (upd_slot sl f t)"
proof (cases "at_slot sl t")
  case None
  then have "upd_slot sl f t = t" by (auto simp: at_slot_def upd_slot_def split: slot.splits)
  then show ?thesis using assms(1) by simp
next
  case (Some c)
  then show ?thesis using upd [OF assms(1) Some] assms(2) by blast
qed

lemma send:
  assumes q: "Q t"
  shows "Q (snd (send_encrypted_to ns i p t))"
proof -
  have "Q (upd_slot sl (\<lambda>c. c\<lparr>pc_session := Some s, bytes_since_established := g c\<rparr>) t)"
    if "at_slot sl t = Some c" "pc_session c = Some s0" for sl c s s0 g
    using that by (intro upd_any [OF q]) (simp add: same_link_def)
  then show ?thesis
    using q by (auto simp: send_encrypted_to_def send_on_def send_commit_def split: option.splits sum.splits prod.splits)
qed

lemma tries: "Q t \<Longrightarrow> Q (snd (try_decrypt ns b cs tried t))"
proof (induction ns b cs tried t rule: try_decrypt.induct)
  case (2 ns b i sl cs tried t)
  show ?case
  proof (cases "session_at sl t")
    case None
    then show ?thesis using 2(1) [OF None 2(3)] by simp
  next
    case (Some s)
    obtain r s' where d: "decrypt ns b s = (r, s')" by force
    have m: "Q (upd_slot sl (\<lambda>c. c\<lparr>pc_session := Some s'\<rparr>) t)"
      using Some by (intro upd_any [OF 2(3)]) (auto simp: session_at_def same_link_def)
    show ?thesis
    proof (cases r)
      case (Inl e)
      show ?thesis using 2(2) [OF Some d [symmetric] refl refl Inl m] by (simp add: Some d Inl)
    next
      case (Inr p)
      then show ?thesis using m by (simp add: Some d)
    qed
  qed
qed simp

lemma receive:
  assumes q: "Q t"
  shows "Q (snd (recv ns ms from d t))"
proof -
  have "Q (snd (recv_encrypted ns ms from b t))" for b
  proof -
    obtain r t1 where d: "try_decrypt ns b (candidates t) False t = (r, t1)" by force
    have m: "Q t1" using tries [OF q, of ns b "candidates t" False] d by simp
    have u: "Q (upd_slot sl (received_on ms from k) t1)" for sl k
      by (rule upd_any [OF m]) (simp add: same_link_def)
    show ?thesis using m u failures [OF m] by (auto simp: recv_encrypted_def d split: sum.splits recv_error.splits)
  qed
  then show ?thesis using q by (simp add: recv_def split: list.split)
qed

end

section \<open>The generation of the primary\<close>

definition ahead :: "u64 \<Rightarrow> nat \<Rightarrow> 't net \<Rightarrow> bool" where
  "ahead g n t \<longleftrightarrow> bt_wf (extra t) \<and> (\<exists>k\<le>n. session_generation (conn t) = g + of_nat k)"

interpretation ahead: link_blind "ahead g n"
  by unfold_locales (auto simp: ahead_def conn_upd_slot same_link_def at_slot_def)

lemma ahead_mono: "ahead g n t \<Longrightarrow> n \<le> m \<Longrightarrow> ahead g m t"
  by (auto simp: ahead_def intro: order_trans)

lemma ahead_upd:
  assumes "ahead g n t" and "\<And>c. session_generation (f c) = session_generation c \<or> session_generation (f c) = session_generation c + 1"
  shows "ahead g (Suc n) (upd_slot sl f t)"
proof -
  obtain k where k: "k \<le> n" "session_generation (conn t) = g + of_nat k" using assms(1) by (auto simp: ahead_def)
  have "session_generation (f (conn t)) = g + of_nat k \<or> session_generation (f (conn t)) = g + of_nat (Suc k)"
    using assms(2) [of "conn t"] k(2) by (auto simp: add.assoc add.commute)
  then have "\<exists>k\<le>Suc n. session_generation (f (conn t)) = g + of_nat k" using k(1) by (metis le_Suc_eq Suc_le_mono)
  then show ?thesis using assms(1) k by (auto simp: ahead_def conn_upd_slot intro: le_SucI)
qed

lemma ahead_acquire: "ahead g n t \<Longrightarrow> ahead g n (snd (acquire_conn ms i t))"
  by (simp add: ahead_def acquire_wf)

lemma ahead_info: "ahead g n t \<Longrightarrow> ahead g n (set_peer_info ms i a t)"
  using ahead_acquire [of g n t ms i]
  by (auto simp: set_peer_info_def case_prod_unfold Let_def ahead_def conn_upd_slot)

lemma ahead_stamp: "ahead g n t \<Longrightarrow> ahead g (Suc n) (upd_slot sl (stamp ms i s) t)"
  by (rule ahead_upd) (simp_all add: stamp_def)

lemma ahead_unlink: "ahead g n t \<Longrightarrow> ahead g (Suc n) (upd_slot sl unlink t)"
  by (rule ahead_upd) (simp_all add: unlink_def)

lemma ahead_drop: "ahead g n t \<Longrightarrow> ahead g (Suc n) (drop_session_for i t)"
  by (simp add: drop_session_for_def ahead_unlink ahead_mono [of g n _ "Suc n"] split: option.split)

lemma ahead_promote:
  assumes a: "ahead g n t"
  shows "ahead g (Suc n) (snd (promote_secondary ms t))"
proof (cases "live_extra t")
  case Nil
  then show ?thesis using ahead_mono [OF a] by (simp add: promote_secondary_def)
next
  case (Cons e es)
  obtain k where k: "k \<le> n" "session_generation (conn t) = g + of_nat k" using a by (auto simp: ahead_def)
  then have "\<exists>k\<le>Suc n. session_generation (conn t) + 1 = g + of_nat k" by (intro exI [of _ "Suc k"]) simp
  then show ?thesis using a
    by (cases e) (simp add: promote_secondary_def Cons Let_def ahead_def bt_wf_remove split: option.split)
qed

lemma ahead_step:
  assumes a: "ahead g n t"
  shows "ahead g (Suc n) (link_step ns x t)"
proof (cases x)
  case (LinkUp ms i s ad)
  have "ahead g (Suc n) (snd (try_install_session ms i s t))"
    using ahead_acquire [OF a] ahead_mono [OF ahead_acquire [OF a]] ahead_stamp [OF ahead_acquire [OF a]]
    by (simp add: try_install_session_def case_prod_unfold Let_def)
  then show ?thesis by (simp add: ahead_info LinkUp link_up_def case_prod_unfold Let_def)
next
  case (Relink ms i s g' ad)
  have "ahead g (Suc n) (snd (install_session_if_generation_for ms i s g' t))"
    using ahead_mono [OF a] ahead_stamp [OF a] by (simp add: install_session_if_generation_for_def split: option.split)
  then show ?thesis by (simp add: ahead_info Relink relink_def case_prod_unfold Let_def)
next
  case (Purge i)
  then show ?thesis using ahead_drop [OF a, of i] by (auto simp: purge_peer_def Let_def ahead_def bt_wf_remove)
qed (use a in \<open>simp_all add: ahead_drop drop_session_def ahead_unlink ahead_promote
      ahead_mono [OF ahead.send [OF a]] ahead_mono [OF ahead.receive [OF a]]\<close>)

section \<open>A revoked peer\<close>

text \<open>
  Once the revocation has purged the peer, its slot is gone, or it is the primary's and has moved on from
  the generation \<open>g\<close> by at least one. Steps of the others that do not link the peer keep it so.
\<close>

definition barred :: "bytes32 \<Rightarrow> u64 \<Rightarrow> nat \<Rightarrow> 't net \<Rightarrow> bool" where
  "barred p g n t \<longleftrightarrow> bt_wf (extra t) \<and> bt_get (extra t) p = None
     \<and> (last_peer_id (conn t) = Some p \<longrightarrow>
          pc_session (conn t) = None \<and> (\<exists>k. 1 \<le> k \<and> k \<le> n \<and> session_generation (conn t) = g + of_nat k))"

interpretation barred: link_blind "barred p g n"
  by unfold_locales (auto simp: barred_def conn_upd_slot same_link_def at_slot_def upd_slot_def bt_wf_insert bt_get_insert
      split: slot.splits option.splits)

lemma barred_mono: "barred p g n t \<Longrightarrow> n \<le> m \<Longrightarrow> barred p g m t"
  by (auto simp: barred_def intro: order_trans)

lemma extra_upd_slot: "bt_wf (extra t) \<Longrightarrow> bt_get (extra (upd_slot sl f t)) p = None \<longleftrightarrow> bt_get (extra t) p = None"
  by (auto simp: upd_slot_def bt_get_insert split: slot.split option.split)

lemma barred_unlink:
  assumes b: "barred p g n t"
  shows "barred p g (Suc n) (upd_slot sl unlink t)"
proof -
  have "\<exists>k\<ge>1. k \<le> Suc n \<and> session_generation (unlink (conn t)) = g + of_nat k \<and> pc_session (unlink (conn t)) = None"
    if l: "last_peer_id (conn t) = Some p"
  proof -
    obtain k where "1 \<le> k" "k \<le> n" "session_generation (conn t) = g + of_nat k" using b l by (auto simp: barred_def)
    then show ?thesis by (intro exI [of _ "Suc k"]) (simp add: unlink_def)
  qed
  moreover have "last_peer_id (unlink (conn t)) = last_peer_id (conn t)" by (simp add: unlink_def)
  ultimately show ?thesis using b by (auto simp: barred_def conn_upd_slot extra_upd_slot intro: le_SucI)
qed

lemma barred_drop: "barred p g n t \<Longrightarrow> barred p g (Suc n) (drop_session_for i t)"
  by (simp add: drop_session_for_def barred_unlink barred_mono [of p g n _ "Suc n"] split: option.split)

lemma barred_acquire: "barred p g n t \<Longrightarrow> i \<noteq> p \<Longrightarrow> barred p g n (snd (acquire_conn ms i t))"
  by (simp add: barred_def acquire_wf) (simp add: acquire_conn_def Let_def bt_get_insert)

text \<open>An update that names another peer as the one of its slot.\<close>

lemma barred_rename:
  "barred p g n t \<Longrightarrow> i \<noteq> p \<Longrightarrow> (\<And>c. last_peer_id (f c) = Some i) \<Longrightarrow> barred p g n (upd_slot sl f t)"
  by (auto simp: barred_def conn_upd_slot extra_upd_slot)

lemma barred_info: "barred p g n t \<Longrightarrow> i \<noteq> p \<Longrightarrow> barred p g n (set_peer_info ms i a t)"
  by (simp add: set_peer_info_def case_prod_unfold Let_def barred_rename barred_acquire)

lemma barred_stamp: "barred p g n t \<Longrightarrow> i \<noteq> p \<Longrightarrow> barred p g n (upd_slot sl (stamp ms i s) t)"
  by (rule barred_rename) (simp_all add: stamp_def)

lemma barred_promote:
  assumes b: "barred p g n t"
  shows "barred p g n (snd (promote_secondary ms t))"
proof (cases "live_extra t")
  case Nil
  then show ?thesis using b by (simp add: promote_secondary_def)
next
  case (Cons e es)
  obtain i c where e: "e = (i, c)" by force
  have "(i, c) \<in> set (extra t)" using Cons e by (auto simp: live_extra_def filter_eq_Cons_iff)
  then have "bt_get (extra t) i = Some c" using b bt_get_live by (auto simp: barred_def)
  then have "i \<noteq> p" using b by (auto simp: barred_def)
  then show ?thesis using b
    by (simp add: promote_secondary_def Cons e Let_def barred_def bt_wf_remove bt_get_remove split: option.split)
qed

fun harmless :: "bytes32 \<Rightarrow> 't meddle \<Rightarrow> bool" where
  "harmless p (Net (LinkUp _ i _ _)) \<longleftrightarrow> i \<noteq> p"
| "harmless p (Net (Relink _ i _ _ _)) \<longleftrightarrow> i \<noteq> p"
| "harmless p (Net _) \<longleftrightarrow> True"
| "harmless p (Trusts tr) \<longleftrightarrow> map_of tr p = None"
| "harmless p (Pendings _) \<longleftrightarrow> True"
| "harmless p (Window _) \<longleftrightarrow> True"

lemma barred_step:
  assumes b: "barred p g n t" and h: "harmless p (Net x)"
  shows "barred p g (Suc n) (link_step ns x t)"
proof (cases x)
  case (LinkUp ms i s ad)
  then have i: "i \<noteq> p" using h by simp
  have "barred p g n (snd (try_install_session ms i s t))"
    using barred_acquire [OF b i] barred_stamp [OF barred_acquire [OF b i] i]
    by (simp add: try_install_session_def case_prod_unfold Let_def)
  then have "barred p g n (link_step ns x t)" using i by (simp add: barred_info LinkUp link_up_def case_prod_unfold Let_def)
  then show ?thesis by (rule barred_mono) simp
next
  case (Relink ms i s g' ad)
  then have i: "i \<noteq> p" using h by simp
  have "barred p g n (snd (install_session_if_generation_for ms i s g' t))"
    using b barred_stamp [OF b i] by (simp add: install_session_if_generation_for_def split: option.split)
  then have "barred p g n (link_step ns x t)" using i by (simp add: barred_info Relink relink_def case_prod_unfold Let_def)
  then show ?thesis by (rule barred_mono) simp
next
  case (Purge i)
  then show ?thesis using barred_drop [OF b, of i] by (auto simp: purge_peer_def Let_def barred_def bt_wf_remove bt_get_remove)
qed (use b in \<open>simp_all add: barred_drop drop_session_def barred_unlink barred_mono [OF barred_promote [OF b]]
      barred_mono [OF barred.send [OF b]] barred_mono [OF barred.receive [OF b]]\<close>)

text \<open>The purge itself, and what it means for a replacing install.\<close>

lemma ahead_purge_barred:
  assumes a: "ahead g n t"
  shows "barred p g (Suc n) (purge_peer p t)"
proof -
  obtain k where k: "k \<le> n" "session_generation (conn t) = g + of_nat k" using a by (auto simp: ahead_def)
  then have "session_generation (conn t) + 1 = g + of_nat (Suc k)" by (simp add: add.commute add.left_commute)
  then have "\<exists>m\<ge>1. m \<le> Suc n \<and> session_generation (conn t) + 1 = g + of_nat m" using k(1) by (intro exI [of _ "Suc k"]) simp
  then show ?thesis using a
    by (auto simp: barred_def ahead_def purge_peer_def Let_def drop_session_for_def conn_for_def conn_upd_slot unlink_def
        bt_wf_remove bt_get_remove split: option.splits)
qed

lemma barred_refuses:
  assumes b: "barred p g n t" and n: "n < 2 ^ 64"
  shows "install_session_if_generation_for ms p s g t = (False, t)"
proof -
  have "of_nat k \<noteq> (0 :: u64)" if "1 \<le> k" "k \<le> n" for k
    using that n of_nat_u64_zero [of k] by (metis le_less_trans not_one_le_zero)
  then show ?thesis using b
    by (auto simp: install_session_if_generation_for_def conn_for_def barred_def at_slot_def split: option.split)
qed

section \<open>The steps of the others, and those of the task\<close>

definition net_ops :: "'t meddle list \<Rightarrow> 't link_op list" where
  "net_ops ms = List.map_filter (\<lambda>m. case m of Net x \<Rightarrow> Some x | _ \<Rightarrow> None) ms"

lemma net_ops_simps [simp]:
  "net_ops [] = []" "net_ops (Net x # ms) = x # net_ops ms" "net_ops (Trusts tr # ms) = net_ops ms"
  "net_ops (Pendings q # ms) = net_ops ms" "net_ops (Window w # ms) = net_ops ms" "net_ops (xs @ ys) = net_ops xs @ net_ops ys"
  by (simp_all add: net_ops_def List.map_filter_def)

lemma net_ops_length: "length (net_ops ms) \<le> length ms"
  by (simp add: net_ops_def List.map_filter_def)

lemma hub_on_net [simp]: "net (hub (on_net f h)) = f (net (hub h))" "trusted (hub (on_net f h)) = trusted (hub h)"
    "sent (on_net f h) = sent h" "sent (on_hub k h) = sent h" "hub (on_hub k h) = k (hub h)"
  by (simp_all add: on_net_def on_hub_def)

lemma meddle_step_net:
  "net (hub (meddle_step ns m h)) = fold (link_step ns) (net_ops [m]) (net (hub h))" "sent (meddle_step ns m h) = sent h"
  "map_of (trusted (hub h)) p = None \<Longrightarrow> harmless p m \<Longrightarrow> map_of (trusted (hub (meddle_step ns m h))) p = None"
  by (cases m; simp add: on_hub_def on_net_def)+

lemma meddle_net: "net (hub (meddle R ms h)) = fold (link_step (noise_lib (env_of R))) (net_ops ms) (net (hub h))"
proof (induction ms arbitrary: h)
  case (Cons m ms)
  have "net_ops (m # ms) = net_ops [m] @ net_ops ms" by (cases m) simp_all
  then show ?case using Cons by (simp add: meddle_def meddle_step_net(1))
qed (simp add: meddle_def)

lemma meddle_sent [simp]: "sent (meddle R ms h) = sent h"
  unfolding meddle_def by (induction ms arbitrary: h) (simp_all add: meddle_step_net(2))

lemma meddle_untrusted:
  "map_of (trusted (hub h)) p = None \<Longrightarrow> \<forall>x\<in>set ms. harmless p x \<Longrightarrow> map_of (trusted (hub (meddle R ms h))) p = None"
  unfolding meddle_def by (induction ms arbitrary: h) (simp_all add: meddle_step_net(3))

lemma meddle_append: "meddle R (xs @ ys) h = meddle R ys (meddle R xs h)"
  by (simp add: meddle_def)

lemma ahead_ops: "ahead g n t \<Longrightarrow> ahead g (n + length xs) (fold (link_step ns) xs t)"
proof (induction xs arbitrary: n t)
  case (Cons x xs)
  then show ?case using Cons.IH [OF ahead_step [OF Cons.prems, of ns x]] by simp
qed simp

lemma barred_ops:
  "barred p g n t \<Longrightarrow> \<forall>x\<in>set xs. harmless p (Net x) \<Longrightarrow> barred p g (n + length xs) (fold (link_step ns) xs t)"
proof (induction xs arbitrary: n t)
  case (Cons x xs)
  then show ?case using Cons.IH [OF barred_step [OF Cons.prems(1), of x ns]] by simp
qed simp

lemma harmless_ops: "\<forall>x\<in>set ms. harmless p x \<Longrightarrow> \<forall>x\<in>set (net_ops ms). harmless p (Net x)"
  by (auto simp: net_ops_def List.map_filter_def split: meddle.splits)

lemma insert_pending_keeps [simp]:
  "net (insert_pending E q pub nm sas from s) = net s" "trusted (insert_pending E q pub nm sas from s) = trusted s"
  by (simp_all add: insert_pending_def post_def log_fx_def)

lemma resolve_trust_keeps:
  "net (hub (snd (resolve_trust R q pub from h))) = net (hub h)" "sent (snd (resolve_trust R q pub from h)) = sent h"
  by (simp_all add: resolve_trust_def Let_def on_hub_def split: option.split prod.split bool.split)

lemma answer_once_keeps:
  "\<exists>a. net (hub (snd (answer_once R q m h))) = net (hub h)\<lparr>answered := a\<rparr>" "sent (snd (answer_once R q m h)) = sent h"
proof -
  have "\<exists>a. net (hub h) = net (hub h)\<lparr>answered := a\<rparr>" by (rule exI [of _ "answered (net (hub h))"]) simp
  then show "\<exists>a. net (hub (snd (answer_once R q m h))) = net (hub h)\<lparr>answered := a\<rparr>"
    by (auto simp: answer_once_def case_prod_unfold Let_def)
qed (simp add: answer_once_def case_prod_unfold Let_def)



abbreviation others :: "('h, 't) hs_env \<Rightarrow> 't meddle list \<Rightarrow> 't net \<Rightarrow> 't net" where
  "others R xs t \<equiv> fold (link_step (noise_lib (env_of R))) (net_ops xs) t"

lemma others_ahead: "ahead g n t \<Longrightarrow> ahead g (n + length xs) (others R xs t)"
  using ahead_mono [OF ahead_ops] net_ops_length [of xs] by (meson add_left_mono)

lemma untrusted_after:
  assumes "map_of tr p = None" and "\<forall>x\<in>set (b @ c). harmless p x"
  shows "map_of (trusted (hub (meddle R (a @ Trusts tr # b @ Net (Purge p) # c) h))) p = None"
proof -
  have "map_of (trusted (hub (meddle R (Trusts tr # b @ Net (Purge p) # c) (meddle R a h)))) p =
      map_of (trusted (hub (meddle R (b @ Net (Purge p) # c) (on_hub (\<lambda>s. s\<lparr>trusted := tr\<rparr>) (meddle R a h))))) p"
    by (simp add: meddle_def)
  also have "\<dots> = None" using assms by (intro meddle_untrusted) auto
  finally show ?thesis by (simp add: meddle_append)
qed

lemma revoke_bars:
  assumes t: "ahead g n t" and c: "\<forall>x\<in>set c. harmless p x"
  shows "barred p g (n + length (a @ Trusts tr # b @ Net (Purge p) # c)) (others R (a @ Trusts tr # b @ Net (Purge p) # c) t)"
proof -
  have "barred p g (Suc (n + length (a @ b))) (purge_peer p (others R (a @ b) t))"
    using t by (intro ahead_purge_barred others_ahead)
  from barred_ops [OF this harmless_ops [OF c], of "noise_lib (env_of R)"]
  have "barred p g (Suc (n + length (a @ b)) + length (net_ops c)) (others R (a @ Trusts tr # b @ Net (Purge p) # c) t)" by simp
  then show ?thesis using net_ops_length [of c] by (elim barred_mono) simp
qed

lemma commit_refused:
  assumes sn: "rekey_generation sn = Some g" and t: "ahead g n (net (hub h))" and n: "n + length ms < 2 ^ 64"
    and r: "map_of (trusted (hub h)) p = None
      \<or> (ms = a @ Trusts tr # b @ Net (Purge p) # c \<and> (\<forall>x\<in>set c. harmless p x))"
  shows "\<exists>h'. commit_session R sn p s ms h = (False, h') \<and> sent h' = sent h
    \<and> (net (hub h') = net (hub h) \<or> net (hub h') = others R ms (net (hub h)))"
proof (cases "map_of (trusted (hub h)) p")
  case None
  then show ?thesis by (simp add: commit_session_def sn)
next
  case (Some tp)
  then have ms: "ms = a @ Trusts tr # b @ Net (Purge p) # c" and c: "\<forall>x\<in>set c. harmless p x" using r by simp_all
  have "barred p g (n + length ms) (net (hub (meddle R ms h)))"
    unfolding meddle_net ms by (rule revoke_bars [OF t c])
  then have "install_session_if_generation_for (now_ms (env_of R)) p s g (net (hub (meddle R ms h))) = (False, net (hub (meddle R ms h)))"
    using n by (rule barred_refuses)
  then show ?thesis using Some by (simp add: commit_session_def sn meddle_net)
qed


section \<open>Two corners\<close>

definition demo_ik :: "(unit, unit) snow" where
  "demo_ik = \<lparr>parse_pattern = Inr (), build_initiator = \<lambda>_ _. Inr (), build_responder = \<lambda>_. Inr (), hs_write = \<lambda>_. Inr ([], ()),
     hs_read = \<lambda>_ _. Inr (), hs_hash = \<lambda>_. replicate 32 0, remote_static = \<lambda>_. Some (replicate 32 9), into_transport = \<lambda>_. Inr ()\<rparr>"

definition demo_R :: "(unit, unit) hs_env" where
  "demo_R = \<lparr>env_of = demo_env, ik = demo_ik, self_id = \<lparr>id_secret = [], id_public = []\<rparr>, disk_io = \<lambda>_. True, udp_ok = True\<rparr>"

definition demo_host :: "unit link_op list \<Rightarrow> trust \<Rightarrow> unit host" where
  "demo_host xs tr = \<lparr>hub = demo_shared\<lparr>net := fold (link_step quiet_noise) xs (net_new 0), trusted := tr\<rparr>,
     pairing_window = Some 90, peers_disk = Missing, sent = []\<rparr>"

definition demo_key :: bytes32 where
  "demo_key = replicate 32 9"

definition demo_peer :: trusted_peer where
  "demo_peer = \<lparr>tp_static_pub = demo_key, tp_name = []\<rparr>"

text \<open>All peers of the demo have the id \<open>[9]\<close>.\<close>

definition demo_msg1 :: bytes where
  "demo_msg1 = replicate 96 1"

lemma demo_R_sel [simp]:
  "env_of demo_R = demo_env" "disk_io demo_R = (\<lambda>_. True)" "udp_ok demo_R = True"
  by (simp_all add: demo_R_def)

lemma demo_step: "responder_step (ik demo_R) (self_id demo_R) demo_msg1 = Inr (session_new () (replicate 32 0), [], demo_key)"
  by (simp add: responder_step_def demo_R_def demo_ik_def finished_session_def snapshot_hash_def demo_key_def)

lemma demo_id: "peer_id_for (\<lambda>_. [9]) demo_key = [9]"
  by (simp add: peer_id_for_def ring_hash_def)

lemma demo_first: "first_answer demo_msg1 answered_default = (True, \<lparr>ai_seen = [replicate 32 1], ai_order = [replicate 32 1]\<rparr>)"
  by (simp add: first_answer_def answer_ephemeral_def demo_msg1_def answered_default_def ANSWERED_CAP_def)

lemmas demo_run = run_responder_def demo_step demo_id answer_once_def resolve_trust_def take_snap_def commit_session_def
  responder_links_def window_open_def meddle_def on_net_def on_hub_def demo_host_def demo_shared_def shared_new_def
  demo_peer_def link_eval demo_first purge_peer_def drop_session_for_def conn_for_def upd_slot_def unlink_def
  cached_peer_id_def primary_session_generation_def has_session_def session_generation_for_def read_for_def at_slot_def
  install_session_if_generation_for_def persist_addr_def persist_last_addr_def send_typed_def post_def log_fx_def
  tofu_trusted_peer_def MAX_TOFU_TRUSTED_PEERS_def insert_pending_def make_pending_room_def MAX_PENDING_PAIRS_def
  linked_peer_ids_def live_extra_def promote_secondary_def demo_session_def session_new_def session_at_def stamp_def
  acquire_conn_def set_peer_info_def push_history_def has_session_for_def conn_new_def bt_remove_def

text \<open>
  A peer met for the first time has no generation to compare: revoked before its first session is
  installed, it is linked all the same, though it is no longer trusted.
\<close>

lemma revoked_first_link_comes_up:
  "let h = snd (run_responder demo_R (\<lambda>k. if k = 3 then [Trusts [], Net (Purge [9])] else []) demo_msg1 ([10, 0, 0, 9], 9) (demo_host [] []))
   in linked_peer_ids (net (hub h)) = [[9]] \<and> trusted (hub h) = []"
  by (simp add: demo_run)

text \<open>
  The generations of two slots are compared as if they were one count: a secondary whose session is
  expected at generation 4 is promoted, revoked, and then found at generation 4 of the primary slot.
\<close>

lemma failover_confuses_generations:
  "let h = snd (run_responder demo_R (\<lambda>k. if k = 4 then [Net (Drop [8]), Net (Promote 7), Trusts [], Net (Purge [9])] else [])
       demo_msg1 ([10, 0, 0, 9], 9)
       (demo_host [LinkUp 5 [8] (demo_session 8) ([10, 0, 0, 8], 9), LinkUp 6 [9] (demo_session 9) ([10, 0, 0, 9], 9),
                   Drop [9], LinkUp 6 [9] (demo_session 9) ([10, 0, 0, 9], 9),
                   Relink 6 [9] (demo_session 9) 3 ([10, 0, 0, 9], 9)] [([9], demo_peer)]))
   in linked_peer_ids (net (hub h)) = [[9]] \<and> trusted (hub h) = []"
  by (simp add: demo_run)

section \<open>Witness\<close>

text \<open>The peer of the primary handshakes again. Undisturbed, it is answered; revoked just before the install, it is not.\<close>

definition demo_linked :: "unit host" where
  "demo_linked = demo_host [LinkUp 6 [9] (demo_session 9) ([10, 0, 0, 9], 9)] [([9], demo_peer)]"

lemma rehandshake_is_answered: "sent (snd (run_responder demo_R (\<lambda>_. []) demo_msg1 ([10, 0, 0, 9], 9) demo_linked)) \<noteq> []"
  by (simp add: demo_linked_def demo_run)


end
