(* ===== verification/Expiry.thy ===== *)
theory Expiry
  imports Rehandshake
begin

text \<open>
  The end of a pairing nobody confirmed: the reaper takes its trust away, in memory and on disk, and its
  session. And the gap before: until then the trust is on disk, and a restart forgets that it was pending.
\<close>

section \<open>The sweep\<close>

lemma purged_unlinked:
  assumes b: "barred p g n t"
  shows "p \<notin> set (linked_peer_ids t)"
proof -
  have wf: "bt_wf (extra t)" and x: "session_at (Extra p) t = None" using b by (simp_all add: barred_def session_extra)
  have "p \<notin> fst ` set (live_extra t)" unfolding live_extra_iff [OF wf] by (simp add: x)
  moreover have "last_peer_id (conn t) = Some p \<Longrightarrow> pc_session (conn t) = None" using b by (simp add: barred_def)
  ultimately show ?thesis
    unfolding linked_peer_ids_def by (cases "last_peer_id (conn t)"; cases "pc_session (conn t)") auto
qed

lemma purge_all:
  assumes wf: "bt_wf (extra t)" and p: "p \<in> set ids"
  shows "p \<notin> set (linked_peer_ids (fold purge_peer ids t))"
proof -
  obtain xs ys where ids: "ids = xs @ p # ys" using p by (auto simp: in_set_conv_decomp)
  have f: "fold purge_peer zs t' = fold (link_step ns) (map Purge zs) t'" for zs t' and ns :: "'a noise"
    by (induction zs arbitrary: t') simp_all
  let ?ns = "undefined :: 'a noise" and ?g = "session_generation (conn t)"
  have "ahead ?g 0 t" using wf by (simp add: ahead_def)
  then have "ahead ?g (0 + length (map Purge xs :: 'a link_op list)) (fold (link_step ?ns) (map Purge xs) t)"
    by (rule ahead_ops)
  from barred_ops [OF ahead_purge_barred [OF this], of "map Purge ys" p ?ns]
  show ?thesis by (simp add: ids f [of _ _ ?ns, symmetric] purged_unlinked)
qed

lemma fold_remove: "fold hm_remove ids m = filter (\<lambda>e. fst e \<notin> set ids) m"
  by (induction ids arbitrary: m) (auto simp: hm_remove_def intro!: filter_cong)

lemma trust_ok_filter: "trust_ok b3 tr \<Longrightarrow> trust_ok b3 (filter P tr)"
  by (auto simp: trust_ok_def distinct_map intro: inj_on_subset)

lemma map_of_filter_keys: "map_of (filter (\<lambda>e. fst e \<notin> A) m) i = (if i \<in> A then None else map_of m i)"
  by (induction m) auto

text \<open>What a sweep that saves leaves behind.\<close>

lemma reap_saved:
  assumes "keystore_dir (hub h)" and "\<exists>k<3. disk_io R k"
    and "expired = map fst (filter (\<lambda>e. \<not> now (env_of R) < pp_expires_at (snd e)) (pending_pairs (hub h)))" and "expired \<noteq> []"
  shows "trusted (hub (reap R h)) = filter (\<lambda>e. fst e \<notin> set expired) (trusted (hub h))"
    and "pending_pairs (hub (reap R h)) = filter (\<lambda>e. now (env_of R) < pp_expires_at (snd e)) (pending_pairs (hub h))"
    and "net (hub (reap R h)) = fold purge_peer expired (net (hub h))"
    and "peers_disk (reap R h) = Peers (map (stored_of (hexs (env_of R)) (peers_disk h)) (filter (\<lambda>e. fst e \<notin> set expired) (trusted (hub h))))"
  using assms by (auto simp: reap_def Let_def on_net_def on_hub_def post_def log_fx_def save_with_retry fold_remove)

text \<open>
  C24: A pairing nobody confirms does not last. When the reaper finds a pending pair past its window and can
  write the disk, the peer is pending, trusted and linked no more, and the daemon does not trust it after
  its next restart either; whoever is not expired keeps its trust, before and after that restart.
\<close>

theorem unconfirmed_pairing_expires:
  assumes e: "(p, pp) \<in> set (pending_pairs (hub h))" "pp_expires_at pp \<le> now (env_of R)"
    and disk: "keystore_dir (hub h)" "\<exists>k<3. disk_io R k" and hx: "hex_roundtrip (hexs (env_of R))"
    and tr: "trust_ok b3 (trusted (hub h))" and few: "length (trusted (hub h)) \<le> MAX_PERSISTED_PEERS"
    and wf: "bt_wf (extra (net (hub h)))" and pend: "distinct (map fst (pending_pairs (hub h)))"
  shows "map_of (pending_pairs (hub (reap R h))) p = None \<and> map_of (trusted (hub (reap R h))) p = None
    \<and> p \<notin> set (linked_peer_ids (net (hub (reap R h))))
    \<and> map_of (boot_trust b3 (hexs (env_of R)) (peers_disk (reap R h))) p = None
    \<and> (\<forall>q. (\<forall>e\<in>set (pending_pairs (hub h)). fst e = q \<longrightarrow> now (env_of R) < pp_expires_at (snd e)) \<longrightarrow>
         map_of (trusted (hub (reap R h))) q = map_of (trusted (hub h)) q
         \<and> map_of (boot_trust b3 (hexs (env_of R)) (peers_disk (reap R h))) q = map_of (trusted (hub h)) q)"
proof -
  let ?ids = "map fst (filter (\<lambda>e. \<not> now (env_of R) < pp_expires_at (snd e)) (pending_pairs (hub h)))"
  have p: "p \<in> set ?ids" using e by force
  then have ne: "?ids \<noteq> []" by (metis empty_iff empty_set)
  note r = reap_saved [OF disk refl ne]
  have t: "map_of (trusted (hub (reap R h))) q = (if q \<in> set ?ids then None else map_of (trusted (hub h)) q)" for q
    unfolding r(1) by (rule map_of_filter_keys)
  have "length (filter (\<lambda>e. fst e \<notin> set ?ids) (trusted (hub h))) \<le> MAX_PERSISTED_PEERS"
    using few length_filter_le le_trans by blast
  then have b: "map_of (boot_trust b3 (hexs (env_of R)) (peers_disk (reap R h))) = map_of (trusted (hub (reap R h)))"
    unfolding r(4) r(1) by (rule boot_after_save [OF hx trust_ok_filter [OF tr]])
  have "fst e \<noteq> p" if "e \<in> set (filter (\<lambda>e. now (env_of R) < pp_expires_at (snd e)) (pending_pairs (hub h)))" for e
  proof
    assume "fst e = p"
    then have "(p, snd e) \<in> set (pending_pairs (hub h))" "now (env_of R) < pp_expires_at (snd e)" using that by auto
    then show False using eq_key_imp_eq_value [OF pend assms(1)] assms(2) by simp
  qed
  then have "map_of (pending_pairs (hub (reap R h))) p = None" unfolding r(2) map_of_eq_None_iff by blast
  moreover have "p \<notin> set (linked_peer_ids (net (hub (reap R h))))" unfolding r(3) by (rule purge_all [OF wf p])
  moreover have "q \<notin> set ?ids" if "\<forall>e\<in>set (pending_pairs (hub h)). fst e = q \<longrightarrow> now (env_of R) < pp_expires_at (snd e)" for q
    using that by auto
  ultimately show ?thesis using p by (simp add: t b del: set_map)
qed

definition demo_expired :: "unit host" where
  "demo_expired = (demo_host [LinkUp 6 [9] (demo_session 9) ([10, 0, 0, 9], 9)] [([9], demo_peer)])
     \<lparr>hub := (hub (demo_host [LinkUp 6 [9] (demo_session 9) ([10, 0, 0, 9], 9)] [([9], demo_peer)]))
        \<lparr>keystore_dir := True, pending_pairs := [([9], \<lparr>pp_static_pub = demo_key, pp_name = [], pp_sas_words = [],
           pp_from = ([10, 0, 0, 9], 9), pp_expires_at = 0\<rparr>)]\<rparr>\<rparr>"

definition demo_disk :: "(unit, unit) hs_env" where
  "demo_disk = demo_R\<lparr>env_of := demo_env\<lparr>hexs := full_hex\<rparr>\<rparr>"

theorem unconfirmed_pairing_expires_witness:
  "linked_peer_ids (net (hub demo_expired)) = [[9]] \<and> [9] \<notin> set (linked_peer_ids (net (hub (reap demo_disk demo_expired))))
   \<and> map_of (boot_trust (\<lambda>_. [9]) full_hex (peers_disk (reap demo_disk demo_expired))) [9] = None"
proof -
  have tr: "trust_ok (\<lambda>_. [9]) (trusted (hub demo_expired))"
    by (simp add: demo_expired_def demo_host_def trust_ok_def demo_peer_def demo_id is32_def demo_key_def demo_key_valid [simplified])
      (simp add: peer_id_for_def ring_hash_def)
  have l: "linked_peer_ids (net (hub demo_expired)) = [[9]]"
    by (simp add: demo_expired_def demo_host_def link_eval linked_peer_ids_def live_extra_def)
  have "bt_wf (extra (net (hub demo_expired)))" by (simp add: demo_expired_def demo_host_def link_eval bt_wf_def)
  moreover have "([9], \<lparr>pp_static_pub = demo_key, pp_name = [], pp_sas_words = [], pp_from = ([10, 0, 0, 9], 9), pp_expires_at = 0\<rparr>)
      \<in> set (pending_pairs (hub demo_expired))" "distinct (map fst (pending_pairs (hub demo_expired)))"
    "keystore_dir (hub demo_expired)" "length (trusted (hub demo_expired)) \<le> MAX_PERSISTED_PEERS"
    by (simp_all add: demo_expired_def demo_host_def MAX_PERSISTED_PEERS_def)
  moreover have "\<exists>k<3. disk_io demo_disk k" "hex_roundtrip (hexs (env_of demo_disk))" "hexs (env_of demo_disk) = full_hex" "now (env_of demo_disk) = 0"
    by (auto simp: demo_disk_def full_hex_roundtrip intro!: exI [of _ 0])
  ultimately show ?thesis
    using unconfirmed_pairing_expires [of "[9]" _ demo_expired demo_disk "\<lambda>_. [9]"] tr l by simp
qed

section \<open>What a restart does to it\<close>

text \<open>
  The trust of a first use is on disk from the start, the pending pair is not: a daemon that restarts
  before the confirmation trusts the peer, with no pending pair that could expire.
\<close>

lemma tofu_survives_restart:
  assumes r: "resolve_trust R p pub from h = (Inr (entry, True), h')" and "keystore_dir (hub h)"
    and hx: "hex_roundtrip (hexs (env_of R))" and key: "is32 pub" "validate_peer_pubkey pub = Inr ()" "p = peer_id_for b3 pub"
    and few: "load_peers (peers_disk h) = Some ps" "length ps < MAX_PERSISTED_PEERS"
  shows "map_of (boot_trust b3 (hexs (env_of R)) (peers_disk h')) p \<noteq> None"
proof -
  let ?hx = "hexs (env_of R)"
  let ?e = "\<lparr>sp_id_hex = hex_encode ?hx p, sp_pub_hex = hex_encode ?hx pub, sp_name = TOFU_PLACEHOLDER_NAME, sp_addr = Some (Addr from)\<rparr>"
  have d: "peers_disk h' = Peers (upsert_peer ?e ps)"
    using r assms(2) few(1)
    by (auto simp: resolve_trust_def Let_def tofu_trusted_peer_def upsert_persist on_hub_def split: option.splits if_splits)
  have "load_entry b3 ?hx ?e = Some (p, \<lparr>tp_static_pub = pub, tp_name = TOFU_PLACEHOLDER_NAME\<rparr>, Some from)"
    using hx key by (simp add: load_entry_def decode_hex32_def hex_roundtrip_def is32_def)
  moreover have "length (upsert_peer ?e ps) \<le> MAX_PERSISTED_PEERS"
    using few(2) by (simp add: upsert_peer_def Suc_le_eq le_less_trans [OF length_filter_le])
  then have "length (List.map_filter (load_entry b3 ?hx) (upsert_peer ?e ps)) \<le> MAX_PERSISTED_PEERS"
    by (simp add: List.map_filter_def le_trans [OF length_filter_le])
  ultimately have "(p, \<lparr>tp_static_pub = pub, tp_name = TOFU_PLACEHOLDER_NAME\<rparr>, Some from) \<in> set (load_trusted_peers b3 ?hx (peers_disk h'))"
    by (simp add: d load_trusted_peers_def load_peers_def) (force simp: upsert_peer_def List.map_filter_def)
  then have "p \<in> fst ` set (rev (map (\<lambda>(i, tp, _). (i, tp)) (load_trusted_peers b3 ?hx (peers_disk h'))))" by force
  then have "map_of (rev (map (\<lambda>(i, tp, _). (i, tp)) (load_trusted_peers b3 ?hx (peers_disk h')))) p \<noteq> None"
    unfolding map_of_eq_None_iff by blast
  then show ?thesis unfolding boot_trust_def map_of_boot by (simp split: option.split)
qed

end
