(* ===== verification/Liveness.thy ===== *)
theory Liveness
  imports Handshake
begin

text \<open>
  \<open>driver/liveness.rs\<close>: the heartbeat of every three seconds with its timeouts, and the watchdog that rotates
  the keys of old sessions.
\<close>

section \<open>Heartbeats\<close>

record beats =
  missed_pings :: nat
  secondary_missed :: "(bytes32, nat) hmap"

definition beats_new :: beats where
  "beats_new = \<lparr>missed_pings = 0, secondary_missed = []\<rparr>"

text \<open>\<open>transport.send_encrypted\<close>: to whoever holds the primary slot.\<close>

definition send_primary :: "'t env \<Rightarrow> bytes \<Rightarrow> 't shared \<Rightarrow> 't shared" where
  "send_primary E b sh =
     (let (r, t) = send_encrypted (noise_lib E) b (net sh) in
      log_fx (effect.Send (case cached_peer_id (net sh) of Some i \<Rightarrow> i | None \<Rightarrow> []) b) (sh\<lparr>net := t\<rparr>))"

definition ping_bytes :: "'t env \<Rightarrow> bytes option" where
  "ping_bytes E = (case encode (cbor_ser E) (proto_frame (Heartbeat 0 None)) of Inr b \<Rightarrow> Some b | Inl _ \<Rightarrow> None)"

definition ping_primary :: "'t env \<Rightarrow> u8 \<Rightarrow> bool \<Rightarrow> 't shared \<Rightarrow> 't shared" where
  "ping_primary E batt on_mains sh =
     (let sh = (case ping_bytes E of
                  Some b \<Rightarrow> send_primary E b (sh\<lparr>counters := on_heartbeat_sent (now E) (counters sh)\<rparr>) | None \<Rightarrow> sh)
      in if batt = 255 then sh
         else case encode (cbor_ser E) (proto_frame (BatteryStatus 0 batt on_mains)) of
                Inr b \<Rightarrow> send_primary E b sh | Inl _ \<Rightarrow> sh)"

definition silent :: "'t env \<Rightarrow> millis \<Rightarrow> bool" where
  "silent E last_rx \<longleftrightarrow> 3000 < now_ms E - last_rx"

definition primary_timeout :: "'t env \<Rightarrow> 't shared \<Rightarrow> 't shared" where
  "primary_timeout E sh =
     (let sh = sh\<lparr>counters := on_disconnect HeartbeatTimeout (counters sh)\<rparr>;
          dead_peer = cached_peer_id (net sh);
          sh = (case dead_peer of Some i \<Rightarrow> session_ended E i (session_established_at_ms (conn (net sh))) sh | None \<Rightarrow> sh);
          sh = sh\<lparr>net := set_last_rx (now_ms E) (net sh)\<rparr>;
          (failed_over, sh) = try_primary_failover E sh
      in if failed_over then sh else case dead_peer of Some i \<Rightarrow> post (PeerLost i) sh | None \<Rightarrow> sh)"

definition primary_beat :: "'t env \<Rightarrow> u8 \<Rightarrow> bool \<Rightarrow> nat \<Rightarrow> 't shared \<Rightarrow> nat \<times> 't shared" where
  "primary_beat E batt on_mains m sh =
     (if \<not> has_session (net sh) then (m, sh)
      else let sh = ping_primary E batt on_mains sh in
           if silent E (last_rx_ms (conn (net sh)))
           then let sh = sh\<lparr>counters := on_heartbeat_missed (counters sh)\<rparr> in
                if 3 \<le> m + 1 then (0, primary_timeout E sh) else (m + 1, sh)
           else (0, sh))"

definition secondary_timeout :: "'t env \<Rightarrow> bytes32 \<Rightarrow> 't shared \<Rightarrow> 't shared" where
  "secondary_timeout E i sh =
     (let sh = (case session_established_at_for i (net sh) of Some t \<Rightarrow> session_ended E i t sh | None \<Rightarrow> sh)
      in post MeshPeersChanged (post (PeerRevoked i) (sh\<lparr>net := drop_session_for i (net sh)\<rparr>)))"

definition secondary_beat :: "'t env \<Rightarrow> bytes32 \<times> millis \<Rightarrow> (bytes32, nat) hmap \<times> 't shared \<Rightarrow> (bytes32, nat) hmap \<times> 't shared" where
  "secondary_beat E e ms =
     (let (i, last_rx) = e; (m, sh) = ms;
          sh = (case ping_bytes E of Some b \<Rightarrow> snd (send_to E i b sh) | None \<Rightarrow> sh)
      in if silent E last_rx
         then let n = (case map_of m i of Some n \<Rightarrow> n | None \<Rightarrow> 0) + 1 in
              if 3 \<le> n then (hm_remove i m, secondary_timeout E i sh) else (hm_insert i n m, sh)
         else (hm_remove i m, sh))"

definition heartbeat_tick :: "'t env \<Rightarrow> u8 \<Rightarrow> bool \<Rightarrow> beats \<Rightarrow> 't shared \<Rightarrow> beats \<times> 't shared" where
  "heartbeat_tick E batt on_mains hb sh =
     (let (m, sh) = primary_beat E batt on_mains (missed_pings hb) sh;
          secondaries = secondary_liveness (net sh);
          kept = filter (\<lambda>e. fst e \<in> fst ` set secondaries) (secondary_missed hb);
          (sm, sh) = fold (secondary_beat E) secondaries (kept, sh)
      in (\<lparr>missed_pings = m, secondary_missed = sm\<rparr>, sh))"

section \<open>Key rotation\<close>

text \<open>What a started rotation runs with.\<close>

record rekey_job =
  rk_peer :: bytes32
  rk_static_pub :: bytes32
  rk_addr :: sock_addr
  rk_generation :: u64
  rk_uptime :: duration

text \<open>
  The scan of one tick: \<open>busy\<close> is the slot of the one handshake in flight. A peer whose entry turns out
  incomplete frees the slot again.
\<close>

fun rekey_scan ::
  "'t env \<Rightarrow> bytes32 \<Rightarrow> millis \<Rightarrow> u64 \<Rightarrow> bool \<Rightarrow> bytes32 list \<Rightarrow> 't shared \<Rightarrow> bool \<times> rekey_job option" where
  "rekey_scan E self max_age max_bytes busy [] sh = (busy, None)"
| "rekey_scan E self max_age max_bytes busy (i # is) sh =
     (case session_established_at_for i (net sh) of
        None \<Rightarrow> rekey_scan E self max_age max_bytes busy is sh
      | Some est \<Rightarrow>
          (let age = now_ms E - est;
               b = (case session_bytes_for i (net sh) of Some b \<Rightarrow> b | None \<Rightarrow> 0)
           in if \<not> rekey_due age b max_age max_bytes then rekey_scan E self max_age max_bytes busy is sh
              else if \<not> is_rekey_initiator self i then rekey_scan E self max_age max_bytes busy is sh
              else if busy then (True, None)
              else case (peer_addr_for i (net sh), map_of (trusted sh) i, session_generation_for i (net sh)) of
                (Some a, Some tp, Some g) \<Rightarrow>
                  (True, Some \<lparr>rk_peer = i, rk_static_pub = tp_static_pub tp, rk_addr = a, rk_generation = g, rk_uptime = from_millis age\<rparr>)
              | _ \<Rightarrow> rekey_scan E self max_age max_bytes False is sh))"

definition rekey_tick :: "'t env \<Rightarrow> bytes32 \<Rightarrow> millis \<Rightarrow> u64 \<Rightarrow> bool \<Rightarrow> 't shared \<Rightarrow> bool \<times> rekey_job option" where
  "rekey_tick E self max_age max_bytes busy sh = rekey_scan E self max_age max_bytes busy (linked_peer_ids (net sh)) sh"

text \<open>The rotation itself; it frees the slot when it ends.\<close>

definition rekey_run ::
  "('h, 't) hs_env \<Rightarrow> (nat \<Rightarrow> 't meddle list) \<Rightarrow> (sock_addr \<times> bytes) list \<Rightarrow> rekey_job \<Rightarrow> 't host \<Rightarrow> bool \<times> 't host" where
  "rekey_run R ms incoming j h =
     (case run_rekey_initiator R ms incoming (rk_static_pub j) (rk_addr j) (rk_peer j) (rk_generation j) h of
        (Inr _, h) \<Rightarrow>
          (False, on_hub (\<lambda>s. s\<lparr>backoffs := hm_insert (rk_peer j)
             (on_session_ended (rk_uptime j) (case map_of (backoffs s) (rk_peer j) of Some b \<Rightarrow> b | None \<Rightarrow> backoff_new)) (backoffs s)\<rparr>) h)
      | (Inl _, h) \<Rightarrow> (False, on_hub (\<lambda>s. s\<lparr>counters := on_handshake_fail (counters s)\<rparr>) h))"

text \<open>A rotation starts only if none is in flight, on the side that starts it, for a due and trusted peer.\<close>

lemma rekey_job_sound:
  "rekey_scan E self max_age max_bytes busy is sh = (b, Some j) \<Longrightarrow>
     \<not> busy \<and> b \<and> rk_peer j \<in> set is \<and> is_rekey_initiator self (rk_peer j)
     \<and> map_option tp_static_pub (map_of (trusted sh) (rk_peer j)) = Some (rk_static_pub j)
     \<and> session_generation_for (rk_peer j) (net sh) = Some (rk_generation j)"
  by (induction "is" arbitrary: busy) (auto simp: Let_def split: option.splits if_splits)

section \<open>When a peer is given up\<close>

text \<open>What a tick sees of the primary: nothing, or whether it is silent; and whether a step reports its loss.\<close>

definition sees :: "'t env \<Rightarrow> 't shared \<Rightarrow> bool option" where
  "sees E sh = (if has_session (net sh) then Some (silent E (last_rx_ms (conn (net sh)))) else None)"

fun reports_loss :: "effect \<Rightarrow> bool" where
  "reports_loss (Post (PeerLost _)) \<longleftrightarrow> True"
| "reports_loss (Post (PrimaryFailover _ _ _ _)) \<longleftrightarrow> True"
| "reports_loss _ \<longleftrightarrow> False"

definition gave_up :: "'t shared \<Rightarrow> 't shared \<Rightarrow> bool" where
  "gave_up sh sh' \<longleftrightarrow> list_ex reports_loss (drop (length (fx sh)) (fx sh'))"

definition quiet :: "'t shared \<Rightarrow> 't shared \<Rightarrow> bool" where
  "quiet sh sh' \<longleftrightarrow> (\<exists>es. fx sh' = fx sh @ es \<and> \<not> list_ex reports_loss es)"

lemma quiet_refl: "fx sh' = fx sh \<Longrightarrow> quiet sh sh'"
  by (simp add: quiet_def)

lemma quiet_trans: "quiet a b \<Longrightarrow> quiet b c \<Longrightarrow> quiet a c"
  by (auto simp: quiet_def)

lemma gave_up_quiet: "quiet a b \<Longrightarrow> gave_up b c \<longleftrightarrow> gave_up a c" if "\<exists>es. fx c = fx b @ es"
  using that by (auto simp: quiet_def gave_up_def)

lemma gave_up_then_quiet: "\<exists>es. fx b = fx a @ es \<Longrightarrow> quiet b c \<Longrightarrow> gave_up a c \<longleftrightarrow> gave_up a b"
  by (auto simp: quiet_def gave_up_def)

lemma quiet_log: "\<not> reports_loss e \<Longrightarrow> quiet sh (log_fx e sh)"
  by (simp add: quiet_def log_fx_def)

lemma quiet_send_primary: "quiet sh (send_primary E b sh)"
  by (simp add: send_primary_def case_prod_unfold Let_def quiet_def log_fx_def)

lemma quiet_send_to: "quiet sh (snd (send_to E i b sh))"
  by (simp add: send_to_def case_prod_unfold quiet_def log_fx_def)

lemma quiet_ping: "quiet sh (ping_primary E batt on_mains sh)"
proof -
  have "quiet sh (send_primary E b (sh\<lparr>counters := c\<rparr>))" for b c
    using quiet_send_primary [of "sh\<lparr>counters := c\<rparr>" E b] by (simp add: quiet_def)
  then show ?thesis
    using quiet_send_primary quiet_trans
    by (fastforce simp: ping_primary_def Let_def quiet_refl split: option.split sum.split)
qed

text \<open>Sending changes neither whether there is a session nor when it was last heard.\<close>

definition same_rx :: "'t net \<Rightarrow> 't net \<Rightarrow> bool" where
  "same_rx t t' \<longleftrightarrow> last_rx_ms (conn t') = last_rx_ms (conn t) \<and> has_session t' = has_session t
     \<and> last_peer_id (conn t') = last_peer_id (conn t) \<and> extra t' = extra t"

lemma same_rx_primary: "same_rx (net sh) (net (send_primary E b sh))"
  by (auto simp: send_primary_def case_prod_unfold Let_def log_fx_def send_encrypted_def send_on_def send_begin_def send_commit_def
      at_slot_def upd_slot_def same_rx_def has_session_def split: option.splits sum.splits prod.splits)

lemma same_rx_ping: "same_rx (net sh) (net (ping_primary E batt on_mains sh))"
proof -
  have "same_rx (net sh) (net (send_primary E b (sh\<lparr>counters := c\<rparr>)))" for b c
    using same_rx_primary [of "sh\<lparr>counters := c\<rparr>"] by simp
  moreover have "same_rx (net sh) (net (send_primary E b' (send_primary E b (sh\<lparr>counters := c\<rparr>))))" for b b' c
    using calculation [of b c] same_rx_primary [of "send_primary E b (sh\<lparr>counters := c\<rparr>)" E b'] by (simp add: same_rx_def)
  ultimately show ?thesis
    using same_rx_primary [of sh] by (auto simp: ping_primary_def Let_def same_rx_def split: option.split sum.split)
qed

text \<open>A loss can be reported if the slot names its peer or a secondary can take over.\<close>

definition attributed :: "'t shared \<Rightarrow> bool" where
  "attributed sh \<longleftrightarrow> cached_peer_id (net sh) \<noteq> None \<or> live_extra (net sh) \<noteq> []"

lemma session_ended_same [simp]: "fx (session_ended E i t sh) = fx sh" "net (session_ended E i t sh) = net sh"
  by (simp_all add: session_ended_def)

lemma live_extra_set_rx [simp]: "live_extra (set_last_rx ms t) = live_extra t" "cached_peer_id (set_last_rx ms t) = cached_peer_id t"
  by (simp_all add: set_last_rx_def upd_slot_def live_extra_def cached_peer_id_def)

lemma timeout_reports:
  "(\<exists>es. fx (primary_timeout E sh) = fx sh @ es) \<and> (gave_up sh (primary_timeout E sh) \<longleftrightarrow> attributed sh)"
proof (cases "live_extra (net sh)")
  case Nil
  then show ?thesis
    by (simp add: primary_timeout_def Let_def try_primary_failover_def promote_secondary_def attributed_def gave_up_def post_def
        log_fx_def split: option.split)
next
  case (Cons e es)
  then show ?thesis
    by (cases e) (simp add: primary_timeout_def Let_def try_primary_failover_def promote_secondary_def attributed_def gave_up_def
        post_def log_fx_def split: option.split)
qed

lemma primary_beat_counts:
  "fst (primary_beat E batt on_mains m sh) =
     (case sees E sh of None \<Rightarrow> m | Some False \<Rightarrow> 0 | Some True \<Rightarrow> if 3 \<le> m + 1 then 0 else m + 1)
   \<and> (\<exists>es. fx (snd (primary_beat E batt on_mains m sh)) = fx sh @ es)
   \<and> (gave_up sh (snd (primary_beat E batt on_mains m sh)) \<longleftrightarrow> sees E sh = Some True \<and> 3 \<le> m + 1 \<and> attributed sh)"
proof -
  let ?p = "ping_primary E batt on_mains sh" and ?q = "(ping_primary E batt on_mains sh)\<lparr>counters := on_heartbeat_missed (counters (ping_primary E batt on_mains sh))\<rparr>"
  have q: "quiet sh ?p" by (rule quiet_ping)
  have r: "same_rx (net sh) (net ?p)" by (rule same_rx_ping)
  have a: "attributed ?q \<longleftrightarrow> attributed sh" using r by (simp add: attributed_def same_rx_def cached_peer_id_def live_extra_def)
  have qq: "quiet sh ?q" using q by (simp add: quiet_def)
  obtain es where es: "fx (primary_timeout E ?q) = fx ?q @ es" using timeout_reports by blast
  have t: "gave_up sh (primary_timeout E ?q) \<longleftrightarrow> attributed sh"
    using gave_up_quiet [of "primary_timeout E ?q" ?q, OF exI, OF es qq] timeout_reports [of E ?q] a by blast
  have n: "quiet sh s \<Longrightarrow> (\<exists>es. fx s = fx sh @ es) \<and> \<not> gave_up sh s" for s by (auto simp: quiet_def gave_up_def)
  have e: "\<exists>es. fx (primary_timeout E ?q) = fx sh @ es" using es qq by (auto simp: quiet_def)
  show ?thesis
  proof (cases "has_session (net sh)")
    case False
    then show ?thesis by (simp add: primary_beat_def sees_def gave_up_def)
  next
    case True
    have s: "sees E sh = Some (silent E (last_rx_ms (conn (net ?p))))" using True r by (simp add: sees_def same_rx_def)
    show ?thesis
    proof (cases "silent E (last_rx_ms (conn (net ?p)))")
      case False
      then show ?thesis using True n [OF q] by (simp add: primary_beat_def s Let_def)
    next
      case sil: True
      then show ?thesis using True n [OF qq] t e by (simp add: primary_beat_def s Let_def)
    qed
  qed
qed

lemma quiet_secondary: "quiet (snd ms) (snd (secondary_beat E e ms))"
proof -
  obtain i rx m sh where em: "e = (i, rx)" "ms = (m, sh)" by (cases e, cases ms) auto
  let ?s = "case ping_bytes E of Some b \<Rightarrow> snd (send_to E i b sh) | None \<Rightarrow> sh"
  have 1: "quiet sh ?s" by (simp add: quiet_send_to quiet_refl split: option.split)
  have 2: "quiet ?s (secondary_timeout E i ?s)"
    by (simp add: secondary_timeout_def Let_def quiet_def post_def log_fx_def split: option.split)
  show ?thesis using 1 quiet_trans [OF 1 2] by (simp add: secondary_beat_def em Let_def del: option.case_distrib)
qed

lemma quiet_secondaries: "quiet (snd ms) (snd (fold (secondary_beat E) es ms))"
proof (induction es arbitrary: ms)
  case (Cons e es)
  show ?case using quiet_trans [OF quiet_secondary Cons.IH] by simp
qed (simp add: quiet_refl)

lemma heartbeat_tick_counts:
  "missed_pings (fst (heartbeat_tick E batt on_mains hb sh)) =
     (case sees E sh of None \<Rightarrow> missed_pings hb | Some False \<Rightarrow> 0
      | Some True \<Rightarrow> if 3 \<le> missed_pings hb + 1 then 0 else missed_pings hb + 1)
   \<and> (gave_up sh (snd (heartbeat_tick E batt on_mains hb sh)) \<longleftrightarrow>
        sees E sh = Some True \<and> 3 \<le> missed_pings hb + 1 \<and> attributed sh)"
proof -
  obtain m s where b: "primary_beat E batt on_mains (missed_pings hb) sh = (m, s)" by force
  obtain sm s' where f: "fold (secondary_beat E) (secondary_liveness (net s))
      (filter (\<lambda>e. fst e \<in> fst ` set (secondary_liveness (net s))) (secondary_missed hb), s) = (sm, s')" by force
  have "quiet s s'" using quiet_secondaries [of "(_, s)"] f by (metis snd_conv)
  then have "gave_up sh s' \<longleftrightarrow> gave_up sh s"
    using primary_beat_counts [of E batt on_mains "missed_pings hb" sh] b by (intro gave_up_then_quiet) simp_all
  then show ?thesis
    using primary_beat_counts [of E batt on_mains "missed_pings hb" sh] b by (simp add: heartbeat_tick_def b f Let_def)
qed

section \<open>Over a run\<close>

text \<open>
  A run of ticks, each with its clock, its battery, and what the other tasks did to the shared state since the
  last one. For each tick: what it saw, whether it could name a loss, whether it reported one.
\<close>

fun beat_run ::
  "('t env \<times> u8 \<times> bool \<times> ('t shared \<Rightarrow> 't shared)) list \<Rightarrow> beats \<Rightarrow> 't shared \<Rightarrow> (bool option \<times> bool \<times> bool) list" where
  "beat_run [] hb sh = []"
| "beat_run ((E, batt, on_mains, f) # ts) hb sh =
     (let s = f sh; (hb', s') = heartbeat_tick E batt on_mains hb s
      in (sees E s, attributed s, gave_up s s') # beat_run ts hb' s')"

text \<open>How many of the latest ticks with a session found the peer silent.\<close>

definition misses :: "bool option list \<Rightarrow> nat" where
  "misses os = length (takeWhile id (rev (List.map_filter id os)))"

lemma misses_snoc:
  "misses (os @ [v]) = (case v of None \<Rightarrow> misses os | Some True \<Rightarrow> Suc (misses os) | Some False \<Rightarrow> 0)"
  by (simp add: misses_def List.map_filter_def split: option.split bool.split)

lemma beat_run_counts:
  assumes "missed_pings hb = misses os mod 3" and "k < length ts"
  shows "let r = beat_run ts hb sh; os' = os @ map fst (take (Suc k) r) in
    snd (snd (r ! k)) \<longleftrightarrow> fst (r ! k) = Some True \<and> fst (snd (r ! k)) \<and> 3 dvd misses os'"
  using assms
proof (induction ts arbitrary: hb sh os k)
  case (Cons t ts)
  obtain E batt on_mains f where t: "t = (E, batt, on_mains, f)" by (cases t) auto
  obtain hb' s' where h: "heartbeat_tick E batt on_mains hb (f sh) = (hb', s')" by force
  note c = heartbeat_tick_counts [of E batt on_mains hb "f sh", unfolded h fst_conv snd_conv]
  have d: "3 dvd Suc n \<longleftrightarrow> 3 \<le> n mod 3 + 1" "(if 3 \<le> n mod 3 + 1 then 0 else n mod 3 + 1) = Suc n mod 3" for n :: nat
    by presburger+
  have m: "missed_pings hb' = misses (os @ [sees E (f sh)]) mod 3"
  proof -
    have "missed_pings hb' = Suc (misses os) mod 3" if "sees E (f sh) = Some True"
      unfolding d(2) [symmetric] using c Cons.prems(1) that by simp
    then show ?thesis using c Cons.prems(1) by (auto simp: misses_snoc split: option.split bool.split)
  qed
  have g: "gave_up (f sh) s' \<longleftrightarrow> sees E (f sh) = Some True \<and> attributed (f sh) \<and> 3 dvd misses (os @ [sees E (f sh)])"
    using c Cons.prems(1) d(1) [of "misses os"] by (auto simp: misses_snoc)
  show ?case
  proof (cases k)
    case 0
    then show ?thesis using g by (simp add: t h Let_def)
  next
    case (Suc j)
    then show ?thesis using Cons.IH [OF m, of j s'] Cons.prems(2) by (simp add: t h Let_def)
  qed
qed simp

text \<open>
  C38: The daemon gives up its primary peer at every third silent tick in a row, and at no other. Over any run,
  whatever the other tasks do between the ticks, a tick reports a loss exactly if it finds a session whose peer
  was not heard for three seconds, the loss can be attributed, and the silent ticks up to it, of those
  that found a session, are a multiple of three. So a peer heard by every third tick is never given up, and one
  that falls silent is, at the latest with its third silent tick.
\<close>

theorem given_up_at_third_miss:
  assumes "k < length ts"
  shows "let r = beat_run ts beats_new sh in
    snd (snd (r ! k)) \<longleftrightarrow> fst (r ! k) = Some True \<and> fst (snd (r ! k)) \<and> 3 dvd misses (map fst (take (Suc k) r))"
  using beat_run_counts [of beats_new "[]" k ts sh] assms by (simp add: beats_new_def misses_def List.map_filter_def)

definition at_ms :: "millis \<Rightarrow> unit env" where
  "at_ms ms = demo_env\<lparr>now_ms := ms, cbor_ser := \<lambda>_. Inl []\<rparr>"

text \<open>
  The count is of the slot, not of the session, and a new session starts with the time its predecessor was
  last heard: after two silent ticks, a peer that comes back is given up at the first tick of its new session,
  however young.
\<close>

lemma new_session_inherits_misses:
  assumes m: "missed_pings hb = 2" and s: "silent E (last_rx_ms (conn (net sh)))"
    and i: "pc_session (conn (net sh)) = None" "last_peer_id (conn (net sh)) = Some i"
    and sh': "sh' = sh\<lparr>net := link_up (now_ms E) i ses a (net sh)\<rparr>"
  shows "gave_up sh' (snd (heartbeat_tick E batt on_mains hb sh'))"
proof -
  have "last_rx_ms (conn (net sh')) = last_rx_ms (conn (net sh))" "has_session (net sh')" "cached_peer_id (net sh') = Some i"
    using i by (simp_all add: sh' link_up_def try_install_session_def acquire_conn_def session_at_primary set_peer_info_def upd_slot_def
        stamp_def push_history_def has_session_def cached_peer_id_def Let_def)
  then have "sees E sh' = Some True" "attributed sh'" using s by (simp_all add: sees_def attributed_def)
  then show ?thesis using m heartbeat_tick_counts [of E batt on_mains hb sh'] by simp
qed

definition demo_alone :: "unit shared" where
  "demo_alone = demo_shared\<lparr>net := link_step quiet_noise (LinkUp 5 [1] (demo_session 1) ([10, 0, 0, 1], 9)) (net_new 0)\<rparr>"

definition demo_beats :: "(unit env \<times> u8 \<times> bool \<times> (unit shared \<Rightarrow> unit shared)) list" where
  "demo_beats = map (\<lambda>ms. (demo_env\<lparr>now_ms := ms, cbor_ser := \<lambda>_. Inl []\<rparr>, 255, False, id)) [4000, 7000, 10000]"

lemma demo_alone_net:
  "has_session (net demo_alone)" "last_rx_ms (conn (net demo_alone)) = 0" "cached_peer_id (net demo_alone) = Some [1]" "extra (net demo_alone) = []"
  by (simp_all add: demo_alone_def link_eval has_session_def cached_peer_id_def)

lemma silent_tick:
  assumes "net sh = net demo_alone" and "3000 < ms" and "m < 2"
  shows "heartbeat_tick (demo_env\<lparr>now_ms := ms, cbor_ser := \<lambda>_. Inl []\<rparr>) 255 False \<lparr>missed_pings = m, secondary_missed = []\<rparr> sh
    = (\<lparr>missed_pings = Suc m, secondary_missed = []\<rparr>, sh\<lparr>counters := on_heartbeat_missed (counters sh)\<rparr>)"
  using assms demo_alone_net
  by (simp add: heartbeat_tick_def primary_beat_def ping_primary_def ping_bytes_def encode_def silent_def secondary_liveness_def
      live_extra_def Let_def split: sum.split)

theorem given_up_at_third_miss_witness:
  "snd (snd (beat_run demo_beats beats_new demo_alone ! 2))"
proof -
  have s: "sees (demo_env\<lparr>now_ms := ms, cbor_ser := \<lambda>_. Inl []\<rparr>) sh = Some True"
    if "net sh = net demo_alone" "3000 < ms" for sh :: "unit shared" and ms
    using that demo_alone_net by (simp add: sees_def silent_def)
  have a: "attributed sh" if "net sh = net demo_alone" for sh :: "unit shared"
    using that demo_alone_net by (simp add: attributed_def)
  obtain x y z where r: "beat_run demo_beats beats_new demo_alone = [(Some True, True, x), (Some True, True, y), (Some True, True, z)]"
    by (simp add: demo_beats_def beats_new_def silent_tick s a case_prod_unfold Let_def)
  have "misses [Some True, Some True, Some True] = 3" by code_simp
  moreover have "2 < length demo_beats" by (simp add: demo_beats_def)
  ultimately show ?thesis using given_up_at_third_miss [of 2 demo_beats demo_alone] by (simp add: Let_def r)
qed

end
