(* ===== verification/Vault.thy ===== *)
theory Vault
  imports Noise_IK App_State
begin

text \<open>
  The history on disk: \<open>fsutil.rs\<close>, \<open>history_store.rs\<close> and the persister of \<open>driver/vault.rs\<close>. A directory holds
  the file and the temporary file beside it; how far a write gets is an argument. The JSON codec and the cipher
  are parameters.
\<close>

section \<open>Atomic writes\<close>

record dir =
  vault_file :: "bytes option"
  vault_tmp :: "bytes option"

datatype write_io = WriteOk | OpenFails | WriteFails nat | RenameFails

definition write_atomic :: "write_io \<Rightarrow> bytes \<Rightarrow> dir \<Rightarrow> bool \<times> dir" where
  "write_atomic io b d =
     (case io of
        WriteOk \<Rightarrow> (True, \<lparr>vault_file = Some b, vault_tmp = None\<rparr>)
      | OpenFails \<Rightarrow> (False, d)
      | WriteFails n \<Rightarrow> (False, d\<lparr>vault_tmp := Some (take n b)\<rparr>)
      | RenameFails \<Rightarrow> (False, d\<lparr>vault_tmp := Some b\<rparr>))"

lemma write_atomic_all_or_nothing:
  "write_atomic io b d = (ok, d') \<Longrightarrow> vault_file d' = (if ok then Some b else vault_file d)"
  by (auto simp: write_atomic_def split: write_io.splits)

section \<open>The store\<close>

record vault_entry =
  ve_item :: history_item
  ve_created :: millis

definition DEFAULT_DISK_CAP :: nat where "DEFAULT_DISK_CAP = 500"

definition USIZE_MAX :: nat where "USIZE_MAX = 2 ^ 64 - 1"

text \<open>The retention of the user in seconds; 0 is for ever.\<close>

definition ttl_secs :: "u64 \<Rightarrow> u64" where
  "ttl_secs retention = (if retention = 0 then (2 ^ 64 - 1) div 1000 else retention)"

fun prune_from :: "nat \<Rightarrow> millis \<Rightarrow> nat \<Rightarrow> nat \<Rightarrow> vault_entry list \<Rightarrow> vault_entry list" where
  "prune_from non_fav t ttl_ms cap [] = []"
| "prune_from non_fav t ttl_ms cap (e # es) =
     (if favorite (ve_item e) then e # prune_from non_fav t ttl_ms cap es
      else if ttl_ms < t - ve_created e then prune_from non_fav t ttl_ms cap es
      else if cap \<le> non_fav then prune_from non_fav t ttl_ms cap es
      else e # prune_from (non_fav + 1) t ttl_ms cap es)"

definition prune :: "vault_entry list \<Rightarrow> millis \<Rightarrow> u64 \<Rightarrow> nat \<Rightarrow> vault_entry list" where
  "prune es t ttl cap = prune_from 0 t (min (unat ttl * 1000) (2 ^ 64 - 1)) cap es"

text \<open>What the store needs: the cipher, the key, the codec of the entries.\<close>

record vault_lib =
  v_aead :: aead
  v_key :: bytes32
  v_ser :: "vault_entry list \<Rightarrow> bytes option"
  v_par :: "bytes \<Rightarrow> vault_entry list option"

definition load_vault :: "vault_lib \<Rightarrow> millis \<Rightarrow> u64 \<Rightarrow> dir \<Rightarrow> vault_entry list option" where
  "load_vault V t ttl d =
     (case vault_file d of
        None \<Rightarrow> Some []
      | Some blob \<Rightarrow>
          (if blob = [] then Some []
           else case open_blob (v_aead V) (v_key V) blob of
             Inl _ \<Rightarrow> None
           | Inr plain \<Rightarrow> (case v_par V plain of None \<Rightarrow> None | Some es \<Rightarrow> Some (prune es t ttl USIZE_MAX))))"

definition save_vault :: "vault_lib \<Rightarrow> bytes \<Rightarrow> write_io \<Rightarrow> vault_entry list \<Rightarrow> millis \<Rightarrow> u64 \<Rightarrow> nat \<Rightarrow> dir \<Rightarrow> bool \<times> dir" where
  "save_vault V nonce io es t ttl cap d =
     (case v_ser V (prune es t ttl cap) of
        None \<Rightarrow> (False, d)
      | Some plain \<Rightarrow> (case seal (v_aead V) nonce (v_key V) plain of
          Inl _ \<Rightarrow> (False, d)
        | Inr blob \<Rightarrow> write_atomic io blob d))"

text \<open>Removing the temporary file, then the file; a missing file is fine.\<close>

definition clear_vault :: "bool \<Rightarrow> bool \<Rightarrow> dir \<Rightarrow> bool \<times> dir" where
  "clear_vault tmp_ok file_ok d =
     (if vault_tmp d \<noteq> None \<and> \<not> tmp_ok then (False, d)
      else let d = d\<lparr>vault_tmp := None\<rparr> in
           if vault_file d \<noteq> None \<and> \<not> file_ok then (False, d) else (True, d\<lparr>vault_file := None\<rparr>))"

section \<open>The persister\<close>

record vault_ctx =
  vc_last :: "history_item list"
  vc_entries :: "vault_entry list"

definition stable_key :: "history_item \<Rightarrow> history_item \<Rightarrow> bool" where
  "stable_key a b \<longleftrightarrow> hi_hash a = hi_hash b \<and> hi_lamport a = hi_lamport b"

definition rebuild :: "vault_entry list \<Rightarrow> history_item list \<Rightarrow> millis \<Rightarrow> vault_entry list" where
  "rebuild entries hist t =
     map (\<lambda>i. \<lparr>ve_item = i, ve_created =
            (if created_ms i \<noteq> 0 then created_ms i
             else case find (\<lambda>e. stable_key (ve_item e) i) entries of Some e \<Rightarrow> ve_created e | None \<Rightarrow> t)\<rparr>) hist
     @ filter (\<lambda>e. favorite (ve_item e) \<and> \<not> list_ex (\<lambda>h. stable_key h (ve_item e)) hist) entries"

text \<open>How the disk behaves in one attempt.\<close>

record vault_io =
  vi_nonce :: bytes
  vi_write :: write_io
  vi_tmp_ok :: bool
  vi_file_ok :: bool

text \<open>
  One attempt: the wipe, if the generation moved on, then the save. The last component says whether the discovery
  cache and the backoff timers are to be cleared with it.
\<close>

definition persist_history_change ::
  "vault_lib \<Rightarrow> vault_io \<Rightarrow> millis \<Rightarrow> u64 \<Rightarrow> history_item list \<Rightarrow> u64 \<Rightarrow> vault_ctx \<times> u64 \<times> dir \<Rightarrow> (vault_ctx \<times> u64 \<times> dir) \<times> bool" where
  "persist_history_change V io t ttl hist wipe_gen s =
     (let (ctx, last_gen, d) = s;
          wipe = (wipe_gen \<noteq> last_gen);
          by_save = (wipe \<and> hist \<noteq> []);
          (cleared, d) = (if wipe \<and> hist = [] then clear_vault (vi_tmp_ok io) (vi_file_ok io) d else (False, d));
          last_gen = (if cleared then wipe_gen else last_gen);
          ctx = (if wipe then \<lparr>vc_last = [], vc_entries = []\<rparr> else ctx)
      in if hist = vc_last ctx then ((ctx, last_gen, d), wipe)
         else let entries = rebuild (vc_entries ctx) hist t in
              case save_vault V (vi_nonce io) (vi_write io) entries t ttl DEFAULT_DISK_CAP d of
                (True, d) \<Rightarrow> ((\<lparr>vc_last = hist, vc_entries = entries\<rparr>, if by_save then wipe_gen else last_gen, d), wipe)
              | (False, d) \<Rightarrow> ((ctx, last_gen, d), wipe))"

text \<open>A wake-up of the persister with the published state: nothing new, or an attempt.\<close>

definition persister_wake ::
  "vault_lib \<Rightarrow> vault_io \<Rightarrow> millis \<Rightarrow> u64 \<Rightarrow> history_item list \<Rightarrow> u64 \<Rightarrow> vault_ctx \<times> u64 \<times> dir \<Rightarrow> (vault_ctx \<times> u64 \<times> dir) \<times> bool" where
  "persister_wake V io t ttl hist wipe_gen s =
     (if wipe_gen = fst (snd s) \<and> hist = vc_last (fst s) then (s, False)
      else persist_history_change V io t ttl hist wipe_gen s)"

text \<open>The boot: the vault into the app, and the first context of the persister.\<close>

definition boot_vault :: "vault_lib \<Rightarrow> millis \<Rightarrow> u64 \<Rightarrow> dir \<Rightarrow> app \<Rightarrow> vault_ctx \<times> app" where
  "boot_vault V t ttl d a =
     (case load_vault V t ttl d of
        None \<Rightarrow> (\<lparr>vc_last = history (a_state a), vc_entries = []\<rparr>, a)
      | Some es \<Rightarrow>
          (let a = restore_history (map (\<lambda>e. if created_ms (ve_item e) = 0 then (ve_item e)\<lparr>created_ms := ve_created e\<rparr>
                                              else ve_item e) es) a
           in (\<lparr>vc_last = history (a_state a), vc_entries = es\<rparr>, a)))"

section \<open>What a save leaves\<close>

definition vault_ok :: "vault_lib \<Rightarrow> bool" where
  "vault_ok V \<longleftrightarrow> (\<forall>k n p ct. aead_encrypt (v_aead V) k n p = Inr ct \<longrightarrow> aead_decrypt (v_aead V) k n ct = Inr p)
     \<and> (\<forall>es b. v_ser V es = Some b \<longrightarrow> v_par V b = Some es)"

lemma prune_from_all_fit:
  "list_all (\<lambda>e. favorite (ve_item e) \<or> t - ve_created e \<le> ttl) es \<Longrightarrow> n + length es \<le> cap \<Longrightarrow> prune_from n t ttl cap es = es"
  by (induction es arbitrary: n) auto

lemma prune_from_set: "set (prune_from n t ttl cap es) \<subseteq> set es"
  by (induction es arbitrary: n) (auto simp: subset_iff)

lemma prune_set: "set (prune es t ttl cap) \<subseteq> set es"
  by (simp add: prune_def prune_from_set)

lemma prune_keeps_favorites: "e \<in> set es \<Longrightarrow> favorite (ve_item e) \<Longrightarrow> e \<in> set (prune es t ttl cap)"
proof -
  have "e \<in> set es \<Longrightarrow> favorite (ve_item e) \<Longrightarrow> e \<in> set (prune_from n t ttl' cap es)" for n ttl'
    by (induction es arbitrary: n) auto
  then show "e \<in> set es \<Longrightarrow> favorite (ve_item e) \<Longrightarrow> e \<in> set (prune es t ttl cap)" by (simp add: prune_def)
qed

lemma save_then_load:
  assumes V: "vault_ok V" and n: "length nonce = NONCE_LEN" and s: "save_vault V nonce io es t ttl cap d = (True, d')"
  shows "load_vault V t' ttl' d' = Some (prune (prune es t ttl cap) t' ttl' USIZE_MAX)"
proof -
  obtain plain blob where 1: "v_ser V (prune es t ttl cap) = Some plain" "seal (v_aead V) nonce (v_key V) plain = Inr blob"
    and 2: "write_atomic io blob d = (True, d')"
    using s by (auto simp: save_vault_def split: option.splits sum.splits)
  have "open_blob (v_aead V) (v_key V) blob = Inr plain"
    using open_seal [OF _ n 1(2)] V by (simp add: vault_ok_def)
  moreover have "blob \<noteq> []" using 1(2) n by (auto simp: seal_def NONCE_LEN_def split: sum.splits)
  moreover have "v_par V plain = Some (prune es t ttl cap)" using V 1(1) by (simp add: vault_ok_def)
  ultimately show ?thesis using write_atomic_all_or_nothing [OF 2] by (simp add: load_vault_def)
qed

lemma save_failed:
  assumes "save_vault V nonce io es t ttl cap d = (False, d')"
  shows "load_vault V t' ttl' d' = load_vault V t' ttl' d"
proof -
  have "vault_file d' = vault_file d" using assms write_atomic_all_or_nothing
    by (fastforce simp: save_vault_def split: option.splits sum.splits)
  then show ?thesis by (simp add: load_vault_def)
qed

section \<open>Wipes\<close>

type_synonym vault_state = "vault_ctx \<times> u64 \<times> dir"

type_synonym publication = "vault_io \<times> millis \<times> u64 \<times> history_item list \<times> u64"

fun wake :: "vault_lib \<Rightarrow> publication \<Rightarrow> vault_state \<Rightarrow> vault_state" where
  "wake V (io, t, ttl, hist, g) s = fst (persister_wake V io t ttl hist g s)"

definition published_rows :: "publication \<Rightarrow> history_item list" where
  "published_rows w = fst (snd (snd (snd w)))"

definition published_gen :: "publication \<Rightarrow> u64" where
  "published_gen w = snd (snd (snd (snd w)))"

definition good_nonce :: "publication \<Rightarrow> bool" where
  "good_nonce w \<longleftrightarrow> length (vi_nonce (fst w)) = NONCE_LEN"

text \<open>The rows a restart could bring back.\<close>

definition recoverable :: "vault_lib \<Rightarrow> dir \<Rightarrow> history_item set" where
  "recoverable V d = {i. \<exists>t ttl es. load_vault V t ttl d = Some es \<and> i \<in> ve_item ` set es}"

definition only_rows :: "vault_lib \<Rightarrow> history_item set \<Rightarrow> vault_state \<Rightarrow> bool" where
  "only_rows V H s \<longleftrightarrow> ve_item ` set (vc_entries (fst s)) \<subseteq> H \<and> recoverable V (snd (snd s)) \<subseteq> H"

lemma rebuild_rows: "ve_item ` set (rebuild es hist t) \<subseteq> set hist \<union> ve_item ` set es"
  by (auto simp: rebuild_def)

lemma recoverable_saved:
  assumes "vault_ok V" and "length nonce = NONCE_LEN" and "save_vault V nonce io es t ttl cap d = (True, d')"
  shows "recoverable V d' \<subseteq> ve_item ` set es"
proof -
  have "set (prune (prune es t ttl cap) t' ttl' USIZE_MAX) \<subseteq> set es" for t' ttl'
    by (rule order_trans [OF prune_set prune_set])
  then show ?thesis unfolding recoverable_def save_then_load [OF assms] by blast
qed

lemma recoverable_failed: "save_vault V nonce io es t ttl cap d = (False, d') \<Longrightarrow> recoverable V d' = recoverable V d"
  by (simp add: recoverable_def save_failed)

lemma recoverable_gone: "vault_file d = None \<Longrightarrow> recoverable V d = {}"
  by (auto simp: recoverable_def load_vault_def)

lemma recoverable_file: "vault_file d' = vault_file d \<Longrightarrow> recoverable V d' = recoverable V d"
  by (simp add: recoverable_def load_vault_def)

lemma recoverable_cleared:
  assumes "clear_vault a b d = (ok, d')"
  shows "recoverable V d' \<subseteq> recoverable V d \<and> (ok \<longrightarrow> recoverable V d' = {})"
proof -
  consider "vault_file d' = vault_file d" "\<not> ok" | "vault_file d' = None"
    using assms by (auto simp: clear_vault_def Let_def split: if_splits)
  then show ?thesis using recoverable_file [of d' d V] recoverable_gone [of d' V] by cases simp_all
qed

text \<open>The save at the end of an attempt.\<close>

lemma only_rows_save:
  assumes V: "vault_ok V" and n: "length nonce = NONCE_LEN" and H: "set hist \<subseteq> H"
    and e: "ve_item ` set (vc_entries ctx) \<subseteq> H" and d: "recoverable V d \<subseteq> H"
    and s: "save_vault V nonce io (rebuild (vc_entries ctx) hist t) t ttl DEFAULT_DISK_CAP d = (ok, d')"
  shows "recoverable V d' \<subseteq> H" and "ve_item ` set (rebuild (vc_entries ctx) hist t) \<subseteq> H"
proof -
  show r: "ve_item ` set (rebuild (vc_entries ctx) hist t) \<subseteq> H" using rebuild_rows [of "vc_entries ctx" hist t] H e by blast
  show "recoverable V d' \<subseteq> H"
  proof (cases ok)
    case True
    then have "recoverable V d' \<subseteq> ve_item ` set (rebuild (vc_entries ctx) hist t)"
      using s by (intro recoverable_saved [OF V n, of io]) simp
    then show ?thesis using r by (rule order_trans)
  next
    case False
    then show ?thesis
      using recoverable_failed [of V nonce io "rebuild (vc_entries ctx) hist t" t ttl DEFAULT_DISK_CAP d d'] s d by simp
  qed
qed

text \<open>What an attempt can end in: the context after the wipe, and the disk after the wipe or after the save.\<close>

lemma wake_cases:
  assumes w: "w = (io, t, ttl, hist, g)"
    and c: "(if g \<noteq> lg \<and> hist = [] then clear_vault (vi_tmp_ok io) (vi_file_ok io) d else (False, d)) = (cl, d1)"
    and x: "x = (if g \<noteq> lg then \<lparr>vc_last = [], vc_entries = []\<rparr> else ctx)"
    and sv: "save_vault V (vi_nonce io) (vi_write io) (rebuild (vc_entries x) hist t) t ttl DEFAULT_DISK_CAP d1 = (ok, d2)"
  shows "wake V w (ctx, lg, d) =
    (if g = lg \<and> hist = vc_last ctx then (ctx, lg, d)
     else if hist = vc_last x then (x, if cl then g else lg, d1)
     else if ok then (\<lparr>vc_last = hist, vc_entries = rebuild (vc_entries x) hist t\<rparr>,
                      if g \<noteq> lg \<and> hist \<noteq> [] then g else if cl then g else lg, d2)
     else (x, if cl then g else lg, d2))"
  unfolding w wake.simps persister_wake_def persist_history_change_def Let_def prod.case fst_conv snd_conv c x [symmetric]
  by (cases ok) (simp_all add: sv)

lemma only_rows_wake:
  assumes V: "vault_ok V" and n: "good_nonce w" and H: "set (published_rows w) \<subseteq> H" and s: "only_rows V H s"
  shows "only_rows V H (wake V w s)"
proof -
  obtain io t ttl hist g where w: "w = (io, t, ttl, hist, g)" by (cases w) auto
  obtain ctx lg d where st: "s = (ctx, lg, d)" by (cases s) auto
  obtain cl d1 where c: "(if g \<noteq> lg \<and> hist = [] then clear_vault (vi_tmp_ok io) (vi_file_ok io) d else (False, d)) = (cl, d1)" by force
  let ?ctx = "if g \<noteq> lg then \<lparr>vc_last = [], vc_entries = []\<rparr> else ctx"
  have d1: "recoverable V d1 \<subseteq> H"
  proof (cases "g \<noteq> lg \<and> hist = []")
    case True
    then have "clear_vault (vi_tmp_ok io) (vi_file_ok io) d = (cl, d1)" using c by simp
    from recoverable_cleared [OF this, of V] show ?thesis using s by (auto simp: only_rows_def st)
  next
    case False
    then have "d1 = d" using c by (simp split: if_splits)
    then show ?thesis using s by (simp add: only_rows_def st)
  qed
  have e: "ve_item ` set (vc_entries ?ctx) \<subseteq> H" using s by (simp add: only_rows_def st)
  obtain ok d2 where sv: "save_vault V (vi_nonce io) (vi_write io) (rebuild (vc_entries ?ctx) hist t) t ttl DEFAULT_DISK_CAP d1 = (ok, d2)" by force
  have n': "length (vi_nonce io) = NONCE_LEN" "set hist \<subseteq> H" using n H by (simp_all add: good_nonce_def published_rows_def w)
  note r = only_rows_save [OF V n' e d1 sv]
  show ?thesis using s d1 e r unfolding st wake_cases [OF w c refl sv] only_rows_def by (simp split: if_split_asm)
qed

text \<open>An attempt that acknowledges a wipe leaves nothing but what was published with it.\<close>

lemma wipe_acknowledged:
  assumes V: "vault_ok V" and n: "good_nonce w" and g: "published_gen w \<noteq> fst (snd s)" "fst (snd (wake V w s)) = published_gen w"
  shows "only_rows V (set (published_rows w)) (wake V w s)"
proof -
  obtain io t ttl hist g where w: "w = (io, t, ttl, hist, g)" by (cases w) auto
  obtain ctx lg d where st: "s = (ctx, lg, d)" by (cases s) auto
  obtain cl d1 where c: "(if g \<noteq> lg \<and> hist = [] then clear_vault (vi_tmp_ok io) (vi_file_ok io) d else (False, d)) = (cl, d1)" by force
  let ?ctx = "if g \<noteq> lg then \<lparr>vc_last = [], vc_entries = []\<rparr> else ctx"
  obtain ok d2 where sv: "save_vault V (vi_nonce io) (vi_write io) (rebuild (vc_entries ?ctx) hist t) t ttl DEFAULT_DISK_CAP d1 = (ok, d2)" by force
  note k = wake_cases [OF w c refl sv]
  have ne: "g \<noteq> lg" using g(1) by (simp add: published_gen_def w st)
  have ack: "fst (snd (wake V w (ctx, lg, d))) = g" using g(2) by (simp add: published_gen_def w st)
  show ?thesis
  proof (cases "hist = []")
    case True
    then have "cl" using ack ne unfolding k by (simp split: if_splits)
    then have "recoverable V d1 = {}" using c True ne recoverable_cleared [of _ _ d cl d1 V] by auto
    then show ?thesis unfolding st k using True ne by (simp add: only_rows_def)
  next
    case False
    then have "\<not> cl" using c by simp
    then have "ok" using ack ne False unfolding k by (simp split: if_splits)
    moreover have "recoverable V d2 \<subseteq> ve_item ` set (rebuild [] hist t)"
      using recoverable_saved [OF V, of "vi_nonce io"] n sv \<open>ok\<close> ne by (simp add: good_nonce_def w)
    moreover have "ve_item ` set (rebuild [] hist t) \<subseteq> set hist" using rebuild_rows [of "[]" hist t] by simp
    ultimately show ?thesis unfolding st k using False ne by (simp add: only_rows_def published_rows_def w)
  qed
qed

lemma only_rows_run:
  "vault_ok V \<Longrightarrow> only_rows V H s \<Longrightarrow> \<forall>w\<in>set ws. good_nonce w \<and> set (published_rows w) \<subseteq> H \<Longrightarrow> only_rows V H (fold (wake V) ws s)"
  by (induction ws arbitrary: s) (simp_all add: only_rows_wake)

text \<open>
  C28: A wipe stays wiped. Once the persister has acknowledged a wipe, by a cleared vault or by a save of the
  rows that were kept, no restart brings back anything else than the rows published with the wipe or after it:
  whatever writes and removals fail later on, at whatever point they fail.
\<close>

theorem wiped_rows_stay_wiped:
  assumes V: "vault_ok V" and w: "good_nonce w" "published_gen w \<noteq> fst (snd s)" "fst (snd (wake V w s)) = published_gen w"
    and n: "\<forall>w\<in>set ws. good_nonce w"
  shows "recoverable V (snd (snd (fold (wake V) ws (wake V w s)))) \<subseteq> \<Union> (set ` published_rows ` set (w # ws))"
proof -
  let ?H = "\<Union> (set ` published_rows ` set (w # ws))"
  have "only_rows V ?H (wake V w s)"
    using wipe_acknowledged [OF V w] by (auto simp: only_rows_def)
  moreover have "\<forall>w\<in>set ws. good_nonce w \<and> set (published_rows w) \<subseteq> ?H" using n by auto
  ultimately have "only_rows V ?H (fold (wake V) ws (wake V w s))" by (rule only_rows_run [OF V])
  then show ?thesis by (simp add: only_rows_def)
qed

definition demo_row :: history_item where
  "demo_row = \<lparr>hi_kind = Text, hi_preview = [104, 105], hi_time = [], hi_source = Local, hi_sensitive = False, hi_lamport = 1,
     hi_hash = [97], favorite = True, hi_resync = False, source_peer_id = None, created_ms = 5\<rparr>"

definition demo_vault :: vault_lib where
  "demo_vault = \<lparr>v_aead = \<lparr>aead_encrypt = \<lambda>_ _ p. Inr p, aead_decrypt = \<lambda>_ _ p. Inr p\<rparr>, v_key = zero32,
     v_ser = \<lambda>es. if es = [] then Some [7] else if es = [\<lparr>ve_item = demo_row, ve_created = 5\<rparr>] then Some [8] else None,
     v_par = \<lambda>b. if b = [7] then Some [] else if b = [8] then Some [\<lparr>ve_item = demo_row, ve_created = 5\<rparr>] else None\<rparr>"

definition demo_vault_io :: vault_io where
  "demo_vault_io = \<lparr>vi_nonce = replicate 24 0, vi_write = WriteOk, vi_tmp_ok = True, vi_file_ok = True\<rparr>"

text \<open>A vault with an old row is wiped, then a new row is published.\<close>

theorem wiped_rows_stay_wiped_witness:
  "recoverable demo_vault (snd (snd (fold (wake demo_vault) [(demo_vault_io, 9, 0, [demo_row], 1)]
     (wake demo_vault (demo_vault_io, 8, 0, [], 1) (\<lparr>vc_last = [], vc_entries = []\<rparr>, 0, \<lparr>vault_file = Some (replicate 25 3), vault_tmp = None\<rparr>)))))
   \<subseteq> {demo_row}"
proof -
  have "vault_ok demo_vault" by (auto simp: vault_ok_def demo_vault_def split: if_splits)
  moreover have "fst (snd (wake demo_vault (demo_vault_io, 8, 0, [], 1)
      (\<lparr>vc_last = [], vc_entries = []\<rparr>, 0, \<lparr>vault_file = Some (replicate 25 3), vault_tmp = None\<rparr>))) = 1"
    by (simp add: persister_wake_def persist_history_change_def clear_vault_def demo_vault_io_def Let_def)
  ultimately show ?thesis
    using wiped_rows_stay_wiped [of demo_vault "(demo_vault_io, 8, 0, [], 1)"
        "(\<lparr>vc_last = [], vc_entries = []\<rparr>, 0, \<lparr>vault_file = Some (replicate 25 3), vault_tmp = None\<rparr>)"
        "[(demo_vault_io, 9, 0, [demo_row], 1)]"]
    by (simp add: good_nonce_def published_gen_def published_rows_def demo_vault_io_def NONCE_LEN_def)
qed

section \<open>Favorites\<close>

text \<open>A favorite that was saved is loaded again at any later time and under any retention.\<close>

lemma favorites_are_kept:
  assumes "vault_ok V" and "length nonce = NONCE_LEN" and "save_vault V nonce io es t ttl cap d = (True, d')"
    and "e \<in> set es" and "favorite (ve_item e)"
  shows "\<exists>es'. load_vault V t' ttl' d' = Some es' \<and> e \<in> set es'"
  using save_then_load [OF assms(1-3)] prune_keeps_favorites assms(4,5) by blast

text \<open>
  Entries are matched by hash and clock value, rows by content. A favorite that is copied again becomes one row
  with a new clock value, but two entries of the vault; and the old one stays a favorite when the row is unpinned.
\<close>

lemma recopied_favorite_is_kept_twice:
  assumes i: "favorite i" and l: "l \<noteq> hi_lamport i"
  shows "push_row (i\<lparr>hi_lamport := l, favorite := False\<rparr>) [i] = [i\<lparr>hi_lamport := l\<rparr>]"
    and "\<lparr>ve_item = i, ve_created = t0\<rparr> \<in> set (rebuild [\<lparr>ve_item = i, ve_created = t0\<rparr>] [i\<lparr>hi_lamport := l, favorite := f\<rparr>] t)"
    and "length (rebuild [\<lparr>ve_item = i, ve_created = t0\<rparr>] [i\<lparr>hi_lamport := l, favorite := f\<rparr>] t) = 2"
  using assms by (simp_all add: push_row_def remove_at_def same_row_def HISTORY_SOFT_CAP_def rebuild_def stable_key_def)

end
