(* ===== verification/Classify.thy ===== *)
theory Classify
  imports Text Wire
begin

text \<open>
  \<open>fluxsync-core/src/classify.rs\<close>: the kind of a copied text and whether it looks like a secret. The patterns of
  the source are sequences of literals, bounded runs of one character class and word edges; \<open>is_match\<close> is the
  search of the \<open>regex\<close> crate for these. Which characters outside ASCII are word characters is \<open>uw\<close>.
\<close>

section \<open>Patterns\<close>

datatype atom =
    Lit ustr
  | OneOf "ustr list"
  | Run "uchar \<Rightarrow> bool" nat "nat option"
  | Edge
  | Begin

definition run_at :: "(uchar \<Rightarrow> bool) \<Rightarrow> ustr \<Rightarrow> nat \<Rightarrow> nat" where
  "run_at p s i = length (takeWhile p (drop i s))"

definition is_upper :: "uchar \<Rightarrow> bool" where "is_upper c \<longleftrightarrow> 65 \<le> c \<and> c \<le> 90"
definition is_lower :: "uchar \<Rightarrow> bool" where "is_lower c \<longleftrightarrow> 97 \<le> c \<and> c \<le> 122"
definition is_digit :: "uchar \<Rightarrow> bool" where "is_digit c \<longleftrightarrow> 48 \<le> c \<and> c \<le> 57"
definition is_alnum :: "uchar \<Rightarrow> bool" where "is_alnum c \<longleftrightarrow> is_upper c \<or> is_lower c \<or> is_digit c"

definition word_char :: "(uchar \<Rightarrow> bool) \<Rightarrow> uchar \<Rightarrow> bool" where
  "word_char uw c \<longleftrightarrow> (if c < 128 then is_alnum c \<or> c = 95 else uw c)"

definition word_at :: "(uchar \<Rightarrow> bool) \<Rightarrow> ustr \<Rightarrow> nat \<Rightarrow> bool" where
  "word_at uw s i \<longleftrightarrow> i < length s \<and> word_char uw (s ! i)"

definition edge_at :: "(uchar \<Rightarrow> bool) \<Rightarrow> ustr \<Rightarrow> nat \<Rightarrow> bool" where
  "edge_at uw s i \<longleftrightarrow> (0 < i \<and> word_at uw s (i - 1)) \<noteq> word_at uw s i"

definition lit_at :: "ustr \<Rightarrow> ustr \<Rightarrow> nat \<Rightarrow> bool" where
  "lit_at l s i \<longleftrightarrow> take (length l) (drop i s) = l"

fun match_from :: "(uchar \<Rightarrow> bool) \<Rightarrow> atom list \<Rightarrow> ustr \<Rightarrow> nat \<Rightarrow> bool" where
  "match_from uw [] s i = True"
| "match_from uw (Lit l # as) s i = (lit_at l s i \<and> match_from uw as s (i + length l))"
| "match_from uw (OneOf ls # as) s i = list_ex (\<lambda>l. lit_at l s i \<and> match_from uw as s (i + length l)) ls"
| "match_from uw (Run p m M # as) s i =
     list_ex (\<lambda>k. match_from uw as s (i + k))
       [m..<Suc (case M of None \<Rightarrow> run_at p s i | Some n \<Rightarrow> min n (run_at p s i))]"
| "match_from uw (Edge # as) s i = (edge_at uw s i \<and> match_from uw as s i)"
| "match_from uw (Begin # as) s i = (i = 0 \<and> match_from uw as s i)"

definition is_match :: "(uchar \<Rightarrow> bool) \<Rightarrow> atom list \<Rightarrow> ustr \<Rightarrow> bool" where
  "is_match uw r s = list_ex (match_from uw r s) [0..<Suc (length s)]"

section \<open>The patterns of the source\<close>

definition token_char :: "uchar \<Rightarrow> bool" where "token_char c \<longleftrightarrow> is_alnum c \<or> c = 95 \<or> c = 45"
definition hex_char :: "uchar \<Rightarrow> bool" where "hex_char c \<longleftrightarrow> is_digit c \<or> 65 \<le> c \<and> c \<le> 70 \<or> 97 \<le> c \<and> c \<le> 102"

definition url_re :: "atom list" where "url_re = [Begin, OneOf [lit ''http'', lit ''https''], Lit (lit ''://'')]"

definition jwt_re :: "atom list" where
  "jwt_re = [Lit (lit ''eyJ''), Run token_char 1 None, Lit (lit ''.eyJ''), Run token_char 1 None, Lit (lit ''.''), Run token_char 1 None]"

definition stripe_re :: "atom list" where
  "stripe_re = [Lit (lit ''sk_''), OneOf [lit ''test'', lit ''live''], Lit (lit ''_''), Run is_alnum 24 None]"

definition generic_sk_re :: "atom list" where "generic_sk_re = [Lit (lit ''sk-''), Run token_char 20 None]"

definition github_re :: "atom list list" where
  "github_re =
     [[Lit (lit ''gh''), OneOf [lit ''p'', lit ''o'', lit ''u'', lit ''s'', lit ''r''], Lit (lit ''_''), Run is_alnum 36 (Some 36)],
      [Lit (lit ''github_pat_''), Run (\<lambda>c. is_alnum c \<or> c = 95) 22 None]]"

definition aws_re :: "atom list" where "aws_re = [Lit (lit ''AKIA''), Run (\<lambda>c. is_digit c \<or> is_upper c) 16 (Some 16)]"

definition hex64_re :: "atom list" where "hex64_re = [Edge, Run hex_char 64 (Some 512), Edge]"

section \<open>The classifier\<close>

definition CODE_TOKENS :: "ustr list" where
  "CODE_TOKENS = map lit [''{'', ''}'', '';'', ''=>'', ''fn '', ''def '', ''function '', ''function('', ''import '',
     ''class '', ''const '', ''public '', ''#include'', ''package '', ''module '']"

text \<open>\<open>str::contains\<close>.\<close>

definition str_contains :: "ustr \<Rightarrow> ustr \<Rightarrow> bool" where
  "str_contains s t = list_ex (lit_at t s) [0..<Suc (length s)]"

definition kind_of :: "ustr \<Rightarrow> kind" where
  "kind_of s =
     (if is_match (\<lambda>_. False) url_re s then Url
      else if 10 \<in> set s \<and> list_ex (str_contains s) CODE_TOKENS then Code else Text)"

definition secret_res :: "atom list list" where
  "secret_res = [jwt_re, stripe_re, generic_sk_re] @ github_re @ [aws_re]"

definition is_sensitive :: "(uchar \<Rightarrow> bool) \<Rightarrow> ustr \<Rightarrow> bool" where
  "is_sensitive uw s \<longleftrightarrow> list_ex (\<lambda>r. is_match uw r s) (secret_res @ [hex64_re])"

section \<open>A secret stays a secret in its surroundings\<close>

lemma lit_at_shift:
  assumes "lit_at l s i"
  shows "lit_at l (a @ s @ b) (length a + i)"
proof -
  have "drop i s = l @ drop (length l) (drop i s)" using assms by (metis append_take_drop_id lit_at_def)
  then have "take (length l) (drop i s @ x) = l" for x by (metis append.assoc append_eq_conv_conj)
  then show ?thesis by (simp add: lit_at_def)
qed

lemma run_at_shift: "run_at p s i \<le> run_at p (a @ s @ b) (length a + i)"
proof -
  have "length (takeWhile p xs) \<le> length (takeWhile p (xs @ ys))" for xs ys :: ustr
    by (induction xs) auto
  then show ?thesis by (simp add: run_at_def)
qed

fun no_edge :: "atom \<Rightarrow> bool" where
  "no_edge Edge = False" | "no_edge Begin = False" | "no_edge _ = True"

lemma match_shift:
  "list_all no_edge r \<Longrightarrow> match_from uw r s i \<Longrightarrow> match_from uw r (a @ s @ b) (length a + i)"
proof (induction uw r s i rule: match_from.induct)
  case (4 uw p m M as s i)
  then obtain k where k: "m \<le> k" "k \<le> (case M of None \<Rightarrow> run_at p s i | Some n \<Rightarrow> min n (run_at p s i))"
    "match_from uw as s (i + k)" by (auto simp: list_ex_iff)
  have "k \<in> set [m..<Suc (case M of None \<Rightarrow> run_at p s i | Some n \<Rightarrow> min n (run_at p s i))]" using k(1,2) by auto
  then have "match_from uw as (a @ s @ b) (length a + (i + k))" using 4(1) 4(2) k(3) by simp
  moreover have "k \<le> (case M of None \<Rightarrow> run_at p (a @ s @ b) (length a + i) | Some n \<Rightarrow> min n (run_at p (a @ s @ b) (length a + i)))"
    using k(2) run_at_shift [of p s i a b] by (auto split: option.splits)
  ultimately show ?case using k(1) unfolding match_from.simps list_ex_iff by (intro bexI [of _ k]) (simp add: add.assoc, simp only: set_upt atLeastLessThan_iff less_Suc_eq_le simp_thms)
qed (auto simp: list_ex_iff add.assoc dest: lit_at_shift)

lemma is_match_shift: "list_all no_edge r \<Longrightarrow> is_match uw r s \<Longrightarrow> is_match uw r (a @ s @ b)"
  using match_shift [of r uw s _ a b] by (fastforce simp: is_match_def list_ex_iff)

lemma secret_no_edge: "r \<in> set secret_res \<Longrightarrow> list_all no_edge r"
  by (auto simp: secret_res_def jwt_re_def stripe_re_def generic_sk_re_def github_re_def aws_re_def)

text \<open>A hexadecimal run, delimited on both sides, of 64 to 512 digits.\<close>

definition delimited :: "(uchar \<Rightarrow> bool) \<Rightarrow> ustr \<Rightarrow> ustr \<Rightarrow> bool" where
  "delimited uw a b \<longleftrightarrow> (a = [] \<or> \<not> word_char uw (last a)) \<and> (b = [] \<or> \<not> word_char uw (hd b))"

lemma hex_word: "hex_char c \<Longrightarrow> word_char uw c"
  by (auto simp: hex_char_def word_char_def is_alnum_def is_upper_def is_lower_def is_digit_def)

lemma hex_run_matches:
  assumes h: "list_all hex_char k" and l: "64 \<le> length k" "length k \<le> 512" and d: "delimited uw a b"
  shows "is_match uw hex64_re (a @ k @ b)"
proof -
  let ?s = "a @ k @ b"
  have k: "k \<noteq> []" "length k - Suc 0 < length k + length b" using l by auto
  have at: "word_at uw ?s (length a)" "word_at uw ?s (length a + (length k - 1))"
    unfolding word_at_def using h k nth_mem [of 0 k] nth_mem [of "length k - 1" k]
    by (simp_all add: nth_append list_all_iff hex_word del: nth_mem)
  have before: "\<not> (0 < length a \<and> word_at uw ?s (length a - 1))"
    using d by (auto simp: word_at_def nth_append delimited_def last_conv_nth)
  have after: "\<not> word_at uw ?s (length a + length k)"
    using d by (cases b) (auto simp: word_at_def nth_append delimited_def)
  have e: "edge_at uw ?s (length a)" "edge_at uw ?s (length a + length k)"
    using at before after k by (auto simp: edge_at_def add_diff_assoc Suc_le_eq)
  have "length k \<le> run_at hex_char ?s (length a)"
    using h by (simp add: run_at_def takeWhile_append2 list_all_iff)
  then have "match_from uw hex64_re ?s (length a)"
    using e l unfolding hex64_re_def match_from.simps list_ex_iff option.case
    by (intro conjI bexI [of _ "length k"]) (simp_all only: set_upt atLeastLessThan_iff less_Suc_eq_le min.bounded_iff simp_thms)
  then show ?thesis unfolding is_match_def list_ex_iff by (rule bexI) (simp only: set_upt atLeastLessThan_iff, simp)
qed

text \<open>
  A text with a token of one of the known shapes in it is sensitive, whatever surrounds the token; a key in
  hexadecimal is found too when it has 64 to 512 digits and no word character touches it.
\<close>

theorem secrets_are_found_in_context:
  assumes "list_ex (\<lambda>r. is_match uw r k) secret_res
    \<or> list_all hex_char k \<and> 64 \<le> length k \<and> length k \<le> 512 \<and> delimited uw a b"
  shows "is_sensitive uw (a @ k @ b)"
  using assms
proof
  assume "list_ex (\<lambda>r. is_match uw r k) secret_res"
  then obtain r where r: "r \<in> set secret_res" "is_match uw r k" by (auto simp: list_ex_iff)
  then have "is_match uw r (a @ k @ b)" by (intro is_match_shift secret_no_edge)
  then show ?thesis using r(1) by (auto simp: is_sensitive_def list_ex_iff)
qed (simp add: is_sensitive_def hex_run_matches)

theorem secrets_are_found_in_context_witness:
  "is_sensitive (\<lambda>_. False) (lit ''key='' @ replicate 96 97 @ lit '';'')
   \<and> is_sensitive (\<lambda>_. False) (lit ''xAKIA0123456789ABCDEFx'')"
proof
  show "is_sensitive (\<lambda>_. False) (lit ''key='' @ replicate 96 97 @ lit '';'')"
    by (rule secrets_are_found_in_context)
      (simp add: hex_char_def is_digit_def delimited_def word_char_def is_alnum_def is_upper_def is_lower_def lit_def list_all_iff)
  have "match_from (\<lambda>_. False) aws_re (lit ''AKIA0123456789ABCDEF'') 0"
    by (simp add: aws_re_def lit_at_def lit_def run_at_def is_digit_def is_upper_def upt_conv_Cons)
  then have m: "is_match (\<lambda>_. False) aws_re (lit ''AKIA0123456789ABCDEF'')" by (auto simp: is_match_def list_ex_iff lit_def)
  have "is_sensitive (\<lambda>_. False) (lit ''x'' @ lit ''AKIA0123456789ABCDEF'' @ lit ''x'')"
    by (rule secrets_are_found_in_context) (simp add: secret_res_def m)
  then show "is_sensitive (\<lambda>_. False) (lit ''xAKIA0123456789ABCDEFx'')" by (simp add: lit_def)
qed

end
