(* ===== verification/Clipboard.thy ===== *)
theory Clipboard
  imports Shared Fsm
begin

text \<open>
  \<open>driver/clipboard.rs\<close>: labels, the received-file folder, the cache of received images and one tick of the
  clipboard watcher. What the operating system answers is an argument; the image codec is a parameter.
\<close>

section \<open>Labels\<close>

text \<open>
  \<open>String::from_utf8_lossy\<close>: the longest prefix of a well-formed sequence that the input breaks off becomes one
  \<open>U+FFFD\<close>. \<open>broken\<close> is the length of that prefix.
\<close>

definition second_ok :: "u8 \<Rightarrow> u8 \<Rightarrow> bool" where
  "second_ok b0 b1 \<longleftrightarrow>
     (if b0 = 0xE0 then 0xA0 \<le> b1 \<and> b1 \<le> 0xBF
      else if b0 = 0xED then 0x80 \<le> b1 \<and> b1 \<le> 0x9F
      else if b0 = 0xF0 then 0x90 \<le> b1 \<and> b1 \<le> 0xBF
      else if b0 = 0xF4 then 0x80 \<le> b1 \<and> b1 \<le> 0x8F
      else 0x80 \<le> b1 \<and> b1 \<le> 0xBF)"

definition width :: "u8 \<Rightarrow> nat" where
  "width b = (if b < 0x80 then 1 else if 0xC2 \<le> b \<and> b \<le> 0xDF then 2
              else if 0xE0 \<le> b \<and> b \<le> 0xEF then 3 else if 0xF0 \<le> b \<and> b \<le> 0xF4 then 4 else 0)"

definition broken :: "u8 \<Rightarrow> bytes \<Rightarrow> nat" where
  "broken b0 bs =
     (if width b0 < 3 then 1
      else case bs of
        [] \<Rightarrow> 1
      | b1 # r \<Rightarrow> (if \<not> second_ok b0 b1 then 1
                  else if width b0 = 3 then 2
                  else case r of b2 # _ \<Rightarrow> (if cont b2 then 3 else 2) | [] \<Rightarrow> 2))"

lemma broken_pos: "0 < broken b0 bs"
  by (simp add: broken_def split: list.split)

function from_utf8_lossy :: "bytes \<Rightarrow> ustr" where
  "from_utf8_lossy [] = []"
| "from_utf8_lossy (b # bs) =
     (case from_utf8 (take (width b) (b # bs)) of
        Some [c] \<Rightarrow> c # from_utf8_lossy (drop (width b - 1) bs)
      | _ \<Rightarrow> 0xFFFD # from_utf8_lossy (drop (broken b bs - 1) bs))"
  by pat_completeness auto
termination by (relation "measure length") auto

declare from_utf8_lossy.simps(2) [simp del]

definition file_size :: "nat \<Rightarrow> ustr" where
  "file_size len =
     (if 1024 * 1024 \<le> len
      then let q = 10 * len div (1024 * 1024); r = 10 * len mod (1024 * 1024);
               tenths = (if 1024 * 1024 < 2 * r \<or> 2 * r = 1024 * 1024 \<and> odd q then q + 1 else q)
           in show_nat (tenths div 10) @ lit ''.'' @ show_nat (tenths mod 10) @ lit '' MB''
      else show_nat (div_ceil len 1024) @ lit '' KB'')"

text \<open>A paper clip, the name, a middle dot, the size.\<close>

definition file_label :: "ustr \<Rightarrow> nat \<Rightarrow> ustr" where
  "file_label name len = [0x1F4CE, 32] @ name @ [32, 0xB7, 32] @ file_size len"

definition preview_label :: "kind \<Rightarrow> bytes \<Rightarrow> ustr" where
  "preview_label k payload =
     (case k of
        Image \<Rightarrow> lit ''Image, '' @ show_nat (div_ceil (length payload) 1024) @ lit '' KB''
      | File \<Rightarrow> (case file_decode payload of Some (name, b) \<Rightarrow> file_label name (length b) | None \<Rightarrow> lit ''File'')
      | _ \<Rightarrow> from_utf8_lossy payload)"

definition clipboard_dedup_hash :: "(bytes \<Rightarrow> bytes32) \<Rightarrow> ustr \<Rightarrow> bytes32" where
  "clipboard_dedup_hash b3 s = hash_bytes (ring_hash b3 (as_bytes (canon_text s)))"

section \<open>Received files\<close>

text \<open>The folder as its file names and contents; \<open>io\<close>: the directory exists and the write succeeds.\<close>

type_synonym folder = "(ustr \<times> bytes) list"

definition rsplit_dot :: "ustr \<Rightarrow> (ustr \<times> ustr) option" where
  "rsplit_dot s =
     (if 46 \<in> set s
      then let e = rev (takeWhile (\<lambda>c. c \<noteq> 46) (rev s)) in Some (take (length s - length e - 1) s, e) else None)"

definition stem_ext :: "ustr \<Rightarrow> ustr \<times> ustr" where
  "stem_ext name =
     (case rsplit_dot name of Some (s, e) \<Rightarrow> (if s \<noteq> [] then (s, 46 # e) else (name, [])) | None \<Rightarrow> (name, []))"

definition numbered :: "ustr \<Rightarrow> nat \<Rightarrow> ustr" where
  "numbered name n = fst (stem_ext name) @ lit '' ('' @ show_nat n @ lit '')'' @ snd (stem_ext name)"

text \<open>\<open>while path.exists()\<close>, over the names taken; the loop need not end for the definition.\<close>

partial_function (option) free_from :: "ustr \<Rightarrow> ustr set \<Rightarrow> ustr \<Rightarrow> nat \<Rightarrow> ustr option" where
  "free_from name taken path n =
     (if path \<in> taken then free_from name taken (numbered name n) (n + 1) else Some path)"

definition save_received_file :: "bool \<Rightarrow> ustr \<Rightarrow> bytes \<Rightarrow> folder \<Rightarrow> (ustr \<times> folder) option option" where
  "save_received_file io raw b dir =
     (let name = sanitize raw in
      map_option (\<lambda>path. if io then Some (path, dir @ [(path, b)]) else None)
        (free_from name (set (map fst dir)) name 1))"

section \<open>The image cache\<close>

definition IMAGE_CACHE_CAP :: nat where "IMAGE_CACHE_CAP = 4"

type_synonym image_cache = "(ustr \<times> bytes) list"

definition cache_image :: "ustr \<Rightarrow> bytes \<Rightarrow> image_cache \<Rightarrow> image_cache" where
  "cache_image h png c =
     (if list_ex (\<lambda>e. fst e = h) c then c
      else let c = c @ [(h, png)] in drop (length c - IMAGE_CACHE_CAP) c)"

definition lookup_cached_image :: "ustr \<Rightarrow> image_cache \<Rightarrow> bytes option" where
  "lookup_cached_image h c = map_option snd (find (\<lambda>e. fst e = h) c)"

definition purge_cached_images :: "ustr list \<Rightarrow> image_cache \<Rightarrow> image_cache" where
  "purge_cached_images hs c = filter (\<lambda>e. fst e \<notin> set hs) c"

section \<open>The watcher\<close>

definition MAX_FILE_BYTES :: nat where "MAX_FILE_BYTES = MAX_PAYLOAD - 2 - MAX_NAME"
definition MAX_IMAGE_SIDE :: u32 where "MAX_IMAGE_SIDE = 16384"

text \<open>A copied file: path, size, modification time. A file list on the clipboard is \<open>None\<close> where it cannot be read.\<close>

type_synonym file_key = "ustr \<times> nat \<times> nat option"

datatype file_probe = NoFiles | NotOneFile | OneFile file_key

definition copied_file :: "ustr list option \<Rightarrow> (ustr \<Rightarrow> (bool \<times> nat \<times> nat option) option) \<Rightarrow> file_probe" where
  "copied_file paths stat =
     (case paths of
        None \<Rightarrow> NoFiles
      | Some [] \<Rightarrow> NoFiles
      | Some [path] \<Rightarrow>
          (case stat path of
             None \<Rightarrow> NoFiles
           | Some (is_file, len, modified) \<Rightarrow>
               (if \<not> is_file \<or> MAX_FILE_BYTES < len then NotOneFile else OneFile (path, len, modified)))
      | Some (_ # _ # _) \<Rightarrow> NotOneFile)"

text \<open>What the probes of one tick find; \<open>c_read\<close> is the name and content of the file, read after the probe.\<close>

record os_clip =
  c_files :: file_probe
  c_read :: "(ustr \<times> bytes) option"
  c_image :: "(u32 \<times> u32 \<times> bytes) option"
  c_text :: "ustr option"
  c_concealed :: bool

record watcher =
  last_seen_hash :: "bytes32 option"
  last_file :: "file_key option"
  last_session_est :: millis

definition watcher_new :: watcher where
  "watcher_new = \<lparr>last_seen_hash = None, last_file = None, last_session_est = 0\<rparr>"

datatype driver_push = PushBinary kind bytes32 bytes ustr | PushText bool ustr

text \<open>A fresh session seeds the watcher with what is on the clipboard already.\<close>

definition seed_watcher :: "(bytes \<Rightarrow> bytes32) \<Rightarrow> millis \<Rightarrow> os_clip \<Rightarrow> watcher \<Rightarrow> watcher" where
  "seed_watcher b3 est c w =
     (if est = last_session_est w then w
      else let w = w\<lparr>last_session_est := est\<rparr>;
               w = (case c_files c of OneFile key \<Rightarrow> w\<lparr>last_file := Some key\<rparr> | _ \<Rightarrow> w)
           in case c_image c of
                Some (iw, ih, rgba) \<Rightarrow> w\<lparr>last_seen_hash := Some (image_rgba_hash b3 iw ih rgba)\<rparr>
              | None \<Rightarrow> (case c_text c of
                  Some t \<Rightarrow> w\<lparr>last_seen_hash := Some (clipboard_dedup_hash b3 t)\<rparr> | None \<Rightarrow> w))"

definition poll_file :: "(bytes \<Rightarrow> bytes32) \<Rightarrow> instant \<Rightarrow> recent_writes \<Rightarrow> os_clip \<Rightarrow> file_key \<Rightarrow> watcher \<Rightarrow> driver_push option \<times> watcher" where
  "poll_file b3 tm ws c key w =
     (if last_file w = Some key then (None, w)
      else let w = w\<lparr>last_file := Some key\<rparr> in
           case c_read c of
             None \<Rightarrow> (None, w)
           | Some (name, b) \<Rightarrow>
               (let payload = file_encode name b; h = hash_bytes (ring_hash b3 payload)
                in (if is_echo h tm ws then None else Some (PushBinary File h payload (file_label name (length b))),
                    w\<lparr>last_seen_hash := Some h\<rparr>)))"

definition poll_image ::
  "(bytes \<Rightarrow> bytes32) \<Rightarrow> (u32 \<Rightarrow> u32 \<Rightarrow> bytes \<Rightarrow> bytes option) \<Rightarrow> instant \<Rightarrow> recent_writes \<Rightarrow> u32 \<times> u32 \<times> bytes \<Rightarrow> watcher
     \<Rightarrow> driver_push option \<times> watcher" where
  "poll_image b3 encode_png tm ws img w =
     (let (iw, ih, rgba) = img; h = image_rgba_hash b3 iw ih rgba in
      if last_seen_hash w = Some h then (None, w)
      else let w = w\<lparr>last_seen_hash := Some h\<rparr> in
           if is_echo h tm ws \<or> MAX_IMAGE_SIDE < iw \<or> MAX_IMAGE_SIDE < ih then (None, w)
           else case encode_png iw ih rgba of
             Some png \<Rightarrow>
               (if length png \<le> MAX_PAYLOAD
                then (Some (PushBinary Image h png
                        (lit ''Image '' @ show_nat (unat iw) @ [0xD7] @ show_nat (unat ih) @ lit '', ''
                         @ show_nat (div_ceil (length png) 1024) @ lit '' KB'')), w)
                else (None, w))
           | None \<Rightarrow> (None, w))"

definition poll_text :: "(bytes \<Rightarrow> bytes32) \<Rightarrow> instant \<Rightarrow> recent_writes \<Rightarrow> bool \<Rightarrow> ustr \<Rightarrow> watcher \<Rightarrow> driver_push option \<times> watcher" where
  "poll_text b3 tm ws concealed raw w =
     (let t = trim raw; h = clipboard_dedup_hash b3 raw in
      if t = [] \<or> last_seen_hash w = Some h then (None, w)
      else (if is_echo h tm ws \<or> MAX_PAYLOAD < str_len t then None else Some (PushText concealed t),
            w\<lparr>last_seen_hash := Some h\<rparr>))"

text \<open>One tick with a session that came up at \<open>est\<close>.\<close>

definition watcher_tick ::
  "(bytes \<Rightarrow> bytes32) \<Rightarrow> (u32 \<Rightarrow> u32 \<Rightarrow> bytes \<Rightarrow> bytes option) \<Rightarrow> instant \<Rightarrow> millis \<Rightarrow> recent_writes \<Rightarrow> os_clip \<Rightarrow> watcher
     \<Rightarrow> driver_push option \<times> watcher" where
  "watcher_tick b3 encode_png tm est ws c w =
     (let w = seed_watcher b3 est c w in
      case c_files c of
        NotOneFile \<Rightarrow> (None, w)
      | OneFile key \<Rightarrow> poll_file b3 tm ws c key w
      | NoFiles \<Rightarrow>
          (let w = w\<lparr>last_file := None\<rparr> in
           case c_image c of
             Some img \<Rightarrow> poll_image b3 encode_png tm ws img w
           | None \<Rightarrow> (case c_text c of Some raw \<Rightarrow> poll_text b3 tm ws (c_concealed c) raw w | None \<Rightarrow> (None, w))))"

section \<open>The clipboard writer\<close>

datatype clip_write = WText ustr | WFiles "ustr list" | ClearIfStill ustr | WImage u32 u32 bytes

definition SECRET_LIFETIME :: duration where "SECRET_LIFETIME = from_secs 60"

text \<open>The jobs applied, when each round of the loop finds the jobs of one list queued.\<close>

definition serve_newest :: "'j list list \<Rightarrow> 'j list" where
  "serve_newest rounds = map last (filter (\<lambda>q. q \<noteq> []) rounds)"

section \<open>A received file finds a name\<close>

definition digits_value :: "ustr \<Rightarrow> nat" where
  "digits_value ds = fold (\<lambda>c a. a * 10 + (c - 48)) ds 0"

lemma digits_value_show: "digits_value (show_nat n) = n"
proof (induction n rule: show_nat.induct)
  case (1 n)
  show ?case
  proof (cases "n < 10")
    case False
    then have "fold (\<lambda>c a. a * 10 + (c - 48)) (show_nat (n div 10)) 0 = n div 10"
      using 1 by (simp add: digits_value_def)
    then show ?thesis
      using False by (subst show_nat.simps) (simp add: digits_value_def div_mult_mod_eq)
  qed (subst show_nat.simps, simp add: digits_value_def)
qed

lemma numbered_inj: "numbered name n = numbered name m \<Longrightarrow> n = m"
proof -
  assume "numbered name n = numbered name m"
  then have "show_nat n = show_nat m" by (simp add: numbered_def)
  then show "n = m" by (metis digits_value_show)
qed

lemma free_from_finds:
  assumes "finite taken"
  shows "\<exists>p. free_from name taken path n = Some p \<and> p \<notin> taken \<and> (p = path \<or> (\<exists>k\<ge>n. p = numbered name k))"
proof (induction "card (taken \<inter> numbered name ` {n..})" arbitrary: path n rule: less_induct)
  case less
  have step: "(\<exists>p. free_from name taken (numbered name n) (n + 1) = Some p \<and> p \<notin> taken
      \<and> (p = numbered name n \<or> (\<exists>k\<ge>n + 1. p = numbered name k)))"
  proof (cases "numbered name n \<in> taken")
    case True
    have "numbered name n \<notin> numbered name ` {n + 1..}" using numbered_inj by fastforce
    then have "taken \<inter> numbered name ` {n + 1..} \<subset> taken \<inter> numbered name ` {n..}" using True by auto
    then show ?thesis using less assms by (simp add: psubset_card_mono)
  qed (simp add: free_from.simps)
  show ?case
    using step by (subst free_from.simps) (auto, metis Suc_leD le_refl)
qed

lemma save_path:
  obtains path where "path \<notin> set (map fst dir)"
    "save_received_file io raw b dir = Some (if io then Some (path, dir @ [(path, b)]) else None)"
    "path = sanitize raw \<or> (\<exists>n>0. path = numbered (sanitize raw) n)"
proof -
  obtain path where "free_from (sanitize raw) (set (map fst dir)) (sanitize raw) 1 = Some path"
    "path \<notin> set (map fst dir)" "path = sanitize raw \<or> (\<exists>n\<ge>1. path = numbered (sanitize raw) n)"
    using free_from_finds [of "set (map fst dir)" "sanitize raw" "sanitize raw" 1] by auto
  then show thesis
    by (intro that [of path]) (auto simp: save_received_file_def Let_def Suc_le_eq simp del: set_map)
qed

text \<open>
  C40: A received file always finds a name that no file of the folder has: the loop ends, and the files that are
  there stay as they are, with the new one after them when the write succeeds.
\<close>

theorem received_files_never_overwrite:
  "\<exists>path. path \<notin> set (map fst dir)
     \<and> save_received_file io raw b dir = Some (if io then Some (path, dir @ [(path, b)]) else None)
     \<and> (path = sanitize raw \<or> (\<exists>n>0. path = numbered (sanitize raw) n))"
  using save_path [of dir io raw b] by metis

section \<open>Lossy decoding is decoding where it can be\<close>

lemma width_nat:
  "width b = (if unat b < 128 then 1 else if 194 \<le> unat b \<and> unat b < 224 then 2
     else if 224 \<le> unat b \<and> unat b < 240 then 3 else if 240 \<le> unat b \<and> unat b < 245 then 4 else 0)"
  by (auto simp: width_def word_less_nat_alt word_le_nat_alt)

lemma cons_split:
  assumes "from_utf8 (b # bs) = Some s"
  shows "\<exists>c r. from_utf8 (take (width b) (b # bs)) = Some [c] \<and> from_utf8 (drop (width b - 1) bs) = Some r \<and> s = c # r"
proof -
  consider "unat b < 128" | "192 \<le> unat b" "unat b < 224" | "224 \<le> unat b" "unat b < 240" | "240 \<le> unat b" "unat b < 248"
    using assms by (force simp: from_utf8.simps)
  then show ?thesis
  proof cases
    case 1
    then have "width b = 1" by (simp add: width_nat)
    then show ?thesis using assms 1 by (auto simp: from_utf8.simps)
  next
    case 2
    then obtain b1 r where r: "bs = b1 # r" "cont b1" "128 \<le> (unat b - 192) * 64 + low6 b1"
      "map_option ((#) ((unat b - 192) * 64 + low6 b1)) (from_utf8 r) = Some s"
      using assms by (auto simp: from_utf8.simps Let_def split: list.splits if_splits)
    have "low6 b1 < 64" using r(2) unfolding cont_def low6_def by linarith
    then have "194 \<le> unat b" using r(3) by linarith
    then have "width b = 2" using 2 by (simp add: width_nat)
    then show ?thesis using r 2 by (auto simp: from_utf8.simps)
  next
    case 3
    then have "width b = 3" by (simp add: width_nat)
    then show ?thesis using assms 3 by (cases bs; cases "tl bs") (auto simp: from_utf8.simps Let_def split: if_splits)
  next
    case 4
    then obtain b1 b2 b3 r where r: "bs = b1 # b2 # b3 # r" "cont b1" "cont b2" "cont b3"
      "scalar ((unat b - 240) * 262144 + low6 b1 * 4096 + low6 b2 * 64 + low6 b3)"
      using assms by (cases bs; cases "tl bs"; cases "tl (tl bs)") (auto simp: from_utf8.simps Let_def split: if_splits)
    then have "unat b < 245" using 4 by (auto simp: scalar_def)
    then have "width b = 4" using 4 by (simp add: width_nat)
    then show ?thesis using r 4 assms by (auto simp: from_utf8.simps Let_def split: if_splits)
  qed
qed

lemma lossy_exact: "from_utf8 bs = Some s \<Longrightarrow> from_utf8_lossy bs = s"
proof (induction "length bs" arbitrary: bs s rule: less_induct)
  case less
  show ?case
  proof (cases bs)
    case (Cons b bs')
    obtain c r where "from_utf8 (take (width b) (b # bs')) = Some [c]" "from_utf8 (drop (width b - 1) bs') = Some r" "s = c # r"
      using cons_split less.prems Cons by blast
    then show ?thesis using less.hyps [of "drop (width b - 1) bs'" r] Cons by (simp add: from_utf8_lossy.simps)
  qed (use less.prems in simp)
qed

section \<open>The cache stays small\<close>

lemma cache_image_bound: "length c \<le> IMAGE_CACHE_CAP \<Longrightarrow> length (cache_image h png c) \<le> IMAGE_CACHE_CAP"
  unfolding cache_image_def Let_def IMAGE_CACHE_CAP_def by simp linarith

lemma cache_image_newest: "map_of c h = None \<Longrightarrow> lookup_cached_image h (cache_image h png c) = Some png"
proof -
  assume a: "map_of c h = None"
  have l: "find (\<lambda>e. fst e = h) (xs @ [(h, png)]) = Some (h, png)" if "\<forall>e\<in>set xs. fst e \<noteq> h" for xs
    using that by (induction xs) auto
  have n: "\<forall>e\<in>set c. fst e \<noteq> h" using a by (auto simp: map_of_eq_None_iff)
  have "cache_image h png c = drop (length c + 1 - IMAGE_CACHE_CAP) c @ [(h, png)]"
    using n by (auto simp: cache_image_def list_ex_iff IMAGE_CACHE_CAP_def)
  then show ?thesis using l n by (simp add: lookup_cached_image_def) (metis in_set_dropD)
qed

end
