(* ===== verification/Actions.thy ===== *)
theory Actions
  imports Clipboard Rehandshake Liveness Seq_Store App_Mesh Vault App_History
begin

text \<open>
  \<open>driver/actions.rs\<close>: what the event loop owns (the core, the sequence store) together with the shared handles,
  and the execution of the core's actions. One call runs in one step; other tasks may run at its awaits, which
  the model leaves out here.
\<close>

section \<open>The daemon\<close>

text \<open>What leaves through other channels: log lines, clipboard writes, the mDNS record, the PIN watchdog, the end.\<close>

datatype out =
    Logged log_entry
  | Written clip_write
  | After duration clip_write
  | Advertised "ustr option"
  | WatchdogStarted
  | Cancelled

text \<open>One initiator at a time holds the slot: whom it dials, and whether the pairing is a new one.\<close>

record dial_job =
  dj_pub :: bytes32
  dj_addrs :: "sock_addr list"
  dj_peer :: bytes32
  dj_name :: ustr
  dj_gate :: bool

text \<open>The small files beside \<open>peers.json\<close>; \<open>None\<close> is a missing or unreadable one.\<close>

record settings_files =
  firewall_file :: "firewall_policy option"
  name_file :: "ustr option"
  retention_file :: "u64 option"

record 't daemon =
  d_host :: "'t host"
  d_app :: app
  d_seq :: "(seq_disk \<times> seq_store) option"
  d_writes :: recent_writes
  d_images :: image_cache
  d_folder :: folder
  d_logs :: "log_entry list"
  d_out :: "out list"
  d_dialing :: "dial_job option"
  d_pin :: "(ustr \<times> instant) option"
  d_settings :: settings_files
  vault_ttl :: u64

text \<open>The handshake environment, the wall clock, whether there is a clipboard to write, how the disk behaves.\<close>

record ('h, 't) daemon_env =
  hs_of :: "('h, 't) hs_env"
  wl :: wall
  has_writer :: bool
  seq_io :: io_outcome
  folder_io :: bool
  settings_io :: bool

abbreviation E_of :: "('h, 't) daemon_env \<Rightarrow> 't env" where
  "E_of D \<equiv> env_of (hs_of D)"

abbreviation d_hub :: "'t daemon \<Rightarrow> 't shared" where
  "d_hub d \<equiv> hub (d_host d)"

definition at_hub :: "('t shared \<Rightarrow> 't shared) \<Rightarrow> 't daemon \<Rightarrow> 't daemon" where
  "at_hub f d = d\<lparr>d_host := on_hub f (d_host d)\<rparr>"

definition count :: "(metrics_tracker \<Rightarrow> metrics_tracker) \<Rightarrow> 't daemon \<Rightarrow> 't daemon" where
  "count f d = at_hub (\<lambda>sh. sh\<lparr>counters := f (counters sh)\<rparr>) d"

definition put_out :: "out \<Rightarrow> 't daemon \<Rightarrow> 't daemon" where
  "put_out x d = d\<lparr>d_out := d_out d @ [x]\<rparr>"

text \<open>\<open>app.handle(event)\<close>.\<close>

definition d_handle :: "('h, 't) daemon_env \<Rightarrow> event \<Rightarrow> 't daemon \<Rightarrow> action list \<times> 't daemon" where
  "d_handle D e d = (let (as, a) = handle (blake3 (E_of D)) (wl D) e (d_app d) in (as, d\<lparr>d_app := a\<rparr>))"

section \<open>Gates and purges\<close>

definition primary_pending :: "'t shared \<Rightarrow> bool" where
  "primary_pending sh =
     (case cached_peer_id (net sh) of Some i \<Rightarrow> map_of (pending_pairs sh) i \<noteq> None | None \<Rightarrow> False)"

definition gate_outbound :: "'t shared \<Rightarrow> action list \<Rightarrow> action list" where
  "gate_outbound sh as = (if \<not> primary_pending sh then as else filter (\<lambda>a. \<not> is_send_item a) as)"

definition purge_dropped_pending_from_outbox_stage :: "action list \<Rightarrow> 't shared \<Rightarrow> 't shared" where
  "purge_dropped_pending_from_outbox_stage as sh =
     sh\<lparr>outbox_stage := fold (\<lambda>a st. case a of PendingDropped hs \<Rightarrow> fold hm_remove hs st | _ \<Rightarrow> st) as (outbox_stage sh)\<rparr>"

definition purge_peer_from_inflight :: "bytes32 \<Rightarrow> 't shared \<Rightarrow> 't shared" where
  "purge_peer_from_inflight peer sh =
     sh\<lparr>flights := List.map_filter (\<lambda>(h, it).
          let rest = filter (\<lambda>q. q \<noteq> peer) (pending_peers it)
          in if rest = [] then None else Some (h, it\<lparr>pending_peers := rest\<rparr>)) (flights sh)\<rparr>"

text \<open>
  The mirror of a wipe. The disk part runs only with a keystore; the key and the cipher are in \<open>V\<close>, and
  \<open>io\<close> says how the disk behaves. The flag says whether a wipe ran.
\<close>

definition mirror_on_disk :: "vault_lib \<Rightarrow> vault_io \<Rightarrow> millis \<Rightarrow> u64 \<Rightarrow> history_item list \<Rightarrow> dir \<Rightarrow> bool \<times> dir" where
  "mirror_on_disk V io t ttl kept dk =
     (if kept = [] then clear_vault (vi_tmp_ok io) (vi_file_ok io) dk
      else save_vault V (vi_nonce io) (vi_write io) (map (\<lambda>i. \<lparr>ve_item = i, ve_created = t\<rparr>) kept) t ttl DEFAULT_DISK_CAP dk)"

definition sync_security_wipe_if_needed ::
  "vault_lib \<Rightarrow> vault_io \<Rightarrow> millis \<Rightarrow> u64 \<Rightarrow> u64 \<times> dir \<Rightarrow> 't daemon \<Rightarrow> bool \<times> (u64 \<times> dir) \<times> 't daemon" where
  "sync_security_wipe_if_needed V io t ttl s d =
     (let gen_now = vault_wipe_gen (a_state (d_app d)); kept = history (a_state (d_app d)) in
      if gen_now = fst s then (False, s, d)
      else let d = at_hub (\<lambda>sh. sh\<lparr>box := outbox_clear_all (box sh), outbox_stage := [], flights := []\<rparr>) d;
               d = d\<lparr>d_images := filter (\<lambda>e. list_ex (\<lambda>h. hi_hash h = fst e) kept) (d_images d)\<rparr>;
               dk = (if keystore_dir (d_hub d) then snd (mirror_on_disk V io t ttl kept (snd s)) else snd s)
           in (True, (gen_now, dk), d))"

section \<open>Publishing\<close>

definition publishable_state :: "'t env \<Rightarrow> 't daemon \<Rightarrow> state \<times> 't daemon" where
  "publishable_state E d =
     (let (m, tr) = metrics_snapshot (now E) (counters (d_hub d));
          d = at_hub (\<lambda>sh. sh\<lparr>counters := tr\<rparr>) d;
          d = d\<lparr>d_app := set_metrics (Some m) (d_app d)\<rparr>;
          sh = d_hub d; primary = cached_peer_id (net sh);
          ps = build_peers (net sh) (metas sh) primary
      in ((a_state (d_app d))\<lparr>peers := ps, paired := build_paired (trusted sh) ps primary\<rparr>, d))"

definition emit_state :: "'t env \<Rightarrow> 't daemon \<Rightarrow> 't daemon" where
  "emit_state E d = (let (snap, d) = publishable_state E d in at_hub (\<lambda>sh. sh\<lparr>snapshot := snap\<rparr>) d)"

text \<open>\<open>logs.rs\<close>: the last 200 lines.\<close>

definition LOG_CAPACITY :: nat where "LOG_CAPACITY = 200"

definition log_push :: "log_entry \<Rightarrow> log_entry list \<Rightarrow> log_entry list" where
  "log_push e ls = (if length ls = LOG_CAPACITY then tl ls else ls) @ [e]"

definition log_tail :: "nat \<Rightarrow> log_entry list \<Rightarrow> log_entry list" where
  "log_tail n ls = rev (take (min n (length ls)) (rev ls))"

section \<open>Sending an item\<close>

definition item_targets :: "kind \<Rightarrow> 't shared \<Rightarrow> bytes32 list" where
  "item_targets k sh =
     filter (\<lambda>p. accepts_kind (metas sh) p k) (filter (\<lambda>p. map_of (pending_pairs sh) p = None) (linked_peer_ids (net sh)))"

text \<open>A resend copy, unless the item is sensitive.\<close>

definition keep_copy :: "'t env \<Rightarrow> bytes32 \<Rightarrow> kind \<Rightarrow> bytes \<Rightarrow> bool \<Rightarrow> event_id \<Rightarrow> 't shared \<Rightarrow> 't shared" where
  "keep_copy E h k payload sens i sh =
     (if sens then sh
      else sh\<lparr>box := outbox_insert h
        \<lparr>oe_payload = payload, oe_kind = k, oe_origin = dev_bytes (origin i), oe_seq = seq i, oe_created = now E\<rparr>
        (now E) (box sh)\<rparr>)"

definition fan_out ::
  "'t env \<Rightarrow> bytes32 \<Rightarrow> kind \<Rightarrow> bytes \<Rightarrow> bool \<Rightarrow> event_id \<Rightarrow> bytes list \<Rightarrow> 't shared \<Rightarrow> 't shared" where
  "fan_out E h k payload sens i frames sh =
     (if linked_peer_ids (net sh) = [] then sh
      else let sh = keep_copy E h k payload sens i sh;
               send_targets = item_targets k sh;
               sh = sh\<lparr>counters := on_item_sent (counters sh)\<rparr>;
               sh = fold (\<lambda>p. send_all E p frames) send_targets sh
           in if send_targets = [] then sh
              else sh\<lparr>flights := track_inflight (now E) h frames send_targets (flights sh)\<rparr>)"

definition send_item :: "('h, 't) daemon_env \<Rightarrow> bytes32 \<Rightarrow> kind \<Rightarrow> bytes \<Rightarrow> bool \<Rightarrow> 't daemon \<Rightarrow> 't daemon" where
  "send_item D h k payload sens d =
     (if MAX_PAYLOAD < length payload then d
      else let (i, a) = next_local_event_id (d_app d);
               d = d\<lparr>d_app := a,
                     d_seq := map_option (\<lambda>(dk, st). snd (advance (seq_io D) (seq i + 1) dk st)) (d_seq d)\<rparr>;
               frames = build_item_frames (cbor_ser (E_of D)) (counter (clock a)) h k payload sens
                          (dev_bytes (origin i)) (seq i)
           in if frames = [] then d else at_hub (fan_out (E_of D) h k payload sens i frames) d)"

section \<open>Writing the clipboard\<close>

definition record_own :: "('h, 't) daemon_env \<Rightarrow> bytes32 \<Rightarrow> 't daemon \<Rightarrow> 't daemon" where
  "record_own D h d = d\<lparr>d_writes := record_write h (now (E_of D)) (d_writes d)\<rparr>"

definition cache_for :: "('h, 't) daemon_env \<Rightarrow> bool \<Rightarrow> bytes32 \<Rightarrow> bytes \<Rightarrow> 't daemon \<Rightarrow> 't daemon" where
  "cache_for D sens h payload d =
     (if sens then d else d\<lparr>d_images := cache_image (hex_encode (hexs (E_of D)) h) payload (d_images d)\<rparr>)"

definition job :: "('h, 't) daemon_env \<Rightarrow> clip_write \<Rightarrow> 't daemon \<Rightarrow> 't daemon" where
  "job D w d = (if has_writer D then put_out (Written w) d else d)"

definition write_file :: "('h, 't) daemon_env \<Rightarrow> bytes \<Rightarrow> bool \<Rightarrow> 't daemon \<Rightarrow> 't daemon" where
  "write_file D payload sens d =
     (let b3 = blake3 (E_of D); h = hash_bytes (ring_hash b3 payload); d = cache_for D sens h payload d in
      if \<not> has_writer D then d
      else case file_decode payload of
        None \<Rightarrow> d
      | Some (name, b) \<Rightarrow>
          (case save_received_file (folder_io D) name b (d_folder d) of
             Some (Some (path, dir)) \<Rightarrow>
               (let d = record_own D h (d\<lparr>d_folder := dir\<rparr>);
                    d = record_own D (hash_bytes (ring_hash b3 (file_encode path b))) d
                in job D (WFiles [path]) d)
           | _ \<Rightarrow> d))"

definition write_image :: "('h, 't) daemon_env \<Rightarrow> bytes \<Rightarrow> bool \<Rightarrow> 't daemon \<Rightarrow> 't daemon" where
  "write_image D payload sens d =
     (case png_decode (E_of D) payload of
        None \<Rightarrow> d
      | Some (iw, ih, rgba) \<Rightarrow>
          (let h = image_rgba_hash (blake3 (E_of D)) iw ih rgba
           in job D (WImage iw ih rgba) (cache_for D sens h payload (record_own D h d))))"

text \<open>A received secret is cleared after a minute if it is still there.\<close>

definition write_text :: "('h, 't) daemon_env \<Rightarrow> bytes \<Rightarrow> bool \<Rightarrow> 't daemon \<Rightarrow> 't daemon" where
  "write_text D payload sens d =
     (let s = from_utf8_lossy payload;
          d = record_own D (clipboard_dedup_hash (blake3 (E_of D)) s) d
      in if \<not> has_writer D then d
         else job D (WText s) (if sens then put_out (After SECRET_LIFETIME (ClearIfStill s)) d else d))"

definition write_clipboard :: "('h, 't) daemon_env \<Rightarrow> kind \<Rightarrow> bytes \<Rightarrow> bool \<Rightarrow> 't daemon \<Rightarrow> 't daemon" where
  "write_clipboard D k payload sens d =
     (let d = count on_item_received d in
      if k = File then write_file D payload sens d
      else if k = Image then write_image D payload sens d
      else write_text D payload sens d)"

section \<open>Closing\<close>

definition say_primary :: "'t env \<Rightarrow> msg \<Rightarrow> 't shared \<Rightarrow> 't shared" where
  "say_primary E g sh = (case encode (cbor_ser E) (proto_frame g) of Inr b \<Rightarrow> send_primary E b sh | Inl _ \<Rightarrow> sh)"

definition hang_up :: "'t env \<Rightarrow> 't shared \<Rightarrow> 't shared" where
  "hang_up E sh = (let sh = say_primary E Bye sh in sh\<lparr>net := drop_session (net sh)\<rparr>)"

definition close_session :: "'t env \<Rightarrow> bytes32 \<Rightarrow> 't shared \<Rightarrow> 't shared" where
  "close_session E closing sh =
     (if closing \<noteq> zero32 \<and> cached_peer_id (net sh) \<noteq> None \<and> cached_peer_id (net sh) \<noteq> Some closing \<and> has_session (net sh)
      then sh else hang_up E sh)"

section \<open>Dispatch\<close>

fun act :: "('h, 't) daemon_env \<Rightarrow> action \<Rightarrow> 't daemon \<Rightarrow> 't daemon" where
  "act D EmitState d = emit_state (E_of D) d"
| "act D (EmitLog e) d = put_out (Logged e) (d\<lparr>d_logs := log_push e (d_logs d)\<rparr>)"
| "act D (SendItem h k payload sens) d = send_item D h k payload sens d"
| "act D (WriteClipboard k payload sens) d = write_clipboard D k payload sens d"
| "act D DuplicateDropped d = count on_dedup_drop d"
| "act D ResyncApplySuppressed d = count on_resync_apply_suppressed d"
| "act D CloseSession d = at_hub (close_session (E_of D) (peer_id (a_state (d_app d)))) d"
| "act D (SendBattery lv ch) d = at_hub (say_primary (E_of D) (BatteryStatus 0 lv ch)) d"
| "act D DropPeer d = at_hub (hang_up (E_of D)) d"
| "act D (SendHandshake p) d = count on_handshake_start d"
| "act D (AckItem h) d = d"
| "act D (PendingDropped hs) d = d"
| "act D OpenSession d = d"
| "act D StartDiscovery d = d"
| "act D StopDiscovery d = d"
| "act D BurstReplay d = d"

definition dispatch :: "('h, 't) daemon_env \<Rightarrow> action list \<Rightarrow> 't daemon \<Rightarrow> 't daemon" where
  "dispatch D as d = fold (act D) as d"

definition run_event :: "('h, 't) daemon_env \<Rightarrow> event \<Rightarrow> 't daemon \<Rightarrow> 't daemon" where
  "run_event D e d = (let (as, d) = d_handle D e d in dispatch D as d)"

definition ensure_online :: "('h, 't) daemon_env \<Rightarrow> 't daemon \<Rightarrow> 't daemon" where
  "ensure_online D d = (if on (a_state (d_app d)) then d else run_event D ToggleOn d)"

section \<open>A linked daemon\<close>

definition demo_daemon :: "unit daemon" where
  "demo_daemon = \<lparr>d_host = \<lparr>hub = demo_shared\<lparr>pending_pairs := [([2], \<lparr>pp_static_pub = [2], pp_name = [], pp_sas_words = [],
       pp_from = ([10, 0, 0, 2], 9), pp_expires_at = 90\<rparr>)]\<rparr>, pairing_window = None, peers_disk = Missing, sent = []\<rparr>,
     d_app = App_History.demo_linked Allow, d_seq = None, d_writes = [], d_images = [], d_folder = [], d_logs = [], d_out = [],
     d_dialing = None, d_pin = None, d_settings = \<lparr>firewall_file = None, name_file = None, retention_file = None\<rparr>,
     vault_ttl = 86400\<rparr>"

definition demo_D :: "(unit, unit) daemon_env" where
  "demo_D = \<lparr>hs_of = demo_R, wl = demo_wall, has_writer = True,
     seq_io = \<lparr>dir_ok = True, bak_ok = True, main_ok = True\<rparr>, folder_io = True, settings_io = True\<rparr>"

lemma demo_D_sel [simp]: "hs_of demo_D = demo_R" "wl demo_D = demo_wall" "has_writer demo_D" "folder_io demo_D"
  by (simp_all add: demo_D_def)

end
