(* ===== verification/Pairing.thy ===== *)
theory Pairing
  imports Actions
begin

text \<open>
  \<open>driver/pairing.rs\<close>: initiators and their single slot, the redial tick, what mDNS reports, the rotation of the
  advertised PIN, and the pairing URI. Sockets and mDNS are outside: a report is an argument, an advertisement is
  an output.
\<close>

section \<open>Initiators\<close>

definition start_initiator :: "dial_job \<Rightarrow> 't daemon \<Rightarrow> 't daemon" where
  "start_initiator j d =
     (if dj_addrs j = [] then d else if d_dialing d \<noteq> None then d else d\<lparr>d_dialing := Some j\<rparr>)"

text \<open>
  The task: the addresses in turn, with what the others do meanwhile and the replies that come, until one
  handshake returns. \<open>r\<close> is the random number of the backoff.
\<close>

fun dial_each ::
  "('h, 't) hs_env \<Rightarrow> dial_job \<Rightarrow> (sock_addr \<times> (nat \<Rightarrow> 't meddle list) \<times> (sock_addr \<times> bytes) list) list \<Rightarrow> 't host \<Rightarrow> bool \<times> 't host" where
  "dial_each R j [] h = (False, h)"
| "dial_each R j ((addr, ms, incoming) # rest) h =
     (case run_initiator R ms incoming (dj_pub j) addr (dj_peer j) (dj_name j) (dj_gate j) h of
        (Inr _, h) \<Rightarrow> (True, h)
      | (Inl _, h) \<Rightarrow> dial_each R j rest (on_hub (\<lambda>s. s\<lparr>counters := on_handshake_fail (counters s)\<rparr>) h))"

definition backoff_of :: "bytes32 \<Rightarrow> 't shared \<Rightarrow> peer_backoff" where
  "backoff_of i sh = (case map_of (backoffs sh) i of Some b \<Rightarrow> b | None \<Rightarrow> backoff_new)"

definition initiator_task ::
  "('h, 't) daemon_env \<Rightarrow> u64 \<Rightarrow> (nat \<Rightarrow> (nat \<Rightarrow> 't meddle list) \<times> (sock_addr \<times> bytes) list) \<Rightarrow> 't daemon \<Rightarrow> 't daemon" where
  "initiator_task D r air d =
     (case d_dialing d of
        None \<Rightarrow> d
      | Some j \<Rightarrow>
          (let (ok, h) = dial_each (hs_of D) j (map (\<lambda>(k, a). (a, air k)) (enumerate 0 (dj_addrs j))) (d_host d);
               d = d\<lparr>d_host := h, d_dialing := None\<rparr>
           in if ok then d
              else at_hub (\<lambda>s. s\<lparr>backoffs := hm_insert (dj_peer j) (on_attempt_failed (now (E_of D)) r (backoff_of (dj_peer j) s)) (backoffs s)\<rparr>) d))"

section \<open>The redial tick\<close>

definition DISCOVERY_CACHE_TTL :: duration where "DISCOVERY_CACHE_TTL = from_secs 120"

definition sync_on :: "'t shared \<Rightarrow> bool" where "sync_on sh = on (snapshot sh)"

definition with_hint :: "'t env \<Rightarrow> bytes32 \<Rightarrow> 't shared \<Rightarrow> sock_addr list \<Rightarrow> sock_addr list" where
  "with_hint E i sh cs =
     (case map_of (disc_cache sh) i of
        Some e \<Rightarrow> (if now E - rp_last_seen e < DISCOVERY_CACHE_TTL \<and> rp_addr e \<notin> set cs then cs @ [rp_addr e] else cs)
      | None \<Rightarrow> cs)"

definition check_ready :: "'t env \<Rightarrow> bytes32 \<Rightarrow> 't shared \<Rightarrow> bool \<times> 't shared" where
  "check_ready E i sh = (ready (backoff_of i sh) (now E), sh\<lparr>backoffs := hm_insert i (backoff_of i sh) (backoffs sh)\<rparr>)"

definition dials :: "bytes32 \<Rightarrow> bytes32 \<Rightarrow> trusted_peer \<Rightarrow> sock_addr list \<Rightarrow> dial_job list" where
  "dials own i p cs =
     (if tp_static_pub p \<le> own then []
      else map (\<lambda>a. \<lparr>dj_pub = tp_static_pub p, dj_addrs = [a], dj_peer = i, dj_name = tp_name p, dj_gate = False\<rparr>) cs)"

text \<open>The probe of the primary: \<open>None\<close> is the \<open>continue\<close> of the loop.\<close>

definition primary_probe :: "'t env \<Rightarrow> bytes32 \<Rightarrow> 't shared \<Rightarrow> dial_job list option \<times> 't shared" where
  "primary_probe E own sh =
     (if has_session (net sh) then (Some [], sh)
      else case (cached_peer_addr (net sh), cached_peer_id (net sh)) of
        (Some _, Some i) \<Rightarrow>
          (case map_of (trusted sh) i of
             None \<Rightarrow> (Some [], sh)
           | Some p \<Rightarrow>
               (case check_ready E i sh of
                  (False, sh) \<Rightarrow> (None, sh)
                | (True, sh) \<Rightarrow> (Some (dials own i p (with_hint E i sh (roaming_history_snapshot (net sh)))), sh)))
      | _ \<Rightarrow> (Some [], sh))"

definition secondary_probe ::
  "'t env \<Rightarrow> bytes32 \<Rightarrow> (bytes32, sock_addr) hmap \<Rightarrow> bytes32 \<times> trusted_peer \<Rightarrow> dial_job list \<times> 't shared \<Rightarrow> dial_job list \<times> 't shared" where
  "secondary_probe E own persisted e acc =
     (let (i, p) = e; (js, sh) = acc in
      if has_session_for i (net sh) then (js, sh)
      else case check_ready E i sh of
        (False, sh) \<Rightarrow> (js, sh)
      | (True, sh) \<Rightarrow>
          (let cs = roaming_history_snapshot_for i (net sh);
               cs = (case map_of persisted i of Some a \<Rightarrow> (if a \<in> set cs then cs else cs @ [a]) | None \<Rightarrow> cs)
           in (js @ dials own i p (with_hint E i sh cs), sh)))"

text \<open>The dials of one tick; each is a task of its own that calls \<open>start_initiator\<close>.\<close>

definition redial_tick :: "'t env \<Rightarrow> bytes32 \<Rightarrow> (bytes32, sock_addr) hmap \<Rightarrow> 't shared \<Rightarrow> dial_job list \<times> 't shared" where
  "redial_tick E own persisted sh =
     (if \<not> sync_on sh then ([], sh)
      else case primary_probe E own sh of
        (None, sh) \<Rightarrow> ([], sh)
      | (Some js, sh) \<Rightarrow>
          fold (secondary_probe E own persisted)
            (filter (\<lambda>e. Some (fst e) \<noteq> cached_peer_id (net sh)) (trusted sh)) (js, sh))"

section \<open>mDNS reports\<close>

record advert =
  av_id_hex :: ustr
  av_pub_hex :: ustr
  av_name :: ustr
  av_addrs :: "sock_addr list"
  av_pin :: "ustr option"

definition DISC_CACHE_CAP :: nat where "DISC_CACHE_CAP = 256"

definition feed_cache :: "'t env \<Rightarrow> bytes32 \<Rightarrow> bytes32 \<Rightarrow> sock_addr \<Rightarrow> advert \<Rightarrow> 't shared \<Rightarrow> 't shared" where
  "feed_cache E i pub best av sh =
     (let c = filter (\<lambda>e. now E - rp_last_seen (snd e) < DISCOVERY_CACHE_TTL) (disc_cache sh)
      in sh\<lparr>disc_cache := (if length c < DISC_CACHE_CAP \<or> map_of c i \<noteq> None
           then hm_insert i \<lparr>rp_static_pub = pub, rp_addr = best, rp_name = av_name av, rp_pair_pin = av_pin av,
                              rp_last_seen = now E\<rparr> c else c)\<rparr>)"

definition on_resolved :: "'t env \<Rightarrow> bytes32 \<Rightarrow> advert \<Rightarrow> 't daemon \<Rightarrow> 't daemon" where
  "on_resolved E own av d =
     (case (decode_hex32 (hexs E) (av_id_hex av), decode_hex32 (hexs E) (av_pub_hex av)) of
        (Some i, Some pub) \<Rightarrow>
          (if peer_id_for (blake3 E) pub \<noteq> i then d
           else case av_addrs av of
             [] \<Rightarrow> d
           | best # _ \<Rightarrow>
               (let d = at_hub (feed_cache E i pub best av) d; sh = d_hub d in
                if \<not> (case map_of (trusted sh) i of Some t \<Rightarrow> tp_static_pub t = pub | None \<Rightarrow> False) then d
                else if \<not> sync_on sh \<or> has_session_for i (net sh) \<or> pub \<le> own then d
                else start_initiator \<lparr>dj_pub = pub, dj_addrs = av_addrs av, dj_peer = i, dj_name = av_name av, dj_gate = False\<rparr> d))
      | _ \<Rightarrow> d)"

definition on_removed :: "'t shared \<Rightarrow> 't shared" where
  "on_removed sh =
     (if has_session (net sh) then sh
      else case cached_peer_id (net sh) of Some i \<Rightarrow> post (PeerLost i) sh | None \<Rightarrow> sh)"

section \<open>The advertised PIN\<close>

text \<open>
  A round of the watchdog after its sleep: the pairing window decides whether the PIN rotates or goes. \<open>mdns\<close>:
  there is a record to publish. The flag says whether the task goes on.
\<close>

definition advertise :: "bool \<Rightarrow> ustr option \<Rightarrow> 't daemon \<Rightarrow> 't daemon" where
  "advertise mdns pin d = (if mdns then put_out (Advertised pin) d else d)"

definition pin_round :: "'t env \<Rightarrow> u32 \<Rightarrow> bool \<Rightarrow> 't daemon \<Rightarrow> bool \<times> 't daemon" where
  "pin_round E r mdns d =
     (if d_pin d = None then (False, d)
      else if \<not> window_open E (d_host d) then (False, advertise mdns None (d\<lparr>d_pin := None\<rparr>))
      else (True, advertise mdns (Some (gen_pair_pin r)) (d\<lparr>d_pin := Some (gen_pair_pin r, now E + PAIRING_WINDOW)\<rparr>)))"

section \<open>Addresses\<close>

definition is_cgnat :: "ip_addr \<Rightarrow> bool" where
  "is_cgnat a \<longleftrightarrow> a ! 0 = 100 \<and> and (a ! 1) 0xC0 = 64"

section \<open>The pairing URI\<close>

text \<open>\<open>str::split\<close> at a character, \<open>split_once\<close>, \<open>join\<close>.\<close>

fun split_on :: "uchar \<Rightarrow> ustr \<Rightarrow> ustr list" where
  "split_on c [] = [[]]"
| "split_on c (x # s) = (if x = c then [] # split_on c s else case split_on c s of w # ws \<Rightarrow> (x # w) # ws | [] \<Rightarrow> [[x]])"

definition split_once :: "uchar \<Rightarrow> ustr \<Rightarrow> (ustr \<times> ustr) option" where
  "split_once c s = (if c \<in> set s then Some (takeWhile (\<lambda>x. x \<noteq> c) s, tl (dropWhile (\<lambda>x. x \<noteq> c) s)) else None)"

fun join :: "ustr \<Rightarrow> ustr list \<Rightarrow> ustr" where
  "join sep [] = []"
| "join sep [w] = w"
| "join sep (w # ws) = w @ sep @ join sep ws"

definition PAIR_SCHEME :: ustr where "PAIR_SCHEME = lit ''fluxsync://pair/''"

record pair_uri =
  pu_pubkey :: ustr
  pu_addrs :: "sock_addr list"
  pu_words :: "ustr list"

definition build_pair_uri :: "ustr \<Rightarrow> ustr \<Rightarrow> ustr list \<Rightarrow> ustr" where
  "build_pair_uri pubkey hint words = PAIR_SCHEME @ pubkey @ lit ''?a='' @ hint @ lit ''&f='' @ join (lit ''.'') words"

definition parse_param :: "(ustr \<Rightarrow> sock_addr option) \<Rightarrow> ustr \<Rightarrow> pair_uri \<Rightarrow> pair_uri" where
  "parse_param parse_addr kv u =
     (let (k, v) = (case split_once 61 kv of Some p \<Rightarrow> p | None \<Rightarrow> (kv, [])) in
      if k = lit ''a'' then u\<lparr>pu_addrs := List.map_filter parse_addr (filter (\<lambda>s. s \<noteq> []) (split_on 44 v))\<rparr>
      else if k = lit ''f'' then u\<lparr>pu_words := split_on 46 v\<rparr> else u)"

definition parse_pair_uri :: "(ustr \<Rightarrow> sock_addr option) \<Rightarrow> ustr \<Rightarrow> pair_uri option" where
  "parse_pair_uri parse_addr s =
     (if take (length PAIR_SCHEME) s \<noteq> PAIR_SCHEME then None
      else let rest = drop (length PAIR_SCHEME) s;
               (pubkey, query) = (case split_once 63 rest of Some p \<Rightarrow> p | None \<Rightarrow> (rest, []))
           in if pubkey = [] then None
              else Some (fold (parse_param parse_addr) (filter (\<lambda>kv. kv \<noteq> []) (split_on 38 query))
                     \<lparr>pu_pubkey = pubkey, pu_addrs = [], pu_words = []\<rparr>))"

section \<open>Reading a URI back\<close>

lemma split_on_Cons: "split_on c s \<noteq> []"
  by (induction s) (auto split: list.split)

lemma split_on_none: "c \<notin> set s \<Longrightarrow> split_on c s = [s]"
  by (induction s) auto

lemma split_on_append: "c \<notin> set a \<Longrightarrow> split_on c (a @ c # b) = a # split_on c b"
  by (induction a) auto

lemma split_join: "ws \<noteq> [] \<Longrightarrow> \<forall>w\<in>set ws. c \<notin> set w \<Longrightarrow> split_on c (join [c] ws) = ws"
  by (induction "[c]" ws rule: join.induct) (simp_all add: split_on_none split_on_append)

lemma split_once_append: "c \<notin> set a \<Longrightarrow> split_once c (a @ c # b) = Some (a, b)"
  by (simp add: split_once_def takeWhile_append dropWhile_append)

lemma set_join: "set (join sep ws) \<subseteq> set sep \<union> \<Union> (set ` set ws)"
  by (induction sep ws rule: join.induct) auto

text \<open>
  A pairing URI reads back what it was made of: the key, the address hints that are addresses, in their order,
  and the words; as long as the key and the hints are free of the separators and there are words without dots and
  ampersands.
\<close>

theorem pair_uri_roundtrip:
  assumes "pubkey \<noteq> []" and "63 \<notin> set pubkey" and "38 \<notin> set hint"
    and "words \<noteq> []" and "\<forall>w\<in>set words. 46 \<notin> set w \<and> 38 \<notin> set w"
  shows "parse_pair_uri parse_addr (build_pair_uri pubkey hint words) =
    Some \<lparr>pu_pubkey = pubkey, pu_addrs = List.map_filter parse_addr (filter (\<lambda>s. s \<noteq> []) (split_on 44 hint)), pu_words = words\<rparr>"
proof -
  let ?q = "lit ''a='' @ hint @ 38 # lit ''f='' @ join [46] words"
  have u: "build_pair_uri pubkey hint words = PAIR_SCHEME @ pubkey @ 63 # ?q"
    by (simp add: build_pair_uri_def lit_def)
  have "38 \<notin> set (join [46] words)" using set_join [of "[46]" words] assms(5) by auto
  then have "38 \<notin> set (lit ''f='' @ join [46] words)" by (simp add: lit_def)
  moreover have "38 \<notin> set (lit ''a='' @ hint)" using assms(3) by (simp add: lit_def)
  ultimately have q: "split_on 38 ?q = [lit ''a='' @ hint, lit ''f='' @ join [46] words]"
    using split_on_append [of 38 "lit ''a='' @ hint" "lit ''f='' @ join [46] words"] by (simp add: split_on_none)
  have p: "split_once 61 (lit ''a='' @ hint) = Some (lit ''a'', hint)" "split_once 61 (lit ''f='' @ x) = Some (lit ''f'', x)" for x
    using split_once_append [of 61 "lit ''a''" hint] split_once_append [of 61 "lit ''f''" x] by (simp_all add: lit_def)
  have n: "filter (\<lambda>kv. kv \<noteq> []) (split_on 38 ?q) = [lit ''a='' @ hint, lit ''f='' @ join [46] words]"
    unfolding q by (simp add: lit_def)
  have w: "split_on 46 (join [46] words) = words" using assms(4,5) by (intro split_join) auto
  have ne: "lit ''f'' \<noteq> lit ''a''" by (simp add: lit_def)
  have f: "fold (parse_param parse_addr) [lit ''a='' @ hint, lit ''f='' @ join [46] words]
      \<lparr>pu_pubkey = pubkey, pu_addrs = [], pu_words = []\<rparr> =
    \<lparr>pu_pubkey = pubkey, pu_addrs = List.map_filter parse_addr (filter (\<lambda>s. s \<noteq> []) (split_on 44 hint)), pu_words = words\<rparr>"
    using ne by (simp add: parse_param_def p w)
  show ?thesis
    unfolding u parse_pair_uri_def Let_def using assms(1) split_once_append [OF assms(2), of ?q] n f by simp
qed

theorem pair_uri_roundtrip_witness:
  "parse_pair_uri (\<lambda>s. if s = [49] then Some ([10, 0, 0, 1], 9) else None) (build_pair_uri [65, 66] [49, 44, 50] [lit ''ab'', lit ''c'']) =
     Some \<lparr>pu_pubkey = [65, 66], pu_addrs = [([10, 0, 0, 1], 9)], pu_words = [lit ''ab'', lit ''c'']\<rparr>"
  by (subst pair_uri_roundtrip) (simp_all add: lit_def List.map_filter_def)

section \<open>What an advertisement can do\<close>

lemma d_hub_at_hub [simp]: "d_hub (at_hub f d) = f (d_hub d)"
  by (simp add: at_hub_def on_hub_def)

lemma at_hub_fields [simp]:
  "d_app (at_hub f d) = d_app d" "d_seq (at_hub f d) = d_seq d" "d_writes (at_hub f d) = d_writes d"
  "d_images (at_hub f d) = d_images d" "d_folder (at_hub f d) = d_folder d" "d_logs (at_hub f d) = d_logs d"
  "d_out (at_hub f d) = d_out d" "d_dialing (at_hub f d) = d_dialing d" "d_pin (at_hub f d) = d_pin d"
  "d_settings (at_hub f d) = d_settings d" "vault_ttl (at_hub f d) = vault_ttl d" "peers_disk (d_host (at_hub f d)) = peers_disk (d_host d)"
  "pairing_window (d_host (at_hub f d)) = pairing_window (d_host d)"
  by (simp_all add: at_hub_def on_hub_def)

lemma start_initiator_hub [simp]: "d_host (start_initiator j d) = d_host d"
  by (simp add: start_initiator_def)

lemma hm_insert_room:
  assumes "length m \<le> n" and "length m < n \<or> map_of m k \<noteq> None"
  shows "length (hm_insert k v m) \<le> n"
proof (cases "map_of m k")
  case None
  then have "length m < n" using assms(2) by simp
  then show ?thesis using le_less_trans [OF length_filter_le, of m n "\<lambda>e. fst e \<noteq> k"] by (simp add: hm_insert_def Suc_le_eq)
next
  case (Some y)
  have "length (filter (\<lambda>e. fst e \<noteq> k) m) < length m"
    by (rule length_filter_less [of "(k, y)"]) (simp_all add: map_of_SomeD [OF Some])
  then show ?thesis using assms(1) by (simp add: hm_insert_def)
qed

lemma feed_cache_room:
  assumes "length (disc_cache sh) \<le> DISC_CACHE_CAP"
  shows "length (disc_cache (feed_cache E i pub best av sh)) \<le> DISC_CACHE_CAP"
proof -
  let ?c = "filter (\<lambda>e. now E - rp_last_seen (snd e) < DISCOVERY_CACHE_TTL) (disc_cache sh)"
  have "length ?c \<le> DISC_CACHE_CAP" using assms length_filter_le order_trans by blast
  then show ?thesis unfolding feed_cache_def Let_def using hm_insert_room [of ?c DISC_CACHE_CAP i] by simp
qed



section \<open>Two limits of the redial tick\<close>

text \<open>While the primary waits out its backoff, the tick ends before it looks at the secondaries.\<close>

lemma primary_backoff_holds_secondaries:
  assumes "\<not> has_session (net sh)" and "cached_peer_addr (net sh) = Some a" and "cached_peer_id (net sh) = Some i"
    and "map_of (trusted sh) i = Some p" and "\<not> ready (backoff_of i sh) (now E)"
  shows "fst (redial_tick E own persisted sh) = []"
  using assms by (simp add: redial_tick_def primary_probe_def check_ready_def)

text \<open>Each address is a task of its own, but the slot lets one through: the first to ask. The others are dropped.\<close>

lemma later_dials_are_dropped: "d_dialing d = Some j \<Longrightarrow> fold start_initiator js d = d"
  by (induction js) (simp_all add: start_initiator_def)

lemma one_dial_at_a_time:
  "list_all (\<lambda>j. dj_addrs j \<noteq> []) js \<Longrightarrow> js \<noteq> [] \<Longrightarrow> d_dialing d = None \<Longrightarrow>
     d_dialing (fold start_initiator js d) = Some (hd js)"
  by (cases js) (simp_all add: start_initiator_def later_dials_are_dropped [where j = "hd js"])

end
