(* ===== verification/Copying.thy ===== *)
theory Copying
  imports Pairing Inbound_Safety App_Gate App_Life
begin

text \<open>
  A copy on this device, from the clipboard to the wire: the core decides, the gate and the fan-out of
  \<open>driver/actions.rs\<close> keep it from peers the user has not confirmed. And back: what the daemon writes to the
  clipboard is not taken for a copy.
\<close>

section \<open>A local copy\<close>

text \<open>The event loop on \<open>PushBinary\<close>, and the end of the push commands.\<close>

definition local_copy :: "('h, 't) daemon_env \<Rightarrow> local_change \<Rightarrow> 't daemon \<Rightarrow> 't daemon" where
  "local_copy D c d =
     (let (as, d) = d_handle D (LocalClipboardChange c) d in dispatch D (gate_outbound (d_hub d) as) d)"

definition push_binary :: "('h, 't) daemon_env \<Rightarrow> kind \<Rightarrow> bytes32 \<Rightarrow> bytes \<Rightarrow> ustr \<Rightarrow> bool \<Rightarrow> 't daemon \<Rightarrow> 't daemon" where
  "push_binary D k h payload preview sens d =
     (let clk = lamport_tick (clock (d_app d)) in
      local_copy D \<lparr>lc_hash = h, lc_kind = k, lc_payload = payload, lc_preview = preview, lc_sensitive = sens,
                    lc_lamport = counter clk\<rparr> (d\<lparr>d_app := (d_app d)\<lparr>clock := clk\<rparr>\<rparr>))"

definition copy_passes :: "('h, 't) daemon_env \<Rightarrow> local_change \<Rightarrow> 't daemon \<Rightarrow> bool" where
  "copy_passes D c d \<longleftrightarrow>
     a_phase (d_app d) = Linked \<and> local_fresh (wl D) c (d_app d)
     \<and> decide (cfg_firewall (a_config (d_app d))) (lc_kind c) (lc_sensitive c) Outbound = Pass"

lemma handle_local_actions:
  "fst (handle b3 w (LocalClipboardChange c) a) =
     (if local_fresh w c a
      then (if a_phase a = Linked \<and> decide (cfg_firewall (a_config a)) (lc_kind c) (lc_sensitive c) Outbound = Pass
            then [SendItem (lc_hash c) (lc_kind c) (lc_payload c) (lc_sensitive c)] else []) @ [EmitState]
      else [DuplicateDropped])"
proof (cases "local_fresh w c a")
  case True
  let ?a = "fst (on_local_clipboard w c a)" and ?e = "LocalClipboardChange c"
  have f: "a_phase ?a = a_phase a" "a_config ?a = a_config a" by (simp_all add: frame_simps)
  have g: "fst (apply_firewall ?e (snd (transition (a_phase ?a) ?e)) ?a) =
      (if a_phase a = Linked \<and> decide (cfg_firewall (a_config a)) (lc_kind c) (lc_sensitive c) Outbound = Pass
       then [SendItem (lc_hash c) (lc_kind c) (lc_payload c) (lc_sensitive c)] else [])"
    unfolding apply_firewall_def event_item_def f
    by (cases "decide (cfg_firewall (a_config a)) (lc_kind c) (lc_sensitive c) Outbound") (simp_all add: strip_sync_action_def)
  show ?thesis
    using True g by (simp add: handle_local post_transition_def Let_def case_prod_unfold resync_strip_def wants_resync_strip_def
        add_emit_state_def)
qed (simp add: handle_local)

lemma gated_self: "self_device (gated e a) = self_device a"
  by (simp add: gated_def apply_firewall_def park_pending_def Let_def split: option.splits prod.splits decision.splits)

lemma handle_local_app:
  "self_device (snd (handle b3 w (LocalClipboardChange c) a)) = self_device a"
  "local_seq (snd (handle b3 w (LocalClipboardChange c) a)) = local_seq a"
  "clock (snd (handle b3 w (LocalClipboardChange c) a)) = lamport_observe (lc_lamport c) (clock a)"
proof -
  have l: "self_device (fst (on_local_clipboard w c a)) = self_device a" "local_seq (fst (on_local_clipboard w c a)) = local_seq a"
    "clock (fst (on_local_clipboard w c a)) = lamport_observe (lc_lamport c) (clock a)"
    by (simp_all add: on_local_clipboard_def push_history_def Let_def case_prod_unfold)
  have g: "self_device (snd (post_transition e d a)) = self_device a" "local_seq (snd (post_transition e d a)) = local_seq a"
    "clock (snd (post_transition e d a)) = clock a" for e d a
    by (simp_all add: post_transition_app settled_def frame_simps gated_self)
  show "self_device (snd (handle b3 w (LocalClipboardChange c) a)) = self_device a"
    "local_seq (snd (handle b3 w (LocalClipboardChange c) a)) = local_seq a"
    "clock (snd (handle b3 w (LocalClipboardChange c) a)) = lamport_observe (lc_lamport c) (clock a)"
    by (simp_all add: handle_local l g)
qed

section \<open>What the actions of a copy touch\<close>

lemma emit_state_hub:
  "\<exists>tr snap. d_hub (emit_state E d) = (d_hub d)\<lparr>counters := tr, snapshot := snap\<rparr>"
  by (simp add: emit_state_def publishable_state_def Let_def case_prod_unfold) (metis shared.surjective shared.update_convs)

lemma emit_state_fields [simp]:
  "fx (d_hub (emit_state E d)) = fx (d_hub d)" "box (d_hub (emit_state E d)) = box (d_hub d)"
  "flights (d_hub (emit_state E d)) = flights (d_hub d)" "net (d_hub (emit_state E d)) = net (d_hub d)"
  "d_out (emit_state E d) = d_out d"
  using emit_state_hub [of E d] by (auto simp: emit_state_def publishable_state_def Let_def case_prod_unfold)

lemma count_fields [simp]:
  "fx (d_hub (count f d)) = fx (d_hub d)" "box (d_hub (count f d)) = box (d_hub d)"
  "flights (d_hub (count f d)) = flights (d_hub d)" "net (d_hub (count f d)) = net (d_hub d)"
  by (simp_all add: count_def)

lemma keep_copy_fields [simp]:
  "net (keep_copy E h k pl sens i sh) = net sh" "fx (keep_copy E h k pl sens i sh) = fx sh"
  "metas (keep_copy E h k pl sens i sh) = metas sh" "pending_pairs (keep_copy E h k pl sens i sh) = pending_pairs sh"
  "flights (keep_copy E h k pl sens i sh) = flights sh" "counters (keep_copy E h k pl sens i sh) = counters sh"
  by (simp_all add: keep_copy_def)

lemma item_targets_keep [simp]: "item_targets k (keep_copy E h k' pl sens i sh) = item_targets k sh"
  by (simp add: item_targets_def)

lemma fan_out_adds:
  assumes "\<And>p b. p \<in> set (item_targets k sh) \<Longrightarrow> b \<in> set frames \<Longrightarrow> P (effect.Send p b)"
  shows "adds P sh (fan_out E h k payload sens i frames sh)"
proof -
  let ?s = "(keep_copy E h k payload sens i sh)\<lparr>counters := on_item_sent (counters sh)\<rparr>"
  have "adds P ?s (fold (\<lambda>p. send_all E p frames) (item_targets k sh) ?s)"
    using assms by (intro adds_fold adds_send_all)
  then show ?thesis by (simp add: fan_out_def Let_def adds_same adds_def)
qed

lemma fan_out_box:
  "box (fan_out E h k payload sens i frames sh) =
     (if linked_peer_ids (net sh) = [] then box sh else box (keep_copy E h k payload sens i sh))"
proof -
  have "box (fold (\<lambda>p. send_all E p frames) ps s) = box s" for ps and s :: "'a shared"
    by (rule same_tablesD(11), rule same_tables_fold) (rule same_tables_send_all)
  then show ?thesis by (simp add: fan_out_def Let_def)
qed

lemma item_targets_iff:
  "p \<in> set (item_targets k sh) \<longleftrightarrow>
     p \<in> set (linked_peer_ids (net sh)) \<and> map_of (pending_pairs sh) p = None \<and> accepts_kind (metas sh) p k"
  by (auto simp: item_targets_def)

text \<open>The datagrams of the copy, with the event id the core allocates for it.\<close>

definition copy_frames :: "('h, 't) daemon_env \<Rightarrow> local_change \<Rightarrow> 't daemon \<Rightarrow> bytes list" where
  "copy_frames D c d =
     build_item_frames (cbor_ser (E_of D)) (counter (lamport_observe (lc_lamport c) (clock (d_app d)))) (lc_hash c) (lc_kind c)
       (lc_payload c) (lc_sensitive c) (dev_bytes (self_device (d_app d))) (local_seq (d_app d))"

text \<open>A copy that passes is sent, and nothing else is; one that does not sends nothing.\<close>

lemma local_copy_hub:
  fixes d :: "'t daemon"
  shows "\<exists>tr snap. d_hub (local_copy D c d) =
     (if copy_passes D c d \<and> \<not> primary_pending (d_hub d) \<and> length (lc_payload c) \<le> MAX_PAYLOAD \<and> copy_frames D c d \<noteq> []
      then fan_out (E_of D) (lc_hash c) (lc_kind c) (lc_payload c) (lc_sensitive c)
             (EventId (self_device (d_app d)) (local_seq (d_app d))) (copy_frames D c d) (d_hub d)
      else d_hub d)\<lparr>counters := tr, snapshot := snap\<rparr>"
proof -
  let ?a = "snd (handle (blake3 (E_of D)) (wl D) (LocalClipboardChange c) (d_app d))" and ?d1 = "d\<lparr>d_app := snd (handle (blake3 (E_of D)) (wl D) (LocalClipboardChange c) (d_app d))\<rparr>"
  define i where "i = EventId (self_device (d_app d)) (local_seq (d_app d))"
  have c: "local_copy D c d = dispatch D (gate_outbound (d_hub d)
      (fst (handle (blake3 (E_of D)) (wl D) (LocalClipboardChange c) (d_app d)))) ?d1"
    by (simp add: local_copy_def d_handle_def case_prod_unfold Let_def)
  have cnt: "\<exists>tr snap. sh\<lparr>counters := x\<rparr> = sh\<lparr>counters := tr, snapshot := snap\<rparr>" for sh :: "'t shared" and x
    by (intro exI [of _ x] exI [of _ "snapshot sh"]) simp
  have send: "d_hub (send_item D (lc_hash c) (lc_kind c) (lc_payload c) (lc_sensitive c) ?d1) =
    (if length (lc_payload c) \<le> MAX_PAYLOAD \<and> copy_frames D c d \<noteq> []
     then fan_out (E_of D) (lc_hash c) (lc_kind c) (lc_payload c) (lc_sensitive c) i (copy_frames D c d) (d_hub d)
     else d_hub d)"
    by (simp add: send_item_def next_local_event_id_def copy_frames_def i_def Let_def handle_local_app)
  consider "\<not> local_fresh (wl D) c (d_app d)" | "copy_passes D c d" "\<not> primary_pending (d_hub d)"
    | "local_fresh (wl D) c (d_app d)" "\<not> (copy_passes D c d \<and> \<not> primary_pending (d_hub d))" by blast
  then show ?thesis
  proof cases
    case 1
    then show ?thesis
      using cnt [where sh = "d_hub d" and x = "on_dedup_drop (counters (d_hub d))"]
      by (simp add: c handle_local_actions gate_outbound_def dispatch_def count_def copy_passes_def)
  next
    case 2
    then have "d_hub (local_copy D c d) = d_hub (emit_state (E_of D)
        (send_item D (lc_hash c) (lc_kind c) (lc_payload c) (lc_sensitive c) ?d1))"
      by (simp add: c handle_local_actions copy_passes_def gate_outbound_def dispatch_def)
    then show ?thesis using 2 emit_state_hub [of "E_of D" "send_item D (lc_hash c) (lc_kind c) (lc_payload c) (lc_sensitive c) ?d1"]
      unfolding send i_def by simp
  next
    case 3
    then have "d_hub (local_copy D c d) = d_hub (emit_state (E_of D) ?d1)"
      by (auto simp: c handle_local_actions copy_passes_def gate_outbound_def dispatch_def)
    then show ?thesis using 3 emit_state_hub [of "E_of D" ?d1] by auto
  qed
qed

text \<open>
  C9: What a copy on this device puts on the wire: the datagrams of that copy and nothing else, if the link is up,
  the core takes the copy for new, the firewall passes it and the primary is not an unconfirmed pairing; and each goes
  to a linked peer that is not an unconfirmed pairing and takes items of that kind.
\<close>

theorem copies_reach_confirmed_peers:
  assumes "e \<in> set (drop (length (fx (d_hub d))) (fx (d_hub (local_copy D c d))))"
  shows "copy_passes D c d \<and> \<not> primary_pending (d_hub d)
    \<and> (\<exists>p b. e = effect.Send p b \<and> b \<in> set (copy_frames D c d) \<and> p \<in> set (linked_peer_ids (net (d_hub d)))
         \<and> map_of (pending_pairs (d_hub d)) p = None \<and> accepts_kind (metas (d_hub d)) p (lc_kind c))"
proof -
  let ?ok = "\<lambda>e. copy_passes D c d \<and> \<not> primary_pending (d_hub d)
    \<and> (\<exists>p b. e = effect.Send p b \<and> b \<in> set (copy_frames D c d) \<and> p \<in> set (item_targets (lc_kind c) (d_hub d)))"
  obtain tr snap where h: "d_hub (local_copy D c d) =
     (if copy_passes D c d \<and> \<not> primary_pending (d_hub d) \<and> length (lc_payload c) \<le> MAX_PAYLOAD \<and> copy_frames D c d \<noteq> []
      then fan_out (E_of D) (lc_hash c) (lc_kind c) (lc_payload c) (lc_sensitive c)
             (EventId (self_device (d_app d)) (local_seq (d_app d))) (copy_frames D c d) (d_hub d)
      else d_hub d)\<lparr>counters := tr, snapshot := snap\<rparr>"
    using local_copy_hub by blast
  have "adds ?ok (d_hub d) (d_hub (local_copy D c d))"
  proof (cases "copy_passes D c d \<and> \<not> primary_pending (d_hub d) \<and> length (lc_payload c) \<le> MAX_PAYLOAD \<and> copy_frames D c d \<noteq> []")
    case True
    then have "adds ?ok (d_hub d) (fan_out (E_of D) (lc_hash c) (lc_kind c) (lc_payload c) (lc_sensitive c)
        (EventId (self_device (d_app d)) (local_seq (d_app d))) (copy_frames D c d) (d_hub d))"
      by (intro fan_out_adds) auto
    then show ?thesis unfolding h using True by (simp add: adds_def)
  next
    case False
    show ?thesis unfolding h if_not_P [OF False] by (simp add: adds_def)
  qed
  then show ?thesis using assms by (auto simp: adds_def item_targets_iff)
qed

text \<open>
  The resend copy of the same call: kept only of an item that is not sensitive and was offered to a live link, so
  what is copied while no peer is linked is never offered to the next one.
\<close>

lemma offline_copies_are_not_kept:
  "box (d_hub (local_copy D c d)) = box (d_hub d)
   \<or> copy_passes D c d \<and> \<not> lc_sensitive c \<and> linked_peer_ids (net (d_hub d)) \<noteq> []"
  using local_copy_hub [of D c d] by (auto simp: fan_out_box keep_copy_def split: if_splits)

section \<open>The copy of a linked daemon\<close>

lemma demo_copy_passes: "copy_passes demo_D demo_copy demo_daemon"
  by (simp add: copy_passes_def demo_daemon_def App_History.demo_linked_def settled_def set_firewall_def local_fresh_def demo_copy_def
      app_new_def observe_clipboard_def ring_default_def ring_new_def decide_def policy_default_def Let_def)

lemma demo_frame: "length b \<le> MAX_CHUNK_DATA \<Longrightarrow> build_item_frames (cbor_ser (E_of demo_D)) l h k b s og q = [[7]]"
proof -
  have "encode (\<lambda>_. Inr [7]) (proto_frame (item_msg l h k b s og q)) = Inr [7]" if "length b \<le> MAX_CHUNK_DATA"
    using that by (simp add: encode_def proto_frame_def item_msg_def validate_def validate_item_def MAX_PAYLOAD_def MAX_CHUNK_DATA_def)
  then show "length b \<le> MAX_CHUNK_DATA \<Longrightarrow> build_item_frames (cbor_ser (E_of demo_D)) l h k b s og q = [[7]]"
    by (simp add: build_item_frames_def MAX_FRAME_PLAINTEXT_def)
qed

theorem copies_reach_confirmed_peers_witness:
  "map_of (pending_pairs (d_hub demo_daemon)) [2] \<noteq> None
   \<and> map_of (pending_pairs (d_hub demo_daemon)) [1] = None
   \<and> effect.Send [1] [7] \<in> set (fx (d_hub (local_copy demo_D demo_copy demo_daemon)))
   \<and> effect.Send [2] [7] \<notin> set (fx (d_hub (local_copy demo_D demo_copy demo_daemon)))"
proof -
  have h: "fx (d_hub demo_daemon) = []" "cached_peer_id (net (d_hub demo_daemon)) = Some [1]"
    by (simp_all add: demo_daemon_def demo_shared_def shared_new_def link_eval cached_peer_id_def)
  have p: "\<not> primary_pending (d_hub demo_daemon)" using h by (simp add: primary_pending_def demo_daemon_def)
  have f: "copy_frames demo_D demo_copy demo_daemon = [[7]]"
    unfolding copy_frames_def by (rule demo_frame) (simp add: demo_copy_def MAX_CHUNK_DATA_def)
  obtain tr snap where "d_hub (local_copy demo_D demo_copy demo_daemon) =
      (fan_out demo_env (lc_hash demo_copy) (lc_kind demo_copy) (lc_payload demo_copy) (lc_sensitive demo_copy)
         (EventId (self_device (d_app demo_daemon)) (local_seq (d_app demo_daemon))) [[7]] (d_hub demo_daemon))
      \<lparr>counters := tr, snapshot := snap\<rparr>"
    using local_copy_hub [of demo_D demo_copy demo_daemon] demo_copy_passes p f
    by (simp add: demo_copy_def MAX_PAYLOAD_def) blast
  moreover have "item_targets Text (d_hub demo_daemon) = [[1]]"
    by (simp add: item_targets_def demo_daemon_def accepts_kind_def)
  ultimately have m: "fx (d_hub (local_copy demo_D demo_copy demo_daemon)) = [effect.Send [1] [7]]"
    using h by (simp add: fan_out_def demo_copy_def Let_def send_all_def) (simp add: demo_daemon_def)
  then have c: "map_of (pending_pairs (d_hub demo_daemon)) [1] = None"
    using copies_reach_confirmed_peers [of "effect.Send [1] [7]" demo_daemon demo_D demo_copy] h by simp
  have "map_of (pending_pairs (d_hub demo_daemon)) [2] \<noteq> None" by (simp add: demo_daemon_def)
  then show ?thesis by (intro conjI c) (simp_all add: m)
qed

section \<open>Our own writes coming back\<close>

text \<open>
  What the probes of the watcher may find after a write was applied: the text up to line ends and surrounding white
  space, the same pixels, or the saved file under its name in the folder.
\<close>

definition displays :: "clip_write \<Rightarrow> folder \<Rightarrow> os_clip \<Rightarrow> bool" where
  "displays j dir c \<longleftrightarrow>
     (case j of
        WText s \<Rightarrow> c_files c = NoFiles \<and> c_image c = None \<and> (\<exists>raw. c_text c = Some raw \<and> canon_text raw = canon_text s)
      | WImage iw ih rgba \<Rightarrow> c_files c = NoFiles \<and> c_image c = Some (iw, ih, rgba)
      | WFiles paths \<Rightarrow> (\<exists>key path b. paths = [path] \<and> (path, b) \<in> set dir \<and> c_files c = OneFile key \<and> c_read c = Some (path, b))
      | ClearIfStill s \<Rightarrow> False)"

lemma echo_of_record: "tm - t < ECHO_WINDOW \<Longrightarrow> is_echo h tm (record_write h t ws)"
  by (cases ws) (auto simp: is_echo_def record_write_def Let_def WRITES_CAP_def)

lemma poll_echo:
  "is_echo (clipboard_dedup_hash b3 raw) tm ws \<Longrightarrow> fst (poll_text b3 tm ws cc raw w) = None"
  "is_echo (image_rgba_hash b3 iw ih rgba) tm ws \<Longrightarrow> fst (poll_image b3 enc tm ws (iw, ih, rgba) w) = None"
  "c_read c = Some (name, b) \<Longrightarrow> is_echo (hash_bytes (ring_hash b3 (file_encode name b))) tm ws \<Longrightarrow>
     fst (poll_file b3 tm ws c key w) = None"
  by (simp_all add: poll_text_def poll_image_def poll_file_def Let_def)

lemma job_fields [simp]:
  "d_writes (job D j d) = d_writes d" "d_folder (job D j d) = d_folder d"
  "d_out (job D j d) = d_out d @ (if has_writer D then [Written j] else [])"
  "d_writes (record_own D h d) = record_write h (now (E_of D)) (d_writes d)" "d_out (record_own D h d) = d_out d"
  "d_folder (record_own D h d) = d_folder d"
  "d_writes (cache_for D sens h b d) = d_writes d" "d_out (cache_for D sens h b d) = d_out d"
  "d_folder (cache_for D sens h b d) = d_folder d"
  "d_out (count f d) = d_out d" "d_writes (count f d) = d_writes d" "d_folder (count f d) = d_folder d"
  by (simp_all add: job_def put_out_def record_own_def cache_for_def count_def)

lemma same_canon_hash: "canon_text raw = canon_text s \<Longrightarrow> clipboard_dedup_hash b3 raw = clipboard_dedup_hash b3 s"
  by (simp add: clipboard_dedup_hash_def)

text \<open>What a write leaves for the watcher: the digest under which it will read that write back.\<close>

lemma write_clipboard_recorded:
  assumes "Written j \<in> set (drop (length (d_out d)) (d_out (write_clipboard D k payload sens d)))"
    and "displays j (d_folder (write_clipboard D k payload sens d)) c"
  shows "\<exists>h ws. d_writes (write_clipboard D k payload sens d) = record_write h (now (E_of D)) ws
    \<and> (case c_files c of
         OneFile key \<Rightarrow> (\<exists>name b. c_read c = Some (name, b) \<and> h = hash_bytes (ring_hash (blake3 (E_of D)) (file_encode name b)))
       | NotOneFile \<Rightarrow> False
       | NoFiles \<Rightarrow> (case c_image c of
           Some (iw, ih, rgba) \<Rightarrow> h = image_rgba_hash (blake3 (E_of D)) iw ih rgba
         | None \<Rightarrow> (\<exists>raw. c_text c = Some raw \<and> h = clipboard_dedup_hash (blake3 (E_of D)) raw)))"
proof -
  consider "k = File" | "k = Image" | "k \<noteq> File" "k \<noteq> Image" by blast
  then show ?thesis
  proof cases
    case 1
    let ?d = "cache_for D sens (hash_bytes (ring_hash (blake3 (E_of D)) payload)) payload (count on_item_received d)"
    have w: "write_clipboard D k payload sens d = write_file D payload sens (count on_item_received d)"
      using 1 by (simp add: write_clipboard_def)
    show ?thesis
    proof (cases "has_writer D \<and> file_decode payload \<noteq> None")
      case True
      then obtain name b where f: "file_decode payload = Some (name, b)" by auto
      obtain path where p: "path \<notin> set (map fst (d_folder ?d))"
        "save_received_file (folder_io D) name b (d_folder ?d)
           = Some (if folder_io D then Some (path, d_folder ?d @ [(path, b)]) else None)"
        using save_path [of "d_folder ?d" "folder_io D" name b] by metis
      show ?thesis
      proof (cases "folder_io D")
        case io: True
        have r: "d_writes (write_clipboard D k payload sens d) = record_write (hash_bytes (ring_hash (blake3 (E_of D)) (file_encode path b)))
              (now (E_of D)) (d_writes (record_own D (hash_bytes (ring_hash (blake3 (E_of D)) payload)) d))"
          "d_out (write_clipboard D k payload sens d) = d_out d @ [Written (WFiles [path])]"
          "d_folder (write_clipboard D k payload sens d) = d_folder d @ [(path, b)]"
          using True f p(2) io by (simp_all add: w write_file_def Let_def)
        have new: "(path, x) \<notin> set (d_folder d)" for x using p(1) by force
        have "c_read c = Some (path, b)" "\<exists>key. c_files c = OneFile key"
          using assms new by (auto simp: r displays_def)
        then show ?thesis using r(1) by auto
      next
        case False
        then have "d_out (write_clipboard D k payload sens d) = d_out d"
          using True f p(2) by (simp add: w write_file_def Let_def)
        then show ?thesis using assms(1) by simp
      qed
    next
      case False
      then have "d_out (write_clipboard D k payload sens d) = d_out d" by (auto simp: w write_file_def Let_def split: option.split)
      then show ?thesis using assms(1) by simp
    qed
  next
    case 2
    then have w: "write_clipboard D k payload sens d = write_image D payload sens (count on_item_received d)"
      by (simp add: write_clipboard_def)
    show ?thesis
      using assms by (auto simp: w write_image_def Let_def displays_def split: option.splits prod.splits if_splits)
  next
    case 3
    let ?s = "from_utf8_lossy payload" and ?h = "clipboard_dedup_hash (blake3 (E_of D)) (from_utf8_lossy payload)"
    have w: "write_clipboard D k payload sens d = write_text D payload sens (count on_item_received d)"
      using 3 by (simp add: write_clipboard_def)
    have o: "d_out (write_clipboard D k payload sens d) = d_out d @
        (if has_writer D then (if sens then [After SECRET_LIFETIME (ClearIfStill ?s)] else []) @ [Written (WText ?s)] else [])"
      by (simp add: w write_text_def Let_def put_out_def)
    have r: "d_writes (write_clipboard D k payload sens d) = record_write ?h (now (E_of D)) (d_writes d)"
      by (simp add: w write_text_def Let_def put_out_def)
    have "j = WText ?s" using assms(1) by (auto simp: o split: if_splits)
    then obtain raw where "c_files c = NoFiles" "c_image c = None" "c_text c = Some raw" "canon_text raw = canon_text ?s"
      using assms(2) by (auto simp: displays_def)
    then show ?thesis using r same_canon_hash [of raw ?s] by auto
  qed
qed

text \<open>
  C15: What the daemon wrote to the clipboard is not taken for a new copy: as long as the echo window of five seconds
  lasts, the watcher sends no command when it reads that text, image or file back.
\<close>

theorem own_writes_are_not_echoed:
  assumes "Written j \<in> set (drop (length (d_out d)) (d_out (write_clipboard D k payload sens d)))"
    and "displays j (d_folder (write_clipboard D k payload sens d)) c"
    and "tm - now (E_of D) < ECHO_WINDOW"
  shows "fst (watcher_tick (blake3 (E_of D)) enc tm est (d_writes (write_clipboard D k payload sens d)) c w) = None"
  using write_clipboard_recorded [OF assms(1,2)] echo_of_record [OF assms(3)] poll_echo
  by (auto simp: watcher_tick_def Let_def split: file_probe.splits option.splits)

theorem own_writes_are_not_echoed_witness:
  "fst (watcher_tick (blake3 demo_env) (\<lambda>_ _ _. None) 1 0 (d_writes (write_clipboard demo_D Text [65, 10, 66] False demo_daemon))
     \<lparr>c_files = NoFiles, c_read = None, c_image = None, c_text = Some [65, 13, 10, 66, 32], c_concealed = False\<rparr> watcher_new) = None"
proof -
  have s: "from_utf8_lossy [65, 10, 66] = [65, 10, 66]"
    by (rule lossy_exact) (simp add: from_utf8.simps)
  have "canon_text [65, 13, 10, 66, 32] = canon_text [65, 10, 66]"
    by (simp add: canon_text_def replace_cr_def trim_def trim_start_def trim_end_def is_whitespace_def)
  then show ?thesis
    using own_writes_are_not_echoed [of "WText [65, 10, 66]" demo_daemon demo_D Text "[65, 10, 66]" False
        "\<lparr>c_files = NoFiles, c_read = None, c_image = None, c_text = Some [65, 13, 10, 66, 32], c_concealed = False\<rparr>" 1 "\<lambda>_ _ _. None" 0 watcher_new]
    by (simp add: displays_def write_clipboard_def write_text_def s Let_def ECHO_WINDOW_def from_millis_def)
qed

end
