(* ===== verification/Commands.thy ===== *)
theory Commands
  imports Copying Classify
begin

text \<open>
  \<open>driver/commands.rs\<close>: the commands of the clients (\<open>cmd.rs\<close>) and what they do to the core, the shared handles
  and the files; with the settings files of \<open>keystore.rs\<close>. A command runs in one step. Error texts are the
  constructors of a type.
\<close>

section \<open>Requests and replies\<close>

datatype cmd_op =
    Status
  | Peers
  | Push ustr
  | PushConcealed ustr
  | PushImage ustr bool
  | PushFile ustr ustr
  | FetchItem ustr
  | Pull
  | Tail nat
  | SetDeviceName ustr
  | SetHistoryRetention u64
  | SetFavorite ustr bool
  | ClearHistory bool
  | SetFirewall firewall_policy
  | ResolvePending ustr bool
  | Revoke ustr
  | Unpair
  | Shutdown
  | Reconnect
  | Toggle bool
  | PairShow
  | PairAccept ustr ustr "ustr option"
  | PairFromUri ustr ustr
  | PairFromPin ustr ustr
  | SetSelfBattery u8 bool
  | PairPending
  | PairConfirm ustr bool
  | TrustList

record peer_entry =
  en_peer_id :: ustr
  en_name :: ustr
  en_addr :: ustr
  en_latency_ms :: u32
  en_battery :: u8
  en_charging :: bool
  en_linked :: bool

record pending_entry =
  pn_peer_id :: ustr
  pn_name :: ustr
  pn_sas_words :: "ustr list"
  pn_addr :: "ustr option"
  pn_expires_in_ms :: "nat option"

record trusted_entry =
  te_peer_id_hex :: ustr
  te_static_pub_hex :: ustr
  te_name :: ustr

record pair_info =
  pf_peer_id_hex :: ustr
  pf_pubkey_b32 :: ustr
  pf_words :: "ustr list"
  pf_addr_hint :: ustr
  pf_uri :: ustr
  pf_pin :: "ustr option"
  pf_pin_expires_at_ms :: "millis option"
  pf_tailnet_addr_hint :: "ustr option"

datatype cmd_data =
    StateData state
  | PeersData "peer_entry list"
  | TailData "log_entry list"
  | PullData "history_item option"
  | PairInfo pair_info
  | ItemBytes ustr
  | PendingPairs "pending_entry list"
  | TrustListData "trusted_entry list"
  | PairResult bool
  | Pong

datatype cmd_error =
    Unreachable
  | TextTooLarge nat
  | ImageTooLarge nat
  | FileTooLarge nat
  | BadBase64
  | PngDecodeFailed
  | NotCached
  | Rejected core_error
  | BadPeerHex
  | NotAPeerId
  | PersistFailed
  | NoPendingPair
  | BadPairUri
  | BadBase32
  | NotAKey
  | BadPubkey crypto_error
  | TrustStoreFull
  | BadAddr
  | BadPinFormat
  | NoPeerWithPin

text \<open>A reply: \<open>Inl\<close> is \<open>ok = false\<close> with its \<open>err\<close>, \<open>Inr\<close> is \<open>ok = true\<close> with its \<open>data\<close>.\<close>

type_synonym reply = "cmd_error + cmd_data option"

text \<open>
  What the commands need beside the daemon's environment: the codecs, the text of an address, the random number of a
  PIN, the host's addresses, the Unicode \<open>\w\<close> beyond ASCII, whether a mDNS record is up, the platform's name.
\<close>

record ('h, 't) cmd_env =
  denv :: "('h, 't) daemon_env"
  b64_encode :: "bytes \<Rightarrow> ustr"
  b64_decode :: "ustr \<Rightarrow> bytes option"
  b32_encode :: "bytes \<Rightarrow> ustr"
  b32_decode :: "ustr \<Rightarrow> bytes option"
  parse_addr :: "ustr \<Rightarrow> sock_addr option"
  show_addr :: "sock_addr \<Rightarrow> ustr"
  pin_random :: u32
  lan_addr :: ustr
  tailnet_addr :: "ustr option"
  uni_word :: "uchar \<Rightarrow> bool"
  mdns_up :: bool
  platform :: ustr

abbreviation R_of :: "('h, 't) cmd_env \<Rightarrow> ('h, 't) hs_env" where
  "R_of C \<equiv> hs_of (denv C)"

abbreviation env_c :: "('h, 't) cmd_env \<Rightarrow> 't env" where
  "env_c C \<equiv> env_of (hs_of (denv C))"

section \<open>Settings files\<close>

definition load_firewall :: "settings_files \<Rightarrow> firewall_policy" where
  "load_firewall f = normalized (case firewall_file f of Some p \<Rightarrow> p | None \<Rightarrow> policy_default)"

definition save_firewall :: "bool \<Rightarrow> firewall_policy \<Rightarrow> settings_files \<Rightarrow> settings_files" where
  "save_firewall io p f = (if io then f\<lparr>firewall_file := Some p\<rparr> else f)"

definition load_device_name :: "settings_files \<Rightarrow> ustr option" where
  "load_device_name f = (case name_file f of Some n \<Rightarrow> (if trim n = [] then None else Some n) | None \<Rightarrow> None)"

definition save_device_name :: "bool \<Rightarrow> ustr \<Rightarrow> settings_files \<Rightarrow> settings_files" where
  "save_device_name io n f = (if io then f\<lparr>name_file := Some n\<rparr> else f)"

definition load_history_retention :: "settings_files \<Rightarrow> u64 option" where
  "load_history_retention f = retention_file f"

definition save_history_retention :: "bool \<Rightarrow> u64 \<Rightarrow> settings_files \<Rightarrow> settings_files" where
  "save_history_retention io secs f = (if io then f\<lparr>retention_file := Some secs\<rparr> else f)"

text \<open>\<open>if let Some(dir) = keystore_dir { .. }\<close>; a failure is logged.\<close>

definition on_settings :: "('h, 't) daemon_env \<Rightarrow> (bool \<Rightarrow> settings_files \<Rightarrow> settings_files) \<Rightarrow> 't daemon \<Rightarrow> 't daemon" where
  "on_settings D f d = (if keystore_dir (d_hub d) then d\<lparr>d_settings := f (settings_io D) (d_settings d)\<rparr> else d)"

section \<open>History, settings and listings\<close>

definition op_reconnect :: "'t daemon \<Rightarrow> 't daemon" where
  "op_reconnect d =
     at_hub (\<lambda>sh. let i = cached_peer_id (net sh); sh = sh\<lparr>net := drop_session (net sh)\<rparr>
       in case i of Some i \<Rightarrow> post (PeerLost i) sh | None \<Rightarrow> sh) d"

definition op_clear_history :: "('h, 't) daemon_env \<Rightarrow> bool \<Rightarrow> 't daemon \<Rightarrow> 't daemon" where
  "op_clear_history D include_favorites d =
     (let E = E_of D;
          cleared_hex = map hi_hash (filter (\<lambda>h. include_favorites \<or> \<not> favorite h) (history (a_state (d_app d))));
          cleared_bytes = List.map_filter (decode_hex32 (hexs E)) cleared_hex;
          d = at_hub (\<lambda>sh. sh\<lparr>box := outbox_remove_many cleared_bytes (box sh),
                tombstones := mark_cleared (now E) cleared_bytes (tombstones sh)\<rparr>) d;
          d = d\<lparr>d_images := purge_cached_images cleared_hex (d_images d)\<rparr>
      in run_event D (event.ClearHistory include_favorites) d)"

definition op_set_firewall :: "('h, 't) daemon_env \<Rightarrow> firewall_policy \<Rightarrow> 't daemon \<Rightarrow> 't daemon" where
  "op_set_firewall D p d =
     (let d = d\<lparr>d_app := set_firewall p (d_app d)\<rparr>
      in emit_state (E_of D) (on_settings D (\<lambda>io. save_firewall io (cfg_firewall (a_config (d_app d)))) d))"

definition op_resolve_pending :: "('h, 't) daemon_env \<Rightarrow> ustr \<Rightarrow> bool \<Rightarrow> 't daemon \<Rightarrow> 't daemon" where
  "op_resolve_pending D h allow d =
     (let E = E_of D;
          (as, d) = d_handle D (event.ResolvePending h allow) d;
          admitted_inbound = (allow \<and> list_ex is_write as);
          d = (case decode_hex32 (hexs E) h of
                 None \<Rightarrow> d
               | Some b \<Rightarrow> at_hub (\<lambda>sh. let e = map_of (outbox_stage sh) b; sh = sh\<lparr>outbox_stage := hm_remove b (outbox_stage sh)\<rparr>
                   in case e of
                        Some e \<Rightarrow> (if admitted_inbound then sh\<lparr>box := outbox_insert b e (now E) (box sh)\<rparr> else sh)
                      | None \<Rightarrow> sh) d)
      in dispatch D (gate_outbound (d_hub d) as) d)"

definition peer_entry_of :: "('h, 't) cmd_env \<Rightarrow> state \<Rightarrow> sock_addr option \<Rightarrow> peer_entry option" where
  "peer_entry_of C s addr =
     (if peer_name s = [] then None
      else Some \<lparr>en_peer_id = lit ''paired'', en_name = peer_name s,
        en_addr = (case addr of Some a \<Rightarrow> show_addr C a | None \<Rightarrow> []), en_latency_ms = link_latency_ms s,
        en_battery = peer_battery s, en_charging = peer_charging s, en_linked = (st_status s \<noteq> Inactive)\<rparr>)"

definition trusted_entry_of :: "hex_lib \<Rightarrow> bytes32 \<times> trusted_peer \<Rightarrow> trusted_entry" where
  "trusted_entry_of hx e =
     \<lparr>te_peer_id_hex = hex_encode hx (fst e), te_static_pub_hex = hex_encode hx (tp_static_pub (snd e)), te_name = tp_name (snd e)\<rparr>"

definition op_set_history_retention :: "('h, 't) daemon_env \<Rightarrow> u64 \<Rightarrow> 't daemon \<Rightarrow> reply \<times> 't daemon" where
  "op_set_history_retention D secs d =
     (case set_history_retention secs (now_ms (E_of D)) (d_app d) of
        Inl e \<Rightarrow> (Inl (Rejected e), d)
      | Inr a \<Rightarrow> (Inr None, emit_state (E_of D)
          (on_settings D (\<lambda>io. save_history_retention io secs) (d\<lparr>d_app := a, vault_ttl := secs\<rparr>))))"

definition op_set_device_name :: "('h, 't) cmd_env \<Rightarrow> ustr \<Rightarrow> 't daemon \<Rightarrow> reply \<times> 't daemon" where
  "op_set_device_name C name d =
     (case set_device_name name (d_app d) of
        Inl e \<Rightarrow> (Inl (Rejected e), d)
      | Inr a \<Rightarrow>
          (let resolved = peer_name_self (a_config a);
               d = emit_state (env_c C) (on_settings (denv C) (\<lambda>io. save_device_name io resolved) (d\<lparr>d_app := a\<rparr>))
           in (Inr None, at_hub (\<lambda>sh. greet_new_sessions (env_c C) (platform C) resolved (sh\<lparr>hello_sent := []\<rparr>)) d)))"

section \<open>Pushing\<close>

definition op_push :: "('h, 't) cmd_env \<Rightarrow> bool \<Rightarrow> ustr \<Rightarrow> 't daemon \<Rightarrow> reply \<times> 't daemon" where
  "op_push C concealed text0 d =
     (let s = trim text0 in
      if MAX_PAYLOAD < str_len s then (Inl (TextTooLarge (str_len s)), d)
      else if s = [] then (Inr None, d)
      else (Inr None, push_binary (denv C) (kind_of s) (clipboard_dedup_hash (blake3 (env_c C)) s) (as_bytes s) s
              (concealed \<or> is_sensitive (uni_word C) s) d))"

definition op_push_image :: "('h, 't) cmd_env \<Rightarrow> ustr \<Rightarrow> bool \<Rightarrow> 't daemon \<Rightarrow> reply \<times> 't daemon" where
  "op_push_image C data sens d =
     (case b64_decode C data of
        None \<Rightarrow> (Inl BadBase64, d)
      | Some png \<Rightarrow>
          (if MAX_PAYLOAD < length png then (Inl (ImageTooLarge (length png)), d)
           else case png_decode (env_c C) png of
             None \<Rightarrow> (Inl PngDecodeFailed, d)
           | Some (iw, ih, rgba) \<Rightarrow>
               (Inr None, push_binary (denv C) Image (image_rgba_hash (blake3 (env_c C)) iw ih rgba) png
                  (preview_label Image png) sens d)))"

definition op_push_file :: "('h, 't) cmd_env \<Rightarrow> ustr \<Rightarrow> ustr \<Rightarrow> 't daemon \<Rightarrow> reply \<times> 't daemon" where
  "op_push_file C name data d =
     (case b64_decode C data of
        None \<Rightarrow> (Inl BadBase64, d)
      | Some b \<Rightarrow>
          (if MAX_PAYLOAD - 2 - MAX_NAME < length b then (Inl (FileTooLarge (length b)), d)
           else let payload = file_encode name b
                in (Inr None, push_binary (denv C) File (hash_bytes (ring_hash (blake3 (env_c C)) payload)) payload
                      (preview_label File payload) False d)))"

section \<open>Taking trust away\<close>

text \<open>
  The trust, the discovery entry and the backoff timer of one peer; the file, with the trust back if that fails.
\<close>

definition drop_trust :: "('h, 't) hs_env \<Rightarrow> bytes32 \<Rightarrow> 't host \<Rightarrow> bool \<times> 't host" where
  "drop_trust R arr h =
     (let removed = map_of (trusted (hub h)) arr;
          h = on_hub (\<lambda>s. s\<lparr>trusted := hm_remove arr (trusted s), disc_cache := hm_remove arr (disc_cache s),
                backoffs := hm_remove arr (backoffs s)\<rparr>) h
      in if \<not> keystore_dir (hub h) then (True, h)
         else case save_peers_with_retry (hexs (env_of R)) (disk_io R) (trusted (hub h)) (peers_disk h) of
           (True, f) \<Rightarrow> (True, h\<lparr>peers_disk := f\<rparr>)
         | (False, f) \<Rightarrow>
             (False, on_hub (\<lambda>s. case removed of Some p \<Rightarrow> s\<lparr>trusted := hm_insert arr p (trusted s)\<rparr> | None \<Rightarrow> s) (h\<lparr>peers_disk := f\<rparr>)))"

definition reannounce_trusted_peer :: "('h, 't) daemon_env \<Rightarrow> 't daemon \<Rightarrow> action list \<times> 't daemon" where
  "reannounce_trusted_peer D d =
     (case choose_boot_trusted_peer (trusted (d_hub d)) None of
        Some p \<Rightarrow> d_handle D (SetTrustedPeer (tp_name p)) d
      | None \<Rightarrow> ([], d))"

text \<open>Goodbye, the end of its session and of its row; the core forgets it, and names whom it waits for instead.\<close>

definition sever :: "'t env \<Rightarrow> msg \<Rightarrow> bytes32 \<Rightarrow> 't shared \<Rightarrow> 't shared" where
  "sever E g arr sh =
     (let sh = (if has_session_for arr (net sh) then send_msg E arr g sh else sh)
      in forget_meta arr (sh\<lparr>net := purge_peer arr (net sh)\<rparr>))"

definition lose_primary :: "('h, 't) daemon_env \<Rightarrow> bytes32 \<Rightarrow> 't daemon \<Rightarrow> action list \<times> 't daemon" where
  "lose_primary D arr d =
     (let (failed_over, sh) = try_primary_failover (E_of D) (d_hub d); d = at_hub (\<lambda>_. sh) d
      in if failed_over then ([], d)
         else let (lost, d) = d_handle D (PeerLost arr) d; (named, d) = reannounce_trusted_peer D d
              in (lost @ named, d))"

definition expel :: "('h, 't) daemon_env \<Rightarrow> msg \<Rightarrow> bytes32 \<Rightarrow> 't daemon \<Rightarrow> 't daemon" where
  "expel D g arr d =
     (let d = at_hub (sever (E_of D) g arr) d;
          was_primary = (peer_id (a_state (d_app d)) = arr);
          (as, d) = d_handle D (PeerRevoked arr) d;
          d = at_hub (\<lambda>sh. purge_peer_from_inflight arr (purge_dropped_pending_from_outbox_stage as sh)) d;
          (more, d) = (if was_primary then lose_primary D arr d else ([], d))
      in dispatch D (as @ more) d)"

definition peer_arg :: "('h, 't) cmd_env \<Rightarrow> ustr \<Rightarrow> cmd_error + bytes32" where
  "peer_arg C s =
     (case hex_decode (hexs (env_c C)) s of
        None \<Rightarrow> Inl BadPeerHex
      | Some v \<Rightarrow> (if length v = 32 then Inr v else Inl NotAPeerId))"

definition op_revoke :: "('h, 't) cmd_env \<Rightarrow> ustr \<Rightarrow> 't daemon \<Rightarrow> reply \<times> 't daemon" where
  "op_revoke C s d =
     (case peer_arg C s of
        Inl e \<Rightarrow> (Inl e, d)
      | Inr arr \<Rightarrow>
          (case drop_trust (R_of C) arr (d_host d) of
             (False, h) \<Rightarrow> (Inl PersistFailed, d\<lparr>d_host := h\<rparr>)
           | (True, h) \<Rightarrow> (Inr None, expel (denv C) msg.Revoke arr (d\<lparr>d_host := h\<rparr>))))"

definition op_unpair :: "('h, 't) cmd_env \<Rightarrow> 't daemon \<Rightarrow> reply \<times> 't daemon" where
  "op_unpair C d =
     (let tr = trusted (d_hub d);
          d = at_hub (\<lambda>sh. sh\<lparr>trusted := [], disc_cache := [], backoffs := []\<rparr>) d;
          (ok, h) = (if keystore_dir (d_hub d)
            then (case save_peers_with_retry (hexs (env_c C)) (disk_io (R_of C)) (trusted (d_hub d)) (peers_disk (d_host d)) of
                    (ok, f) \<Rightarrow> (ok, (d_host d)\<lparr>peers_disk := f\<rparr>))
            else (True, d_host d));
          d = d\<lparr>d_host := h\<rparr>
      in if \<not> ok then (Inl PersistFailed, at_hub (\<lambda>sh. sh\<lparr>trusted := tr\<rparr>) d)
         else let (unpaired, sh) = tear_down_links (env_c C) msg.Revoke True (d_hub d);
                  d = at_hub (\<lambda>_. fold purge_peer_from_inflight unpaired sh) d
              in (Inr None, run_event (denv C) ManualUnpair d))"

section \<open>Switching sync\<close>

definition resume_live_primary :: "('h, 't) cmd_env \<Rightarrow> 't daemon \<Rightarrow> 't daemon" where
  "resume_live_primary C d =
     (if \<not> has_session (net (d_hub d)) then d
      else case cached_peer_id (net (d_hub d)) of
        None \<Rightarrow> d
      | Some i \<Rightarrow>
          (case map_of (trusted (d_hub d)) i of
             None \<Rightarrow> d
           | Some p \<Rightarrow>
               (let d = run_event (denv C) HandshakeOk (run_event (denv C) (PeerSeen i (tp_name p)) d)
                in at_hub (greet_new_sessions (env_c C) (platform C) (peer_name_self (a_config (d_app d)))) d)))"

definition op_toggle :: "('h, 't) cmd_env \<Rightarrow> bool \<Rightarrow> 't daemon \<Rightarrow> 't daemon" where
  "op_toggle C up d =
     (if up then resume_live_primary C (run_event (denv C) ToggleOn d)
      else at_hub (\<lambda>sh. snd (tear_down_links (env_c C) Bye False sh)) (run_event (denv C) ToggleOff d))"

section \<open>Unconfirmed pairings\<close>

definition op_pair_pending :: "('h, 't) cmd_env \<Rightarrow> 't daemon \<Rightarrow> pending_entry list \<times> 't daemon" where
  "op_pair_pending C d =
     (let tm = now (env_c C);
          d = at_hub (\<lambda>sh. sh\<lparr>pending_pairs := filter (\<lambda>e. tm < pp_expires_at (snd e)) (pending_pairs sh)\<rparr>) d
      in (map (\<lambda>(i, p). \<lparr>pn_peer_id = hex_encode (hexs (env_c C)) i, pn_name = pp_name p, pn_sas_words = pp_sas_words p,
             pn_addr = Some (show_addr C (pp_from p)),
             pn_expires_in_ms = Some (min (as_millis (pp_expires_at p - tm)) (2 ^ 64 - 1))\<rparr>) (pending_pairs (d_hub d)), d))"

definition confirm_pair :: "('h, 't) daemon_env \<Rightarrow> bytes32 \<Rightarrow> 't daemon \<Rightarrow> 't daemon" where
  "confirm_pair D arr d =
     (let (seen, sas) = (case bt_get (metas (d_hub d)) arr of
            Some m \<Rightarrow> (hello_seen m, list_ex (\<lambda>c. c = CAP_SAS) (pm_caps m)) | None \<Rightarrow> (False, False));
          d = (if seen then (if sas then at_hub (send_msg (E_of D) arr (msg.PairConfirm True)) d
                             else run_event D (SasPeerConfirmed arr) d)
               else at_hub (\<lambda>sh. sh\<lparr>deferred_sas := arr # filter (\<lambda>p. p \<noteq> arr) (deferred_sas sh)\<rparr>) d)
      in run_event D (SasLocalConfirmed arr) d)"

definition reject_pair :: "('h, 't) cmd_env \<Rightarrow> bytes32 \<Rightarrow> pending_pair \<Rightarrow> 't daemon \<Rightarrow> reply \<times> 't daemon" where
  "reject_pair C arr p d =
     (let d = at_hub (\<lambda>sh. send_msg (env_c C) arr (msg.PairConfirm False)
                 (sh\<lparr>deferred_sas := filter (\<lambda>q. q \<noteq> arr) (deferred_sas sh)\<rparr>)) d
      in case drop_trust (R_of C) arr (d_host d) of
           (False, h) \<Rightarrow> (Inl PersistFailed,
              at_hub (\<lambda>sh. sh\<lparr>pending_pairs := hm_insert arr p (pending_pairs sh)\<rparr>) (d\<lparr>d_host := h\<rparr>))
         | (True, h) \<Rightarrow> (Inr None, expel (denv C) Bye arr (d\<lparr>d_host := h\<rparr>)))"

definition op_pair_confirm :: "('h, 't) cmd_env \<Rightarrow> ustr \<Rightarrow> bool \<Rightarrow> 't daemon \<Rightarrow> reply \<times> 't daemon" where
  "op_pair_confirm C s yes d =
     (case peer_arg C s of
        Inl e \<Rightarrow> (Inl e, d)
      | Inr arr \<Rightarrow>
          (case map_of (pending_pairs (d_hub d)) arr of
             None \<Rightarrow> (Inl NoPendingPair, d)
           | Some p \<Rightarrow>
               (let d = at_hub (\<lambda>sh. sh\<lparr>pending_pairs := hm_remove arr (pending_pairs sh)\<rparr>) d
                in if yes then (Inr None, confirm_pair (denv C) arr d) else reject_pair C arr p d)))"

section \<open>Pairing\<close>

definition op_pair_show :: "('h, 't) cmd_env \<Rightarrow> 't daemon \<Rightarrow> pair_info \<times> 't daemon" where
  "op_pair_show C d =
     (let E = env_c C; static_pub = id_public (self_id (R_of C)); hx = hexs E;
          words = fingerprint (blake3 E) static_pub;
          addr_hints = (case tailnet_addr C of Some t \<Rightarrow> lan_addr C @ lit '','' @ t | None \<Rightarrow> lan_addr C);
          pin = gen_pair_pin (pin_random C);
          was_active = (d_pin d \<noteq> None);
          d = d\<lparr>d_host := (d_host d)\<lparr>pairing_window := Some (now E + PAIRING_WINDOW)\<rparr>,
                d_pin := Some (pin, now E + PAIRING_WINDOW)\<rparr>;
          d = advertise (mdns_up C) (Some pin) d;
          d = (if was_active then d else put_out WatchdogStarted d);
          d = ensure_online (denv C) d
      in (\<lparr>pf_peer_id_hex = hex_encode hx (peer_id_for (blake3 E) static_pub), pf_pubkey_b32 = b32_encode C static_pub,
           pf_words = words, pf_addr_hint = lan_addr C, pf_uri = build_pair_uri (b32_encode C static_pub) addr_hints words,
           pf_pin = Some pin, pf_pin_expires_at_ms = Some (now_ms E + as_millis PAIRING_WINDOW),
           pf_tailnet_addr_hint = tailnet_addr C\<rparr>, d))"

definition key_of_b32 :: "('h, 't) cmd_env \<Rightarrow> ustr \<Rightarrow> cmd_error + bytes32" where
  "key_of_b32 C s =
     (case b32_decode C s of
        None \<Rightarrow> Inl BadBase32
      | Some b \<Rightarrow> (if length b = 32 then Inr b else Inl NotAKey))"

text \<open>
  The part the three pairing commands share: the key, the cap, the insert and the file, and sync switched on. The
  flag is \<open>already_confirmed\<close>.
\<close>

definition add_trusted :: "('h, 't) hs_env \<Rightarrow> bytes32 \<Rightarrow> bytes32 \<Rightarrow> ustr \<Rightarrow> 't host \<Rightarrow> bool \<times> 't host" where
  "add_trusted R arr pub name h =
     (let h = on_hub (\<lambda>s. s\<lparr>trusted := hm_insert arr \<lparr>tp_static_pub = pub, tp_name = name\<rparr> (trusted s)\<rparr>) h; hx = hexs (env_of R)
      in if \<not> keystore_dir (hub h) then (True, h)
         else case upsert_peer_persist (disk_io R)
                \<lparr>sp_id_hex = hex_encode hx arr, sp_pub_hex = hex_encode hx pub, sp_name = name, sp_addr = None\<rparr> (peers_disk h) of
           (True, f) \<Rightarrow> (True, h\<lparr>peers_disk := f\<rparr>)
         | (False, f) \<Rightarrow> (False, on_hub (\<lambda>s. s\<lparr>trusted := hm_remove arr (trusted s)\<rparr>) (h\<lparr>peers_disk := f\<rparr>)))"

definition admit_peer :: "('h, 't) cmd_env \<Rightarrow> bytes32 \<Rightarrow> ustr \<Rightarrow> 't daemon \<Rightarrow> (cmd_error + bytes32 \<times> bool) \<times> 't daemon" where
  "admit_peer C pub name d =
     (case validate_peer_pubkey pub of
        Inl e \<Rightarrow> (Inl (BadPubkey e), d)
      | Inr _ \<Rightarrow>
          (let arr = peer_id_for (blake3 (env_c C)) pub; tr = trusted (d_hub d) in
           if map_of tr arr = None \<and> MAX_PERSISTED_PEERS \<le> length tr then (Inl TrustStoreFull, d)
           else let already = (map_of tr arr \<noteq> None \<and> map_of (pending_pairs (d_hub d)) arr = None)
                in case add_trusted (R_of C) arr pub name (d_host d) of
                     (False, h) \<Rightarrow> (Inl PersistFailed, d\<lparr>d_host := h\<rparr>)
                   | (True, h) \<Rightarrow> (Inr (arr, already), ensure_online (denv C) (d\<lparr>d_host := h\<rparr>))))"

definition dial_paired :: "bytes32 \<Rightarrow> sock_addr list \<Rightarrow> bytes32 \<Rightarrow> ustr \<Rightarrow> bool \<Rightarrow> 't daemon \<Rightarrow> 't daemon" where
  "dial_paired pub addrs arr name already d =
     start_initiator \<lparr>dj_pub = pub, dj_addrs = addrs, dj_peer = arr, dj_name = name, dj_gate = \<not> already\<rparr> d"

definition op_pair_from_uri :: "('h, 't) cmd_env \<Rightarrow> ustr \<Rightarrow> ustr \<Rightarrow> 't daemon \<Rightarrow> reply \<times> 't daemon" where
  "op_pair_from_uri C uri name d =
     (case parse_pair_uri (parse_addr C) uri of
        None \<Rightarrow> (Inl BadPairUri, d)
      | Some u \<Rightarrow>
          (case key_of_b32 C (pu_pubkey u) of
             Inl e \<Rightarrow> (Inl e, d)
           | Inr pub \<Rightarrow>
               (case admit_peer C pub name d of
                  (Inl e, d) \<Rightarrow> (Inl e, d)
                | (Inr (arr, already), d) \<Rightarrow>
                    (Inr (Some (PairResult already)), dial_paired pub (pu_addrs u) arr name already d))))"

definition op_pair_accept :: "('h, 't) cmd_env \<Rightarrow> ustr \<Rightarrow> ustr \<Rightarrow> ustr option \<Rightarrow> 't daemon \<Rightarrow> reply \<times> 't daemon" where
  "op_pair_accept C key name addr d =
     (case key_of_b32 C key of
        Inl e \<Rightarrow> (Inl e, d)
      | Inr pub \<Rightarrow>
          (case admit_peer C pub name d of
             (Inl e, d) \<Rightarrow> (Inl e, d)
           | (Inr (arr, already), d) \<Rightarrow>
               (case addr of
                  None \<Rightarrow> (Inr None, d)
                | Some s \<Rightarrow> (case parse_addr C s of
                    None \<Rightarrow> (Inl BadAddr, d)
                  | Some a \<Rightarrow> (Inr None, dial_paired pub [a] arr name already d)))))"

definition op_pair_from_pin :: "('h, 't) cmd_env \<Rightarrow> ustr \<Rightarrow> ustr \<Rightarrow> 't daemon \<Rightarrow> reply \<times> 't daemon" where
  "op_pair_from_pin C pin name d =
     (if str_len pin \<noteq> 6 \<or> \<not> list_all (\<lambda>b. 48 \<le> b \<and> b \<le> 57) (as_bytes pin) then (Inl BadPinFormat, d)
      else case List.find (\<lambda>e. rp_pair_pin e = Some pin)
             (filter (\<lambda>e. now (env_c C) - rp_last_seen e < DISCOVERY_CACHE_TTL) (map snd (disc_cache (d_hub d)))) of
        None \<Rightarrow> (Inl NoPeerWithPin, d)
      | Some t \<Rightarrow>
          (case admit_peer C (rp_static_pub t) name d of
             (Inl e, d) \<Rightarrow> (Inl e, d)
           | (Inr (arr, already), d) \<Rightarrow>
               (Inr (Some (PairResult already)), dial_paired (rp_static_pub t) [rp_addr t] arr name already d)))"

section \<open>The handler\<close>

fun handle_driver_cmd :: "('h, 't) cmd_env \<Rightarrow> cmd_op \<Rightarrow> 't daemon \<Rightarrow> reply \<times> 't daemon" where
  "handle_driver_cmd C Status d = (let (s, d) = publishable_state (env_c C) d in (Inr (Some (StateData s)), d))"
| "handle_driver_cmd C Reconnect d = (Inr (Some Pong), op_reconnect d)"
| "handle_driver_cmd C (SetFavorite h fav) d = (Inr None, run_event (denv C) (event.SetFavorite h fav) d)"
| "handle_driver_cmd C (ClearHistory incl) d = (Inr None, op_clear_history (denv C) incl d)"
| "handle_driver_cmd C (SetFirewall p) d = (Inr None, op_set_firewall (denv C) p d)"
| "handle_driver_cmd C (ResolvePending h allow) d = (Inr None, op_resolve_pending (denv C) h allow d)"
| "handle_driver_cmd C (Push s) d = op_push C False s d"
| "handle_driver_cmd C (PushConcealed s) d = op_push C True s d"
| "handle_driver_cmd C (PushImage data sens) d = op_push_image C data sens d"
| "handle_driver_cmd C (PushFile name data) d = op_push_file C name data d"
| "handle_driver_cmd C (FetchItem h) d =
     (case lookup_cached_image h (d_images d) of
        Some png \<Rightarrow> (Inr (Some (ItemBytes (b64_encode C png))), d) | None \<Rightarrow> (Inl NotCached, d))"
| "handle_driver_cmd C Pull d =
     (Inr (Some (PullData (case history (a_state (d_app d)) of h # _ \<Rightarrow> Some h | [] \<Rightarrow> None))), d)"
| "handle_driver_cmd C (Tail n) d = (Inr (Some (TailData (log_tail n (d_logs d)))), d)"
| "handle_driver_cmd C cmd_op.Peers d =
     (Inr (Some (PeersData (case peer_entry_of C (a_state (d_app d)) (current_peer_addr (net (d_hub d))) of
        Some e \<Rightarrow> [e] | None \<Rightarrow> []))), d)"
| "handle_driver_cmd C TrustList d = (Inr (Some (TrustListData (map (trusted_entry_of (hexs (env_c C))) (trusted (d_hub d))))), d)"
| "handle_driver_cmd C (SetHistoryRetention secs) d = op_set_history_retention (denv C) secs d"
| "handle_driver_cmd C (SetDeviceName name) d = op_set_device_name C name d"
| "handle_driver_cmd C Shutdown d = (Inr None, put_out Cancelled d)"
| "handle_driver_cmd C Unpair d = op_unpair C d"
| "handle_driver_cmd C (Toggle up) d = (Inr None, op_toggle C up d)"
| "handle_driver_cmd C (SetSelfBattery lv ch) d = (Inr None, run_event (denv C) (BatteryChangedSelf lv ch) d)"
| "handle_driver_cmd C (Revoke s) d = op_revoke C s d"
| "handle_driver_cmd C PairPending d = (let (es, d) = op_pair_pending C d in (Inr (Some (PendingPairs es)), d))"
| "handle_driver_cmd C (PairConfirm s yes) d = op_pair_confirm C s yes d"
| "handle_driver_cmd C PairShow d = (let (i, d) = op_pair_show C d in (Inr (Some (PairInfo i)), d))"
| "handle_driver_cmd C (PairFromUri uri name) d = op_pair_from_uri C uri name d"
| "handle_driver_cmd C (PairAccept key name addr) d = op_pair_accept C key name addr d"
| "handle_driver_cmd C (PairFromPin pin name) d = op_pair_from_pin C pin name d"

end
