(* ===== verification/Dispatch.thy ===== *)
theory Dispatch
  imports Commands
begin

text \<open>
  What executing the actions of the core can do to the shared handles: an interface of five kinds of step, and
  that whatever they preserve is preserved by every action, every event and every change of the switch.
\<close>

locale dispatch_blind =
  fixes Q :: "'t shared \<Rightarrow> bool"
  assumes send: "Q sh \<Longrightarrow> Q (snd (send_to E i b sh))"
    and primary: "Q sh \<Longrightarrow> Q (send_primary E b sh)"
    and drop: "Q sh \<Longrightarrow> Q (sh\<lparr>net := drop_session (net sh)\<rparr>)"
    and track: "Q sh \<Longrightarrow> Q sh0 \<Longrightarrow> set ps \<subseteq> set (linked_peer_ids (net sh0)) \<Longrightarrow>
      Q (sh\<lparr>flights := track_inflight t h fs ps (flights sh)\<rparr>)"
    and publish: "Q sh \<Longrightarrow> Q (sh\<lparr>counters := c, snapshot := s\<rparr>)"
    and keep: "Q sh \<Longrightarrow> Q (sh\<lparr>box := outbox_insert h e t (box sh)\<rparr>)"
begin

lemma send_all: "Q sh \<Longrightarrow> Q (send_all E i bs sh)"
  unfolding send_all_def by (induction bs arbitrary: sh) (simp_all add: send)

lemma send_folded: "Q sh \<Longrightarrow> Q (fold (\<lambda>i. send_all E i bs) is sh)"
  by (induction "is" arbitrary: sh) (simp_all add: send_all)

lemma send_msg: "Q sh \<Longrightarrow> Q (send_msg E i g sh)"
  by (simp add: send_msg_def send split: sum.split)

lemma counted: "Q sh \<Longrightarrow> Q (sh\<lparr>counters := c\<rparr>)"
  using publish [where sh = sh and c = c and s = "snapshot sh"] by (simp add: shared.surjective)

lemma say: "Q sh \<Longrightarrow> Q (say_primary E g sh)"
  by (simp add: say_primary_def primary split: sum.split)

lemma hang: "Q sh \<Longrightarrow> Q (hang_up E sh)"
  by (simp add: hang_up_def Let_def drop say)

lemma copied: "Q sh \<Longrightarrow> Q (keep_copy E h k pl sens i sh)"
  by (simp add: keep_copy_def keep)

lemma fanned:
  assumes "Q sh"
  shows "Q (fan_out E h k payload sens i frames sh)"
proof -
  let ?c = "(keep_copy E h k payload sens i sh)\<lparr>counters := on_item_sent (counters sh)\<rparr>"
  have "Q (fold (\<lambda>p. send_all E p frames) (item_targets k sh) ?c)"
    by (intro send_folded counted copied assms)
  then have "Q ((fold (\<lambda>p. send_all E p frames) (item_targets k sh) ?c)
      \<lparr>flights := track_inflight t h frames (item_targets k sh) (flights (fold (\<lambda>p. send_all E p frames) (item_targets k sh) ?c))\<rparr>)" for t
    by (rule track [OF _ assms]) (auto simp: item_targets_iff)
  then show ?thesis
    using assms counted [OF copied [OF assms]] by (simp add: fan_out_def Let_def)
qed

lemma emitted: "Q (d_hub d) \<Longrightarrow> Q (d_hub (emit_state E d))"
  using emit_state_hub [of E d] publish [of "d_hub d"] by auto

end

lemma count_hub: "d_hub (count f d) = (d_hub d)\<lparr>counters := f (counters (d_hub d))\<rparr>"
  by (simp add: count_def)

lemma write_clipboard_hub: "d_hub (write_clipboard D k payload sens d) = d_hub (count on_item_received d)"
  by (simp add: write_clipboard_def write_file_def write_image_def write_text_def Let_def job_def put_out_def record_own_def
      cache_for_def split: option.splits prod.splits)

lemma d_handle_host [simp]: "d_host (snd (d_handle D e d)) = d_host d"
  by (simp add: d_handle_def split: prod.split)

context dispatch_blind
begin

lemma sent_item: "Q (d_hub d) \<Longrightarrow> Q (d_hub (send_item D h k payload sens d))"
  by (simp add: send_item_def Let_def fanned split: prod.split)

lemma acted: "Q (d_hub d) \<Longrightarrow> Q (d_hub (act D a d))"
  by (cases a) (simp_all add: emitted put_out_def sent_item write_clipboard_hub count_hub counted close_session_def hang say)

lemma dispatched: "Q (d_hub d) \<Longrightarrow> Q (d_hub (dispatch D as d))"
  unfolding dispatch_def by (induction as arbitrary: d) (simp_all add: acted)

lemma ran: "Q (d_hub d) \<Longrightarrow> Q (d_hub (run_event D e d))"
  using d_handle_host [of D e d] by (simp add: run_event_def dispatched case_prod_unfold Let_def)

lemma online: "Q (d_hub d) \<Longrightarrow> Q (d_hub (ensure_online D d))"
  by (simp add: ensure_online_def ran)

lemma pushed: "Q (d_hub d) \<Longrightarrow> Q (d_hub (local_copy D c d))"
  using d_handle_host [of D "LocalClipboardChange c" d] by (simp add: local_copy_def dispatched case_prod_unfold Let_def)

end

section \<open>What no action touches\<close>

text \<open>Trust, pairings, pacing, the discovery cache, the files' switch: the same before and after.\<close>

definition same_standing :: "'t shared \<Rightarrow> 't shared \<Rightarrow> bool" where
  "same_standing a b \<longleftrightarrow> trusted b = trusted a \<and> pending_pairs b = pending_pairs a \<and> deferred_sas b = deferred_sas a
     \<and> disc_cache b = disc_cache a \<and> backoffs b = backoffs a \<and> metas b = metas a \<and> keystore_dir b = keystore_dir a
     \<and> outbox_stage b = outbox_stage a \<and> tombstones b = tombstones a"

lemma send_primary_fields [simp]:
  "trusted (send_primary E b sh) = trusted sh" "metas (send_primary E b sh) = metas sh"
  "pending_pairs (send_primary E b sh) = pending_pairs sh" "deferred_sas (send_primary E b sh) = deferred_sas sh"
  "disc_cache (send_primary E b sh) = disc_cache sh" "backoffs (send_primary E b sh) = backoffs sh"
  "keystore_dir (send_primary E b sh) = keystore_dir sh" "outbox_stage (send_primary E b sh) = outbox_stage sh"
  "tombstones (send_primary E b sh) = tombstones sh" "flights (send_primary E b sh) = flights sh"
  "box (send_primary E b sh) = box sh" "counters (send_primary E b sh) = counters sh"
  "net (send_primary E b sh) = snd (send_encrypted (noise_lib E) b (net sh))"
  by (simp_all add: send_primary_def case_prod_unfold Let_def)

interpretation standing: dispatch_blind "same_standing a"
  by unfold_locales (simp_all add: same_standing_def)

lemma same_standing_refl [simp]: "same_standing a a"
  by (simp add: same_standing_def)

lemma act_frames:
  "d_dialing (act D a d) = d_dialing d \<and> d_pin (act D a d) = d_pin d \<and> d_settings (act D a d) = d_settings d
     \<and> peers_disk (d_host (act D a d)) = peers_disk (d_host d) \<and> pairing_window (d_host (act D a d)) = pairing_window (d_host d)"
  by (cases a) (simp_all add: emit_state_def publishable_state_def put_out_def send_item_def write_clipboard_def write_file_def
      write_image_def write_text_def job_def record_own_def cache_for_def count_def Let_def split: prod.splits option.splits)

lemma dispatch_frames:
  "d_dialing (dispatch D as d) = d_dialing d \<and> d_pin (dispatch D as d) = d_pin d \<and> d_settings (dispatch D as d) = d_settings d
     \<and> peers_disk (d_host (dispatch D as d)) = peers_disk (d_host d) \<and> pairing_window (d_host (dispatch D as d)) = pairing_window (d_host d)"
  unfolding dispatch_def by (induction as arbitrary: d) (simp_all add: act_frames)

lemma handle_frames:
  "d_dialing (snd (d_handle D e d)) = d_dialing d \<and> d_pin (snd (d_handle D e d)) = d_pin d
     \<and> d_settings (snd (d_handle D e d)) = d_settings d"
  by (simp add: d_handle_def split: prod.split)

lemma run_frames:
  "d_dialing (run_event D e d) = d_dialing d \<and> d_pin (run_event D e d) = d_pin d \<and> d_settings (run_event D e d) = d_settings d
     \<and> peers_disk (d_host (run_event D e d)) = peers_disk (d_host d) \<and> pairing_window (d_host (run_event D e d)) = pairing_window (d_host d)"
  using handle_frames [of D e d] d_handle_host [of D e d] by (simp add: run_event_def dispatch_frames case_prod_unfold Let_def)

end
