(* ===== verification/Untrust.thy ===== *)
theory Untrust
  imports Dispatch
begin

text \<open>
  Revoking a peer and rejecting a pairing, from the command to the file: what is left of the peer afterwards, and
  that a disk that cannot be written leaves the trust as it was.
\<close>

section \<open>A peer that is gone\<close>

text \<open>No session can be reached under its id.\<close>

definition cut_off :: "bytes32 \<Rightarrow> 't net \<Rightarrow> bool" where
  "cut_off p t \<longleftrightarrow> bt_wf (extra t) \<and> bt_get (extra t) p = None \<and> (last_peer_id (conn t) = Some p \<longrightarrow> pc_session (conn t) = None)"

context link_blind
begin

lemma sent_on:
  assumes q: "Q t"
  shows "Q (snd (send_on ns b sl t))"
proof -
  have "Q (upd_slot sl (\<lambda>c. c\<lparr>pc_session := Some s, bytes_since_established := g c\<rparr>) t)"
    if "at_slot sl t = Some c" "pc_session c = Some s0" for sl c s s0 g
    using that by (intro upd_any [OF q]) (simp add: same_link_def)
  then show ?thesis
    using q by (auto simp: send_on_def send_commit_def split: option.splits sum.splits prod.splits)
qed

end

interpretation wf_extra: link_blind "\<lambda>t. bt_wf (extra t)"
  by unfold_locales simp_all

interpretation cut: link_blind "cut_off p"
  by unfold_locales (auto simp: cut_off_def conn_upd_slot same_link_def at_slot_def extra_upd_slot)

lemma cut_unlink: "cut_off p t \<Longrightarrow> cut_off p (upd_slot sl unlink t)"
  by (auto simp: cut_off_def conn_upd_slot extra_upd_slot unlink_def)

lemma cut_purge: "bt_wf (extra t) \<Longrightarrow> cut_off p (purge_peer p t)"
  by (auto simp: cut_off_def purge_peer_def Let_def drop_session_for_def conn_for_def conn_upd_slot unlink_def
      bt_wf_remove bt_get_remove split: option.splits)

lemma cut_promote:
  assumes "cut_off p t"
  shows "cut_off p (snd (promote_secondary ms t))"
proof (cases "live_extra t")
  case (Cons e es)
  obtain i c where e: "e = (i, c)" by force
  have "(i, c) \<in> set (extra t)" using Cons e by (auto simp: live_extra_def filter_eq_Cons_iff)
  then have "bt_get (extra t) i = Some c" using assms bt_get_live by (auto simp: cut_off_def)
  then have "i \<noteq> p" using assms by (auto simp: cut_off_def)
  then show ?thesis using assms
    by (simp add: promote_secondary_def Cons e Let_def cut_off_def bt_wf_remove bt_get_remove split: option.split)
qed (use assms in \<open>simp add: promote_secondary_def\<close>)

lemma cut_linked:
  assumes "cut_off p t"
  shows "p \<notin> set (linked_peer_ids t)" and "\<not> has_session_for p t"
proof -
  have n: "p \<notin> fst ` set (extra t)" using assms by (simp add: cut_off_def bt_get_def map_of_eq_None_iff)
  then have "p \<notin> set (map fst (live_extra t))" by (auto simp: live_extra_def)
  then show "p \<notin> set (linked_peer_ids t)" using assms
    by (cases "last_peer_id (conn t)"; cases "pc_session (conn t)") (auto simp: linked_peer_ids_def cut_off_def)
  show "\<not> has_session_for p t"
    using assms by (cases "last_peer_id (conn t) = Some p") (simp_all add: has_session_for_def read_for_def conn_for_def cut_off_def at_slot_def)
qed

text \<open>Nothing of the peer is left in the tables: trust, pacing, discovery, row, link, items in flight.\<close>

definition gone :: "bytes32 \<Rightarrow> 't shared \<Rightarrow> bool" where
  "gone p sh \<longleftrightarrow> cut_off p (net sh) \<and> map_of (trusted sh) p = None \<and> map_of (disc_cache sh) p = None
     \<and> map_of (backoffs sh) p = None \<and> bt_get (metas sh) p = None
     \<and> (\<forall>(h, it)\<in>set (flights sh). p \<notin> set (pending_peers it))"

lemma set_inserted: "set (fold List.insert ps xs) = set ps \<union> set xs"
  by (induction ps arbitrary: xs) auto

lemma send_to_net: "net (snd (send_to E i b sh)) = snd (send_encrypted_to (noise_lib E) i b (net sh))"
  by (simp add: send_to_def case_prod_unfold log_fx_def)

interpretation gone: dispatch_blind "gone p"
proof unfold_locales
  fix sh sh0 :: "'a shared" and t h fs ps
  assume g: "gone p sh" "gone p sh0" and l: "set ps \<subseteq> set (linked_peer_ids (net sh0))"
  then have "p \<notin> set ps" using cut_linked(1) by (auto simp: gone_def)
  then show "gone p (sh\<lparr>flights := track_inflight t h fs ps (flights sh)\<rparr>)"
    using g(1) by (fastforce simp: gone_def track_inflight_def Let_def hm_insert_def set_inserted dest: map_of_SomeD split: option.split)
qed (simp_all add: gone_def send_to_net cut.send send_encrypted_def cut.sent_on drop_session_def cut_unlink)

section \<open>Revoking and rejecting\<close>

lemma expel_frames:
  "peers_disk (d_host (expel D g p d)) = peers_disk (d_host d)"
proof -
  have l: "peers_disk (d_host (snd (lose_primary D p d))) = peers_disk (d_host d)" for d
    by (simp add: lose_primary_def reannounce_trusted_peer_def case_prod_unfold Let_def split: option.split)
  show ?thesis by (simp add: expel_def case_prod_unfold Let_def dispatch_frames l)
qed

lemma failover_fields [simp]:
  "trusted (snd (try_primary_failover E sh)) = trusted sh" "metas (snd (try_primary_failover E sh)) = metas sh"
  "flights (snd (try_primary_failover E sh)) = flights sh" "disc_cache (snd (try_primary_failover E sh)) = disc_cache sh"
  "backoffs (snd (try_primary_failover E sh)) = backoffs sh" "pending_pairs (snd (try_primary_failover E sh)) = pending_pairs sh"
  "net (snd (try_primary_failover E sh)) = snd (promote_secondary (now_ms E) (net sh))"
  by (auto simp: try_primary_failover_def Let_def split: prod.split option.split)

lemma gone_failover: "gone p sh \<Longrightarrow> gone p (snd (try_primary_failover E sh))"
  by (simp add: gone_def cut_promote)

lemma lose_primary_hub: "gone p (d_hub d) \<Longrightarrow> gone p (d_hub (snd (lose_primary D p d)))
    \<and> trusted (d_hub (snd (lose_primary D p d))) = trusted (d_hub d)
    \<and> pending_pairs (d_hub (snd (lose_primary D p d))) = pending_pairs (d_hub d)"
  by (simp add: lose_primary_def reannounce_trusted_peer_def case_prod_unfold Let_def gone_failover split: option.split)

lemma purged_flights: "\<forall>(h, it)\<in>set (flights (purge_peer_from_inflight p sh)). p \<notin> set (pending_peers it)"
  by (auto simp: purge_peer_from_inflight_def List.map_filter_def Let_def split: if_splits)

lemma purge_fields [simp]:
  "trusted (purge_peer_from_inflight p sh) = trusted sh" "net (purge_peer_from_inflight p sh) = net sh"
  "metas (purge_peer_from_inflight p sh) = metas sh" "disc_cache (purge_peer_from_inflight p sh) = disc_cache sh"
  "backoffs (purge_peer_from_inflight p sh) = backoffs sh" "pending_pairs (purge_peer_from_inflight p sh) = pending_pairs sh"
  "pending_pairs (purge_dropped_pending_from_outbox_stage as sh) = pending_pairs sh"
  "trusted (purge_dropped_pending_from_outbox_stage as sh) = trusted sh" "net (purge_dropped_pending_from_outbox_stage as sh) = net sh"
  "metas (purge_dropped_pending_from_outbox_stage as sh) = metas sh"
  "disc_cache (purge_dropped_pending_from_outbox_stage as sh) = disc_cache sh"
  "backoffs (purge_dropped_pending_from_outbox_stage as sh) = backoffs sh"
  by (simp_all add: purge_peer_from_inflight_def purge_dropped_pending_from_outbox_stage_def)

lemma sever_cut:
  assumes "bt_wf (extra (net sh))"
  shows "cut_off p (net (sever E g p sh))" "bt_get (metas (sever E g p sh)) p = None" "trusted (sever E g p sh) = trusted sh"
    "disc_cache (sever E g p sh) = disc_cache sh" "backoffs (sever E g p sh) = backoffs sh"
    "pending_pairs (sever E g p sh) = pending_pairs sh"
proof -
  have w: "bt_wf (extra (net (send_msg E p g sh)))"
    using assms wf_extra.send [of "net sh"] by (simp add: send_msg_def send_to_net split: sum.split)
  have f: "trusted (send_msg E p g sh) = trusted sh" "disc_cache (send_msg E p g sh) = disc_cache sh"
    "backoffs (send_msg E p g sh) = backoffs sh" "pending_pairs (send_msg E p g sh) = pending_pairs sh" by (simp_all add: send_msg_def split: sum.split)
  show "cut_off p (net (sever E g p sh))" "bt_get (metas (sever E g p sh)) p = None" "trusted (sever E g p sh) = trusted sh"
    "disc_cache (sever E g p sh) = disc_cache sh" "backoffs (sever E g p sh) = backoffs sh"
    "pending_pairs (sever E g p sh) = pending_pairs sh"
    using w assms f by (simp_all add: sever_def forget_meta_def cut_purge bt_get_remove Let_def)
qed

lemma expel_gone:
  assumes w: "bt_wf (extra (net (d_hub d)))"
    and t: "map_of (trusted (d_hub d)) p = None" "map_of (disc_cache (d_hub d)) p = None" "map_of (backoffs (d_hub d)) p = None"
  shows "gone p (d_hub (expel D g p d)) \<and> trusted (d_hub (expel D g p d)) = trusted (d_hub d)
    \<and> pending_pairs (d_hub (expel D g p d)) = pending_pairs (d_hub d)"
proof -
  let ?s = "at_hub (sever (E_of D) g p) d"
  let ?r = "d_handle D (PeerRevoked p) ?s"
  let ?d = "at_hub (\<lambda>sh. purge_peer_from_inflight p (purge_dropped_pending_from_outbox_stage (fst ?r) sh)) (snd ?r)"
  have g: "gone p (d_hub ?d)"
    by (simp add: gone_def sever_cut [OF w] t purged_flights)
  have tr: "trusted (d_hub ?d) = trusted (d_hub d)" "pending_pairs (d_hub ?d) = pending_pairs (d_hub d)"
    by (simp_all add: sever_cut [OF w])
  have m: "gone p (d_hub (dispatch D bs e)) \<and> trusted (d_hub (dispatch D bs e)) = trusted (d_hub e)
      \<and> pending_pairs (d_hub (dispatch D bs e)) = pending_pairs (d_hub e)" if "gone p (d_hub e)" for bs e
    using gone.dispatched [OF that] standing.dispatched [of "d_hub e" e D bs] by (simp add: same_standing_def)
  have e: "expel D g p d = dispatch D (fst ?r @ fst (if peer_id (a_state (d_app ?s)) = p then lose_primary D p ?d else ([], ?d)))
      (snd (if peer_id (a_state (d_app ?s)) = p then lose_primary D p ?d else ([], ?d)))"
    by (simp only: expel_def Let_def case_prod_unfold)
  have "gone p (d_hub (snd (lose_primary D p ?d))) \<and> trusted (d_hub (snd (lose_primary D p ?d))) = trusted (d_hub d)
      \<and> pending_pairs (d_hub (snd (lose_primary D p ?d))) = pending_pairs (d_hub d)"
    using lose_primary_hub [OF g] tr by simp
  then show ?thesis
    unfolding e using m [OF g] m [of "snd (lose_primary D p ?d)"] tr by (simp del: d_hub_at_hub)
qed

lemma drop_trust_result:
  assumes d: "drop_trust R p h = (ok, h')"
  shows "net (hub h') = net (hub h)"
    and "map_of (disc_cache (hub h')) p = None" "map_of (backoffs (hub h')) p = None" "keystore_dir (hub h') = keystore_dir (hub h)"
      "pending_pairs (hub h') = pending_pairs (hub h)"
    and "ok \<Longrightarrow> trusted (hub h') = hm_remove p (trusted (hub h))"
    and "ok \<Longrightarrow> keystore_dir (hub h) \<Longrightarrow>
      peers_disk h' = peers_file.Peers (map (stored_of (hexs (env_of R)) (peers_disk h)) (hm_remove p (trusted (hub h))))"
    and "\<not> ok \<Longrightarrow> map_of (trusted (hub h')) = map_of (trusted (hub h)) \<and> peers_disk h' = peers_disk h"
  using d by (auto simp: drop_trust_def Let_def save_with_retry on_hub_def split: if_splits option.splits)

lemma gone_linked: "gone p sh \<Longrightarrow> \<not> has_session_for p (net sh) \<and> p \<notin> set (linked_peer_ids (net sh))"
  using cut_linked by (auto simp: gone_def)

definition forgotten_on_disk :: "('h, 't) cmd_env \<Rightarrow> bytes32 \<Rightarrow> 't daemon \<Rightarrow> bool" where
  "forgotten_on_disk C p d \<longleftrightarrow> map_of (boot_trust (blake3 (env_c C)) (hexs (env_c C)) (peers_disk (d_host d))) p = None"

lemma trust_ok_remove: "trust_ok b3 tr \<Longrightarrow> trust_ok b3 (hm_remove p tr)"
  by (auto simp: trust_ok_def) (auto simp: hm_remove_def)

lemma hm_remove_le: "length (hm_remove p tr) \<le> length tr"
  by (simp add: hm_remove_def)

text \<open>
  C3: A revocation is all or nothing. Acknowledged, the peer is trusted neither in memory nor by the next boot, has
  no link, no row, no entry in the caches and no item it is still owed, and every other peer is trusted as before,
  whatever actions the core answers with. Refused for the disk, trust, file and links are as
  they were.
\<close>

theorem revoke_is_all_or_nothing:
  assumes r: "handle_driver_cmd C (cmd_op.Revoke s) d = (rep, d')" and s: "hex_decode (hexs (env_c C)) s = Some p" "length p = 32"
    and w: "bt_wf (extra (net (d_hub d)))"
    and t: "hex_roundtrip (hexs (env_c C))" "trust_ok (blake3 (env_c C)) (trusted (d_hub d))"
      "length (trusted (d_hub d)) \<le> MAX_PERSISTED_PEERS"
  shows "case rep of
      Inr _ \<Rightarrow> gone p (d_hub d') \<and> \<not> has_session_for p (net (d_hub d')) \<and> p \<notin> set (linked_peer_ids (net (d_hub d')))
        \<and> map_of (trusted (d_hub d')) = (map_of (trusted (d_hub d)))(p := None)
        \<and> (keystore_dir (d_hub d) \<longrightarrow> forgotten_on_disk C p d')
    | Inl e \<Rightarrow> e = PersistFailed \<and> map_of (trusted (d_hub d')) = map_of (trusted (d_hub d))
        \<and> peers_disk (d_host d') = peers_disk (d_host d) \<and> net (d_hub d') = net (d_hub d)"
proof -
  obtain ok h where d: "drop_trust (R_of C) p (d_host d) = (ok, h)" by force
  note dr = drop_trust_result [OF d]
  have a: "peer_arg C s = Inr p" by (simp add: peer_arg_def s)
  show ?thesis
  proof (cases ok)
    case False
    then show ?thesis using r dr by (auto simp: op_revoke_def a d)
  next
    case True
    have x: "rep = Inr None" "d' = expel (denv C) msg.Revoke p (d\<lparr>d_host := h\<rparr>)"
      using r True by (simp_all add: op_revoke_def a d)
    have "gone p (d_hub d') \<and> trusted (d_hub d') = trusted (hub h)"
      using expel_gone [of "d\<lparr>d_host := h\<rparr>" p "denv C" msg.Revoke] w dr True by (simp add: x)
    moreover have "forgotten_on_disk C p d'" if "keystore_dir (d_hub d)"
      using boot_after_save [OF t(1) trust_ok_remove [OF t(2)] le_trans [OF hm_remove_le t(3)]] dr(7) [OF True that]
      by (simp add: forgotten_on_disk_def x expel_frames)
    ultimately show ?thesis
      using x dr(6) [OF True] gone_linked [of p "d_hub d'"] by simp
  qed
qed

definition demo_C :: "(unit, unit) cmd_env" where
  "demo_C = \<lparr>denv = demo_D\<lparr>hs_of := demo_R\<lparr>env_of := demo_env\<lparr>blake3 := \<lambda>b. b, hexs := full_hex\<rparr>\<rparr>\<rparr>,
     b64_encode = \<lambda>_. [], b64_decode = Some \<circ> as_bytes, b32_encode = \<lambda>b. map unat b, b32_decode = Some \<circ> map of_nat,
     parse_addr = \<lambda>s. if s = [49] then Some ([10, 0, 0, 1], 9) else None, show_addr = \<lambda>_. [49], pin_random = 7, lan_addr = [49],
     tailnet_addr = None, uni_word = \<lambda>_. False, mdns_up = True, platform = []\<rparr>"

definition demo_keyed :: "unit daemon" where
  "demo_keyed = demo_daemon\<lparr>d_host := \<lparr>hub = demo_shared\<lparr>trusted := demo_trust, keystore_dir := True\<rparr>,
     pairing_window = None, peers_disk = Missing, sent = []\<rparr>\<rparr>"

lemma demo_C_sel [simp]:
  "hexs (env_c demo_C) = full_hex" "blake3 (env_c demo_C) = (\<lambda>b. b)" "disk_io (R_of demo_C) = (\<lambda>_. True)"
  "b32_decode demo_C = Some \<circ> map of_nat" "parse_addr demo_C s = (if s = [49] then Some ([10, 0, 0, 1], 9) else None)"
  by (simp_all add: demo_C_def demo_R_def)

lemma demo_net_wf: "bt_wf (extra (net demo_shared))"
  by (simp add: demo_shared_def link_eval bt_wf_def)

lemma demo_trust_ok: "trust_ok (\<lambda>b. b) demo_trust" "length demo_trust \<le> MAX_PERSISTED_PEERS"
  by (simp_all add: trust_ok_def demo_trust_def peer_id_for_def ring_hash_def is32_def demo_key_valid MAX_PERSISTED_PEERS_def)

lemma third_attempt: "\<exists>k::nat. k < 3"
  by (rule exI [of _ 0]) simp

lemma saved_replies:
  assumes "\<And>h. fst (drop_trust (R_of C) p h)"
  shows "peer_arg C s = Inr p \<Longrightarrow> fst (op_revoke C s d) = Inr None" and "fst (reject_pair C p q d) = Inr None"
proof -
  have t: "drop_trust (R_of C) p h = (True, snd (drop_trust (R_of C) p h))" for h using assms [of h] by (simp add: prod_eq_iff)
  show "peer_arg C s = Inr p \<Longrightarrow> fst (op_revoke C s d) = Inr None" by (simp add: op_revoke_def, subst t) simp
  show "fst (reject_pair C p q d) = Inr None" by (simp add: reject_pair_def Let_def, subst t) simp
qed

lemma demo_drop: "fst (drop_trust (R_of demo_C) p h)"
  by (auto simp: drop_trust_def Let_def save_with_retry third_attempt)

lemma hex_decode_full: "hex_decode full_hex (hex32 h) = Some h"
  using full_hex_roundtrip by (simp add: hex_roundtrip_def full_hex_def)

theorem revoke_is_all_or_nothing_witness:
  "let d' = snd (handle_driver_cmd demo_C (cmd_op.Revoke (hex32 (replicate 32 9))) demo_keyed)
   in gone (replicate 32 9) (d_hub d') \<and> map_of (trusted (d_hub d')) = Map.empty \<and> forgotten_on_disk demo_C (replicate 32 9) d'"
proof -
  obtain rep d' where r: "handle_driver_cmd demo_C (cmd_op.Revoke (hex32 (replicate 32 9))) demo_keyed = (rep, d')" by force
  have "rep = Inr None"
    using r saved_replies(1) [OF demo_drop, of "hex32 (replicate 32 9)" "replicate 32 9" demo_keyed]
    by (simp add: peer_arg_def hex_decode_full prod_eq_iff)
  then show ?thesis
    using revoke_is_all_or_nothing [OF r, of "replicate 32 9"] full_hex_roundtrip demo_trust_ok demo_net_wf
    unfolding r snd_conv Let_def by (simp add: demo_keyed_def demo_trust_def hex_decode_full)
qed

section \<open>Rejecting the words\<close>


definition demo_unsure :: "unit daemon" where
  "demo_unsure = demo_daemon\<lparr>d_host := \<lparr>hub = demo_shared\<lparr>trusted := demo_trust, keystore_dir := True,
       pending_pairs := [(replicate 32 9, \<lparr>pp_static_pub = replicate 32 9, pp_name = [], pp_sas_words = [], pp_from = ([10, 0, 0, 2], 9), pp_expires_at = 90\<rparr>)]\<rparr>,
     pairing_window = None, peers_disk = Missing, sent = []\<rparr>\<rparr>"


end
