(* ===== verification/Pair_Commands.thy ===== *)
theory Pair_Commands
  imports Untrust
begin

text \<open>
  The three commands that pair with a key: what they may trust, whom they dial and under which gate; and where they
  leave the trust store other than their replies say.
\<close>

section \<open>Adding a key\<close>

lemma add_trusted_result:
  assumes "add_trusted R p pub name h = (ok, h')"
  shows "net (hub h') = net (hub h)" "pending_pairs (hub h') = pending_pairs (hub h)"
    and "trusted (hub h') = (if ok then hm_insert p \<lparr>tp_static_pub = pub, tp_name = name\<rparr> (trusted (hub h))
        else hm_remove p (hm_insert p \<lparr>tp_static_pub = pub, tp_name = name\<rparr> (trusted (hub h))))"
  using assms by (auto simp: add_trusted_def Let_def on_hub_def split: if_splits prod.splits bool.splits)

lemma online_frame:
  "trusted (d_hub (ensure_online D d)) = trusted (d_hub d)" "pending_pairs (d_hub (ensure_online D d)) = pending_pairs (d_hub d)"
  "d_dialing (ensure_online D d) = d_dialing d"
  using standing.online [of "d_hub d" d D] run_frames [of D ToggleOn d] by (simp_all add: same_standing_def ensure_online_def)

text \<open>Trusted already, and not waiting for its words.\<close>

definition confirmed_peer :: "bytes32 \<Rightarrow> 't daemon \<Rightarrow> bool" where
  "confirmed_peer p d \<longleftrightarrow> map_of (trusted (d_hub d)) p \<noteq> None \<and> map_of (pending_pairs (d_hub d)) p = None"

lemma pairing_admitted:
  assumes "admit_peer C pub name d = (Inr (p, already), d')"
  shows "p = peer_id_for (blake3 (env_c C)) pub" and "validate_peer_pubkey pub = Inr ()" and "d_dialing d' = d_dialing d"
    and "trusted (d_hub d') = hm_insert p \<lparr>tp_static_pub = pub, tp_name = name\<rparr> (trusted (d_hub d))"
    and "pending_pairs (d_hub d') = pending_pairs (d_hub d)" and "already = confirmed_peer p d"
    and "length (trusted (d_hub d')) \<le> max MAX_PERSISTED_PEERS (length (trusted (d_hub d)))"
proof -
  let ?p = "peer_id_for (blake3 (env_c C)) pub"
  obtain ok h where a: "add_trusted (R_of C) ?p pub name (d_host d) = (ok, h)" by force
  have v: "validate_peer_pubkey pub = Inr ()" and room: "map_of (trusted (d_hub d)) ?p \<noteq> None \<or> length (trusted (d_hub d)) < MAX_PERSISTED_PEERS"
    and ok: ok and r: "p = ?p" "already = confirmed_peer ?p d" "d' = ensure_online (denv C) (d\<lparr>d_host := h\<rparr>)"
    using assms a by (auto simp: admit_peer_def Let_def confirmed_peer_def split: sum.splits if_splits bool.splits)
  note f = add_trusted_result [OF a]
  show "p = ?p" "validate_peer_pubkey pub = Inr ()" "d_dialing d' = d_dialing d" "already = confirmed_peer p d"
    using v r by (simp_all add: online_frame)
  show t: "trusted (d_hub d') = hm_insert p \<lparr>tp_static_pub = pub, tp_name = name\<rparr> (trusted (d_hub d))"
    "pending_pairs (d_hub d') = pending_pairs (d_hub d)"
    using r f ok by (simp_all add: online_frame)
  show "length (trusted (d_hub d')) \<le> max MAX_PERSISTED_PEERS (length (trusted (d_hub d)))"
    unfolding t using room r(1) by (intro hm_insert_room) auto
qed

lemma admit_refused:
  assumes "admit_peer C pub name d = (Inl e, d')"
  shows "d_dialing d' = d_dialing d" and "trusted (d_hub d') = trusted (d_hub d)
      \<or> e = PersistFailed \<and> map_of (trusted (d_hub d')) = (map_of (trusted (d_hub d)))(peer_id_for (blake3 (env_c C)) pub := None)
        \<and> length (trusted (d_hub d')) \<le> length (trusted (d_hub d))"
proof -
  let ?p = "peer_id_for (blake3 (env_c C)) pub"
  obtain ok h where a: "add_trusted (R_of C) ?p pub name (d_host d) = (ok, h)" by force
  note f = add_trusted_result [OF a]
  have l: "length (hm_remove ?p (hm_insert ?p x tr)) \<le> length tr" for x and tr :: trust
    by (simp add: hm_remove_def hm_insert_def)
  show "d_dialing d' = d_dialing d" "trusted (d_hub d') = trusted (d_hub d)
      \<or> e = PersistFailed \<and> map_of (trusted (d_hub d')) = (map_of (trusted (d_hub d)))(?p := None)
        \<and> length (trusted (d_hub d')) \<le> length (trusted (d_hub d))"
    using assms a f l by (auto simp: admit_peer_def Let_def split: sum.splits if_splits bool.splits)
qed

section \<open>Pairing with a key\<close>

fun pairs_with_key :: "cmd_op \<Rightarrow> bool" where
  "pairs_with_key (PairFromUri _ _) = True"
| "pairs_with_key (PairAccept _ _ _) = True"
| "pairs_with_key (PairFromPin _ _) = True"
| "pairs_with_key _ = False"

text \<open>The whole of such a command: refused before a key is tried, or the key is tried and then perhaps dialed.\<close>

lemma pairing_shape:
  assumes "pairs_with_key op" and "handle_driver_cmd C op d = (rep, d')"
  shows "d' = d
    \<or> (\<exists>pub name e. admit_peer C pub name d = (Inl e, d') \<and> rep = Inl e)
    \<or> (\<exists>pub name p already d1. admit_peer C pub name d = (Inr (p, already), d1)
         \<and> (d' = d1 \<or> (\<exists>addrs. d' = dial_paired pub addrs p name already d1)))"
proof (cases op)
  case (PairFromUri uri name)
  then show ?thesis using assms(2)
    by (auto simp: op_pair_from_uri_def split: option.splits sum.splits prod.splits) metis+
next
  case (PairAccept key name addr)
  then show ?thesis using assms(2)
    by (auto simp: op_pair_accept_def split: option.splits sum.splits prod.splits) metis+
next
  case (PairFromPin pin name)
  then show ?thesis using assms(2)
    by (auto simp: op_pair_from_pin_def split: option.splits sum.splits prod.splits if_splits) metis+
qed (use assms in simp_all)


lemma demo_pairs:
  "d_dialing (snd (handle_driver_cmd demo_C (PairAccept (replicate 32 9) [] (Some [49])) demo_daemon)) \<noteq> None"
proof -
  have k: "key_of_b32 demo_C (replicate 32 9) = Inr (replicate 32 9)" by (simp add: key_of_b32_def)
  have kd: "\<not> keystore_dir (hub (d_host demo_daemon))" by (simp add: demo_daemon_def demo_shared_def shared_new_def)
  have room: "length (trusted (d_hub demo_daemon)) < MAX_PERSISTED_PEERS"
    by (simp add: demo_daemon_def demo_shared_def MAX_PERSISTED_PEERS_def)
  have "\<exists>p already d1. admit_peer demo_C (replicate 32 9) [] demo_daemon = (Inr (p, already), d1)"
    using room by (simp add: admit_peer_def Let_def demo_key_valid add_trusted_def on_hub_def kd)
  then obtain p already d1 where a: "admit_peer demo_C (replicate 32 9) [] demo_daemon = (Inr (p, already), d1)" by blast
  have "d_dialing d1 = None" using pairing_admitted(3) [OF a] by (simp add: demo_daemon_def)
  then show ?thesis by (simp add: op_pair_accept_def k a dial_paired_def start_initiator_def)
qed


section \<open>Where trust and reply part\<close>

text \<open>A pairing whose dial fails leaves the key trusted: the second try counts as a reconnection, without the words.\<close>

lemma second_try_skips_verification:
  assumes "admit_peer C pub name d = (Inr (p, False), d1)" and "map_of (pending_pairs (d_hub d)) p = None"
    and "admit_peer C pub name d1 = (r, d2)" and "r \<noteq> Inl PersistFailed"
  shows "r = Inr (p, True)"
proof -
  note ok = pairing_admitted [OF assms(1)]
  have "map_of (trusted (d_hub d1)) p \<noteq> None" "map_of (pending_pairs (d_hub d1)) p = None" using ok assms(2) by simp_all
  then show ?thesis
    using assms(3,4) ok(1,2) by (auto simp: admit_peer_def Let_def split: if_splits prod.splits bool.splits)
qed

text \<open>The rollback of a failed save takes the trust of a peer that was trusted before.\<close>

lemma failed_repair_untrusts:
  assumes "keystore_dir (hub h)" and "\<not> (\<exists>k<3. disk_io R k)"
  shows "map_of (trusted (hub (snd (add_trusted R p pub name h)))) p = None"
  using assms by (auto simp: add_trusted_def Let_def upsert_persist on_hub_def split: option.split)

text \<open>A bad address is reported as an error, and the key is trusted all the same.\<close>

lemma bad_addr_pairs_anyway:
  assumes "key_of_b32 C key = Inr pub" and "admit_peer C pub name d = (Inr (p, already), d1)" and "parse_addr C s = None"
  shows "handle_driver_cmd C (PairAccept key name (Some s)) d = (Inl BadAddr, d1)
    \<and> map_of (trusted (d_hub d1)) p = Some \<lparr>tp_static_pub = pub, tp_name = name\<rparr>"
  using assms pairing_admitted [OF assms(2)] by (simp add: op_pair_accept_def)

end
