(* ===== verification/Event_Loop.thy ===== *)
theory Event_Loop
  imports Untrust
begin

text \<open>
  \<open>driver/mod.rs\<close>: the settings read at the boot, and the arms of the main loop: an event, a command, an
  acknowledged delivery, the minute tick; with the ghost watchdog that feeds it.
\<close>

section \<open>The settings at the boot\<close>

definition boot_settings :: "bool \<Rightarrow> millis \<Rightarrow> config \<Rightarrow> settings_files \<Rightarrow> (config \<Rightarrow> app) \<Rightarrow> app \<times> u64" where
  "boot_settings keystore t cfg f mk_app =
     (let cfg = (if keystore
            then cfg\<lparr>cfg_firewall := load_firewall f,
                     peer_name_self := (case load_device_name f of Some n \<Rightarrow> n | None \<Rightarrow> peer_name_self cfg)\<rparr> else cfg);
          a = mk_app cfg
      in case (if keystore then load_history_retention f else None) of
           Some secs \<Rightarrow> (case set_history_retention secs t a of
             Inr a \<Rightarrow> (a, secs) | Inl _ \<Rightarrow> (a, DEFAULT_HISTORY_RETENTION_SECS))
         | None \<Rightarrow> (a, DEFAULT_HISTORY_RETENTION_SECS))"

text \<open>An Ask rule of a client holds while the daemon runs; the boot after it reads a Deny rule.\<close>

lemma ask_rules_end_at_the_restart:
  assumes "settings_io D" and "keystore_dir (d_hub d)"
  shows "cfg_firewall (a_config (d_app (op_set_firewall D p d))) = p
    \<and> load_firewall (d_settings (op_set_firewall D p d)) = normalized p"
  using assms by (simp add: op_set_firewall_def on_settings_def save_firewall_def load_firewall_def set_firewall_def
      emit_state_def publishable_state_def put_out_def set_metrics_def Let_def case_prod_unfold)

section \<open>The loop\<close>

record 't loop =
  lp_daemon :: "'t daemon"
  lp_gen :: u64
  lp_dir :: dir
  lp_battery :: "u8 \<times> bool"

definition link_is_up :: "app \<Rightarrow> bool" where
  "link_is_up a \<longleftrightarrow> st_phase (a_state a) = lit ''linked''"

definition refresh_others :: "event \<Rightarrow> 't daemon \<Rightarrow> 't daemon" where
  "refresh_others e d =
     (if (case e of GhostTimeout \<Rightarrow> True | PeerSeen _ _ \<Rightarrow> True | _ \<Rightarrow> False)
      then d\<lparr>d_app := set_other_linked_peers (map fst (secondary_liveness (net (d_hub d)))) (d_app d)\<rparr> else d)"

text \<open>Between the core's answer and its execution: the counters, the purges, the mirror of a wipe.\<close>

definition before_dispatch ::
  "('h, 't) cmd_env \<Rightarrow> vault_lib \<Rightarrow> vault_io \<Rightarrow> event \<Rightarrow> bool \<Rightarrow> action list \<Rightarrow> 't loop \<Rightarrow> 't loop" where
  "before_dispatch C V io e was_up as lp =
     (let d = lp_daemon lp;
          d = (if \<not> was_up \<and> link_is_up (d_app d) then count (on_link_up (now (env_c C))) d else d);
          d = at_hub (purge_dropped_pending_from_outbox_stage as) d;
          (_, (g, dk), d) = sync_security_wipe_if_needed V io (now_ms (env_c C)) (vault_ttl d) (lp_gen lp, lp_dir lp) d;
          d = (case e of PeerRevoked p \<Rightarrow> at_hub (purge_peer_from_inflight p) d | _ \<Rightarrow> d)
      in lp\<lparr>lp_daemon := d, lp_gen := g, lp_dir := dk\<rparr>)"

definition on_event :: "('h, 't) cmd_env \<Rightarrow> vault_lib \<Rightarrow> vault_io \<Rightarrow> event \<Rightarrow> 't loop \<Rightarrow> 't loop" where
  "on_event C V io e lp =
     (let lp = (case e of BatteryChangedSelf lv ch \<Rightarrow> lp\<lparr>lp_battery := (lv, ch)\<rparr> | _ \<Rightarrow> lp);
          d = refresh_others e (lp_daemon lp);
          was_up = link_is_up (d_app d);
          (as, d) = d_handle (denv C) e d;
          lp = before_dispatch C V io e was_up as (lp\<lparr>lp_daemon := d\<rparr>);
          d = dispatch (denv C) as (lp_daemon lp);
          d = (if e = HandshakeOk
               then at_hub (greet_new_sessions (env_c C) (platform C) (peer_name_self (a_config (d_app d)))) d else d)
      in lp\<lparr>lp_daemon := d\<rparr>)"

definition delivered_name :: "state \<Rightarrow> bytes32 \<Rightarrow> ustr" where
  "delivered_name s p =
     (case List.find (\<lambda>r. pd_peer_id r = p) (paired s) of
        Some r \<Rightarrow> (if pd_name r \<noteq> [] then pd_name r else lit ''another device'')
      | None \<Rightarrow> lit ''another device'')"

definition on_delivered :: "'t env \<Rightarrow> bytes32 \<Rightarrow> bytes32 \<Rightarrow> 't daemon \<Rightarrow> 't daemon" where
  "on_delivered E h p d =
     (let (changed, a) = mark_delivered h (delivered_name (a_state (d_app d)) p) (d_app d); d = d\<lparr>d_app := a\<rparr>
      in if changed then emit_state E d else d)"

definition expiry_tick :: "'t env \<Rightarrow> 't daemon \<Rightarrow> 't daemon" where
  "expiry_tick E d =
     (let (changed, a) = expire_history (now_ms E) (d_app d); d = d\<lparr>d_app := a\<rparr>
      in if changed then emit_state E d else d)"

datatype driver_cmd =
    Run cmd_op
  | DeliveredCmd bytes32 bytes32
  | PushBinaryCmd kind bytes32 bytes ustr

text \<open>After a command the loop takes over the wipe generation, so that what a command clears is no security wipe.\<close>

definition on_cmd :: "('h, 't) cmd_env \<Rightarrow> driver_cmd \<Rightarrow> 't loop \<Rightarrow> reply option \<times> 't loop" where
  "on_cmd C c lp =
     (let (r, d) = (case c of
            Run op \<Rightarrow> (let (r, d) = handle_driver_cmd C op (lp_daemon lp) in (Some r, d))
          | DeliveredCmd h p \<Rightarrow> (None, on_delivered (env_c C) h p (lp_daemon lp))
          | PushBinaryCmd k h b preview \<Rightarrow> (None, push_binary (denv C) k h b preview False (lp_daemon lp)))
      in (r, lp\<lparr>lp_daemon := d, lp_gen := vault_wipe_gen (a_state (d_app d))\<rparr>))"

section \<open>The ghost watchdog\<close>

text \<open>
  A round looks at the published state, and may report the ghost; then it sleeps, and a long sleep resets the timer.
\<close>

definition ghost_look :: "instant \<Rightarrow> state \<Rightarrow> instant option \<Rightarrow> bool \<times> instant option" where
  "ghost_look t s since =
     (if st_phase s = lit ''discovering'' \<and> peer_name s \<noteq> []
      then case since of
             Some start \<Rightarrow> (if from_secs 600 < t - start then (True, None) else (False, since))
           | None \<Rightarrow> (False, Some t)
      else (False, None))"

definition ghost_sleep :: "instant \<Rightarrow> instant \<Rightarrow> instant option \<Rightarrow> instant option" where
  "ghost_sleep start woken since = (if from_secs 30 < woken - start then None else since)"

fun ghost_run :: "(instant \<times> state \<times> instant) list \<Rightarrow> instant option \<Rightarrow> bool list" where
  "ghost_run [] since = []"
| "ghost_run ((t, s, woken) # rounds) since =
     (let (fired, since) = ghost_look t s since in fired # ghost_run rounds (ghost_sleep t woken since))"

section \<open>A wipe before it is published\<close>

text \<open>The events that may wipe. None of them sends or writes anything.\<close>

fun security_trigger :: "event \<Rightarrow> bool" where
  "security_trigger (PeerSeen _ _) = True"
| "security_trigger (UntrustedPeerSeen _) = True"
| "security_trigger GhostTimeout = True"
| "security_trigger _ = False"

definition moves_nothing :: "action \<Rightarrow> bool" where
  "moves_nothing a \<longleftrightarrow> \<not> is_send_item a \<and> \<not> is_write a"

lemma trigger_moves_nothing:
  assumes e: "security_trigger e"
  shows "list_all moves_nothing (fst (handle b3 w e a))"
proof -
  have p: "SendItem h k b s \<notin> set (fst (post_transition e d a))" "WriteClipboard k b s \<notin> set (fst (post_transition e d a))"
    for h k b s d a using e by (auto simp: post_send_mem gated_send post_write_mem gated_write)
  have "\<exists>d a'. handle b3 w e a = ([], a) \<or> fst (handle b3 w e a) = duplicate_actions e \<or> handle b3 w e a = post_transition e d a'"
    using e by (cases e) (auto simp: handle_def Let_def case_prod_unfold simp del: pre_transition.simps)
  moreover have "SendItem h k b s \<notin> set (duplicate_actions e)" "WriteClipboard k b s \<notin> set (duplicate_actions e)" for h k b s
    using e by (cases e; simp add: duplicate_actions_def)+
  ultimately have "SendItem h k b s \<notin> set (fst (handle b3 w e a))" "WriteClipboard k b s \<notin> set (fst (handle b3 w e a))" for h k b s
    using p by auto
  then show ?thesis
    unfolding list_all_iff moves_nothing_def is_send_item_def is_write_def by (auto split: action.splits)
qed

definition nothing_owed :: "'t shared \<Rightarrow> bool" where
  "nothing_owed sh \<longleftrightarrow> o_order (box sh) = [] \<and> o_entries (box sh) = [] \<and> outbox_stage sh = [] \<and> flights sh = []"

lemma send_box [simp]: "nothing_owed (snd (send_to E i b sh)) = nothing_owed sh" "nothing_owed (send_primary E b sh) = nothing_owed sh"
  by (simp_all add: nothing_owed_def)

lemma act_nothing_owed:
  assumes "\<not> is_send_item a" and "nothing_owed (d_hub d)"
  shows "nothing_owed (d_hub (act D a d))"
proof -
  have h: "nothing_owed (hang_up E sh) = nothing_owed sh" "nothing_owed (say_primary E g sh) = nothing_owed sh" for E g sh
    by (auto simp: hang_up_def say_primary_def Let_def nothing_owed_def split: sum.split)
  have c: "nothing_owed (sh\<lparr>counters := x\<rparr>) = nothing_owed sh" "nothing_owed (sh\<lparr>counters := x, snapshot := y\<rparr>) = nothing_owed sh"
    for x y sh by (simp_all add: nothing_owed_def)
  have e: "nothing_owed (d_hub (emit_state E d)) = nothing_owed (d_hub d)" for E
    using emit_state_hub [of E d] by (auto simp: c(2))
  show ?thesis
    using assms by (cases a) (simp_all add: e put_out_def write_clipboard_hub count_hub c close_session_def h)
qed

lemma act_images: "\<not> is_write a \<Longrightarrow> d_images (act D a d) = d_images d"
  by (cases a) (simp_all add: emit_state_def publishable_state_def put_out_def send_item_def count_def Let_def split: prod.splits)

lemma dispatch_moves_nothing:
  "list_all moves_nothing as \<Longrightarrow> nothing_owed (d_hub d) \<Longrightarrow>
     nothing_owed (d_hub (dispatch D as d)) \<and> d_images (dispatch D as d) = d_images d"
  unfolding dispatch_def by (induction as arbitrary: d) (simp_all add: moves_nothing_def act_nothing_owed act_images)

text \<open>What the actions leave of the core's state: the rows and the generation.\<close>

lemma act_rows:
  "history (a_state (d_app (act D a d))) = history (a_state (d_app d))
     \<and> vault_wipe_gen (a_state (d_app (act D a d))) = vault_wipe_gen (a_state (d_app d))"
  by (cases a) (simp_all add: emit_state_def publishable_state_def put_out_def send_item_def write_clipboard_def write_file_def
      write_image_def write_text_def job_def record_own_def cache_for_def count_def Let_def next_local_event_id_def set_metrics_def
      with_state_def split: prod.splits option.splits)

lemma dispatch_rows:
  "history (a_state (d_app (dispatch D as d))) = history (a_state (d_app d))
     \<and> vault_wipe_gen (a_state (d_app (dispatch D as d))) = vault_wipe_gen (a_state (d_app d))"
  unfolding dispatch_def by (induction as arbitrary: d) (simp_all add: act_rows)

lemma mirrored:
  assumes "vault_ok V" and "length (vi_nonce io) = NONCE_LEN" and "fst (mirror_on_disk V io t ttl kept dk)"
  shows "recoverable V (snd (mirror_on_disk V io t ttl kept dk)) \<subseteq> set kept"
proof (cases "kept = []")
  case True
  then show ?thesis
    using recoverable_cleared [of "vi_tmp_ok io" "vi_file_ok io" dk True] assms(3)
    by (cases "clear_vault (vi_tmp_ok io) (vi_file_ok io) dk") (auto simp: mirror_on_disk_def)
next
  case False
  let ?es = "map (\<lambda>i. \<lparr>ve_item = i, ve_created = t\<rparr>) kept"
  have "ve_item ` set ?es = set kept" by force
  then show ?thesis
    using False recoverable_saved [OF assms(1,2), of "vi_write io" ?es t ttl DEFAULT_DISK_CAP dk] assms(3)
    by (cases "save_vault V (vi_nonce io) (vi_write io) ?es t ttl DEFAULT_DISK_CAP dk") (auto simp: mirror_on_disk_def)
qed

lemma sync_wipes:
  assumes "vault_wipe_gen (a_state (d_app d)) \<noteq> fst s" and "sync_security_wipe_if_needed V io t ttl s d = (hit, s', d')"
  shows "nothing_owed (d_hub d')" and "d_app d' = d_app d" and "fst s' = vault_wipe_gen (a_state (d_app d))"
    and "fst ` set (d_images d') \<subseteq> hi_hash ` set (history (a_state (d_app d)))"
    and "snd s' = (if keystore_dir (d_hub d) then snd (mirror_on_disk V io t ttl (history (a_state (d_app d))) (snd s)) else snd s)"
proof -
  have d: "d' = (at_hub (\<lambda>sh. sh\<lparr>box := outbox_clear_all (box sh), outbox_stage := [], flights := []\<rparr>) d)
      \<lparr>d_images := filter (\<lambda>e. list_ex (\<lambda>h. hi_hash h = fst e) (history (a_state (d_app d)))) (d_images d)\<rparr>"
    and s: "s' = (vault_wipe_gen (a_state (d_app d)),
      if keystore_dir (d_hub d) then snd (mirror_on_disk V io t ttl (history (a_state (d_app d))) (snd s)) else snd s)"
    using assms by (simp_all add: sync_security_wipe_if_needed_def Let_def)
  show "nothing_owed (d_hub d')" "d_app d' = d_app d" "fst s' = vault_wipe_gen (a_state (d_app d))"
    "snd s' = (if keystore_dir (d_hub d) then snd (mirror_on_disk V io t ttl (history (a_state (d_app d))) (snd s)) else snd s)"
    by (simp_all add: d s nothing_owed_def outbox_clear_all_def)
  show "fst ` set (d_images d') \<subseteq> hi_hash ` set (history (a_state (d_app d)))"
    by (auto simp: d list_ex_iff)
qed

lemma purge_owed: "nothing_owed sh \<Longrightarrow> nothing_owed (purge_peer_from_inflight q sh)"
  by (simp add: nothing_owed_def purge_peer_from_inflight_def List.map_filter_def)

lemma before_dispatch_wipes:
  assumes n: "vault_wipe_gen (a_state (d_app (lp_daemon lp))) \<noteq> lp_gen lp" and b: "before_dispatch C V io e was_up as lp = lp'"
  shows "nothing_owed (d_hub (lp_daemon lp'))" and "d_app (lp_daemon lp') = d_app (lp_daemon lp)"
    and "lp_gen lp' = vault_wipe_gen (a_state (d_app (lp_daemon lp)))"
    and "fst ` set (d_images (lp_daemon lp')) \<subseteq> hi_hash ` set (history (a_state (d_app (lp_daemon lp))))"
    and "lp_dir lp' = (if keystore_dir (d_hub (lp_daemon lp))
         then snd (mirror_on_disk V io (now_ms (env_c C)) (vault_ttl (lp_daemon lp)) (history (a_state (d_app (lp_daemon lp)))) (lp_dir lp))
         else lp_dir lp)"
proof -
  let ?d = "at_hub (purge_dropped_pending_from_outbox_stage as)
    (if \<not> was_up \<and> link_is_up (d_app (lp_daemon lp)) then count (on_link_up (now (env_c C))) (lp_daemon lp) else lp_daemon lp)"
  have same: "d_app ?d = d_app (lp_daemon lp)" "vault_ttl ?d = vault_ttl (lp_daemon lp)" "keystore_dir (d_hub ?d) = keystore_dir (d_hub (lp_daemon lp))"
    by (simp_all add: count_def purge_dropped_pending_from_outbox_stage_def)
  obtain hit s d2 where y: "sync_security_wipe_if_needed V io (now_ms (env_c C)) (vault_ttl ?d) (lp_gen lp, lp_dir lp) ?d = (hit, s, d2)"
    by (metis prod_cases3)
  let ?d3 = "case e of PeerRevoked p \<Rightarrow> at_hub (purge_peer_from_inflight p) d2 | _ \<Rightarrow> d2"
  have lp': "lp' = lp\<lparr>lp_daemon := ?d3, lp_gen := fst s, lp_dir := snd s\<rparr>"
    using b y by (simp only: before_dispatch_def Let_def case_prod_unfold fst_conv snd_conv)
  note w = sync_wipes [OF _ y, unfolded same, simplified, OF n]
  show "nothing_owed (d_hub (lp_daemon lp'))" unfolding lp' using w(1) by (simp add: purge_owed split: event.split)
  show "d_app (lp_daemon lp') = d_app (lp_daemon lp)" unfolding lp' using w(2) by (simp split: event.split)
  show "lp_gen lp' = vault_wipe_gen (a_state (d_app (lp_daemon lp)))" unfolding lp' using w(3) by simp
  show "fst ` set (d_images (lp_daemon lp')) \<subseteq> hi_hash ` set (history (a_state (d_app (lp_daemon lp))))"
    unfolding lp' using w(4) by (simp split: event.split)
  show "lp_dir lp' = (if keystore_dir (d_hub (lp_daemon lp))
         then snd (mirror_on_disk V io (now_ms (env_c C)) (vault_ttl (lp_daemon lp)) (history (a_state (d_app (lp_daemon lp)))) (lp_dir lp))
         else lp_dir lp)" unfolding lp' using w(5) by simp
qed

lemma sync_app: "d_app (snd (snd (sync_security_wipe_if_needed V io t ttl s d))) = d_app d"
  by (simp add: sync_security_wipe_if_needed_def Let_def)

lemma revoked_app: "d_app (case e of PeerRevoked p \<Rightarrow> at_hub (f p) d | _ \<Rightarrow> d) = d_app d"
  by (simp split: event.split)

lemma before_dispatch_app: "d_app (lp_daemon (before_dispatch C V io e was_up as lp)) = d_app (lp_daemon lp)"
  by (simp add: before_dispatch_def Let_def case_prod_unfold revoked_app sync_app count_def)

lemma refresh_keeps:
  "keystore_dir (d_hub (refresh_others e d)) = keystore_dir (d_hub d)" "vault_ttl (refresh_others e d) = vault_ttl d"
  by (simp_all add: refresh_others_def)

lemma d_handle_keeps: "d_host (snd (d_handle D e d)) = d_host d" "vault_ttl (snd (d_handle D e d)) = vault_ttl d"
  by (simp_all add: d_handle_def case_prod_unfold Let_def)

lemma on_trigger:
  assumes "security_trigger e"
  shows "on_event C V io e lp =
    (let d0 = refresh_others e (lp_daemon lp); r = d_handle (denv C) e d0;
         lp1 = before_dispatch C V io e (link_is_up (d_app d0)) (fst r) (lp\<lparr>lp_daemon := snd r\<rparr>)
     in lp1\<lparr>lp_daemon := dispatch (denv C) (fst r) (lp_daemon lp1)\<rparr>)"
  using assms by (cases e) (simp_all add: on_event_def Let_def case_prod_unfold)

lemma on_trigger_rows:
  assumes "security_trigger e"
  shows "history (a_state (d_app (lp_daemon (on_event C V io e lp))))
        = history (a_state (d_app (snd (d_handle (denv C) e (refresh_others e (lp_daemon lp))))))"
    and "vault_wipe_gen (a_state (d_app (lp_daemon (on_event C V io e lp))))
        = vault_wipe_gen (a_state (d_app (snd (d_handle (denv C) e (refresh_others e (lp_daemon lp))))))"
  by (simp_all add: on_trigger [OF assms] Let_def dispatch_rows before_dispatch_app)


text \<open>An untrusted device shows up: what the old file held and what the queues held is gone.\<close>

definition demo_loop :: "unit loop" where
  "demo_loop = \<lparr>lp_daemon = demo_keyed, lp_gen = 0, lp_dir = \<lparr>vault_file = Some (replicate 25 3), vault_tmp = None\<rparr>, lp_battery = (0, False)\<rparr>"

lemma demo_untrusted:
  "history (a_state (d_app (lp_daemon (on_event demo_C demo_vault demo_vault_io (UntrustedPeerSeen []) demo_loop)))) = []"
  "vault_wipe_gen (a_state (d_app (lp_daemon (on_event demo_C demo_vault demo_vault_io (UntrustedPeerSeen []) demo_loop)))) = 1"
proof -
  have a: "d_app demo_keyed = demo_linked Allow" by (simp add: demo_keyed_def demo_daemon_def)
  have h: "handle b3 w (UntrustedPeerSeen []) x = post_transition (UntrustedPeerSeen []) [] (on_untrusted x)" for b3 w x
    by (simp add: handle_def)
  have u: "history (a_state (on_untrusted (demo_linked Allow))) = []" "vault_wipe_gen (a_state (on_untrusted (demo_linked Allow))) = 1"
    by (simp_all add: on_untrusted_def demo_linked_def settled_def set_firewall_def app_new_def drop_pending_all_def unknown_peer_def initial_def Let_def)
  show "history (a_state (d_app (lp_daemon (on_event demo_C demo_vault demo_vault_io (UntrustedPeerSeen []) demo_loop)))) = []"
    by (simp add: on_trigger_rows demo_loop_def refresh_others_def d_handle_def case_prod_unfold Let_def a h u post_transition_app settled_def gated_no_item event_item_def)
  show "vault_wipe_gen (a_state (d_app (lp_daemon (on_event demo_C demo_vault demo_vault_io (UntrustedPeerSeen []) demo_loop)))) = 1"
    by (simp add: on_trigger_rows demo_loop_def refresh_others_def d_handle_def case_prod_unfold Let_def a h u post_transition_app settled_def gated_no_item event_item_def)
qed


section \<open>The name of a device that received an item\<close>

text \<open>The list of paired devices is filled in on the published copy only, so the row never names the device.\<close>

lemma receiver_is_never_named:
  assumes "paired (a_state (d_app d)) = []"
  shows "delivered_name (a_state (d_app d)) p = lit ''another device''"
  using assms by (simp add: delivered_name_def)

end
