(* ===== verification/Identity_Store.thy ===== *)
theory Identity_Store
  imports Peer_Store Vault
begin

text \<open>
  \<open>load_or_create_identity\<close> of \<open>keystore.rs\<close>: the identity in the keychain of the platform, in the legacy file, or
  made on the first boot, and the migration from one to the other. What the platform does in a boot is an argument;
  the access list of a keychain entry on macOS is not part of the state.
\<close>

section \<open>The two stores\<close>

text \<open>The file with its temporary beside it, and the password of the keychain entry.\<close>

record id_store =
  id_dir :: dir
  keychain :: "ustr option"

datatype wipe_io = Wiped | WipeOpenFails | WipeWriteFails nat | RemoveFails

text \<open>
  One boot: the environment variable, the directory, the keychain (a write gives what it reports and what the entry is
  afterwards), the file, and the random secret that is drawn if one is needed.
\<close>

record boot_io =
  no_keychain :: bool
  dir_io :: bool
  kc_open :: bool
  kc_get :: bool
  kc_set :: "ustr \<Rightarrow> ustr option \<Rightarrow> bool \<times> ustr option"
  kc_reget :: bool
  file_read :: bool
  file_write :: write_io
  file_wipe :: wipe_io
  drawn :: bytes32

datatype id_error =
    DirError
  | FileUnreadable
  | BadLength nat
  | BadHex
  | BadSecret crypto_error
  | KeychainClosed
  | KeychainUnavailable
  | StoreError
  | ReadbackError
  | ReadbackMismatch
  | WriteError

definition of_secret :: "(bytes32 \<Rightarrow> bytes32) \<Rightarrow> bytes \<Rightarrow> id_error + identity" where
  "of_secret pk b =
     (if length b \<noteq> 32 then Inl (BadLength (length b))
      else case from_secret_bytes pk b of Inl e \<Rightarrow> Inl (BadSecret e) | Inr i \<Rightarrow> Inr i)"

definition read_legacy_identity :: "(bytes32 \<Rightarrow> bytes32) \<Rightarrow> bool \<Rightarrow> bytes \<Rightarrow> id_error + identity" where
  "read_legacy_identity pk io b = (if io then of_secret pk b else Inl FileUnreadable)"

definition decode_identity_hex :: "hex_lib \<Rightarrow> (bytes32 \<Rightarrow> bytes32) \<Rightarrow> ustr \<Rightarrow> id_error + identity" where
  "decode_identity_hex H pk s = (case hex_decode H (trim s) of None \<Rightarrow> Inl BadHex | Some b \<Rightarrow> of_secret pk b)"

definition store_identity_in_keychain :: "hex_lib \<Rightarrow> boot_io \<Rightarrow> identity \<Rightarrow> id_store \<Rightarrow> bool \<times> id_store" where
  "store_identity_in_keychain H io i st =
     (let (ok, k) = kc_set io (hex_encode H (id_secret i)) (keychain st) in (ok, st\<lparr>keychain := k\<rparr>))"

definition verify_keychain_readback :: "hex_lib \<Rightarrow> (bytes32 \<Rightarrow> bytes32) \<Rightarrow> boot_io \<Rightarrow> identity \<Rightarrow> id_store \<Rightarrow> id_error + unit" where
  "verify_keychain_readback H pk io written st =
     (case (if kc_reget io then keychain st else None) of
        None \<Rightarrow> Inl ReadbackError
      | Some s \<Rightarrow> (case decode_identity_hex H pk s of
          Inl e \<Rightarrow> Inl e
        | Inr i \<Rightarrow> (if id_secret i = id_secret written then Inr () else Inl ReadbackMismatch)))"

text \<open>32 zeros over the start of the file, then its removal; a failure is logged only.\<close>

definition secure_wipe_identity_file :: "wipe_io \<Rightarrow> id_store \<Rightarrow> id_store" where
  "secure_wipe_identity_file io st =
     (let blank = (\<lambda>n. map_option (\<lambda>b. replicate n 0 @ drop n b) (vault_file (id_dir st))) in
      case io of
        Wiped \<Rightarrow> st\<lparr>id_dir := (id_dir st)\<lparr>vault_file := None\<rparr>\<rparr>
      | WipeOpenFails \<Rightarrow> st
      | WipeWriteFails n \<Rightarrow> st\<lparr>id_dir := (id_dir st)\<lparr>vault_file := blank (min n 32)\<rparr>\<rparr>
      | RemoveFails \<Rightarrow> st\<lparr>id_dir := (id_dir st)\<lparr>vault_file := blank 32\<rparr>\<rparr>)"

section \<open>A boot\<close>

text \<open>With the file alone: Android, and the escape hatch of the environment variable.\<close>

definition file_identity :: "(bytes32 \<Rightarrow> bytes32) \<Rightarrow> boot_io \<Rightarrow> id_store \<Rightarrow> (id_error + identity) \<times> id_store" where
  "file_identity pk io st =
     (case vault_file (id_dir st) of
        Some b \<Rightarrow> (read_legacy_identity pk (file_read io) b, st)
      | None \<Rightarrow>
          (let i = identity_of pk (drawn io); (ok, d) = write_atomic (file_write io) (id_secret i) (id_dir st);
               st = st\<lparr>id_dir := d\<rparr>
           in if ok then (Inr i, st) else (Inl WriteError, st)))"

definition import_legacy :: "hex_lib \<Rightarrow> (bytes32 \<Rightarrow> bytes32) \<Rightarrow> boot_io \<Rightarrow> bytes \<Rightarrow> id_store \<Rightarrow> (id_error + identity) \<times> id_store" where
  "import_legacy H pk io b st =
     (case read_legacy_identity pk (file_read io) b of
        Inl e \<Rightarrow> (Inl e, st)
      | Inr i \<Rightarrow>
          (let (ok, st) = store_identity_in_keychain H io i st in
           if \<not> ok then (Inl StoreError, st)
           else case verify_keychain_readback H pk io i st of
             Inl e \<Rightarrow> (Inl e, st)
           | Inr _ \<Rightarrow> (Inr i, secure_wipe_identity_file (file_wipe io) st)))"

definition load_or_create_identity ::
  "hex_lib \<Rightarrow> (bytes32 \<Rightarrow> bytes32) \<Rightarrow> boot_io \<Rightarrow> id_store \<Rightarrow> (id_error + identity) \<times> id_store" where
  "load_or_create_identity H pk io st =
     (if \<not> dir_io io then (Inl DirError, st)
      else if no_keychain io then file_identity pk io st
      else if \<not> kc_open io then (Inl KeychainClosed, st)
      else if \<not> kc_get io then (Inl KeychainUnavailable, st)
      else case keychain st of
        Some s \<Rightarrow>
          (case decode_identity_hex H pk s of
             Inl e \<Rightarrow> (Inl e, st)
           | Inr i \<Rightarrow> (Inr i, if vault_file (id_dir st) \<noteq> None then secure_wipe_identity_file (file_wipe io) st else st))
      | None \<Rightarrow>
          (case vault_file (id_dir st) of
             Some b \<Rightarrow> import_legacy H pk io b st
           | None \<Rightarrow>
               (let i = identity_of pk (drawn io); (ok, st) = store_identity_in_keychain H io i st
                in if ok then (Inr i, st) else (Inl StoreError, st))))"

section \<open>The identity stays\<close>

text \<open>What the device is: the keychain entry, or else the file.\<close>

definition lives :: "hex_lib \<Rightarrow> (bytes32 \<Rightarrow> bytes32) \<Rightarrow> identity \<Rightarrow> id_store \<Rightarrow> bool" where
  "lives H pk i st \<longleftrightarrow>
     (case keychain st of
        Some s \<Rightarrow> decode_identity_hex H pk s = Inr i
      | None \<Rightarrow> (\<exists>b. vault_file (id_dir st) = Some b \<and> of_secret pk b = Inr i))"

text \<open>A keychain write takes effect or it does not, whatever it reports.\<close>

definition honest_set :: "boot_io \<Rightarrow> bool" where
  "honest_set io \<longleftrightarrow> (\<forall>s k. snd (kc_set io s k) \<in> {k, Some s})"

definition hex_plain :: "hex_lib \<Rightarrow> bool" where
  "hex_plain H \<longleftrightarrow> hex_roundtrip H \<and> (\<forall>b. trim (hex_encode H b) = hex_encode H b)"

lemma of_secret_inv: "of_secret pk b = Inr i \<Longrightarrow> length b = 32 \<and> i = identity_of pk b \<and> b \<noteq> zero32"
  by (auto simp: of_secret_def from_secret_bytes_def split: if_splits sum.splits)

lemma decode_stored:
  "hex_plain H \<Longrightarrow> of_secret pk b = Inr i \<Longrightarrow> decode_identity_hex H pk (hex_encode H (id_secret i)) = Inr i"
  using of_secret_inv [of pk b i] by (simp add: hex_plain_def hex_roundtrip_def decode_identity_hex_def identity_of_def)

lemma wipe_keychain [simp]: "keychain (secure_wipe_identity_file io st) = keychain st"
  by (simp add: secure_wipe_identity_file_def Let_def split: wipe_io.split)

lemma lives_in_keychain: "keychain st = Some s \<Longrightarrow> decode_identity_hex H pk s = Inr i \<Longrightarrow> lives H pk i st"
  by (simp add: lives_def)

lemma stored_lives:
  assumes "hex_plain H" and "of_secret pk b = Inr i" and "vault_file (id_dir st) = Some b" and "keychain st = None" and "honest_set io"
    and "store_identity_in_keychain H io i st = (ok, st')"
  shows "lives H pk i st'" and "id_dir st' = id_dir st"
proof -
  obtain k where k: "kc_set io (hex_encode H (id_secret i)) None = (ok, k)" "st' = st\<lparr>keychain := k\<rparr>"
    using assms(4,6) by (auto simp: store_identity_in_keychain_def split: prod.splits)
  then have "k \<in> {None, Some (hex_encode H (id_secret i))}"
    using assms(5) by (metis honest_set_def snd_conv)
  then show "lives H pk i st'" "id_dir st' = id_dir st"
    using assms(2,3) decode_stored [OF assms(1,2)] by (auto simp: k(2) lives_def)
qed

lemma import_keeps:
  assumes "hex_plain H" and "of_secret pk b = Inr i" and "vault_file (id_dir st) = Some b" and "keychain st = None" and "honest_set io"
  shows "lives H pk i (snd (import_legacy H pk io b st)) \<and> fst (import_legacy H pk io b st) \<in> Inr ` {i} \<union> range Inl"
proof (cases "file_read io")
  case True
  obtain ok st' where s: "store_identity_in_keychain H io i st = (ok, st')" by force
  note l = stored_lives [OF assms s]
  have wiped: "lives H pk i (secure_wipe_identity_file w st')" if v: "verify_keychain_readback H pk io i st' = Inr ()" for w
  proof -
    obtain s j where "keychain st' = Some s" "decode_identity_hex H pk s = Inr j"
      using v by (auto simp: verify_keychain_readback_def split: if_splits option.splits sum.splits)
    then show ?thesis using l(1) by (simp add: lives_def)
  qed
  then show ?thesis
    using True assms(2) s l(1) by (auto simp: import_legacy_def read_legacy_identity_def split: sum.split)
qed (use assms in \<open>auto simp: import_legacy_def read_legacy_identity_def lives_def\<close>)

lemma boot_keeps:
  assumes H: "hex_plain H" and l: "lives H pk i st" and io: "\<not> no_keychain io" "honest_set io"
  shows "lives H pk i (snd (load_or_create_identity H pk io st)) \<and> fst (load_or_create_identity H pk io st) \<in> Inr ` {i} \<union> range Inl"
proof (cases "keychain st")
  case None
  then obtain b where b: "vault_file (id_dir st) = Some b" "of_secret pk b = Inr i" using l by (auto simp: lives_def)
  then show ?thesis
    using import_keeps [OF H b(2,1) None io(2)] l None io(1) by (simp add: load_or_create_identity_def)
next
  case (Some s)
  then have "decode_identity_hex H pk s = Inr i" using l by (simp add: lives_def)
  then show ?thesis
    using l Some io(1) lives_in_keychain [of "secure_wipe_identity_file (file_wipe io) st" s H pk i]
    by (auto simp: load_or_create_identity_def)
qed

text \<open>A run of boots, with their results.\<close>

fun boots :: "hex_lib \<Rightarrow> (bytes32 \<Rightarrow> bytes32) \<Rightarrow> boot_io list \<Rightarrow> id_store \<Rightarrow> (id_error + identity) list \<times> id_store" where
  "boots H pk [] st = ([], st)"
| "boots H pk (io # ios) st =
     (let (r, st) = load_or_create_identity H pk io st; (rs, st) = boots H pk ios st in (r # rs, st))"


text \<open>A legacy file, a keychain write that is lost in the first boot, the migration in the second, a third boot.\<close>

definition demo_boot :: boot_io where
  "demo_boot = \<lparr>no_keychain = False, dir_io = True, kc_open = True, kc_get = True, kc_set = \<lambda>s k. (True, Some s), kc_reget = True,
     file_read = True, file_write = WriteOk, file_wipe = Wiped, drawn = replicate 32 5\<rparr>"

definition demo_legacy :: id_store where
  "demo_legacy = \<lparr>id_dir = \<lparr>vault_file = Some (replicate 32 7), vault_tmp = None\<rparr>, keychain = None\<rparr>"

lemma full_hex_plain: "hex_plain full_hex"
proof -
  have "\<not> is_whitespace c" if "c \<in> set (hex32 b)" for c b using hex32_chars [OF that] by (auto simp: is_whitespace_def)
  then have "trim (hex32 b) = hex32 b" for b
    using hd_in_set [of "hex32 b"] last_in_set [of "hex32 b"] by (intro trim_id) blast
  then show ?thesis by (simp add: hex_plain_def full_hex_roundtrip) (simp add: full_hex_def)
qed


section \<open>The escape hatch\<close>

text \<open>
  On a device whose identity is in the keychain, a boot with the environment variable makes another one, and the next
  boot without it destroys that.
\<close>

lemma escape_hatch_forks:
  assumes "keychain st = Some s" and "decode_identity_hex H pk s = Inr i" and "vault_file (id_dir st) = None"
    and "no_keychain io" "dir_io io" "file_write io = WriteOk"
    and "\<not> no_keychain io'" "dir_io io'" "kc_open io'" "kc_get io'" "file_wipe io' = Wiped"
  shows "fst (boots H pk [io, io'] st) = [Inr (identity_of pk (drawn io)), Inr i]
    \<and> vault_file (id_dir (snd (boots H pk [io, io'] st))) = None"
  using assms by (simp add: load_or_create_identity_def file_identity_def write_atomic_def identity_of_def
      secure_wipe_identity_file_def Let_def)

text \<open>A first boot is not checked: if the keychain forgets what it reported to have stored, the next boot draws again.\<close>

lemma first_boot_is_not_checked:
  assumes "keychain st = None" and "vault_file (id_dir st) = None" and "dir_io io" "kc_open io" "kc_get io" "\<not> no_keychain io"
    and "\<And>s k. kc_set io s k = (True, k)"
  shows "load_or_create_identity H pk io st = (Inr (identity_of pk (drawn io)), st)"
  using assms by (simp add: load_or_create_identity_def store_identity_in_keychain_def Let_def)

end
