(* ===== verification/Discovery.thy ===== *)
theory Discovery
  imports Receive Pairing
begin

text \<open>
  \<open>discovery.rs\<close>: the record a device announces, and what the browse loop makes of the records it sees. The mDNS
  library resolves a record to its name, its addresses in the order of a hash set, its port and its properties.
\<close>

section \<open>The announced record\<close>

record service_record =
  sr_type :: ustr
  sr_instance :: ustr
  sr_host :: ustr
  sr_ip :: ip_addr
  sr_port :: u16
  sr_props :: "(ustr \<times> ustr) list"

definition SERVICE_TYPE :: ustr where
  "SERVICE_TYPE = lit ''_fluxsync._udp.local.''"

definition build_service_info :: "ustr \<Rightarrow> ustr \<Rightarrow> ustr \<Rightarrow> ip_addr \<Rightarrow> u16 \<Rightarrow> ustr option \<Rightarrow> service_record" where
  "build_service_info instance_name peer_id_hex static_pub_hex bind_ip udp_port pair_pin =
     \<lparr>sr_type = SERVICE_TYPE, sr_instance = instance_name, sr_host = instance_name @ lit ''.local.'', sr_ip = bind_ip,
      sr_port = udp_port,
      sr_props = [(lit ''peer_id'', peer_id_hex), (lit ''static_pub'', static_pub_hex)]
        @ (case pair_pin of Some pin \<Rightarrow> [(lit ''pair_pin'', pin)] | None \<Rightarrow> [])\<rparr>"

section \<open>Addresses\<close>

definition is_ascii_digit :: "u8 \<Rightarrow> bool" where
  "is_ascii_digit b \<longleftrightarrow> 48 \<le> b \<and> b \<le> 57"

definition is_ascii_hexdigit :: "u8 \<Rightarrow> bool" where
  "is_ascii_hexdigit b \<longleftrightarrow> is_ascii_digit b \<or> 65 \<le> b \<and> b \<le> 70 \<or> 97 \<le> b \<and> b \<le> 102"

definition is_valid_hex_id :: "ustr \<Rightarrow> bool" where
  "is_valid_hex_id s \<longleftrightarrow> str_len s = 64 \<and> list_all is_ascii_hexdigit (as_bytes s)"

definition is_pin :: "ustr \<Rightarrow> bool" where
  "is_pin s \<longleftrightarrow> str_len s = 6 \<and> list_all is_ascii_digit (as_bytes s)"

definition is_loopback :: "ip_addr \<Rightarrow> bool" where
  "is_loopback a \<longleftrightarrow> (if length a = 4 then a ! 0 = 127 else a = replicate 15 0 @ [1])"

definition is_unspecified :: "ip_addr \<Rightarrow> bool" where
  "is_unspecified a \<longleftrightarrow> list_all (\<lambda>b. b = 0) a"

definition is_link_local :: "ip_addr \<Rightarrow> bool" where
  "is_link_local a \<longleftrightarrow> (if length a = 4 then a ! 0 = 169 \<and> a ! 1 = 254 else and (segment0 a) 0xFFC0 = 0xFE80)"

definition addr_rank :: "ip_addr \<Rightarrow> nat" where
  "addr_rank a =
     (if length a = 4
      then if a ! 0 = 192 \<and> a ! 1 = 168 then 0
           else if a ! 0 = 172 \<and> 16 \<le> a ! 1 \<and> a ! 1 \<le> 31 then 1
           else if a ! 0 = 10 then 2 else 3
      else 4)"

definition reachable :: "ip_addr \<Rightarrow> bool" where
  "reachable a \<longleftrightarrow> \<not> is_loopback a \<and> \<not> is_unspecified a \<and> \<not> is_link_local a"

definition ranked_addrs :: "u16 \<Rightarrow> ip_addr list \<Rightarrow> sock_addr list" where
  "ranked_addrs port ips = sort_key (addr_rank \<circ> fst) (map (\<lambda>a. (a, port)) (filter reachable ips))"

section \<open>The browse loop\<close>

record service_info =
  si_fullname :: ustr
  si_addrs :: "ip_addr list"
  si_port :: u16
  si_props :: "ustr \<Rightarrow> ustr option"

datatype service_event = ServiceResolved service_info | ServiceRemoved ustr ustr | OtherServiceEvent

datatype discovery_event = Resolved advert | Removed ustr

definition resolve :: "ustr \<Rightarrow> service_info \<Rightarrow> discovery_event option" where
  "resolve self_peer_id info =
     (case si_props info (lit ''peer_id'') of
        None \<Rightarrow> None
      | Some pid \<Rightarrow>
          (if pid = self_peer_id \<or> \<not> is_valid_hex_id pid then None
           else case si_props info (lit ''static_pub'') of
             None \<Rightarrow> None
           | Some pub \<Rightarrow>
               (let addrs = ranked_addrs (si_port info) (si_addrs info) in
                if \<not> is_valid_hex_id pub \<or> addrs = [] then None
                else Some (Resolved \<lparr>av_id_hex = pid, av_pub_hex = pub, av_name = hd (split_on (of_char (CHR ''.'')) (si_fullname info)),
                             av_addrs = addrs,
                             av_pin = (case si_props info (lit ''pair_pin'') of
                                         Some p \<Rightarrow> (if is_pin p then Some p else None) | None \<Rightarrow> None)\<rparr>))))"

fun browse :: "ustr \<Rightarrow> service_event \<Rightarrow> discovery_event option" where
  "browse self_peer_id (ServiceResolved info) = resolve self_peer_id info"
| "browse self_peer_id (ServiceRemoved t fullname) = Some (Removed fullname)"
| "browse self_peer_id OtherServiceEvent = None"

text \<open>The channel to the driver is bounded: the flag says whether it had room, and without room the event is lost.\<close>

definition browse_loop :: "ustr \<Rightarrow> (service_event \<times> bool) list \<Rightarrow> discovery_event list" where
  "browse_loop self_peer_id es = List.map_filter (\<lambda>(e, room). if room then browse self_peer_id e else None) es"

text \<open>
  \<open>supervise\<close>: a round is one attempt and the wait after it; the flags say whether the shutdown had come before the
  round, and whether it came in the wait. The result counts the attempts.
\<close>

fun supervise :: "(bool \<times> bool) list \<Rightarrow> nat" where
  "supervise [] = 0"
| "supervise ((before, meanwhile) # rounds) = (if before then 0 else Suc (if meanwhile then 0 else supervise rounds))"

section \<open>What an announcement leads to\<close>

definition on_discovery :: "'t env \<Rightarrow> bytes32 \<Rightarrow> discovery_event \<Rightarrow> 't daemon \<Rightarrow> 't daemon" where
  "on_discovery E own ev d = (case ev of Resolved av \<Rightarrow> on_resolved E own av d | Removed n \<Rightarrow> at_hub on_removed d)"

lemma hex32_hexdigits: "list_all is_ascii_hexdigit (as_bytes (hex32 bs))"
proof (induction bs)
  case (Cons b bs)
  have d: "is_ascii_hexdigit (of_nat (from_digit16 n))" if n: "n < 16" for n
  proof -
    have "from_digit16 n < 2 ^ LENGTH(8)" using from_digit16_range [OF n] by simp
    then show ?thesis
      using from_digit16_ascii [OF n] unat_digit_byte [OF n] by (auto simp: is_ascii_hexdigit_def is_ascii_digit_def word_le_nat_alt)
  qed
  show ?case using Cons d [OF unat_byte_split(1)] d [OF unat_byte_split(2)] by (simp add: as_bytes_hex32_Cons)
qed (simp add: as_bytes_def)

lemma valid_hex_name: "length bs = 32 \<Longrightarrow> is_valid_hex_id (hex32 bs)"
  by (simp add: is_valid_hex_id_def str_len_hex32 hex32_hexdigits)

lemma set_ranked: "set (ranked_addrs port ips) = {(a, port) |a. a \<in> set ips \<and> reachable a}"
  by (auto simp: ranked_addrs_def)

lemma sorted_ranked: "sorted (map (addr_rank \<circ> fst) (ranked_addrs port ips))"
  unfolding ranked_addrs_def by (rule sorted_sort_key)

text \<open>Its own announcement a device ignores.\<close>

lemma own_announcement: "si_props info (lit ''peer_id'') = Some me \<Longrightarrow> browse me (ServiceResolved info) = None"
  by (simp add: resolve_def)

text \<open>The name in a report ends at the first dot of the announced name.\<close>

lemma resolved_back:
  assumes "r = build_service_info inst (hex32 i) (hex32 pub) ip port pin" and "length i = 32" "length pub = 32" and "hex32 i \<noteq> me"
    and "\<forall>p. pin = Some p \<longrightarrow> is_pin p"
    and "si_props info = map_of (sr_props r)" "si_port info = sr_port r" "si_fullname info = sr_instance r @ of_char (CHR ''.'') # sr_type r"
    and "of_char (CHR ''.'') \<notin> set inst" and "\<exists>a\<in>set (si_addrs info). reachable a"
  shows "browse me (ServiceResolved info) =
    Some (Resolved \<lparr>av_id_hex = hex32 i, av_pub_hex = hex32 pub, av_name = inst, av_addrs = ranked_addrs port (si_addrs info), av_pin = pin\<rparr>)"
proof -
  have n: "lit ''static_pub'' \<noteq> lit ''peer_id''" "lit ''pair_pin'' \<noteq> lit ''peer_id''" "lit ''pair_pin'' \<noteq> lit ''static_pub''"
    by (simp_all add: lit_def)
  have "ranked_addrs port (si_addrs info) \<noteq> []" using assms(10) set_ranked [of port "si_addrs info"] by force
  then show ?thesis
    using assms n by (auto simp: resolve_def build_service_info_def valid_hex_name split_on_append Let_def split: option.split)
qed

text \<open>
  C13: What a device announces brings its peers back to it. A peer that trusts its key, has sync on, holds no session
  with it, dials nobody and has the smaller key starts, when the library resolves the announcement, a silent
  reconnection to that device, over every announced address that can be reached, the ones of the local network first.
\<close>

theorem announcements_reconnect:
  assumes r: "r = build_service_info inst (hex32 i) (hex32 pub) ip port pin"
    and i: "i = peer_id_for (blake3 E) pub" "length i = 32" "length pub = 32" "hex32 i \<noteq> me" and pin: "\<forall>p. pin = Some p \<longrightarrow> is_pin p"
    and lib: "si_props info = map_of (sr_props r)" "si_port info = sr_port r" "si_fullname info = sr_instance r @ of_char (CHR ''.'') # sr_type r"
    and dot: "of_char (CHR ''.'') \<notin> set inst" and a: "\<exists>a\<in>set (si_addrs info). reachable a"
    and hx: "\<forall>b. length b = 32 \<longrightarrow> decode_hex32 (hexs E) (hex32 b) = Some b"
    and t: "map_of (trusted (d_hub d)) i = Some t" "tp_static_pub t = pub" and on: "sync_on (d_hub d)"
    and free: "\<not> has_session_for i (net (d_hub d))" "own < pub" "d_dialing d = None"
  shows "\<exists>ev j. browse me (ServiceResolved info) = Some ev \<and> d_dialing (on_discovery E own ev d) = Some j
    \<and> dj_peer j = i \<and> dj_pub j = pub \<and> \<not> dj_gate j
    \<and> set (dj_addrs j) = {(a, port) |a. a \<in> set (si_addrs info) \<and> reachable a} \<and> sorted (map (addr_rank \<circ> fst) (dj_addrs j))"
proof -
  let ?av = "\<lparr>av_id_hex = hex32 i, av_pub_hex = hex32 pub, av_name = inst, av_addrs = ranked_addrs port (si_addrs info), av_pin = pin\<rparr>"
  have b: "browse me (ServiceResolved info) = Some (Resolved ?av)"
    by (rule resolved_back [OF r i(2-4) pin lib dot a])
  obtain best rest where l: "ranked_addrs port (si_addrs info) = best # rest"
    using a set_ranked [of port "si_addrs info"] by (cases "ranked_addrs port (si_addrs info)") force+
  have same: "trusted (feed_cache E i pub best ?av (d_hub d)) = trusted (d_hub d)" "net (feed_cache E i pub best ?av (d_hub d)) = net (d_hub d)"
    "sync_on (feed_cache E i pub best ?av (d_hub d)) = sync_on (d_hub d)"
    by (simp_all add: feed_cache_def sync_on_def Let_def)
  have o: "\<not> pub \<le> own" using free(2) by simp
  have "d_dialing (on_discovery E own (Resolved ?av) d) =
      Some \<lparr>dj_pub = pub, dj_addrs = ranked_addrs port (si_addrs info), dj_peer = i, dj_name = inst, dj_gate = False\<rparr>"
    using hx i l t on free same o by (simp add: on_discovery_def on_resolved_def start_initiator_def Let_def)
  then show ?thesis using b set_ranked [of port] sorted_ranked [of port] by auto
qed

text \<open>A trusted phone announces a cellular and a wireless address.\<close>

definition demo_home :: "unit daemon" where
  "demo_home = demo_daemon\<lparr>d_host := (d_host demo_daemon)\<lparr>hub := demo_shared\<lparr>trusted := demo_trust,
     snapshot := (snapshot demo_shared)\<lparr>on := True\<rparr>\<rparr>\<rparr>\<rparr>"

definition demo_seen :: service_info where
  "demo_seen = \<lparr>si_fullname = lit ''phone._fluxsync._udp.local.'', si_addrs = [[10, 0, 0, 3], [192, 168, 1, 7]], si_port = 41889,
     si_props = map_of (sr_props (build_service_info (lit ''phone'') (hex32 (replicate 32 9)) (hex32 (replicate 32 9)) [192, 168, 1, 7] 41889 None))\<rparr>"

theorem announcements_reconnect_witness:
  "\<exists>ev j. browse [] (ServiceResolved demo_seen) = Some ev
    \<and> d_dialing (on_discovery (demo_env\<lparr>blake3 := \<lambda>b. b, hexs := full_hex\<rparr>) (replicate 32 8) ev demo_home) = Some j
    \<and> set (dj_addrs j) = {([192, 168, 1, 7], 41889), ([10, 0, 0, 3], 41889)}"
proof -
  let ?r = "build_service_info (lit ''phone'') (hex32 (replicate 32 9)) (hex32 (replicate 32 9)) [192, 168, 1, 7] 41889 None"
  let ?E = "demo_env\<lparr>blake3 := \<lambda>b. b, hexs := full_hex\<rparr>"
  have hx: "\<forall>b. length b = 32 \<longrightarrow> decode_hex32 (hexs ?E) (hex32 b) = Some b"
    by (simp add: decode_hex32_def full_hex_def decode_pairs_hex32)
  have w: "reachable [10, 0, 0, 3]" "reachable [192, 168, 1, 7]"
    by (simp_all add: reachable_def is_loopback_def is_unspecified_def is_link_local_def)
  have lib: "si_props demo_seen = map_of (sr_props ?r)" "si_port demo_seen = sr_port ?r"
    "si_fullname demo_seen = sr_instance ?r @ of_char (CHR ''.'') # sr_type ?r"
    by (simp_all add: demo_seen_def build_service_info_def lit_def SERVICE_TYPE_def)
  have short: "replicate 32 (9 :: u8) \<noteq> [1]" "replicate 32 (9 :: u8) \<noteq> [2]"
    using length_replicate [of 32 "9 :: u8"] by fastforce+
  have d: "map_of (trusted (d_hub demo_home)) (replicate 32 9) = Some \<lparr>tp_static_pub = replicate 32 9, tp_name = lit ''phone''\<rparr>"
    "sync_on (d_hub demo_home)" "\<not> has_session_for (replicate 32 9) (net (d_hub demo_home))" "d_dialing demo_home = None"
    by (simp_all add: demo_home_def demo_trust_def sync_on_def demo_daemon_def demo_shared_def shared_new_def link_eval has_session_for_def read_for_def conn_for_def
        short short [symmetric])
  have nonempty: "hex32 (replicate 32 9) \<noteq> []" using length_hex32 [of "replicate 32 9"] by auto
  have o: "replicate 32 8 < (replicate 32 9 :: bytes32)"
    using replicate_Suc [of 31 "8 :: u8"] replicate_Suc [of 31 "9 :: u8"] by simp
  have "\<exists>ev j. browse [] (ServiceResolved demo_seen) = Some ev \<and> d_dialing (on_discovery ?E (replicate 32 8) ev demo_home) = Some j
    \<and> dj_peer j = replicate 32 9 \<and> dj_pub j = replicate 32 9 \<and> \<not> dj_gate j
    \<and> set (dj_addrs j) = {(a, 41889) |a. a \<in> set (si_addrs demo_seen) \<and> reachable a} \<and> sorted (map (addr_rank \<circ> fst) (dj_addrs j))"
    by (rule announcements_reconnect [OF refl _ _ _ _ _ lib _ _ hx d(1) _ d(2,3) o d(4)])
      (use w nonempty in \<open>simp_all add: peer_id_for_def ring_hash_def lit_def demo_seen_def\<close>)
  moreover have "{(a, 41889 :: u16) |a. a \<in> set (si_addrs demo_seen) \<and> reachable a} = {([192, 168, 1, 7], 41889), ([10, 0, 0, 3], 41889)}"
    using w by (auto simp: demo_seen_def)
  ultimately show ?thesis by auto
qed

end
