(* ===== verification/Ipc_Server.thy ===== *)
theory Ipc_Server
  imports Event_Loop
begin

text \<open>
  \<open>driver/ipc_server.rs\<close>: the reader of capped lines, and a client of the command channel. The socket is the list of
  the blocks the buffered reader gets from it, none empty, and how it ends. The JSON of requests and replies is a
  parameter; the driver behind the channel is the main loop.
\<close>

section \<open>Lines\<close>

definition MAX_IPC_LINE :: nat where "MAX_IPC_LINE = 64 * 1024 * 1024"

datatype io_error = LineTooLong | BrokenPipe

definition newline :: u8 where "newline = 10"

text \<open>\<open>consume\<close>, within the block the buffer holds.\<close>

definition consume :: "nat \<Rightarrow> bytes \<Rightarrow> bytes list \<Rightarrow> bytes list" where
  "consume n c cs = (if n < length c then drop n c # cs else cs)"

text \<open>The bytes of the line, or the error, with what is left of the socket; \<open>torn\<close> says how the socket ends.\<close>

fun read_raw_line :: "nat \<Rightarrow> bool \<Rightarrow> bytes \<Rightarrow> bytes list \<Rightarrow> (io_error + bytes) \<times> bytes list" where
  "read_raw_line cap torn acc [] = (if torn then Inl BrokenPipe else Inr acc, [])"
| "read_raw_line cap torn acc (c # cs) =
     (let (n, done) = (case position (\<lambda>b. b = newline) c of Some i \<Rightarrow> (i + 1, True) | None \<Rightarrow> (length c, False)) in
      if cap < length acc + n then (Inl LineTooLong, consume n c cs)
      else if done then (Inr (acc @ take n c), consume n c cs)
      else read_raw_line cap torn (acc @ c) cs)"

text \<open>What the reader is meant to do, on the stream of bytes.\<close>

definition first_line :: "bytes \<Rightarrow> bytes" where
  "first_line bs = (if newline \<in> set bs then takeWhile (\<lambda>b. b \<noteq> newline) bs @ [newline] else bs)"

definition whole_line :: "nat \<Rightarrow> bool \<Rightarrow> bytes \<Rightarrow> bytes \<Rightarrow> io_error + bytes" where
  "whole_line cap torn acc bs =
     (if cap < length acc + length (first_line bs) then Inl LineTooLong
      else if newline \<notin> set bs \<and> torn then Inl BrokenPipe else Inr (acc @ first_line bs))"

lemma first_line_split: "first_line bs @ drop (length (first_line bs)) bs = bs"
proof (cases "newline \<in> set bs")
  case True
  then obtain a b where "bs = a @ newline # b" "newline \<notin> set a" by (meson split_list_first)
  then show ?thesis by (simp add: first_line_def takeWhile_append)
qed (simp add: first_line_def)

lemma first_line_hit:
  "position (\<lambda>b. b = newline) c = Some i \<Longrightarrow> first_line (c @ bs) = take (i + 1) c \<and> i < length c"
proof -
  assume p: "position (\<lambda>b. b = newline) c = Some i"
  then have i: "i < length c" "c ! i = newline" "\<forall>j<i. c ! j \<noteq> newline" using position_SomeD [OF p] by auto
  define a b where ab: "a = take i c" "b = drop (Suc i) c"
  have c: "c = a @ newline # b" using id_take_nth_drop [OF i(1)] i(2) ab by simp
  have n: "newline \<notin> set a" using i by (auto simp: ab in_set_conv_nth)
  then have "takeWhile (\<lambda>x. x \<noteq> newline) (c @ bs) = a" by (simp add: c takeWhile_append)
  moreover have "take (i + 1) c = a @ [newline]" using i by (simp add: take_Suc_conv_app_nth ab)
  ultimately show ?thesis using i(1) by (simp add: first_line_def c)
qed

lemma first_line_miss: "newline \<notin> set c \<Longrightarrow> first_line (c @ bs) = c @ first_line bs"
  by (simp add: first_line_def takeWhile_append)

lemma consume_concat: "n \<le> length c \<Longrightarrow> concat (consume n c cs) = drop n (c @ concat cs)"
  by (simp add: consume_def)

lemma consume_nonempty: "[] \<notin> set cs \<Longrightarrow> [] \<notin> set (consume n c cs)"
  by (simp add: consume_def)

lemma read_raw_line_whole:
  "[] \<notin> set cs \<Longrightarrow> length acc \<le> cap \<Longrightarrow> read_raw_line cap torn acc cs = (r, rest) \<Longrightarrow> r = whole_line cap torn acc (concat cs)
     \<and> [] \<notin> set rest
     \<and> (\<forall>l. r = Inr l \<longrightarrow> concat rest = drop (length (first_line (concat cs))) (concat cs))"
proof (induction cap torn acc cs rule: read_raw_line.induct)
  case (1 cap torn acc)
  then show ?case by (auto simp: whole_line_def first_line_def)
next
  case (2 cap torn acc c cs)
  show ?case
  proof (cases "position (\<lambda>b. b = newline) c")
    case (Some i)
    note h = first_line_hit [OF Some, of "concat cs"]
    have "newline \<in> set c" using position_SomeD [OF Some] by (metis nth_mem)
    then show ?thesis
      using 2 Some h consume_concat [of "i + 1" c cs] consume_nonempty [of cs "i + 1" c]
      by (auto simp: whole_line_def split: if_splits)
  next
    case None
    then have n: "newline \<notin> set c" by (auto simp: position_None_iff)
    show ?thesis
    proof (cases "cap < length acc + length c")
      case True
      then show ?thesis
        using 2 None first_line_miss [OF n, of "concat cs"] consume_nonempty [of cs "length c" c] by (auto simp: whole_line_def)
    next
      case False
      have "read_raw_line cap torn (acc @ c) cs = (r, rest)" using 2 None False by simp
      then show ?thesis
        using "2.IH" [OF refl] 2 None False first_line_miss [OF n, of "concat cs"] n
        by (auto simp: whole_line_def)
    qed
  qed
qed


text \<open>A line within the cap is never refused, and what is buffered for one never exceeds it.\<close>

lemma read_within_cap: "[] \<notin> set cs \<Longrightarrow> read_raw_line cap torn [] cs = (Inr l, rest) \<Longrightarrow> length l \<le> cap"
  using read_raw_line_whole [of cs "[]" cap torn] by (fastforce simp: whole_line_def split: if_splits)

lemma read_shrinks:
  "read_raw_line cap torn acc cs = (Inr l, rest) \<Longrightarrow> length l + length (concat rest) = length acc + length (concat cs)"
proof (induction cap torn acc cs rule: read_raw_line.induct)
  case (2 cap torn acc c cs)
  show ?case
  proof (cases "position (\<lambda>b. b = newline) c")
    case (Some i)
    then have "i + 1 \<le> length c" using position_SomeD [OF Some] by simp
    then show ?thesis using 2 Some consume_concat [of "i + 1" c cs] by (auto split: if_splits)
  next
    case None
    then show ?thesis using 2 by (auto split: if_splits)
  qed
qed (auto split: if_splits)

lemma read_moves_on:
  "(Inr l, rest) = read_raw_line cap torn [] cs \<Longrightarrow> l \<noteq> [] \<Longrightarrow> length (concat rest) < length (concat cs)"
  using read_shrinks [of cap torn "[]" cs l rest] by (cases l) simp_all

lemma line_advances: "whole_line cap torn [] bs = Inr l \<Longrightarrow> l \<noteq> [] \<Longrightarrow> length bs - length l < length bs"
  by (cases bs) (auto simp: whole_line_def first_line_def split: if_splits)

section \<open>A client\<close>

datatype channel = CmdChannel | StateChannel | LogsChannel

record codec =
  parse_subscribe :: "ustr \<Rightarrow> ustr + channel"
  parse_request :: "ustr \<Rightarrow> ustr + u64 \<times> cmd_op"

datatype ipc_line = Response u64 reply | BadJson ustr | StateLine state | LogLine log_entry

text \<open>How the connection ended.\<close>

datatype ipc_end = Closed | ReadError io_error | NotSubscribe ustr

text \<open>
  The command channel: one request after another. The function \<open>meanwhile\<close> is what the main loop does for others
  before the request with that number.
\<close>

function serve_cmds ::
  "('h, 't) cmd_env \<Rightarrow> codec \<Rightarrow> (nat \<Rightarrow> 't loop \<Rightarrow> 't loop) \<Rightarrow> nat \<Rightarrow> bool \<Rightarrow> nat \<Rightarrow> bytes list \<Rightarrow> 't loop \<Rightarrow> ipc_line list \<times> ipc_end \<times> 't loop" where
  "serve_cmds C J meanwhile cap torn n cs lp =
     (case read_raw_line cap torn [] cs of
        (Inl e, _) \<Rightarrow> ([], ReadError e, lp)
      | (Inr l, rest) \<Rightarrow>
          (if l = [] then ([], Closed, lp)
           else case parse_request J (trim (from_utf8_lossy l)) of
             Inl e \<Rightarrow> (let (out, fin) = serve_cmds C J meanwhile cap torn n rest lp in (BadJson e # out, fin))
           | Inr (i, op) \<Rightarrow>
               (let (r, lp) = on_cmd C (Run op) (meanwhile n lp);
                    (out, fin) = serve_cmds C J meanwhile cap torn (n + 1) rest lp
                in (Response i (the r) # out, fin))))"
  by pat_completeness auto
termination
  by (relation "measure (\<lambda>(C, J, meanwhile, cap, torn, n, cs, lp). length (concat cs))") (auto intro: read_moves_on)

declare serve_cmds.simps [simp del]

definition handle_ipc_client ::
  "('h, 't) cmd_env \<Rightarrow> codec \<Rightarrow> (nat \<Rightarrow> 't loop \<Rightarrow> 't loop) \<Rightarrow> state list \<Rightarrow> log_entry option list \<Rightarrow> nat \<Rightarrow> bool \<Rightarrow> bytes list \<Rightarrow> 't loop
     \<Rightarrow> ipc_line list \<times> ipc_end \<times> 't loop" where
  "handle_ipc_client C J meanwhile states logs cap torn cs lp =
     (case read_raw_line cap torn [] cs of
        (Inl e, _) \<Rightarrow> ([], ReadError e, lp)
      | (Inr l, rest) \<Rightarrow>
          (case parse_subscribe J (trim (from_utf8_lossy l)) of
             Inl e \<Rightarrow> ([], NotSubscribe e, lp)
           | Inr CmdChannel \<Rightarrow> serve_cmds C J meanwhile cap torn 0 rest lp
           | Inr StateChannel \<Rightarrow> (map StateLine states, Closed, lp)
           | Inr LogsChannel \<Rightarrow>
               (map (\<lambda>e. LogLine (case e of Some e \<Rightarrow> e | None \<Rightarrow> log_warn (lit ''(some log lines were dropped)''))) logs, Closed, lp)))"

section \<open>The blocks do not matter\<close>

text \<open>The same conversation on the bytes alone.\<close>

function talk ::
  "('h, 't) cmd_env \<Rightarrow> codec \<Rightarrow> (nat \<Rightarrow> 't loop \<Rightarrow> 't loop) \<Rightarrow> nat \<Rightarrow> bool \<Rightarrow> nat \<Rightarrow> bytes \<Rightarrow> 't loop \<Rightarrow> ipc_line list \<times> ipc_end \<times> 't loop" where
  "talk C J meanwhile cap torn n bs lp =
     (case whole_line cap torn [] bs of
        Inl e \<Rightarrow> ([], ReadError e, lp)
      | Inr l \<Rightarrow>
          (if l = [] then ([], Closed, lp)
           else case parse_request J (trim (from_utf8_lossy l)) of
             Inl e \<Rightarrow> (let (out, fin) = talk C J meanwhile cap torn n (drop (length l) bs) lp in (BadJson e # out, fin))
           | Inr (i, op) \<Rightarrow>
               (let (r, lp) = on_cmd C (Run op) (meanwhile n lp);
                    (out, fin) = talk C J meanwhile cap torn (n + 1) (drop (length l) bs) lp
                in (Response i (the r) # out, fin))))"
  by pat_completeness auto
termination
  by (relation "measure (\<lambda>(C, J, meanwhile, cap, torn, n, bs, lp). length bs)") (auto intro: line_advances)

declare talk.simps [simp del]

text \<open>
  C12: The conversation on the command channel is that of the byte stream: however the socket cuts it into blocks, a
  client gets the same replies, in the order of its requests, the commands have the same effects, and the connection
  ends in the same way. A line is refused just when it is longer than the cap.
\<close>

theorem blocks_do_not_matter:
  assumes "[] \<notin> set cs"
  shows "serve_cmds C J meanwhile cap torn n cs lp = talk C J meanwhile cap torn n (concat cs) lp"
  using assms
proof (induction C J meanwhile cap torn n cs lp rule: serve_cmds.induct)
  case (1 C J meanwhile cap torn n cs lp)
  obtain r rest where r: "read_raw_line cap torn [] cs = (r, rest)" by force
  note w = read_raw_line_whole [OF "1.prems" _ r, simplified]
  have v: "whole_line cap torn [] (concat cs) = r" using w by simp
  note step = serve_cmds.simps [of C J meanwhile cap torn n cs lp, unfolded r] talk.simps [of C J meanwhile cap torn n "concat cs" lp, unfolded v]
  show ?case
  proof (cases r)
    case (Inl e)
    then show ?thesis by (simp add: step)
  next
    case (Inr l)
    have l: "l = first_line (concat cs)" using v Inr by (auto simp: whole_line_def split: if_splits)
    have rest: "concat rest = drop (length l) (concat cs)" "[] \<notin> set rest" using w Inr l by simp_all
    show ?thesis
    proof (cases "l = []")
      case True
      then show ?thesis by (simp add: step Inr)
    next
      case False
      show ?thesis
      proof (cases "parse_request J (trim (from_utf8_lossy l))")
        case bad: (Inl e)
        show ?thesis
          using "1.IH"(1) [OF r [symmetric] Inr False bad rest(2)] False bad
          by (simp add: step Inr rest(1))
      next
        case good: (Inr q)
        obtain i op where q: "q = (i, op)" by force
        obtain a lp' where a: "on_cmd C (Run op) (meanwhile n lp) = (a, lp')" by force
        show ?thesis
          using "1.IH"(2) [OF r [symmetric] Inr False good q [symmetric] refl a [symmetric] rest(2)] False good q a
          by (simp add: step Inr rest(1))
      qed
    qed
  qed
qed

definition demo_codec :: codec where
  "demo_codec = \<lparr>parse_subscribe = \<lambda>_. Inr CmdChannel, parse_request = \<lambda>s. if s = [65, 66] then Inr (4, Pull) else Inl s\<rparr>"

theorem blocks_do_not_matter_witness:
  "serve_cmds demo_C demo_codec (\<lambda>_ lp. lp) MAX_IPC_LINE False 0 [[65], [66, 10, 67], [10]] demo_loop
   = serve_cmds demo_C demo_codec (\<lambda>_ lp. lp) MAX_IPC_LINE False 0 [[65, 66], [10, 67, 10]] demo_loop"
  using blocks_do_not_matter [of "[[65], [66, 10, 67], [10]]" demo_C demo_codec "\<lambda>_ lp. lp" MAX_IPC_LINE False 0 demo_loop]
    blocks_do_not_matter [of "[[65, 66], [10, 67, 10]]" demo_C demo_codec "\<lambda>_ lp. lp" MAX_IPC_LINE False 0 demo_loop]
  by simp

end
