(* ===== verification/Battery.thy ===== *)
theory Battery
  imports Classify Pairing
begin

text \<open>
  \<open>battery.rs\<close>: what the platforms report about the battery, and the watcher that turns readings into events.
  The text of \<open>pmset\<close>, the files of \<open>/sys/class/power_supply\<close> and the status of Windows are arguments.
\<close>

section \<open>macOS\<close>

definition contains :: "ustr \<Rightarrow> ustr \<Rightarrow> bool" where
  "contains w s \<longleftrightarrow> list_ex (\<lambda>n. take (length w) (drop n s) = w) [0..<Suc (length s)]"

text \<open>\<open>str::lines\<close>: a carriage return before the line feed goes with it, and no line follows a last line feed.\<close>

definition str_lines :: "ustr \<Rightarrow> ustr list" where
  "str_lines s =
     (let ls = split_on 10 s
      in map (\<lambda>l. if l \<noteq> [] \<and> last l = 13 then butlast l else l) (butlast ls) @ (if last ls = [] then [] else [last ls]))"

definition parse_digits :: "nat \<Rightarrow> ustr \<Rightarrow> nat option" where
  "parse_digits limit s =
     (let v = digits_value s in if s = [] \<or> \<not> list_all is_digit s \<or> limit < v then None else Some v)"

text \<open>
  The digits before the first percent sign of the line. The slice starts one byte after the last character that is no
  digit, so a character of several bytes there is a panic (\<open>None\<close>).
\<close>

definition percent_digits :: "ustr \<Rightarrow> ustr option" where
  "percent_digits before =
     (let ds = rev (takeWhile is_digit (rev before)); front = take (length before - length ds) before
      in if front \<noteq> [] \<and> 128 \<le> last front then None else Some ds)"

definition pmset_line :: "ustr \<Rightarrow> u8 option \<Rightarrow> u8 option option" where
  "pmset_line line lv =
     (if contains (lit ''InternalBattery'') line \<and> of_char (CHR ''%'') \<in> set line
      then map_option (\<lambda>ds. case parse_digits 255 ds of Some v \<Rightarrow> Some (of_nat (min v 100)) | None \<Rightarrow> lv)
             (percent_digits (takeWhile (\<lambda>c. c \<noteq> of_char (CHR ''%'')) line))
      else Some lv)"

fun pmset_level :: "ustr list \<Rightarrow> u8 option \<Rightarrow> u8 option option" where
  "pmset_level [] lv = Some lv"
| "pmset_level (line # ls) lv = (case pmset_line line lv of None \<Rightarrow> None | Some lv \<Rightarrow> pmset_level ls lv)"

definition parse_pmset :: "ustr \<Rightarrow> (u8 \<times> bool) option option" where
  "parse_pmset stdout =
     map_option (map_option (\<lambda>l. (l, contains (39 # lit ''AC Power'' @ [39]) stdout))) (pmset_level (str_lines stdout) None)"

section \<open>Linux and Windows\<close>

record power_supply =
  entry_name :: ustr
  capacity :: "ustr option"
  supply_status :: "ustr option"

definition parse_u32 :: "ustr \<Rightarrow> nat option" where
  "parse_u32 s = parse_digits (2 ^ 32 - 1) (case s of c # t \<Rightarrow> (if c = 43 then t else s) | [] \<Rightarrow> [])"

fun read_linux :: "power_supply list \<Rightarrow> (u8 \<times> bool) option" where
  "read_linux [] = None"
| "read_linux (e # es) =
     (if take 3 (entry_name e) \<noteq> lit ''BAT'' then read_linux es
      else case capacity e of
        None \<Rightarrow> None
      | Some s \<Rightarrow> (case parse_u32 (trim s) of
          None \<Rightarrow> None
        | Some v \<Rightarrow>
            (let st = trim (case supply_status e of Some t \<Rightarrow> t | None \<Rightarrow> [])
             in Some (of_nat (min v 100), st \<notin> {lit ''Discharging'', lit ''Unknown'', []}))))"

record power_status =
  battery_flag :: u8
  battery_percent :: u8
  ac_line :: u8

definition read_windows :: "power_status option \<Rightarrow> (u8 \<times> bool) option" where
  "read_windows st =
     (case st of
        None \<Rightarrow> None
      | Some p \<Rightarrow> (if and (battery_flag p) 128 \<noteq> 0 \<or> battery_percent p = 255 then None
                   else Some (min (battery_percent p) 100, ac_line p = 1)))"

section \<open>The watcher\<close>

text \<open>A poll is the reading and whether the channel had room; the reading is remembered in both cases.\<close>

fun battery_watch :: "((u8 \<times> bool) option \<times> bool) list \<Rightarrow> (u8 \<times> bool) option \<Rightarrow> event list" where
  "battery_watch [] known = []"
| "battery_watch ((None, room) # polls) known = battery_watch polls known"
| "battery_watch ((Some r, room) # polls) known =
     (if known \<noteq> Some r
      then (if room then [BatteryChangedSelf (fst r) (snd r)] else []) @ battery_watch polls (Some r)
      else battery_watch polls known)"

lemma capped: "of_nat (min v 100) \<le> (100 :: u8)"
proof -
  have "unat (of_nat (min v 100) :: u8) = min v 100" by (rule unat_of_nat8) simp
  then show ?thesis by (simp add: word_le_nat_alt)
qed

lemma pmset_capped:
  "pmset_level ls l = Some (Some r) \<Longrightarrow> (\<forall>x. l = Some x \<longrightarrow> x \<le> 100) \<Longrightarrow> r \<le> 100"
proof (induction ls arbitrary: l)
  case (Cons line ls)
  then obtain l' where l': "pmset_line line l = Some l'" "pmset_level ls l' = Some (Some r)" by (auto split: option.splits)
  have "\<forall>x. l' = Some x \<longrightarrow> x \<le> 100"
    using l'(1) Cons.prems(2) capped by (auto simp: pmset_line_def simp del: of_nat_min split: if_splits option.splits)
  then show ?case using Cons.IH l'(2) by blast
qed simp

text \<open>No platform yields the level 255, which the core reserves for an unknown battery, nor any other above 100.\<close>

lemma readings_are_percentages:
  "parse_pmset s = Some (Some r) \<Longrightarrow> fst r \<le> 100"
  "read_linux es = Some r \<Longrightarrow> fst r \<le> 100"
  "read_windows p = Some r \<Longrightarrow> fst r \<le> 100"
proof -
  show "parse_pmset s = Some (Some r) \<Longrightarrow> fst r \<le> 100"
    using pmset_capped [of "str_lines s" None] by (auto simp: parse_pmset_def)
  show "read_linux es = Some r \<Longrightarrow> fst r \<le> 100"
    by (induction es) (auto simp: capped Let_def simp del: of_nat_min split: if_splits option.splits)
  show "read_windows p = Some r \<Longrightarrow> fst r \<le> 100"
    by (auto simp: read_windows_def min_def split: option.splits if_splits)
qed

text \<open>A reading that meets a full channel is not sent again: the watcher has remembered it.\<close>

lemma full_channel_loses_the_reading: "battery_watch ((Some r, False) # replicate n (Some r, True)) known = []"
proof -
  have "battery_watch (replicate n (Some r, True)) (Some r) = []" by (induction n) simp_all
  then show ?thesis by (induction n) (auto)
qed

text \<open>With room, the last event is the last reading.\<close>

definition last_reading :: "((u8 \<times> bool) option \<times> bool) list \<Rightarrow> (u8 \<times> bool) option \<Rightarrow> (u8 \<times> bool) option" where
  "last_reading polls known = fold (\<lambda>(r, room) l. case r of Some r \<Rightarrow> Some r | None \<Rightarrow> l) polls known"

definition shown :: "event list \<Rightarrow> (u8 \<times> bool) option \<Rightarrow> (u8 \<times> bool) option" where
  "shown es known = fold (\<lambda>e l. case e of BatteryChangedSelf x c \<Rightarrow> Some (x, c) | _ \<Rightarrow> l) es known"

lemma watcher_is_current: "\<forall>(r, room)\<in>set polls. room \<Longrightarrow> shown (battery_watch polls known) known = last_reading polls known"
proof (induction polls known rule: battery_watch.induct)
  case (3 r room polls known)
  then show ?case by (auto simp: shown_def last_reading_def)
qed (simp_all add: shown_def last_reading_def)

end
