(* ===== verification/Cli.thy ===== *)
theory Cli
  imports Commands
begin

text \<open>
  \<open>fluxctl/src/main.rs\<close>: the subcommands, the requests they send and the exit code. Parsing the arguments and printing
  the answers are not modelled; \<open>doctor\<close> is in a theory of its own. The server at the other end is a parameter.
\<close>

section \<open>Subcommands\<close>

datatype fw_field = FwText | FwUrl | FwCode | FwImage | FwSensitive

datatype fw_rule = Always | Never

datatype fw_sub = FwShow | FwEnable | FwDisable | FwSet fw_field fw_rule | FwPending | FwAllow ustr | FwDeny ustr

datatype history_sub = HistoryClear bool | HistoryKeep u64

datatype pair_sub =
    SubShow | SubShowQr
  | SubFromUri ustr ustr
  | SubFromPin ustr ustr
  | SubAccept ustr ustr "ustr option"
  | SubPending
  | SubConfirm ustr bool bool

text \<open>The file of an image is its content, if it can be read. \<open>trust\<close> has the one subcommand \<open>list\<close>.\<close>

datatype ctl_cmd =
    CtlStatus | CtlPeers | CtlOn | CtlOff
  | CtlPush ustr
  | CtlPushImage "bytes option" bool
  | CtlPull
  | CtlTail nat
  | CtlSetName ustr
  | CtlRevoke ustr
  | CtlReconnect
  | CtlFavorite ustr bool
  | CtlUnpair bool
  | CtlShutdown
  | CtlPair pair_sub
  | CtlTrustList
  | CtlFirewall fw_sub
  | CtlHistory history_sub

definition wire_rule :: "fw_rule \<Rightarrow> rule" where
  "wire_rule r = (case r of Always \<Rightarrow> Allow | Never \<Rightarrow> Deny)"

definition rule_word :: "rule \<Rightarrow> fw_rule" where
  "rule_word r = (case r of Allow \<Rightarrow> Always | _ \<Rightarrow> Never)"

fun set_rule :: "fw_field \<Rightarrow> rule \<Rightarrow> firewall_policy \<Rightarrow> firewall_policy" where
  "set_rule FwText r p = p\<lparr>p_text := r\<rparr>"
| "set_rule FwUrl r p = p\<lparr>p_url := r\<rparr>"
| "set_rule FwCode r p = p\<lparr>p_code := r\<rparr>"
| "set_rule FwImage r p = p\<lparr>p_image := r\<rparr>"
| "set_rule FwSensitive r p = p\<lparr>p_sensitive := r\<rparr>"

definition parse_retention :: "ustr \<Rightarrow> u64 option" where
  "parse_retention s =
     (if s = lit ''1h'' then Some 3600 else if s = lit ''1d'' then Some 86400
      else if s = lit ''7d'' then Some 604800 else if s = lit ''forever'' then Some 0 else None)"

section \<open>Requests\<close>

text \<open>\<open>Inl\<close>: the connection failed. The answers of the daemon are those of \<open>Commands\<close>.\<close>

type_synonym 's daemon_socket = "cmd_op \<Rightarrow> 's \<Rightarrow> (ustr + reply) \<times> 's"

datatype ctl_error = Unreadable | NeedsYes | NeedsFlag | NoConnection ustr | DaemonErr cmd_error

datatype request = Ask_for cmd_op | Edit_policy "firewall_policy \<Rightarrow> firewall_policy"

fun firewall_request :: "fw_sub \<Rightarrow> request" where
  "firewall_request FwShow = Ask_for Status"
| "firewall_request FwPending = Ask_for Status"
| "firewall_request (FwAllow h) = Ask_for (cmd_op.ResolvePending h True)"
| "firewall_request (FwDeny h) = Ask_for (cmd_op.ResolvePending h False)"
| "firewall_request FwEnable = Edit_policy (\<lambda>p. p\<lparr>enabled := True\<rparr>)"
| "firewall_request FwDisable = Edit_policy (\<lambda>p. p\<lparr>enabled := False\<rparr>)"
| "firewall_request (FwSet f r) = Edit_policy (set_rule f (wire_rule r))"

fun history_request :: "history_sub \<Rightarrow> cmd_op" where
  "history_request (HistoryClear everything) = cmd_op.ClearHistory everything"
| "history_request (HistoryKeep secs) = SetHistoryRetention secs"

fun pair_request :: "pair_sub \<Rightarrow> ctl_error + cmd_op" where
  "pair_request SubShow = Inr PairShow"
| "pair_request SubShowQr = Inr PairShow"
| "pair_request (SubFromUri u n) = Inr (PairFromUri u n)"
| "pair_request (SubFromPin p n) = Inr (PairFromPin p n)"
| "pair_request (SubAccept k n a) = Inr (PairAccept k n a)"
| "pair_request SubPending = Inr cmd_op.PairPending"
| "pair_request (SubConfirm p yes no) = (if \<not> yes \<and> \<not> no then Inl NeedsFlag else Inr (cmd_op.PairConfirm p yes))"

fun request_of :: "(bytes \<Rightarrow> ustr) \<Rightarrow> ctl_cmd \<Rightarrow> ctl_error + request" where
  "request_of b64 CtlStatus = Inr (Ask_for Status)"
| "request_of b64 CtlPeers = Inr (Ask_for cmd_op.Peers)"
| "request_of b64 (CtlPush t) = Inr (Ask_for (Push t))"
| "request_of b64 (CtlPushImage file sens) =
     (case file of None \<Rightarrow> Inl Unreadable | Some b \<Rightarrow> Inr (Ask_for (PushImage (b64 b) sens)))"
| "request_of b64 CtlPull = Inr (Ask_for Pull)"
| "request_of b64 (CtlTail n) = Inr (Ask_for (Tail n))"
| "request_of b64 (CtlSetName n) = Inr (Ask_for (SetDeviceName n))"
| "request_of b64 (CtlRevoke p) = Inr (Ask_for (cmd_op.Revoke p))"
| "request_of b64 CtlReconnect = Inr (Ask_for Reconnect)"
| "request_of b64 (CtlFavorite h remove) = Inr (Ask_for (cmd_op.SetFavorite h (\<not> remove)))"
| "request_of b64 (CtlUnpair yes) = (if yes then Inr (Ask_for Unpair) else Inl NeedsYes)"
| "request_of b64 CtlShutdown = Inr (Ask_for Shutdown)"
| "request_of b64 CtlOn = Inr (Ask_for (Toggle True))"
| "request_of b64 CtlOff = Inr (Ask_for (Toggle False))"
| "request_of b64 CtlTrustList = Inr (Ask_for TrustList)"
| "request_of b64 (CtlFirewall sub) = Inr (firewall_request sub)"
| "request_of b64 (CtlHistory sub) = Inr (Ask_for (history_request sub))"
| "request_of b64 (CtlPair sub) = map_sum id Ask_for (pair_request sub)"

text \<open>The current policy; the default shape if the answer has none.\<close>

definition fetch_firewall :: "'s daemon_socket \<Rightarrow> 's \<Rightarrow> (ctl_error + firewall_policy) \<times> 's" where
  "fetch_firewall A s =
     (let (r, s) = A Status s in
      (case r of
         Inl e \<Rightarrow> Inl (NoConnection e)
       | Inr (Inr (Some (StateData st))) \<Rightarrow> Inr (firewall st)
       | Inr _ \<Rightarrow> Inr \<lparr>enabled = False, p_text = Allow, p_url = Allow, p_code = Allow, p_image = Allow, p_sensitive = Deny\<rparr>, s))"

definition one_shot :: "'s daemon_socket \<Rightarrow> cmd_op \<Rightarrow> 's \<Rightarrow> (ctl_error + cmd_data option) \<times> 's" where
  "one_shot A op s =
     (let (r, s) = A op s in
      (case r of Inl e \<Rightarrow> Inl (NoConnection e) | Inr (Inl e) \<Rightarrow> Inl (DaemonErr e) | Inr (Inr d) \<Rightarrow> Inr d, s))"

text \<open>\<open>Inr\<close> is the exit code 0.\<close>

definition ctl_main :: "(bytes \<Rightarrow> ustr) \<Rightarrow> 's daemon_socket \<Rightarrow> ctl_cmd \<Rightarrow> 's \<Rightarrow> (ctl_error + cmd_data option) \<times> 's" where
  "ctl_main b64 A c s =
     (case request_of b64 c of
        Inl e \<Rightarrow> (Inl e, s)
      | Inr (Ask_for op) \<Rightarrow> one_shot A op s
      | Inr (Edit_policy f) \<Rightarrow>
          (case fetch_firewall A s of
             (Inl e, s) \<Rightarrow> (Inl e, s)
           | (Inr p, s) \<Rightarrow> one_shot A (SetFirewall (f p)) s))"

section \<open>Against the daemon\<close>

definition socket :: "('h, 't) cmd_env \<Rightarrow> 't daemon daemon_socket" where
  "socket C op d = (let (r, d) = handle_driver_cmd C op d in (Inr r, d))"

text \<open>Without the flag the two commands that cannot be undone send nothing.\<close>

lemma unconfirmed_sends_nothing:
  "ctl_main b64 A (CtlUnpair False) s = (Inl NeedsYes, s)" "ctl_main b64 A (CtlPair (SubConfirm p False False)) s = (Inl NeedsFlag, s)"
  by (simp_all add: ctl_main_def)

lemma published_policy:
  "firewall (fst (publishable_state E d)) = firewall (a_state (d_app d))"
  "a_config (d_app (snd (publishable_state E d))) = a_config (d_app d)"
  by (simp_all add: publishable_state_def set_metrics_def Let_def case_prod_unfold)

lemma set_firewall_cmd:
  "cfg_firewall (a_config (d_app (snd (handle_driver_cmd C (SetFirewall p) d)))) = p"
  by (simp add: op_set_firewall_def on_settings_def set_firewall_def emit_state_def publishable_state_def put_out_def
      set_metrics_def Let_def case_prod_unfold)

text \<open>
  Changing one rule from the command line changes that rule and no other: the policy that is read, edited and written
  back is the one in force, as long as the published policy is.
\<close>

lemma firewall_edit:
  assumes "firewall_request sub = Edit_policy f" and "firewall (a_state (d_app d)) = cfg_firewall (a_config (d_app d))"
    and "ctl_main b64 (socket C) (CtlFirewall sub) d = (r, d')"
  shows "r = Inr None \<and> cfg_firewall (a_config (d_app d')) = f (cfg_firewall (a_config (d_app d)))"
proof -
  obtain s d1 where s: "publishable_state (env_c C) d = (s, d1)" by force
  then have "firewall s = cfg_firewall (a_config (d_app d))" using published_policy(1) [of "env_c C" d] assms(2) by simp
  then show ?thesis
    using assms(1,3) s set_firewall_cmd [of C "f (firewall s)" d1]
    by (auto simp: ctl_main_def fetch_firewall_def socket_def one_shot_def)
qed

lemma set_rule_rest:
  "enabled (set_rule f r p) = enabled p"
  "f \<noteq> FwText \<Longrightarrow> p_text (set_rule f r p) = p_text p" "f \<noteq> FwUrl \<Longrightarrow> p_url (set_rule f r p) = p_url p"
  "f \<noteq> FwCode \<Longrightarrow> p_code (set_rule f r p) = p_code p" "f \<noteq> FwImage \<Longrightarrow> p_image (set_rule f r p) = p_image p"
  "f \<noteq> FwSensitive \<Longrightarrow> p_sensitive (set_rule f r p) = p_sensitive p"
  by (cases f; simp)+

text \<open>The words the command line offers for the retention are the choices of the core.\<close>

lemma retention_words: "parse_retention s = Some secs \<Longrightarrow> secs \<in> set HISTORY_RETENTION_CHOICES"
  by (auto simp: parse_retention_def HISTORY_RETENTION_CHOICES_def split: if_splits)

end
