(* ===== verification/Doctor.thy ===== *)
theory Doctor
  imports Commands
begin

text \<open>
  \<open>fluxctl/src/doctor.rs\<close>: the checks of \<open>fluxctl doctor\<close> over what it fetched, and its exit code. The status is a
  lookup in its JSON object; the wording of the messages is left out.
\<close>

datatype verdict = Fine | Info | Warn | Fail

record check =
  ck_name :: ustr
  ck_level :: verdict

datatype json = JNull | JBool bool | JNum u64 | JStr ustr | JObj "(ustr \<times> json) list" | JOther

definition get :: "ustr \<Rightarrow> json \<Rightarrow> json option" where
  "get k v = (case v of JObj fs \<Rightarrow> map_of fs k | _ \<Rightarrow> None)"

definition u64_field :: "json \<Rightarrow> ustr \<Rightarrow> u64 \<Rightarrow> u64" where
  "u64_field v k d = (case get k v of Some (JNum n) \<Rightarrow> n | _ \<Rightarrow> d)"

definition bool_field :: "json \<Rightarrow> ustr \<Rightarrow> bool \<Rightarrow> bool" where
  "bool_field v k d = (case get k v of Some (JBool b) \<Rightarrow> b | _ \<Rightarrow> d)"

definition str_field :: "json \<Rightarrow> ustr \<Rightarrow> ustr" where
  "str_field v k = (case get k v of Some (JStr s) \<Rightarrow> s | _ \<Rightarrow> [])"

definition check_new :: "string \<Rightarrow> verdict \<Rightarrow> check" where
  "check_new n lv = \<lparr>ck_name = lit n, ck_level = lv\<rparr>"

section \<open>The checks\<close>

definition check_daemon :: "bool \<Rightarrow> check" where
  "check_daemon reachable = check_new ''daemon'' (if reachable then Fine else Fail)"

definition check_sync :: "json option \<Rightarrow> check" where
  "check_sync data = check_new ''sync'' (case data of
     None \<Rightarrow> Info | Some v \<Rightarrow> (if bool_field v (lit ''on'') False then Fine else Warn))"

definition check_phase :: "json option \<Rightarrow> check" where
  "check_phase data = check_new ''phase'' (case data of
     None \<Rightarrow> Info
   | Some v \<Rightarrow>
       (let p = str_field v (lit ''phase'') in
        if p = lit ''linked'' \<or> p = lit ''idle'' then Fine
        else if p = lit ''discovering'' then Warn
        else if p = lit ''handshaking'' then Info else Warn))"

definition check_peers :: "nat option \<Rightarrow> check" where
  "check_peers n = check_new ''peers'' (case n of None \<Rightarrow> Info | Some k \<Rightarrow> (if k = 0 then Warn else Fine))"

definition check_peer_liveness :: "json option \<Rightarrow> nat option \<Rightarrow> check" where
  "check_peer_liveness data n = check_new ''peer_liveness'' (case data of
     None \<Rightarrow> Info
   | Some v \<Rightarrow>
       (if str_field v (lit ''phase'') = lit ''linked'' then Fine
        else case n of None \<Rightarrow> Info | Some k \<Rightarrow> (if k = 0 then Info else Warn)))"

definition check_counters :: "json option \<Rightarrow> check" where
  "check_counters m = check_new ''counters'' (case m of
     None \<Rightarrow> Info | Some JNull \<Rightarrow> Info
   | Some v \<Rightarrow> (if 0 < u64_field v (lit ''handshakes_failed'') 0 then Warn else Fine))"

record data_dir_facts =
  dd_exists :: bool
  dd_writable :: bool
  history_enc_size :: "u64 option"
  event_seq_present :: bool

definition check_data_dir :: "data_dir_facts \<Rightarrow> check" where
  "check_data_dir f = check_new ''data_dir'' (if \<not> dd_exists f \<or> \<not> dd_writable f then Warn else Fine)"

definition check_identity :: "bool \<Rightarrow> check" where
  "check_identity no_kc = check_new ''identity'' (if no_kc then Warn else Info)"

definition check_version :: "ustr \<Rightarrow> json option \<Rightarrow> check" where
  "check_version own v = check_new ''version'' (case v of
     Some (JStr d) \<Rightarrow> (if d = own then Fine else Warn) | _ \<Rightarrow> Info)"

section \<open>The run\<close>

text \<open>The answer to \<open>status\<close>, if there was one, and the length of the trust list, asked for only after that answer.\<close>

definition doctor_checks :: "json option \<Rightarrow> nat option \<Rightarrow> data_dir_facts \<Rightarrow> bool \<Rightarrow> ustr \<Rightarrow> check list" where
  "doctor_checks status trust facts no_kc own =
     (let data = (case status of Some v \<Rightarrow> get (lit ''data'') v | None \<Rightarrow> None);
          n = (if status \<noteq> None then trust else None)
      in [check_daemon (status \<noteq> None), check_sync data, check_phase data, check_peers n, check_peer_liveness data n,
          check_counters (case data of Some d \<Rightarrow> get (lit ''metrics'') d | None \<Rightarrow> None), check_data_dir facts, check_identity no_kc,
          check_version own (case data of Some d \<Rightarrow> get (lit ''version'') d | None \<Rightarrow> None)])"

definition doctor_run :: "json option \<Rightarrow> nat option \<Rightarrow> data_dir_facts \<Rightarrow> bool \<Rightarrow> ustr \<Rightarrow> bool" where
  "doctor_run status trust facts no_kc own \<longleftrightarrow>
     \<not> list_ex (\<lambda>c. ck_level c = Fail) (doctor_checks status trust facts no_kc own)"

lemma level_new [simp]: "ck_level (check_new n v) = v"
  by (simp add: check_new_def)

lemma warn_at_most:
  "ck_level (check_sync data) \<noteq> Fail" "ck_level (check_phase data) \<noteq> Fail" "ck_level (check_peers n) \<noteq> Fail"
  "ck_level (check_peer_liveness data n) \<noteq> Fail" "ck_level (check_counters m) \<noteq> Fail" "ck_level (check_data_dir f) \<noteq> Fail"
  "ck_level (check_identity b) \<noteq> Fail" "ck_level (check_version own v) \<noteq> Fail"
  subgoal by (simp add: check_sync_def split: option.split)
  subgoal by (simp add: check_phase_def Let_def split: option.split)
  subgoal by (simp add: check_peers_def split: option.split)
  subgoal by (simp add: check_peer_liveness_def split: option.split)
  subgoal by (simp add: check_counters_def split: option.split json.split)
  subgoal by (simp add: check_data_dir_def)
  subgoal by (simp add: check_identity_def)
  subgoal by (simp add: check_version_def split: option.split json.split)
  done

text \<open>Only an unreachable daemon makes the exit code non-zero: every other finding is a warning at most.\<close>

lemma doctor_fails_iff_unreachable: "doctor_run status trust facts no_kc own \<longleftrightarrow> status \<noteq> None"
  by (simp add: doctor_run_def doctor_checks_def Let_def warn_at_most) (simp add: check_daemon_def)

text \<open>A daemon that refuses the status, or answers without data, passes: the checks that need the data are skipped.\<close>

lemma refused_status_passes: "doctor_run (Some (JObj [(lit ''ok'', JBool False)])) trust facts no_kc own"
  by (simp add: doctor_fails_iff_unreachable)

end
