(* ===== verification/Mobile.thy ===== *)
theory Mobile
  imports Ipc_Server Identity_Store
begin

text \<open>
  \<open>fluxsync-mobile-ffi/src/lib.rs\<close>: the handle the phone holds. A method sends one command and reads the answer; the
  server at the other end of the socket is a parameter. Beside it the identity a start takes, the ring of log lines and
  the retries of the two subscribers.
\<close>

section \<open>One command\<close>

text \<open>\<open>Inl\<close>: no answer, with the cause (no connection, five seconds over, an answer that is no JSON).\<close>

type_synonym 's server = "cmd_op \<Rightarrow> 's \<Rightarrow> (ustr + reply) \<times> 's"

datatype ipc_failure = NoAnswer ustr | Refused cmd_error | MissingData | BadItem

datatype flux_error = FfiIdentity | FfiIpc ipc_failure | FfiInvalid

definition send_cmd :: "'s server \<Rightarrow> cmd_op \<Rightarrow> 's \<Rightarrow> (flux_error + cmd_data option) \<times> 's" where
  "send_cmd A op s =
     (let (r, s) = A op s in
      (case r of Inl e \<Rightarrow> Inl (FfiIpc (NoAnswer e)) | Inr (Inl e) \<Rightarrow> Inl (FfiIpc (Refused e)) | Inr (Inr d) \<Rightarrow> Inr d, s))"

definition ffi_read_line :: "bool \<Rightarrow> bytes list \<Rightarrow> (io_error + ustr) \<times> bytes list" where
  "ffi_read_line torn cs =
     (let (r, rest) = read_raw_line MAX_IPC_LINE torn [] cs
      in (case r of Inl e \<Rightarrow> Inl e | Inr l \<Rightarrow> Inr (from_utf8_lossy l), rest))"

definition unit_cmd :: "'s server \<Rightarrow> cmd_op \<Rightarrow> 's \<Rightarrow> (flux_error + unit) \<times> 's" where
  "unit_cmd A op s = (let (r, s) = send_cmd A op s in (case r of Inl e \<Rightarrow> Inl e | Inr _ \<Rightarrow> Inr (), s))"

section \<open>The methods\<close>

definition push_text :: "'s server \<Rightarrow> ustr \<Rightarrow> 's \<Rightarrow> (flux_error + unit) \<times> 's" where
  "push_text A t = unit_cmd A (Push t)"

definition push_item :: "(bytes \<Rightarrow> ustr) \<Rightarrow> 's server \<Rightarrow> ustr \<Rightarrow> bytes \<Rightarrow> bool \<Rightarrow> 's \<Rightarrow> (flux_error + unit) \<times> 's" where
  "push_item b64 A k b sens s =
     (if k = lit ''image'' then unit_cmd A (PushImage (b64 b) sens) s
      else if k = lit ''text'' then unit_cmd A (if sens then PushConcealed (from_utf8_lossy b) else Push (from_utf8_lossy b)) s
      else (Inl FfiInvalid, s))"

definition fetch_item :: "(ustr \<Rightarrow> bytes option) \<Rightarrow> 's server \<Rightarrow> ustr \<Rightarrow> 's \<Rightarrow> (flux_error + bytes) \<times> 's" where
  "fetch_item unb64 A h s =
     (let (r, s) = send_cmd A (FetchItem h) s in
      (case r of
         Inl e \<Rightarrow> Inl e
       | Inr (Some (ItemBytes t)) \<Rightarrow> (case unb64 t of Some b \<Rightarrow> Inr b | None \<Rightarrow> Inl (FfiIpc BadItem))
       | Inr _ \<Rightarrow> Inl (FfiIpc MissingData), s))"

definition ffi_toggle :: "'s server \<Rightarrow> bool \<Rightarrow> 's \<Rightarrow> (flux_error + unit) \<times> 's" where
  "ffi_toggle A b = unit_cmd A (Toggle b)"

definition ffi_set_device_name :: "'s server \<Rightarrow> ustr \<Rightarrow> 's \<Rightarrow> (flux_error + unit) \<times> 's" where
  "ffi_set_device_name A n = unit_cmd A (SetDeviceName n)"

definition ffi_push_file :: "(bytes \<Rightarrow> ustr) \<Rightarrow> 's server \<Rightarrow> ustr \<Rightarrow> bytes \<Rightarrow> 's \<Rightarrow> (flux_error + unit) \<times> 's" where
  "ffi_push_file b64 A n b = unit_cmd A (PushFile n (b64 b))"

definition ffi_set_history_retention :: "'s server \<Rightarrow> u64 \<Rightarrow> 's \<Rightarrow> (flux_error + unit) \<times> 's" where
  "ffi_set_history_retention A secs = unit_cmd A (SetHistoryRetention secs)"

definition ffi_set_self_battery :: "'s server \<Rightarrow> u8 \<Rightarrow> bool \<Rightarrow> 's \<Rightarrow> (flux_error + unit) \<times> 's" where
  "ffi_set_self_battery A lv c s = (if 100 < lv then (Inl FfiInvalid, s) else unit_cmd A (SetSelfBattery lv c) s)"

definition ffi_pair_show :: "'s server \<Rightarrow> 's \<Rightarrow> (flux_error + cmd_data) \<times> 's" where
  "ffi_pair_show A s =
     (let (r, s) = send_cmd A PairShow s in
      (case r of Inl e \<Rightarrow> Inl e | Inr (Some d) \<Rightarrow> Inr d | Inr None \<Rightarrow> Inl (FfiIpc MissingData), s))"

definition ffi_pair_from_uri :: "'s server \<Rightarrow> ustr \<Rightarrow> ustr \<Rightarrow> 's \<Rightarrow> (flux_error + bool) \<times> 's" where
  "ffi_pair_from_uri A uri n s =
     (let (r, s) = send_cmd A (PairFromUri uri n) s in
      (case r of Inl e \<Rightarrow> Inl e | Inr (Some (PairResult b)) \<Rightarrow> Inr b | Inr _ \<Rightarrow> Inr False, s))"

definition ffi_unpair :: "'s server \<Rightarrow> 's \<Rightarrow> (flux_error + unit) \<times> 's" where
  "ffi_unpair A = unit_cmd A Unpair"

definition ffi_revoke :: "'s server \<Rightarrow> ustr \<Rightarrow> 's \<Rightarrow> (flux_error + unit) \<times> 's" where
  "ffi_revoke A p = unit_cmd A (cmd_op.Revoke p)"

definition ffi_pair_accept :: "'s server \<Rightarrow> ustr \<Rightarrow> ustr \<Rightarrow> ustr \<Rightarrow> 's \<Rightarrow> (flux_error + unit) \<times> 's" where
  "ffi_pair_accept A key n addr = unit_cmd A (PairAccept key n (if addr = [] then None else Some addr))"

definition ffi_pair_pending :: "'s server \<Rightarrow> 's \<Rightarrow> (flux_error + cmd_data) \<times> 's" where
  "ffi_pair_pending A s =
     (let (r, s) = send_cmd A cmd_op.PairPending s in
      (case r of Inl e \<Rightarrow> Inl e | Inr (Some d) \<Rightarrow> Inr d | Inr None \<Rightarrow> Inr (PendingPairs []), s))"

definition ffi_pair_confirm :: "'s server \<Rightarrow> ustr \<Rightarrow> bool \<Rightarrow> 's \<Rightarrow> (flux_error + unit) \<times> 's" where
  "ffi_pair_confirm A p b = unit_cmd A (cmd_op.PairConfirm p b)"

text \<open>What the text of a policy is; an object that is no policy is refused by the daemon as bad JSON.\<close>

datatype policy_text = NotJson | NotObject | NoPolicy ustr | PolicyText firewall_policy

definition ffi_set_firewall :: "(ustr \<Rightarrow> policy_text) \<Rightarrow> 's server \<Rightarrow> ustr \<Rightarrow> 's \<Rightarrow> (flux_error + unit) \<times> 's" where
  "ffi_set_firewall parse A t s =
     (case parse t of
        PolicyText p \<Rightarrow> unit_cmd A (SetFirewall p) s
      | NoPolicy e \<Rightarrow> (Inl (FfiIpc (NoAnswer e)), s)
      | _ \<Rightarrow> (Inl FfiInvalid, s))"

definition ffi_resolve_pending :: "'s server \<Rightarrow> ustr \<Rightarrow> bool \<Rightarrow> 's \<Rightarrow> (flux_error + unit) \<times> 's" where
  "ffi_resolve_pending A h b = unit_cmd A (cmd_op.ResolvePending h b)"

definition ffi_set_favorite :: "'s server \<Rightarrow> ustr \<Rightarrow> bool \<Rightarrow> 's \<Rightarrow> (flux_error + unit) \<times> 's" where
  "ffi_set_favorite A h b = unit_cmd A (cmd_op.SetFavorite h b)"

definition ffi_clear_history :: "'s server \<Rightarrow> bool \<Rightarrow> 's \<Rightarrow> (flux_error + unit) \<times> 's" where
  "ffi_clear_history A b = unit_cmd A (cmd_op.ClearHistory b)"

section \<open>The start\<close>

datatype identity_source = GenerateId | Keystore ustr | SecretBase64 ustr | Provided bytes ustr

text \<open>The identity and the directory of the keystore; \<open>load\<close> is \<open>load_or_create_identity\<close> on that directory.\<close>

definition start_identity ::
  "(bytes32 \<Rightarrow> bytes32) \<Rightarrow> (ustr \<Rightarrow> bytes option) \<Rightarrow> bytes32 \<Rightarrow> (ustr \<Rightarrow> id_error + identity) \<Rightarrow> ustr \<Rightarrow> identity_source
     \<Rightarrow> flux_error + identity \<times> ustr option" where
  "start_identity pk unb64 random load own_name src =
     (if trim own_name = [] then Inl FfiInvalid
      else case src of
        GenerateId \<Rightarrow> Inr (identity_of pk random, None)
      | Keystore dir \<Rightarrow>
          (if dir = [] then Inl FfiInvalid
           else case load dir of Inl _ \<Rightarrow> Inl FfiIdentity | Inr i \<Rightarrow> Inr (i, Some dir))
      | SecretBase64 t \<Rightarrow>
          (if t = [] then Inl FfiInvalid
           else case unb64 t of
             None \<Rightarrow> Inl FfiIdentity
           | Some b \<Rightarrow> (case of_secret pk b of Inl _ \<Rightarrow> Inl FfiIdentity | Inr i \<Rightarrow> Inr (i, None)))
      | Provided b dir \<Rightarrow>
          (if dir = [] then Inl FfiInvalid
           else case of_secret pk b of Inl _ \<Rightarrow> Inl FfiIdentity | Inr i \<Rightarrow> Inr (i, Some dir)))"

text \<open>A round of the wait: the time since its start, whether the socket is there, whether it answers.\<close>

fun wait_for_socket :: "duration \<Rightarrow> (duration \<times> bool \<times> bool) list \<Rightarrow> bool" where
  "wait_for_socket deadline [] = False"
| "wait_for_socket deadline ((elapsed, there, answers) # rounds) =
     (elapsed < deadline \<and> (there \<and> answers \<or> wait_for_socket deadline rounds))"

datatype daemon_thread = Running | Joined

definition await_ready_or_stop :: "duration \<Rightarrow> (duration \<times> bool \<times> bool) list \<Rightarrow> bool \<times> daemon_thread" where
  "await_ready_or_stop deadline rounds = (if wait_for_socket deadline rounds then (True, Running) else (False, Joined))"

section \<open>Logs\<close>

record ffi_log_entry =
  fl_seq :: u64
  fl_time :: ustr
  fl_level :: ustr
  fl_msg :: ustr
  fl_raw :: ustr

record log_ring =
  lr_seq :: u64
  lr_buf :: "ffi_log_entry list"

definition LOG_BUFFER_CAP :: nat where "LOG_BUFFER_CAP = 200"

definition two_digits :: "nat \<Rightarrow> ustr" where
  "two_digits n = (if n < 10 then 48 # show_nat n else show_nat n)"

definition hms_utc_label :: "u64 \<Rightarrow> ustr" where
  "hms_utc_label secs =
     (let t = unat secs in two_digits (t mod 86400 div 3600) @ 58 # two_digits (t mod 3600 div 60) @ 58 # two_digits (t mod 60) @ lit '' UTC'')"

text \<open>A line of the log channel: \<open>parse\<close> gives its level and text, with the defaults of a missing field.\<close>

definition on_log_line :: "(ustr \<Rightarrow> (ustr option \<times> ustr option) option) \<Rightarrow> u64 \<Rightarrow> ustr \<Rightarrow> log_ring \<Rightarrow> log_ring" where
  "on_log_line parse t line r =
     (let raw = trim line in
      if raw = [] then r
      else case parse raw of
        None \<Rightarrow> r
      | Some (lv, m) \<Rightarrow>
          (let e = \<lparr>fl_seq = lr_seq r + 1, fl_time = hms_utc_label t, fl_level = (case lv of Some l \<Rightarrow> l | None \<Rightarrow> lit ''INFO''),
                     fl_msg = (case m of Some m \<Rightarrow> m | None \<Rightarrow> []), fl_raw = raw\<rparr>
           in r\<lparr>lr_seq := lr_seq r + 1,
                lr_buf := (if LOG_BUFFER_CAP \<le> length (lr_buf r) then tl (lr_buf r) else lr_buf r) @ [e]\<rparr>))"

definition poll_logs :: "u64 \<Rightarrow> log_ring \<Rightarrow> ffi_log_entry list" where
  "poll_logs since r = filter (\<lambda>e. since < fl_seq e) (lr_buf r)"

section \<open>Retries\<close>

definition RECONNECT_MIN_MS :: u64 where "RECONNECT_MIN_MS = 500"
definition RECONNECT_MAX_MS :: u64 where "RECONNECT_MAX_MS = 60000"

definition next_reconnect_delay :: "u64 \<Rightarrow> u64" where
  "next_reconnect_delay ms = of_nat (min (min (unat ms * 2) (2 ^ 64 - 1)) (unat RECONNECT_MAX_MS))"

text \<open>The sleeps of a subscriber: an attempt ended well or not, then the wait.\<close>

fun subscriber_sleeps :: "bool list \<Rightarrow> u64 \<Rightarrow> u64 list" where
  "subscriber_sleeps [] ms = []"
| "subscriber_sleeps (ok # rounds) ms =
     (let ms = (if ok then RECONNECT_MIN_MS else ms) in ms # subscriber_sleeps rounds (next_reconnect_delay ms))"

lemma next_delay_bounds:
  "RECONNECT_MIN_MS \<le> ms \<Longrightarrow> RECONNECT_MIN_MS \<le> next_reconnect_delay ms \<and> next_reconnect_delay ms \<le> RECONNECT_MAX_MS"
proof -
  assume a: "RECONNECT_MIN_MS \<le> ms"
  let ?n = "min (min (unat ms * 2) (2 ^ 64 - 1)) 60000"
  have "unat (of_nat ?n :: u64) = ?n" by (simp add: unat_of_nat take_bit_nat_eq_self)
  moreover have "500 \<le> unat ms" using a by (simp add: RECONNECT_MIN_MS_def word_le_nat_alt)
  ultimately show ?thesis
    by (simp add: next_reconnect_delay_def RECONNECT_MIN_MS_def RECONNECT_MAX_MS_def word_le_nat_alt del: of_nat_min)
qed

text \<open>A subscriber never waits less than half a second nor more than a minute.\<close>

lemma sleeps_are_bounded:
  "RECONNECT_MIN_MS \<le> ms \<Longrightarrow> ms \<le> RECONNECT_MAX_MS \<Longrightarrow>
     \<forall>x\<in>set (subscriber_sleeps rounds ms). RECONNECT_MIN_MS \<le> x \<and> x \<le> RECONNECT_MAX_MS"
proof (induction rounds arbitrary: ms)
  case (Cons ok rounds)
  define x where "x = (if ok then RECONNECT_MIN_MS else ms)"
  have e: "subscriber_sleeps (ok # rounds) ms = x # subscriber_sleeps rounds (next_reconnect_delay x)"
    by (simp add: x_def Let_def)
  have x: "RECONNECT_MIN_MS \<le> x" "x \<le> RECONNECT_MAX_MS"
    using Cons.prems by (cases ok; simp add: x_def RECONNECT_MIN_MS_def RECONNECT_MAX_MS_def)+
  have "\<forall>y\<in>set (subscriber_sleeps rounds (next_reconnect_delay x)). RECONNECT_MIN_MS \<le> y \<and> y \<le> RECONNECT_MAX_MS"
    using Cons.IH [of "next_reconnect_delay x"] next_delay_bounds [OF x(1)] by blast
  then show ?case unfolding e using x by simp
qed simp

text \<open>The ring holds the newest lines, numbered without a gap, so a cursor misses nothing that is still held.\<close>

definition ring_ok :: "log_ring \<Rightarrow> bool" where
  "ring_ok r \<longleftrightarrow> length (lr_buf r) \<le> LOG_BUFFER_CAP \<and> length (lr_buf r) \<le> unat (lr_seq r)
     \<and> map (unat \<circ> fl_seq) (lr_buf r) = [unat (lr_seq r) - length (lr_buf r) + 1..<unat (lr_seq r) + 1]"

lemma log_line_ring:
  assumes "ring_ok r" and "Suc (unat (lr_seq r)) < 2 ^ 64"
  shows "ring_ok (on_log_line parse t line r)"
proof (cases "trim line = [] \<or> parse (trim line) = None")
  case False
  then obtain lv m where p: "trim line \<noteq> []" "parse (trim line) = Some (lv, m)" by auto
  let ?n = "unat (lr_seq r)" and ?b = "lr_buf r" and ?r = "on_log_line parse t line r"
  have s: "unat (lr_seq r + 1) = Suc ?n" by (rule unat_inc [OF assms(2)])
  have seq: "lr_seq ?r = lr_seq r + 1" using p by (simp add: on_log_line_def Let_def)
  have buf: "map (unat \<circ> fl_seq) (lr_buf ?r) = map (unat \<circ> fl_seq) (if LOG_BUFFER_CAP \<le> length ?b then tl ?b else ?b) @ [Suc ?n]"
    using p by (simp add: on_log_line_def Let_def s)
  have len: "length (lr_buf ?r) = (if LOG_BUFFER_CAP \<le> length ?b then length ?b else Suc (length ?b))"
    using p assms(1) by (cases ?b) (simp_all add: on_log_line_def Let_def LOG_BUFFER_CAP_def)
  have m: "map (unat \<circ> fl_seq) ?b = [?n - length ?b + 1..<?n + 1]" and l: "length ?b \<le> LOG_BUFFER_CAP" "length ?b \<le> ?n"
    using assms(1) by (simp_all add: ring_ok_def)
  have "map (unat \<circ> fl_seq) (tl ?b) = tl [?n - length ?b + 1..<?n + 1]" using m by (metis map_tl)
  then have t: "map (unat \<circ> fl_seq) (tl ?b) = [?n - length ?b + 2..<?n + 1]" by (simp add: tl_upt)
  show ?thesis
  proof (cases "LOG_BUFFER_CAP \<le> length ?b")
    case True
    then have "0 < length ?b" by (cases ?b) (simp_all add: LOG_BUFFER_CAP_def)
    moreover have "Suc (?n - LOG_BUFFER_CAP) \<le> ?n" using True l unfolding LOG_BUFFER_CAP_def by linarith
    ultimately show ?thesis using True l t len buf seq s by (simp add: ring_ok_def Suc_diff_le)
  next
    case False
    then show ?thesis using l m len buf seq s by (simp add: ring_ok_def)
  qed
qed (use assms in \<open>auto simp: on_log_line_def Let_def\<close>)

end
