(* ===== verification/Spec2Isabelle.thy ===== *)
theory Spec2Isabelle
  imports Prelude Text Ids Dedup Wire File_Frame Policy Hex Core_State Events Fsm
    App_State App_Handle App_Mesh App_Inv App_Run App_Gate App_History App_Peers App_Revoke App_Life Replay Outbox Seq_Store Rate_Limit Backoff Transport Links
    Items Items_Order Items_Loss In_Flight Resync Metrics Shared Demo Inbound Inbound_Safety Inbound_Trust Inbound_Inv Receive
    Fingerprint Noise_IK Peer_Store Handshake Rehandshake Expiry Liveness Vault
    Classify Clipboard Actions Pairing Copying Commands Dispatch Untrust Pair_Commands Event_Loop
    Identity_Store Discovery Ipc_Server Battery Cli Doctor Mobile
begin

text \<open>
  FluxSync: a formal model of the daemon \<open>fluxsyncd\<close> and of the crates it is built from.

  \<^bold>\<open>The program.\<close> FluxSync keeps the clipboards of a user's devices in step. A daemon per device watches the clipboard
  of the operating system, holds encrypted sessions (Noise IK over UDP) with the devices it was paired with, sends
  what is copied and writes what arrives. Paths below are under \<open>src/crates/\<close>: \<open>fluxsync-proto\<close> has the messages,
  \<open>fluxsync-crypto\<close> the handshake, the session and the fingerprint words, \<open>fluxsync-core\<close> the core, a state machine
  without input or output, and \<open>fluxsyncd\<close> the tasks around it. The main loop owns the core (\<open>App\<close>): it takes events
  and commands one at a time, calls \<open>App::handle\<close> and executes the actions it returns. The other tasks (receive loop,
  heartbeat, handshakes, redials, watchers, persister) share tables behind locks and send events to the loop.

  \<^bold>\<open>How the model corresponds.\<close> A struct is a record, an enum a datatype, an integer of w bits a word, a hash map
  an association list with one entry per key (\<open>hm_insert\<close>, \<open>hm_remove\<close>), a string the list of
  its scalar values. An operation is a function from the state to the state, with its result; a failure is a value.
  The tables of \<open>Shared\<close> are the record \<open>shared\<close>; what is sent and which events are posted is appended to its log
  \<open>fx\<close>. \<open>host\<close> adds the pairing window and the file of peers, \<open>daemon\<close> the core and what only the loop owns,
  \<open>loop\<close> the local variables of the main loop.

  \<^bold>\<open>The theories, in the order of the code.\<close>

  \<^item> \<open>Prelude\<close>: types, collections of facts, maps, time, and the locales \<open>recent_set\<close> (a bounded set of recent
    entries) and \<open>machine\<close> (operations that keep an invariant). \<open>Text\<close>: Rust strings, UTF-8, \<open>trim\<close>, \<open>lit\<close>.
  \<^item> \<open>Wire\<close>, \<open>File_Frame\<close>, \<open>Hex\<close>: \<open>fluxsync-proto\<close> (\<open>types.rs\<close>, \<open>codec.rs\<close>, \<open>lib.rs\<close>, \<open>file.rs\<close>). What is
    decoded is within the bounds; encoding round-trips; a received file name is safe.
  \<^item> \<open>Ids\<close>, \<open>Dedup\<close>, \<open>Policy\<close>, \<open>Classify\<close>, \<open>Core_State\<close>, \<open>Events\<close>, \<open>Fsm\<close>: \<open>id.rs\<close>, \<open>clock.rs\<close>, \<open>dedup.rs\<close>,
    \<open>policy.rs\<close>, \<open>classify.rs\<close>, \<open>state.rs\<close>, \<open>error.rs\<close>, \<open>events.rs\<close> and \<open>fsm.rs\<close> of \<open>fluxsync-core\<close>. The rings are
    instances of \<open>recent_set\<close>; the transition function refines a table given as an inductive relation; a secret is
    found in any surrounding text.
  \<^item> \<open>App_State\<close>, \<open>App_Mesh\<close>, \<open>App_Handle\<close>: \<open>app.rs\<close>, its operations, the mesh coordinator and \<open>handle\<close>.
    \<open>App_Inv\<close> and \<open>App_Run\<close>: an invariant of every run. \<open>App_Gate\<close>: what leaves the core has passed the firewall.
    \<open>App_History\<close>, \<open>App_Peers\<close>, \<open>App_Revoke\<close>, \<open>App_Life\<close>: rows, pairing phases, changes of device, echo.
  \<^item> \<open>Fingerprint\<close>, \<open>Noise_IK\<close>, \<open>Replay\<close>: \<open>fluxsync-crypto\<close>. The anti-replay window refines the set of accepted
    counters; no frame is taken twice.
  \<^item> \<open>Transport\<close>, \<open>Links\<close>: \<open>transport.rs\<close>, the primary and the secondary connections, roaming, failover,
    generations. A peer has one link, and a frame is never sealed by the session of another peer.
  \<^item> \<open>Items\<close>, \<open>Items_Order\<close>, \<open>Items_Loss\<close>, \<open>In_Flight\<close>: \<open>driver/frames.rs\<close> and the item parts of
    \<open>driver/inbound.rs\<close> and \<open>driver/liveness.rs\<close>. Chunks in any order, with repetitions, deliver an item once; NAKs
    repair a loss; a transfer ends. \<open>Outbox\<close>, \<open>Resync\<close>: what a device that comes back is offered and pulls.
  \<^item> \<open>Seq_Store\<close>, \<open>Rate_Limit\<close>, \<open>Backoff\<close>, \<open>Metrics\<close>: the modules of these names.
  \<^item> \<open>Shared\<close>, \<open>Inbound\<close>, \<open>Receive\<close>: \<open>driver/shared.rs\<close>, \<open>driver/inbound.rs\<close>, a decoded frame and a datagram.
    \<open>Inbound_Safety\<close>, \<open>Inbound_Trust\<close>, \<open>Inbound_Inv\<close>: what the frames of a peer can cause, whose pairing they can
    change, and the bounds of all tables over every run. \<open>Demo\<close>: the inputs of the witnesses.
  \<^item> \<open>Peer_Store\<close>, \<open>Handshake\<close>, \<open>Rehandshake\<close>, \<open>Expiry\<close>: \<open>peers.json\<close>, \<open>handshake.rs\<close>. A handshake that
    replaces a session of a peer that is revoked meanwhile installs nothing; an unconfirmed pairing expires.
  \<^item> \<open>Liveness\<close>, \<open>Vault\<close>: \<open>driver/liveness.rs\<close>, \<open>history_store.rs\<close>, \<open>driver/vault.rs\<close>, \<open>fsutil.rs\<close>. A silent
    peer is given up at the third miss; what was wiped is not read back from the disk.
  \<^item> \<open>Clipboard\<close>, \<open>Actions\<close>, \<open>Pairing\<close>: \<open>driver/clipboard.rs\<close>, \<open>driver/actions.rs\<close>, \<open>driver/pairing.rs\<close> and the
    lists of \<open>driver/peers.rs\<close>. A received file overwrites none; an advert can only redial a trusted peer under its
    trusted key. \<open>Copying\<close>: a copy reaches confirmed peers only, and what the daemon wrote is not copied back.
  \<^item> \<open>Commands\<close>: every command of \<open>driver/commands.rs\<close>, with the settings files of \<open>keystore.rs\<close>. \<open>Dispatch\<close>:
    the locale \<open>dispatch_blind\<close>, five kinds of step on the shared tables; what these keep every action, event and
    change of the switch keeps. \<open>Untrust\<close>: an acknowledged revocation or rejection leaves nothing of the peer, in
    memory or on the disk, and a failed one leaves its trust. \<open>Pair_Commands\<close>: a dial of a new pairing is gated.
  \<^item> \<open>Event_Loop\<close>: the settings at the boot, the arms of the main loop and the ghost watchdog of \<open>driver/mod.rs\<close>.
    A wipe of the history is complete before the first action of the same event runs.
  \<^item> \<open>Identity_Store\<close>: \<open>load_or_create_identity\<close> of \<open>keystore.rs\<close>, the keychain and the legacy file. A device keeps its
    identity over any run of boots. \<open>Discovery\<close>: \<open>discovery.rs\<close>; an announcement leads its peers back. \<open>Ipc_Server\<close>:
    the lines and channels of \<open>driver/ipc_server.rs\<close>; a conversation depends on the bytes alone. \<open>Battery\<close>: \<open>battery.rs\<close>.
  \<^item> \<open>Cli\<close>, \<open>Doctor\<close>: \<open>fluxctl\<close>, the requests of its subcommands, its exit code and the checks of \<open>doctor\<close>. Changing
    one firewall rule from the command line changes no other; only an unreachable daemon makes \<open>doctor\<close> fail. \<open>Mobile\<close>:
    \<open>fluxsync-mobile-ffi\<close>, the methods of the handle, the identity of a start, the ring of logs, the retries.

  \<^bold>\<open>Parameters.\<close> Libraries and the platform are arguments: BLAKE3, Noise (\<open>snow\<close>), the CBOR codec, the AEAD of
  the vault, JSON, base32 and base64, the hexadecimal digits, PNG, the parser of addresses, the mDNS
  library, the keychain, the word characters of the regular expressions, the random numbers of pins and backoff, clocks, and the outcome of
  each write to the disk. Where a property needs a law (decoding inverts encoding, opening inverts sealing), it is a
  hypothesis of the property and holds of the functions of its witness.

  \<^bold>\<open>Bounds and fuel.\<close> Constants have the values of the source. The recursions are structural or have a
  measure; the search for the name of a received file may not end for its definition (\<open>partial_function\<close>), and is shown
  to return, as the folder is finite. The retries of a save are the three of the source.

  \<^bold>\<open>Concurrency.\<close> A frame, a tick, a command or the execution of an action list is one step; \<open>Handshake\<close> alone
  splits its tasks at their waits, with arbitrary steps of the others between (\<open>meddle\<close>). Interleavings inside the
  other operations are not modelled.

  \<^bold>\<open>Not modelled\<close>, as they are input and output or belong to others: \<open>main.rs\<close>, \<open>config.rs\<close> but for \<open>is_local_ip\<close>,
  \<open>ipc.rs\<close> (the socket), \<open>wall.rs\<close>, \<open>driver/concealed.rs\<close>, the access list of the keychain entry on macOS, the
  spawning of the tasks in \<open>driver/mod.rs\<close>; the parsing of arguments and the printing of \<open>fluxctl\<close>; the apps, which are
  clients of the commands; and all tests.
\<close>

end
